(* ===== verification/Gateway_Prelude.thy ===== *)
theory Gateway_Prelude
  imports Main "HOL-Library.Word" "HOL-Library.State_Monad" "HOL-Library.List_Lexorder"
begin

unbundle bit_operations_syntax

section \<open>Shared vocabulary of the gateway development\<close>

text \<open>
  The types every component uses and the lemmas they share.
  A Go \<^verbatim>\<open>byte\<close> is an 8-bit word; a Go \<^verbatim>\<open>string\<close> and a Go \<^verbatim>\<open>[]byte\<close> are byte
  lists, and \<open>str\<close> turns an Isabelle string literal into one. A Go array
  \<^verbatim>\<open>[16]byte\<close> or \<^verbatim>\<open>[32]byte\<close> is the 128-bit or 256-bit word whose big-endian bytes are
  the array's elements (\<open>be_bytes\<close>, \<open>of_be_bytes\<close>), so that its length is part of
  its type and the zero array is \<open>0\<close>. A stateful Go function is a value of the
  library's state monad; \<open>run_state\<close> distributes over the branches of such a value
  by the collection \<open>go_run\<close>.
\<close>

named_theorems go_run \<open>how a program of the state monad runs\<close>

type_synonym byte = "8 word"
type_synonym gostring = "byte list"
type_synonym bytes16 = "128 word"
type_synonym bytes32 = "256 word"

definition str :: "string \<Rightarrow> gostring" where
  "str s = map of_char s"

text \<open>\<open>be_bytes n w\<close> are the \<open>n\<close> low bytes of \<open>w\<close>, the most significant first.\<close>

fun be_bytes :: "nat \<Rightarrow> 'a::len word \<Rightarrow> byte list" where
  "be_bytes 0 w = []"
| "be_bytes (Suc n) w = be_bytes n (drop_bit 8 w) @ [ucast w]"

fun be_value :: "byte list \<Rightarrow> nat \<Rightarrow> nat" where
  "be_value [] acc = acc"
| "be_value (b # bs) acc = be_value bs (acc * 256 + unat b)"

definition of_be_bytes :: "byte list \<Rightarrow> 'a::len word" where
  "of_be_bytes bs = word_of_nat (be_value bs 0)"

subsection \<open>Running programs of the state monad\<close>

lemma run_state_bind [go_run]:
  "run_state (State_Monad.bind m f) w = (case run_state m w of (a, w') \<Rightarrow> run_state (f a) w')"
  by (simp add: State_Monad.bind_def)

lemma run_state_if [go_run]:
  "run_state (if b then m else m') w = (if b then run_state m w else run_state m' w)"
  by simp

lemma run_state_case_option [go_run]:
  "run_state (case x of None \<Rightarrow> m | Some a \<Rightarrow> f a) w =
     (case x of None \<Rightarrow> run_state m w | Some a \<Rightarrow> run_state (f a) w)"
  by (cases x) simp_all

lemma run_state_case_sum [go_run]:
  "run_state (case x of Inl e \<Rightarrow> f e | Inr a \<Rightarrow> g a) w =
     (case x of Inl e \<Rightarrow> run_state (f e) w | Inr a \<Rightarrow> run_state (g a) w)"
  by (cases x) simp_all

lemma run_state_case_prod [go_run]:
  "run_state (case x of (a, b) \<Rightarrow> f a b) w = (case x of (a, b) \<Rightarrow> run_state (f a b) w)"
  by (cases x) simp

lemma run_state_let [go_run]:
  "run_state (let x = a in f x) w = (let x = a in run_state (f x) w)"
  by simp

lemma run_state_get [go_run]: "run_state State_Monad.get w = (w, w)"
  by (simp add: State_Monad.get_def)

lemma run_state_set [go_run]: "run_state (State_Monad.set w') w = ((), w')"
  by (simp add: State_Monad.set_def)

lemma run_state_update [go_run]: "run_state (State_Monad.update f) w = ((), f w)"
  by (simp add: State_Monad.update_def State_Monad.bind_def State_Monad.get_def State_Monad.set_def)

subsection \<open>Byte arrays as words\<close>

lemma length_be_bytes [simp]: "length (be_bytes n w) = n"
  by (induction n arbitrary: w) simp_all

lemma be_value_append: "be_value (xs @ ys) acc = be_value ys (be_value xs acc)"
  by (induction xs acc rule: be_value.induct) simp_all

lemma be_value_acc: "be_value bs acc = acc * 256 ^ length bs + be_value bs 0"
proof (induction bs arbitrary: acc)
  case (Cons b bs)
  have "be_value (b # bs) acc = (acc * 256 + unat b) * 256 ^ length bs + be_value bs 0"
    using Cons.IH [of "acc * 256 + unat b"] by simp
  moreover have "be_value (b # bs) 0 = unat b * 256 ^ length bs + be_value bs 0"
    using Cons.IH [of "unat b"] by simp
  ultimately show ?case by (simp add: algebra_simps)
qed simp

lemma be_value_less: "be_value bs 0 < 256 ^ length bs"
proof (induction bs)
  case (Cons b bs)
  have b: "unat b \<le> 255"
    using unsigned_less [of b, where 'a = nat] by simp
  have "be_value (b # bs) 0 = unat b * 256 ^ length bs + be_value bs 0"
    using be_value_acc [of bs "unat b"] by simp
  also have "\<dots> < unat b * 256 ^ length bs + 256 ^ length bs"
    using Cons.IH by simp
  also have "\<dots> \<le> 255 * 256 ^ length bs + 256 ^ length bs"
    using b by simp
  finally show ?case by simp
qed simp

lemma unat_ucast_byte: "unat (ucast (w :: 'a::len word) :: byte) = unat w mod 256"
  by (simp add: unsigned_ucast_eq take_bit_eq_mod)

lemma unat_drop_byte: "unat (drop_bit 8 (w :: 'a::len word)) = unat w div 256"
  unfolding unat_drop_bit_eq by (simp add: drop_bit_eq_div)

lemma be_value_be_bytes: "be_value (be_bytes n w) 0 = unat w mod 256 ^ n"
proof (induction n arbitrary: w)
  case (Suc n)
  have "be_value (be_bytes (Suc n) w) 0 = (unat w div 256 mod 256 ^ n) * 256 + unat w mod 256"
    by (simp add: be_value_append Suc.IH unat_ucast_byte unat_drop_byte)
  also have "\<dots> = unat w mod (256 * 256 ^ n)"
    by (simp add: mod_mult2_eq)
  finally show ?case by simp
qed simp

lemma of_be_bytes_be_bytes:
  assumes "LENGTH('a::len) \<le> 8 * n"
  shows "of_be_bytes (be_bytes n (w :: 'a word)) = w"
proof -
  have "(2::nat) ^ LENGTH('a) \<le> 2 ^ (8 * n)"
    using assms by (intro power_increasing) simp_all
  also have "\<dots> = 256 ^ n"
    by (simp add: power_mult)
  finally have "unat w < 256 ^ n"
    using unsigned_less [of w, where 'a = nat] by linarith
  then show ?thesis
    by (simp add: of_be_bytes_def be_value_be_bytes)
qed

lemma be_bytes_inject:
  assumes "LENGTH('a::len) \<le> 8 * n"
  shows "be_bytes n (v :: 'a word) = be_bytes n w \<longleftrightarrow> v = w"
  using of_be_bytes_be_bytes [OF assms, of v] of_be_bytes_be_bytes [OF assms, of w] by metis

lemma be_bytes_of_value:
  "length bs = n \<Longrightarrow> 256 ^ n \<le> (2::nat) ^ LENGTH('a::len) \<Longrightarrow>
     be_bytes n (word_of_nat (be_value bs 0) :: 'a word) = bs"
proof (induction bs arbitrary: n rule: rev_induct)
  case (snoc b bs)
  define v where "v = be_value bs 0"
  have n: "n = Suc (length bs)" using snoc.prems by simp
  have b: "unat b < 256" using unsigned_less [of b, where 'a = nat] by simp
  have v: "v < 256 ^ length bs" unfolding v_def by (rule be_value_less)
  then have small: "v * 256 + unat b < (2::nat) ^ LENGTH('a)"
    using b snoc.prems(2) n by simp
  have small_v: "v < (2::nat) ^ LENGTH('a)"
    using small by simp
  have un: "unat (word_of_nat (v * 256 + unat b) :: 'a word) = v * 256 + unat b"
    by (simp only: unsigned_of_nat take_bit_eq_mod mod_less [OF small] of_nat_id)
  have drop: "drop_bit 8 (word_of_nat (v * 256 + unat b) :: 'a word) = word_of_nat v"
  proof (rule word_unat_eq_iff [THEN iffD2])
    show "unat (drop_bit 8 (word_of_nat (v * 256 + unat b) :: 'a word)) = unat (word_of_nat v :: 'a word)"
      unfolding unat_drop_byte un using b
      by (simp add: unsigned_of_nat take_bit_eq_mod mod_less [OF small_v])
  qed
  have low: "(ucast (word_of_nat (v * 256 + unat b) :: 'a word) :: byte) = b"
    by (rule word_unat_eq_iff [THEN iffD2]) (simp only: unat_ucast_byte un, use b in simp)
  have val: "be_value (bs @ [b]) 0 = v * 256 + unat b"
    by (simp add: be_value_append v_def)
  have "be_bytes (length bs) (word_of_nat v :: 'a word) = bs"
    unfolding v_def using snoc.IH [of "length bs"] snoc.prems(2) n by simp
  then show ?case
    unfolding val n be_bytes.simps drop low by simp
qed simp

lemma be_bytes_of_be_bytes:
  "length bs = n \<Longrightarrow> 8 * n \<le> LENGTH('a::len) \<Longrightarrow> be_bytes n (of_be_bytes bs :: 'a word) = bs"
proof -
  assume n: "length bs = n" and l: "8 * n \<le> LENGTH('a)"
  have "(256::nat) ^ n = 2 ^ (8 * n)" by (simp add: power_mult)
  also have "\<dots> \<le> 2 ^ LENGTH('a)" using l by (intro power_increasing) simp_all
  finally show ?thesis unfolding of_be_bytes_def by (rule be_bytes_of_value [OF n])
qed

subsection \<open>Lists\<close>

lemma append_eq_same_length:
  "length xs = length ys \<Longrightarrow> xs @ us = ys @ vs \<longleftrightarrow> xs = ys \<and> us = vs"
  by simp

lemma list_all_filter_id: "list_all P xs \<Longrightarrow> filter P xs = xs"
  by (induction xs) simp_all

lemma distinct_keys_map_of:
  "distinct (map fst xs) \<Longrightarrow> (k, v) \<in> set xs \<longleftrightarrow> map_of xs k = Some v"
  by (metis map_of_eq_Some_iff)

end
