(* ===== verification/Encoding.thy ===== *)
theory Encoding
  imports Gateway_Prelude
begin

unbundle bit_operations_syntax

section \<open>Text encodings of the standard library\<close>

text \<open>
  The parts of \<^verbatim>\<open>encoding/hex\<close>, \<^verbatim>\<open>encoding/base64\<close> (the unpadded URL alphabet),
  \<^verbatim>\<open>unicode/utf8\<close> and \<^verbatim>\<open>strings\<close> that the gateway calls, as functions on byte
  lists, with the round trips the identifier and token parsers rest on.
\<close>

named_theorems encode_simps \<open>round trips of the encodings\<close>

subsection \<open>Hexadecimal\<close>

definition hexDigit :: "byte \<Rightarrow> byte" where
  "hexDigit n = (if n < 10 then 48 + n else 87 + n)"

definition fromHexChar :: "byte \<Rightarrow> byte option" where
  "fromHexChar c =
     (if 48 \<le> c \<and> c \<le> 57 then Some (c - 48)
      else if 97 \<le> c \<and> c \<le> 102 then Some (c - 97 + 10)
      else if 65 \<le> c \<and> c \<le> 70 then Some (c - 65 + 10)
      else None)"

fun hex_EncodeToString :: "byte list \<Rightarrow> gostring" where
  "hex_EncodeToString [] = []"
| "hex_EncodeToString (b # bs) =
     hexDigit (drop_bit 4 b) # hexDigit (b AND 15) # hex_EncodeToString bs"

fun hex_DecodeString :: "gostring \<Rightarrow> byte list option" where
  "hex_DecodeString [] = Some []"
| "hex_DecodeString [c] = None"
| "hex_DecodeString (p # q # cs) =
     (case (fromHexChar p, fromHexChar q) of
        (Some a, Some b) \<Rightarrow> map_option (\<lambda>bs. (push_bit 4 a OR b) # bs) (hex_DecodeString cs)
      | _ \<Rightarrow> None)"

subsection \<open>Base64, URL alphabet, no padding\<close>

definition encode64 :: "byte \<Rightarrow> byte" where
  "encode64 v =
     (if v < 26 then 65 + v else if v < 52 then 71 + v else if v < 62 then v - 4
      else if v = 62 then 45 else 95)"

definition decode64 :: "byte \<Rightarrow> byte option" where
  "decode64 c =
     (if 65 \<le> c \<and> c \<le> 90 then Some (c - 65)
      else if 97 \<le> c \<and> c \<le> 122 then Some (c - 71)
      else if 48 \<le> c \<and> c \<le> 57 then Some (c + 4)
      else if c = 45 then Some 62
      else if c = 95 then Some 63
      else None)"

fun base64_EncodeToString :: "byte list \<Rightarrow> gostring" where
  "base64_EncodeToString [] = []"
| "base64_EncodeToString [a] = [encode64 (drop_bit 2 a), encode64 (push_bit 4 (a AND 3))]"
| "base64_EncodeToString [a, b] =
     [encode64 (drop_bit 2 a), encode64 (push_bit 4 (a AND 3) OR drop_bit 4 b),
      encode64 (push_bit 2 (b AND 15))]"
| "base64_EncodeToString (a # b # c # bs) =
     encode64 (drop_bit 2 a) # encode64 (push_bit 4 (a AND 3) OR drop_bit 4 b) #
     encode64 (push_bit 2 (b AND 15) OR drop_bit 6 c) # encode64 (c AND 63) #
     base64_EncodeToString bs"

text \<open>The decoder skips carriage returns and line feeds, refuses any other character outside
  the alphabet and a final group of one character, and ignores the unused bits of a
  final group of two or three.\<close>

fun decode_quanta :: "gostring \<Rightarrow> byte list option" where
  "decode_quanta [] = Some []"
| "decode_quanta [x] = None"
| "decode_quanta [x, y] =
     (case (decode64 x, decode64 y) of
        (Some p, Some q) \<Rightarrow> Some [push_bit 2 p OR drop_bit 4 q]
      | _ \<Rightarrow> None)"
| "decode_quanta [x, y, z] =
     (case (decode64 x, decode64 y, decode64 z) of
        (Some p, Some q, Some r) \<Rightarrow>
          Some [push_bit 2 p OR drop_bit 4 q, push_bit 4 q OR drop_bit 2 r]
      | _ \<Rightarrow> None)"
| "decode_quanta (x # y # z # u # cs) =
     (case (decode64 x, decode64 y, decode64 z, decode64 u) of
        (Some p, Some q, Some r, Some s) \<Rightarrow>
          map_option (\<lambda>bs. (push_bit 2 p OR drop_bit 4 q) # (push_bit 4 q OR drop_bit 2 r) #
                           (push_bit 6 r OR s) # bs) (decode_quanta cs)
      | _ \<Rightarrow> None)"

definition base64_DecodeString :: "gostring \<Rightarrow> byte list option" where
  "base64_DecodeString s = decode_quanta (filter (\<lambda>c. c \<noteq> 10 \<and> c \<noteq> 13) s)"

subsection \<open>UTF-8\<close>

definition cont :: "byte \<Rightarrow> bool" where
  "cont b = (0x80 \<le> b \<and> b \<le> 0xBF)"

text \<open>The first rune of a byte sequence and its width; \<open>None\<close> where Go reports an
  encoding error or an empty input.\<close>

fun utf8_rune :: "byte list \<Rightarrow> (nat \<times> nat) option" where
  "utf8_rune [] = None"
| "utf8_rune (b0 # bs) =
     (if b0 < 0x80 then Some (unat b0, 1)
      else if 0xC2 \<le> b0 \<and> b0 \<le> 0xDF then
        (case bs of
           b1 # _ \<Rightarrow> if cont b1 then Some (unat (b0 AND 0x1F) * 64 + unat (b1 AND 0x3F), 2) else None
         | _ \<Rightarrow> None)
      else if 0xE0 \<le> b0 \<and> b0 \<le> 0xEF then
        (case bs of
           b1 # b2 # _ \<Rightarrow>
             if (if b0 = 0xE0 then 0xA0 else 0x80) \<le> b1 \<and> b1 \<le> (if b0 = 0xED then 0x9F else 0xBF) \<and> cont b2
             then Some (unat (b0 AND 0x0F) * 4096 + unat (b1 AND 0x3F) * 64 + unat (b2 AND 0x3F), 3)
             else None
         | _ \<Rightarrow> None)
      else if 0xF0 \<le> b0 \<and> b0 \<le> 0xF4 then
        (case bs of
           b1 # b2 # b3 # _ \<Rightarrow>
             if (if b0 = 0xF0 then 0x90 else 0x80) \<le> b1 \<and> b1 \<le> (if b0 = 0xF4 then 0x8F else 0xBF) \<and>
                cont b2 \<and> cont b3
             then Some (unat (b0 AND 0x07) * 262144 + unat (b1 AND 0x3F) * 4096 +
                        unat (b2 AND 0x3F) * 64 + unat (b3 AND 0x3F), 4)
             else None
         | _ \<Rightarrow> None)
      else None)"

lemma utf8_rune_size: "utf8_rune bs = Some (r, n) \<Longrightarrow> 0 < n \<and> n \<le> length bs"
  by (cases bs) (auto split: if_splits list.splits)

function utf8_Valid :: "byte list \<Rightarrow> bool" where
  "utf8_Valid bs =
     (if bs = [] then True
      else case utf8_rune bs of None \<Rightarrow> False | Some (r, n) \<Rightarrow> utf8_Valid (drop n bs))"
  by pat_completeness auto
termination
  by (relation "measure length") (auto dest: utf8_rune_size)

declare utf8_Valid.simps [simp del]

text \<open>\<^verbatim>\<open>utf8.DecodeRuneInString\<close>: the replacement rune with width one on an encoding error.\<close>

definition utf8_DecodeRune :: "byte list \<Rightarrow> nat \<times> nat" where
  "utf8_DecodeRune bs =
     (if bs = [] then (0xFFFD, 0)
      else case utf8_rune bs of None \<Rightarrow> (0xFFFD, 1) | Some rn \<Rightarrow> rn)"

subsection \<open>Strings\<close>

definition HasPrefix :: "gostring \<Rightarrow> gostring \<Rightarrow> bool" where
  "HasPrefix s p = (take (length p) s = p)"

text \<open>\<^verbatim>\<open>strings.Index\<close>: the position of the first occurrence, \<open>None\<close> for \<open>-1\<close>.\<close>

fun strings_Index :: "gostring \<Rightarrow> gostring \<Rightarrow> nat option" where
  "strings_Index [] p = (if p = [] then Some 0 else None)"
| "strings_Index (c # s) p =
     (if HasPrefix (c # s) p then Some 0 else map_option Suc (strings_Index s p))"

definition strings_Contains :: "gostring \<Rightarrow> gostring \<Rightarrow> bool" where
  "strings_Contains s p = (strings_Index s p \<noteq> None)"

text \<open>\<^verbatim>\<open>strings.ToLower\<close> on the ASCII letters. The identifier parsers that call it refuse
  every byte outside ASCII afterwards, so the mapping of other letters is not needed.\<close>

definition toLowerASCII :: "byte \<Rightarrow> byte" where
  "toLowerASCII c = (if 65 \<le> c \<and> c \<le> 90 then c + 32 else c)"

definition strings_ToLower :: "gostring \<Rightarrow> gostring" where
  "strings_ToLower s = map toLowerASCII s"

subsection \<open>Case analysis on small bytes\<close>

lemma byte_less_cases:
  assumes "v < (word_of_nat n :: byte)" and "n < 256" and "list_all (\<lambda>k. P (word_of_nat k)) [0..<n]"
  shows "P v"
proof -
  have "unat (word_of_nat n :: byte) = n"
    using assms(2) by (simp add: unsigned_of_nat take_bit_eq_mod)
  then have "unat v < n"
    using assms(1) by (simp add: word_less_nat_alt)
  moreover have "\<forall>k\<in>{0..<n}. P (word_of_nat k)"
    using assms(3) by (simp add: list_all_iff)
  ultimately show ?thesis using bspec [of "{0..<n}" "\<lambda>k. P (word_of_nat k)" "unat v"] by simp
qed

lemma byte_and_mask: "(b AND 15 :: byte) = b AND mask 4" "(b AND 3 :: byte) = b AND mask 2"
  "(b AND 63 :: byte) = b AND mask 6"
  by (simp_all add: mask_eq_exp_minus_1)

lemma byte_le_iff: "(x :: byte) \<le> y \<longleftrightarrow> unat x \<le> unat y"
  by (simp add: word_le_nat_alt)

lemma byte_eqI:
  assumes "bit v 0 = bit w 0" "bit v 1 = bit w 1" "bit v 2 = bit w 2" "bit v 3 = bit w 3"
    and "bit v 4 = bit w 4" "bit v 5 = bit w 5" "bit v 6 = bit w 6" "bit v 7 = bit w 7"
  shows "v = (w :: byte)"
proof (rule bit_word_eqI)
  fix n assume "n < LENGTH(8)"
  then have "n \<in> {0, 1, 2, 3, 4, 5, 6, 7}" by auto
  with assms show "bit v n = bit w n" by auto
qed

lemma byte_less_16: "\<lbrakk>\<not> bit v 4; \<not> bit v 5; \<not> bit v 6; \<not> bit v 7\<rbrakk> \<Longrightarrow> v < (16 :: byte)"
proof -
  assume "\<not> bit v 4" "\<not> bit v 5" "\<not> bit v 6" "\<not> bit v 7"
  then have "take_bit 4 v = v" by (intro byte_eqI) (simp_all add: bit_take_bit_iff)
  then have "unat v = take_bit 4 (unat v)" by (metis unsigned_take_bit_eq)
  then have "unat v < 2 ^ 4" by (metis take_bit_nat_less_exp)
  then show ?thesis by (simp add: word_less_nat_alt)
qed

lemma byte_less_64: "\<lbrakk>\<not> bit v 6; \<not> bit v 7\<rbrakk> \<Longrightarrow> v < (64 :: byte)"
proof -
  assume "\<not> bit v 6" "\<not> bit v 7"
  then have "take_bit 6 v = v" by (intro byte_eqI) (simp_all add: bit_take_bit_iff)
  then have "unat v = take_bit 6 (unat v)" by (metis unsigned_take_bit_eq)
  then have "unat v < 2 ^ 6" by (metis take_bit_nat_less_exp)
  then show ?thesis by (simp add: word_less_nat_alt)
qed

lemma byte_high_bit: "8 \<le> n \<Longrightarrow> \<not> bit (v :: byte) n"
  using bit_imp_le_length [of v n] by auto

lemmas byte_bit_simps = byte_and_mask bit_and_iff bit_or_iff bit_push_bit_iff bit_drop_bit_eq
  bit_mask_iff byte_high_bit

lemma nibble_bounds: "drop_bit 4 (b :: byte) < 16" "(b :: byte) AND 15 < 16"
  by (rule byte_less_16; simp add: byte_bit_simps)+

lemma sextet_bounds:
  "drop_bit 2 (a :: byte) < 64"
  "push_bit 4 ((a :: byte) AND 3) < 64"
  "push_bit 4 ((a :: byte) AND 3) OR drop_bit 4 b < 64"
  "push_bit 2 ((b :: byte) AND 15) < 64"
  "push_bit 2 ((b :: byte) AND 15) OR drop_bit 6 c < 64"
  "(c :: byte) AND 63 < 64"
  by (rule byte_less_64; simp add: byte_bit_simps)+

lemma fromHexChar_hexDigit [encode_simps]: "n < 16 \<Longrightarrow> fromHexChar (hexDigit n) = Some n"
  by (rule byte_less_cases [of n 16]) (simp, simp, code_simp)

lemma decode64_encode64 [encode_simps]: "v < 64 \<Longrightarrow> decode64 (encode64 v) = Some v"
  by (rule byte_less_cases [of v 64]) (simp, simp, code_simp)

lemma encode64_printable: "v < 64 \<Longrightarrow> encode64 v \<noteq> 10 \<and> encode64 v \<noteq> 13 \<and> encode64 v \<noteq> 61"
  by (rule byte_less_cases [of v 64]) (simp, simp, code_simp)

subsection \<open>Round trips\<close>

lemma join_nibbles: "push_bit 4 (drop_bit 4 b) OR (b AND 15) = (b :: byte)"
  by (rule byte_eqI; simp add: byte_bit_simps)

lemma hex_roundtrip [encode_simps]: "hex_DecodeString (hex_EncodeToString bs) = Some bs"
  by (induction bs) (simp_all add: encode_simps nibble_bounds join_nibbles)

lemma length_hex_EncodeToString [simp]: "length (hex_EncodeToString bs) = 2 * length bs"
  by (induction bs) simp_all

lemma hex_EncodeToString_append:
  "hex_EncodeToString (xs @ ys) = hex_EncodeToString xs @ hex_EncodeToString ys"
  by (induction xs) simp_all

lemma length_hex_DecodeString: "hex_DecodeString s = Some bs \<Longrightarrow> length s = 2 * length bs"
  by (induction s arbitrary: bs rule: hex_DecodeString.induct) (auto split: option.splits)

lemma join_sextets:
  "push_bit 2 (drop_bit 2 a) OR drop_bit 4 (push_bit 4 (a AND 3) OR drop_bit 4 b) = (a :: byte)"
  "push_bit 2 (drop_bit 2 a) OR drop_bit 4 (push_bit 4 (a AND 3)) = (a :: byte)"
  "push_bit 4 (push_bit 4 (a AND 3) OR drop_bit 4 b) OR drop_bit 2 (push_bit 2 (b AND 15) OR drop_bit 6 c) = (b :: byte)"
  "push_bit 4 (push_bit 4 (a AND 3) OR drop_bit 4 b) OR drop_bit 2 (push_bit 2 (b AND 15)) = (b :: byte)"
  "push_bit 6 (push_bit 2 (b AND 15) OR drop_bit 6 c) OR (c AND 63) = (c :: byte)"
  "push_bit 4 (drop_bit 4 b) OR drop_bit 2 (push_bit 2 (b AND 15)) = (b :: byte)"
  "push_bit 6 (drop_bit 6 c) OR (c AND 63) = (c :: byte)"
  by (rule byte_eqI; simp add: byte_bit_simps)+

lemma decode_quanta_encode [encode_simps]: "decode_quanta (base64_EncodeToString bs) = Some bs"
  by (induction bs rule: base64_EncodeToString.induct)
    (simp_all add: encode_simps sextet_bounds join_sextets del: push_bit_and)

lemma base64_range: "c \<in> set (base64_EncodeToString bs) \<Longrightarrow> \<exists>v<64. c = encode64 v"
  by (induction bs rule: base64_EncodeToString.induct)
    (auto intro: sextet_bounds simp del: push_bit_and)

lemma base64_alphabet:
  "c \<in> set (base64_EncodeToString bs) \<Longrightarrow> c \<noteq> 10 \<and> c \<noteq> 13 \<and> c \<noteq> 61"
  by (auto dest!: base64_range dest: encode64_printable)

lemma base64_roundtrip [encode_simps]: "base64_DecodeString (base64_EncodeToString bs) = Some bs"
proof -
  have "filter (\<lambda>c. c \<noteq> 10 \<and> c \<noteq> 13) (base64_EncodeToString bs) = base64_EncodeToString bs"
    by (rule filter_True) (use base64_alphabet in blast)
  then show ?thesis by (simp add: base64_DecodeString_def encode_simps)
qed

lemma length_base64_EncodeToString: "length (base64_EncodeToString bs) = (4 * length bs + 2) div 3"
  by (induction bs rule: base64_EncodeToString.induct) simp_all

end
