(* ===== verification/Go_Errors.thy ===== *)
theory Go_Errors
  imports Gateway_Prelude
begin

section \<open>Go error values\<close>

text \<open>
  Errors as the gateway uses them. A sentinel (\<^verbatim>\<open>errors.New\<close>) is identified by the
  package that declares it. Error values form finite trees: the wrappers the
  repository declares (\<^verbatim>\<open>SafeError\<close>, \<^verbatim>\<open>lifecycleInternalError\<close>,
  \<^verbatim>\<open>replayOutcomeUnknownError\<close>), the driver's \<^verbatim>\<open>pgconn.PgError\<close> and
  \<^verbatim>\<open>pgconn.ConnectError\<close>, and the foreign shapes the code distinguishes: a wrapper with
  \<^verbatim>\<open>Unwrap() error\<close>, a join with \<^verbatim>\<open>Unwrap() []error\<close>, a typed nil, and a leaf. The flag of
  a foreign wrapper or leaf says whether its type implements \<^verbatim>\<open>net.Error\<close>. A nil error
  is \<open>None\<close>. \<open>errors_Is\<close>, \<open>errors_Unwrap\<close> and the \<open>errors_As\<close> functions are the
  standard library's traversals on these values; the single-cause traversals with
  their depth bound are the repository's own.
\<close>

datatype context_sentinel = Canceled | DeadlineExceeded

datatype io_sentinel = EOF | ErrUnexpectedEOF | ErrClosedPipe | NetErrClosed

datatype pgx_sentinel = ErrNoRows | ErrTxClosed | ErrTxCommitRollback

datatype durable_sentinel =
    ErrInvalidAcceptance | ErrReceiptGeneration | ErrStoreUnavailable | ErrStoreOutcomeUnknown
  | ErrStoreCanceled | ErrStoreFailure | ErrStoredRecordUnreadable

datatype protection_sentinel =
    ErrProtectionInvalid | ErrProtectionKeyUnavailable | ErrProtectionRandom
  | ErrProtectionFailed | ErrProtectedDigestUnreadable

datatype intake_sentinel = ErrInvalidRequest | ErrIntakeCanceled

datatype httpapi_sentinel =
    ErrInvalidEvent | ErrUnsupportedEvent | ErrCanonicalEvent | ErrSinkUnavailable

datatype authentication_sentinel =
    ErrConfigurationInvalid | ErrRequestInvalid | ErrAuthenticationFailed | ErrForbidden
  | ErrUnavailable | ErrAuthenticationCanceled

datatype securitystate_sentinel =
    ErrInvalidState | ErrAudienceMismatch | ErrAudienceUnavailable | ErrCredentialNotFound
  | ErrSecretUnavailable | ErrPrincipalNotAuthorized | ErrReplayUnavailable
  | ErrReplayOutcomeUnknown | ErrDestinationNotFound | ErrVerifierKeyUnavailable
  | ErrDestinationLifecycleInvalid | ErrDestinationLifecycleConflict
  | ErrDestinationLifecycleReconciliation | ErrDestinationLifecycleUnavailable
  | ErrDestinationLifecycleOutcomeUnknown | ErrDestinationLifecycleCanceled
  | ErrDestinationLifecycleDeadline | ErrDestinationTokenRotationInvalid
  | ErrDestinationTokenRotationConflict | ErrDestinationTokenRotationUnavailable
  | ErrDestinationTokenRotationOutcomeUnknown | ErrDestinationTokenRotationReconciliation
  | ErrDestinationTokenRotationCanceled | ErrDestinationTokenRotationDeadline

datatype postgres_sentinel =
    ErrConfigMissing | ErrConfigInvalid | ErrConnect | ErrSchemaQuery | ErrMigrationLock
  | ErrMigration | ErrMigrationInterrupted | ErrSchemaAhead | ErrSchemaInvalid
  | ErrAuthenticationStateUnavailable | ErrAuthenticationStateIntegrity
  | ErrDestinationResolverUnavailable | ErrDestinationResolverIntegrity

datatype sentinel =
    Context context_sentinel
  | Io io_sentinel
  | Pgx pgx_sentinel
  | Durable durable_sentinel
  | Protection protection_sentinel
  | Intake intake_sentinel
  | Httpapi httpapi_sentinel
  | Authentication authentication_sentinel
  | Securitystate securitystate_sentinel
  | Postgres postgres_sentinel

datatype go_error =
    Sentinel sentinel
  | SafeError go_error string
  | LifecycleInternalError go_error bool
  | ReplayOutcomeUnknownError "sentinel option"
  | PgError gostring gostring
  | ConnectError go_error
  | Wrapped bool go_error
  | Joined "go_error list"
  | TypedNil
  | Leaf nat bool

type_synonym 'a result = "go_error + 'a"

abbreviation durableErr :: "durable_sentinel \<Rightarrow> go_error" where
  "durableErr e \<equiv> Sentinel (Durable e)"
abbreviation protectionErr :: "protection_sentinel \<Rightarrow> go_error" where
  "protectionErr e \<equiv> Sentinel (Protection e)"
abbreviation intakeErr :: "intake_sentinel \<Rightarrow> go_error" where
  "intakeErr e \<equiv> Sentinel (Intake e)"
abbreviation httpapiErr :: "httpapi_sentinel \<Rightarrow> go_error" where
  "httpapiErr e \<equiv> Sentinel (Httpapi e)"
abbreviation authenticationErr :: "authentication_sentinel \<Rightarrow> go_error" where
  "authenticationErr e \<equiv> Sentinel (Authentication e)"
abbreviation stateErr :: "securitystate_sentinel \<Rightarrow> go_error" where
  "stateErr e \<equiv> Sentinel (Securitystate e)"
abbreviation postgresErr :: "postgres_sentinel \<Rightarrow> go_error" where
  "postgresErr e \<equiv> Sentinel (Postgres e)"
abbreviation contextErr :: "context_sentinel \<Rightarrow> go_error" where
  "contextErr e \<equiv> Sentinel (Context e)"

subsection \<open>The traversals of the standard library\<close>

text \<open>\<^verbatim>\<open>errors.Unwrap\<close>: the one cause of a wrapper, nil for every other error.
  \<^verbatim>\<open>ErrMigrationInterrupted\<close> is a sentinel that wraps \<^verbatim>\<open>ErrMigration\<close>.\<close>

fun errors_Unwrap :: "go_error \<Rightarrow> go_error option" where
  "errors_Unwrap (Sentinel (Postgres ErrMigrationInterrupted)) = Some (postgresErr ErrMigration)"
| "errors_Unwrap (SafeError kind operation) = Some kind"
| "errors_Unwrap (LifecycleInternalError kind destroy) = Some kind"
| "errors_Unwrap (ConnectError e) = Some e"
| "errors_Unwrap (Wrapped net e) = Some e"
| "errors_Unwrap _ = None"

fun errors_Is :: "go_error \<Rightarrow> sentinel \<Rightarrow> bool" where
  "errors_Is (Sentinel s) t =
     (s = t \<or> s = Postgres ErrMigrationInterrupted \<and> t = Postgres ErrMigration)"
| "errors_Is (SafeError kind operation) t = errors_Is kind t"
| "errors_Is (LifecycleInternalError kind destroy) t = (kind = Sentinel t \<or> errors_Is kind t)"
| "errors_Is (ReplayOutcomeUnknownError cancellation) t =
     (t = Securitystate ErrReplayOutcomeUnknown \<or> cancellation = Some t)"
| "errors_Is (ConnectError e) t = errors_Is e t"
| "errors_Is (Wrapped net e) t = errors_Is e t"
| "errors_Is (Joined es) t = list_ex (\<lambda>e. errors_Is e t) es"
| "errors_Is (PgError code constraint) t = False"
| "errors_Is TypedNil t = False"
| "errors_Is (Leaf n net) t = False"

definition errors_Is_opt :: "go_error option \<Rightarrow> sentinel \<Rightarrow> bool" where
  "errors_Is_opt err t = (case err of None \<Rightarrow> False | Some e \<Rightarrow> errors_Is e t)"

text \<open>\<^verbatim>\<open>errors.As\<close> for the target types the code names: the first match in preorder.\<close>

fun first_some :: "('a \<Rightarrow> 'b option) \<Rightarrow> 'a list \<Rightarrow> 'b option" where
  "first_some f [] = None"
| "first_some f (x # xs) = (case f x of None \<Rightarrow> first_some f xs | Some y \<Rightarrow> Some y)"

lemma first_some_cong [fundef_cong]:
  "xs = ys \<Longrightarrow> (\<And>x. x \<in> set ys \<Longrightarrow> f x = g x) \<Longrightarrow> first_some f xs = first_some g ys"
  by (induction ys arbitrary: xs) (auto split: option.splits)

fun errors_As_PgError :: "go_error \<Rightarrow> (gostring \<times> gostring) option" where
  "errors_As_PgError (PgError code constraint) = Some (code, constraint)"
| "errors_As_PgError (SafeError kind operation) = errors_As_PgError kind"
| "errors_As_PgError (LifecycleInternalError kind destroy) = errors_As_PgError kind"
| "errors_As_PgError (ConnectError e) = errors_As_PgError e"
| "errors_As_PgError (Wrapped net e) = errors_As_PgError e"
| "errors_As_PgError (Joined es) = first_some errors_As_PgError es"
| "errors_As_PgError _ = None"

fun errors_As_ConnectError :: "go_error \<Rightarrow> bool" where
  "errors_As_ConnectError (ConnectError e) = True"
| "errors_As_ConnectError (SafeError kind operation) = errors_As_ConnectError kind"
| "errors_As_ConnectError (LifecycleInternalError kind destroy) = errors_As_ConnectError kind"
| "errors_As_ConnectError (Wrapped net e) = errors_As_ConnectError e"
| "errors_As_ConnectError (Joined es) = list_ex errors_As_ConnectError es"
| "errors_As_ConnectError _ = False"

fun errors_As_netError :: "go_error \<Rightarrow> bool" where
  "errors_As_netError (Sentinel s) = (s = Context DeadlineExceeded)"
| "errors_As_netError (SafeError kind operation) = errors_As_netError kind"
| "errors_As_netError (LifecycleInternalError kind destroy) = errors_As_netError kind"
| "errors_As_netError (ConnectError e) = errors_As_netError e"
| "errors_As_netError (Wrapped net e) = (net \<or> errors_As_netError e)"
| "errors_As_netError (Joined es) = list_ex errors_As_netError es"
| "errors_As_netError (Leaf n net) = net"
| "errors_As_netError _ = False"

text \<open>\<^verbatim>\<open>errors.As\<close> with a \<^verbatim>\<open>lifecycleInternalError\<close> target, read for its destroy flag.\<close>

fun errors_As_lifecycleInternalError :: "go_error \<Rightarrow> bool option" where
  "errors_As_lifecycleInternalError (LifecycleInternalError kind destroy) = Some destroy"
| "errors_As_lifecycleInternalError (SafeError kind operation) = errors_As_lifecycleInternalError kind"
| "errors_As_lifecycleInternalError (ConnectError e) = errors_As_lifecycleInternalError e"
| "errors_As_lifecycleInternalError (Wrapped net e) = errors_As_lifecycleInternalError e"
| "errors_As_lifecycleInternalError (Joined es) = first_some errors_As_lifecycleInternalError es"
| "errors_As_lifecycleInternalError _ = None"

subsection \<open>The bounded single-cause traversals\<close>

definition nilInterface_error :: "go_error \<Rightarrow> bool" where
  "nilInterface_error e = (e = TypedNil)"

definition ambiguous :: "go_error \<Rightarrow> bool" where
  "ambiguous e = (case e of Joined es \<Rightarrow> True | _ \<Rightarrow> False)"

text \<open>
  The loop \<^verbatim>\<open>for current, depth := err, 0; current != nil && depth < 64; depth++\<close>
  with \<open>fuel\<close> for the iterations left. A sentinel is the only error value that is
  equal to a sentinel.
\<close>

fun single_cause_loop :: "nat \<Rightarrow> go_error option \<Rightarrow> sentinel \<Rightarrow> bool" where
  "single_cause_loop 0 current t = False"
| "single_cause_loop (Suc fuel) None t = False"
| "single_cause_loop (Suc fuel) (Some current) t =
     (if nilInterface_error current then False
      else if ambiguous current then False
      else if current = Sentinel t then True
      else single_cause_loop fuel (errors_Unwrap current) t)"

definition maximumDependencyErrorDepth :: nat where
  "maximumDependencyErrorDepth = 64"

definition singleCauseMatches :: "go_error \<Rightarrow> sentinel \<Rightarrow> bool" where
  "singleCauseMatches err target = single_cause_loop maximumDependencyErrorDepth (Some err) target"

definition lifecycleSingleCauseMatches :: "go_error \<Rightarrow> sentinel \<Rightarrow> bool" where
  "lifecycleSingleCauseMatches err target = single_cause_loop 64 (Some err) target"

definition rotationSingleCauseMatches :: "go_error \<Rightarrow> sentinel \<Rightarrow> bool" where
  "rotationSingleCauseMatches err target = single_cause_loop 64 (Some err) target"

definition lifecycleRepositorySingleCauseMatches :: "go_error \<Rightarrow> sentinel \<Rightarrow> bool" where
  "lifecycleRepositorySingleCauseMatches err target = single_cause_loop 64 (Some err) target"

definition destinationResolverSingleCauseMatches :: "go_error \<Rightarrow> sentinel \<Rightarrow> bool" where
  "destinationResolverSingleCauseMatches err target = single_cause_loop 64 (Some err) target"

fun single_cause_chain_loop :: "nat \<Rightarrow> go_error option \<Rightarrow> bool" where
  "single_cause_chain_loop 0 current = False"
| "single_cause_chain_loop (Suc fuel) None = False"
| "single_cause_chain_loop (Suc fuel) (Some current) =
     (if nilInterface_error current then False
      else if ambiguous current then False
      else case errors_Unwrap current of
             None \<Rightarrow> True
           | Some cause \<Rightarrow> single_cause_chain_loop fuel (Some cause))"

definition lifecycleRepositorySingleCauseChain :: "go_error \<Rightarrow> bool" where
  "lifecycleRepositorySingleCauseChain err = single_cause_chain_loop 64 (Some err)"

fun single_cause_postgres_loop :: "nat \<Rightarrow> go_error option \<Rightarrow> bool" where
  "single_cause_postgres_loop 0 current = False"
| "single_cause_postgres_loop (Suc fuel) None = False"
| "single_cause_postgres_loop (Suc fuel) (Some current) =
     (if nilInterface_error current then False
      else if ambiguous current then False
      else (case current of
              PgError code constraint \<Rightarrow> True
            | _ \<Rightarrow> single_cause_postgres_loop fuel (errors_Unwrap current)))"

definition singleCausePostgresError :: "go_error \<Rightarrow> bool" where
  "singleCausePostgresError err = single_cause_postgres_loop 64 (Some err)"

subsection \<open>Errors of the PostgreSQL layer\<close>

definition safeError :: "go_error \<Rightarrow> string \<Rightarrow> go_error" where
  "safeError kind operation = SafeError kind operation"

text \<open>
  \<^verbatim>\<open>isConnectionInterruption\<close>. \<open>timeout\<close> stands for the driver's \<^verbatim>\<open>pgconn.Timeout\<close>.
\<close>

definition isConnectionInterruption :: "(go_error \<Rightarrow> bool) \<Rightarrow> go_error option \<Rightarrow> bool" where
  "isConnectionInterruption timeout err =
     (case err of
        None \<Rightarrow> False
      | Some e \<Rightarrow>
          if errors_Is e (Context Canceled) \<or> errors_Is e (Context DeadlineExceeded) \<or>
             errors_Is e (Io EOF) \<or> errors_Is e (Io ErrUnexpectedEOF) \<or>
             errors_Is e (Io ErrClosedPipe) \<or> errors_Is e (Io NetErrClosed) \<or> timeout e
          then True
          else (case errors_As_PgError e of
                  Some (code, constraint) \<Rightarrow>
                    take 2 code = str ''08'' \<or> code = str ''40003'' \<or> code = str ''57P01'' \<or>
                    code = str ''57P02'' \<or> code = str ''57P03'' \<or> code = str ''57P04'' \<or>
                    code = str ''57P05''
                | None \<Rightarrow> errors_As_ConnectError e \<or> errors_As_netError e))"

definition migrationFailure :: "(go_error \<Rightarrow> bool) \<Rightarrow> go_error \<Rightarrow> string \<Rightarrow> go_error" where
  "migrationFailure timeout err operation =
     (if isConnectionInterruption timeout (Some err)
      then safeError (postgresErr ErrMigrationInterrupted) operation
      else safeError (postgresErr ErrMigration) operation)"

subsection \<open>Facts about the traversals\<close>

lemma single_cause_loop_None [simp]: "single_cause_loop n None t = False"
  by (cases n) simp_all

lemma single_cause_loop_imp_Is: "single_cause_loop n (Some e) t \<Longrightarrow> errors_Is e t"
proof (induction n arbitrary: e)
  case (Suc n)
  show ?case
  proof (cases "e = Sentinel t")
    case False
    with Suc.prems have "single_cause_loop n (errors_Unwrap e) t"
      by (simp split: if_splits)
    then obtain c where c: "errors_Unwrap e = Some c" "single_cause_loop n (Some c) t"
      by (cases n; cases "errors_Unwrap e") simp_all
    from Suc.IH [OF c(2)] have "errors_Is c t" .
    with c(1) show ?thesis
      by (cases e rule: errors_Unwrap.cases) auto
  qed simp
qed simp

lemma single_cause_loop_sentinel [simp]:
  "single_cause_loop (Suc n) (Some (Sentinel s)) t \<longleftrightarrow>
     s = t \<or> s = Postgres ErrMigrationInterrupted \<and> t = Postgres ErrMigration \<and> 0 < n"
proof (cases "s = t")
  case True
  then show ?thesis by (simp add: nilInterface_error_def ambiguous_def)
next
  case False
  show ?thesis
  proof (cases "s = Postgres ErrMigrationInterrupted")
    case True
    with False show ?thesis
      by (cases n) (auto simp: nilInterface_error_def ambiguous_def)
  next
    case other: False
    then have "errors_Unwrap (Sentinel s) = None"
      by (cases "Sentinel s" rule: errors_Unwrap.cases) auto
    with False other show ?thesis
      by (cases n) (auto simp: nilInterface_error_def ambiguous_def)
  qed
qed

lemma single_cause_loop_safe [simp]:
  "single_cause_loop (Suc n) (Some (SafeError kind operation)) t = single_cause_loop n (Some kind) t"
  by (simp add: nilInterface_error_def ambiguous_def)

lemma single_cause_loop_internal [simp]:
  "single_cause_loop (Suc n) (Some (LifecycleInternalError kind destroy)) t =
     single_cause_loop n (Some kind) t"
  by (simp add: nilInterface_error_def ambiguous_def)

lemmas single_cause_defs = singleCauseMatches_def maximumDependencyErrorDepth_def
  lifecycleSingleCauseMatches_def rotationSingleCauseMatches_def
  lifecycleRepositorySingleCauseMatches_def destinationResolverSingleCauseMatches_def

text \<open>The matchers on the values the repository itself constructs.\<close>

lemma single_cause_64_sentinel:
  "single_cause_loop 64 (Some (Sentinel s)) t \<longleftrightarrow>
     s = t \<or> s = Postgres ErrMigrationInterrupted \<and> t = Postgres ErrMigration"
  using single_cause_loop_sentinel [of 63 s t] by (simp del: single_cause_loop_sentinel)

lemma single_cause_64_safe:
  "single_cause_loop 64 (Some (SafeError (Sentinel s) operation)) t \<longleftrightarrow>
     s = t \<or> s = Postgres ErrMigrationInterrupted \<and> t = Postgres ErrMigration"
  using single_cause_loop_safe [of 63 "Sentinel s" operation t] single_cause_loop_sentinel [of 62 s t]
  by (simp del: single_cause_loop_sentinel single_cause_loop_safe)

lemma single_cause_64_internal:
  "single_cause_loop 64 (Some (LifecycleInternalError (Sentinel s) destroy)) t \<longleftrightarrow>
     s = t \<or> s = Postgres ErrMigrationInterrupted \<and> t = Postgres ErrMigration"
  using single_cause_loop_internal [of 63 "Sentinel s" destroy t] single_cause_loop_sentinel [of 62 s t]
  by (simp del: single_cause_loop_sentinel single_cause_loop_internal)

lemmas single_cause_64 = single_cause_64_sentinel single_cause_64_safe single_cause_64_internal

subsection \<open>Results of nested checks\<close>

text \<open>A chain of checks succeeds when every check does; the collection turns such a chain into a
  conjunction without splitting it.\<close>

named_theorems result_simps

lemma case_sum_if [result_simps]:
  "case_sum f g (if c then Inl e else Inr v) = (if c then f e else g v)"
  "case_sum f g (if c then Inr v else Inl e) = (if c then g v else f e)"
  by simp_all

lemma if_Inl_eq_Inr [result_simps]:
  "(if c then z else Inl e) = Inr t \<longleftrightarrow> c \<and> z = Inr t"
  "(if c then Inl e else z) = Inr t \<longleftrightarrow> \<not> c \<and> z = Inr t"
  by simp_all

lemma case_sum_pass [result_simps]: "case_sum (\<lambda>_. Inl e) Inr x = Inr t \<longleftrightarrow> x = Inr t"
  by (cases x) simp_all

lemma if_same [result_simps]: "(if c then if b then z else w else w) = (if c \<and> b then z else w)"
  by simp

subsection \<open>The errors an operation may return\<close>

text \<open>\<open>errs_in S r\<close>: if the result \<open>r\<close> is an error, it is one of \<open>S\<close>. The rules follow the
  syntax of a definition, so that the range of its errors is found without case analysis.\<close>

named_theorems err_intro

definition errs_in :: "go_error set \<Rightarrow> 'a result \<Rightarrow> bool" where
  "errs_in S r = (\<forall>e. r = Inl e \<longrightarrow> e \<in> S)"

lemma errs_inD: "errs_in S r \<Longrightarrow> r = Inl e \<Longrightarrow> e \<in> S"
  by (simp add: errs_in_def)

lemma errs_in_Inl [err_intro]: "e \<in> S \<Longrightarrow> errs_in S (Inl e)"
  by (simp add: errs_in_def)

lemma errs_in_Inr [err_intro]: "errs_in S (Inr x)"
  by (simp add: errs_in_def)

lemma errs_in_if [err_intro]: "errs_in S x \<Longrightarrow> errs_in S y \<Longrightarrow> errs_in S (if c then x else y)"
  by simp

lemma errs_in_case_option [err_intro]:
  "errs_in S x \<Longrightarrow> (\<And>v. errs_in S (f v)) \<Longrightarrow> errs_in S (case r of None \<Rightarrow> x | Some v \<Rightarrow> f v)"
  by (cases r) simp_all

lemma errs_in_case_sum [err_intro]:
  "(\<And>e. errs_in S (f e)) \<Longrightarrow> (\<And>v. errs_in S (g v)) \<Longrightarrow> errs_in S (case r of Inl e \<Rightarrow> f e | Inr v \<Rightarrow> g v)"
  by (cases r) simp_all

lemma errs_in_case_prod [err_intro]: "(\<And>a b. errs_in S (f a b)) \<Longrightarrow> errs_in S (case p of (a, b) \<Rightarrow> f a b)"
  by (cases p) simp

end
