(* ===== verification/Identifiers.thy ===== *)
theory Identifiers
  imports Encoding Go_Errors
begin

unbundle bit_operations_syntax

section \<open>Identifiers, tokens and keys\<close>

text \<open>
  The parsed identifier types of \<^verbatim>\<open>internal/securitystate/types.go\<close> and
  \<^verbatim>\<open>internal/durable/types.go\<close>: the UUID parsers and their printer, the replay nonce, the
  opaque destination token, the verifier and key types, and the version-4 stamping
  that the two record-identity generators share. The round trips say that the
  accepted text of an identifier is exactly its printed form.
\<close>

type_synonym GatewayAudienceID = bytes16
type_synonym CorePrincipalID = bytes16
type_synonym CredentialSlotID = bytes16
type_synonym CredentialRecordID = bytes16
type_synonym CredentialID = bytes16
type_synonym DestinationID = bytes16
type_synonym DestinationTokenRecordID = bytes16
type_synonym ReceiptID = bytes16
type_synonym DeliveryIdentity = bytes16
type_synonym CanonicalDigest = bytes32
type_synonym ReplayNonce = bytes16
type_synonym OpaqueDestinationToken = bytes32
type_synonym AuthenticationSecret = bytes32
type_synonym DestinationVerifierKey = "byte list"
type_synonym DestinationVerifierKeyID = gostring

subsection \<open>UUIDs\<close>

definition formatUUID :: "bytes16 \<Rightarrow> gostring" where
  "formatUUID v =
     (let bs = be_bytes 16 v in
      hex_EncodeToString (take 4 bs) @ [45] @
      hex_EncodeToString (take 2 (drop 4 bs)) @ [45] @
      hex_EncodeToString (take 2 (drop 6 bs)) @ [45] @
      hex_EncodeToString (take 2 (drop 8 bs)) @ [45] @
      hex_EncodeToString (drop 10 bs))"

definition uuid_layout :: "gostring \<Rightarrow> bool" where
  "uuid_layout s = (length s = 36 \<and> s ! 8 = 45 \<and> s ! 13 = 45 \<and> s ! 18 = 45 \<and> s ! 23 = 45)"

definition uuid_compact :: "gostring \<Rightarrow> gostring" where
  "uuid_compact s =
     take 8 s @ take 4 (drop 9 s) @ take 4 (drop 14 s) @ take 4 (drop 19 s) @ drop 24 s"

text \<open>\<^verbatim>\<open>securitystate.parseUUID\<close>.\<close>

definition parseUUID :: "gostring \<Rightarrow> bool \<Rightarrow> bytes16 result" where
  "parseUUID s requireV4 =
     (if \<not> (uuid_layout s \<and> s = strings_ToLower s) then Inl (stateErr ErrInvalidState)
      else case hex_DecodeString (uuid_compact s) of
             None \<Rightarrow> Inl (stateErr ErrInvalidState)
           | Some decoded \<Rightarrow>
               if length decoded \<noteq> 16 then Inl (stateErr ErrInvalidState)
               else if of_be_bytes decoded = (0 :: bytes16) \<or>
                       requireV4 \<and> (drop_bit 4 (decoded ! 6) \<noteq> 4 \<or> drop_bit 6 (decoded ! 8) \<noteq> 2)
                    then Inl (stateErr ErrInvalidState)
                    else Inr (of_be_bytes decoded))"

text \<open>\<^verbatim>\<open>durable.parseUUID\<close>, which accepts both cases of the hexadecimal letters.\<close>

definition durable_parseUUID :: "gostring \<Rightarrow> bytes16 result" where
  "durable_parseUUID s =
     (if \<not> uuid_layout s then Inl (durableErr ErrInvalidAcceptance)
      else case hex_DecodeString (uuid_compact s) of
             None \<Rightarrow> Inl (durableErr ErrInvalidAcceptance)
           | Some decoded \<Rightarrow>
               if length decoded \<noteq> 16 then Inl (durableErr ErrInvalidAcceptance)
               else if of_be_bytes decoded = (0 :: bytes16) then Inl (durableErr ErrInvalidAcceptance)
               else Inr (of_be_bytes decoded))"

text \<open>The version and variant bits of a random UUID:
  \<^verbatim>\<open>value[6] = value[6]&0x0f | 0x40; value[8] = value[8]&0x3f | 0x80\<close>.\<close>

definition stampV4 :: "byte list \<Rightarrow> byte list" where
  "stampV4 bs =
     (let bs' = bs[6 := (bs ! 6 AND 0x0f) OR 0x40] in bs'[8 := (bs' ! 8 AND 0x3f) OR 0x80])"

subsection \<open>Nonces, tokens, verifiers and keys\<close>

definition replayNonceEncodedLength :: nat where "replayNonceEncodedLength = 22"
definition opaqueTokenPrefix :: gostring where "opaqueTokenPrefix = str ''mso1_''"
definition opaqueTokenBodyLength :: nat where "opaqueTokenBodyLength = 43"
definition keyIDMaxBytes :: nat where "keyIDMaxBytes = 128"

definition ParseReplayNonce :: "gostring \<Rightarrow> ReplayNonce result" where
  "ParseReplayNonce s =
     (if length s \<noteq> replayNonceEncodedLength \<or> strings_Contains s (str ''='')
      then Inl (stateErr ErrInvalidState)
      else case base64_DecodeString s of
             None \<Rightarrow> Inl (stateErr ErrInvalidState)
           | Some decoded \<Rightarrow>
               if length decoded \<noteq> 16 \<or> base64_EncodeToString decoded \<noteq> s
               then Inl (stateErr ErrInvalidState)
               else Inr (of_be_bytes decoded))"

definition ParseOpaqueDestinationToken :: "gostring \<Rightarrow> OpaqueDestinationToken result" where
  "ParseOpaqueDestinationToken s =
     (if length s \<noteq> length opaqueTokenPrefix + opaqueTokenBodyLength \<or> \<not> HasPrefix s opaqueTokenPrefix
      then Inl (stateErr ErrInvalidState)
      else let body = drop (length opaqueTokenPrefix) s in
           case base64_DecodeString body of
             None \<Rightarrow> Inl (stateErr ErrInvalidState)
           | Some decoded \<Rightarrow>
               if length decoded \<noteq> 32 \<or> base64_EncodeToString decoded \<noteq> body
               then Inl (stateErr ErrInvalidState)
               else Inr (of_be_bytes decoded))"

record TokenVerifier =
  tv_bytes :: bytes32
  tv_present :: bool

definition zeroTokenVerifier :: TokenVerifier where
  "zeroTokenVerifier = \<lparr>tv_bytes = 0, tv_present = False\<rparr>"

definition NewTokenVerifier :: "byte list \<Rightarrow> TokenVerifier result" where
  "NewTokenVerifier bs =
     (if length bs \<noteq> 32 then Inl (stateErr ErrInvalidState)
      else Inr \<lparr>tv_bytes = of_be_bytes bs, tv_present = True\<rparr>)"

definition TokenVerifier_IsZero :: "TokenVerifier \<Rightarrow> bool" where
  "TokenVerifier_IsZero v = (\<not> tv_present v)"

definition NewAuthenticationSecret :: "byte list \<Rightarrow> AuthenticationSecret result" where
  "NewAuthenticationSecret bs =
     (if length bs \<noteq> 32 then Inl (stateErr ErrInvalidState) else Inr (of_be_bytes bs))"

definition NewDestinationVerifierKey :: "byte list \<Rightarrow> DestinationVerifierKey result" where
  "NewDestinationVerifierKey bs =
     (if length bs < 32 then Inl (stateErr ErrInvalidState) else Inr bs)"

definition validKeyID :: "gostring \<Rightarrow> bool" where
  "validKeyID s = (s \<noteq> [] \<and> utf8_Valid s \<and> length s \<le> keyIDMaxBytes)"

definition NewDestinationVerifierKeyID :: "gostring \<Rightarrow> DestinationVerifierKeyID result" where
  "NewDestinationVerifierKeyID s = (if \<not> validKeyID s then Inl (stateErr ErrInvalidState) else Inr s)"

subsection \<open>Lower-case hexadecimal is canonical\<close>

lemma lower_hex_digit:
  assumes "fromHexChar c = Some v" "toLowerASCII c = c"
  shows "hexDigit v = c \<and> v < 16"
proof -
  have "c < 103"
    using assms(1) by (auto simp: fromHexChar_def word_le_nat_alt word_less_nat_alt split: if_splits)
  then have "toLowerASCII c = c \<longrightarrow> (case fromHexChar c of None \<Rightarrow> True | Some v \<Rightarrow> hexDigit v = c \<and> v < 16)"
    by (intro byte_less_cases [of c 103 "\<lambda>c. toLowerASCII c = c \<longrightarrow>
          (case fromHexChar c of None \<Rightarrow> True | Some v \<Rightarrow> hexDigit v = c \<and> v < 16)"]) (simp, simp, code_simp)
  with assms show ?thesis by simp
qed

lemma hexDigit_lower: "n < 16 \<Longrightarrow> toLowerASCII (hexDigit n) = hexDigit n"
  by (rule byte_less_cases [of n 16]) (simp, simp, code_simp)

lemma small_nibble_bits: "a < 16 \<Longrightarrow> \<not> bit a 4 \<and> \<not> bit a 5 \<and> \<not> bit a 6 \<and> \<not> bit (a :: byte) 7"
  by (rule byte_less_cases [of a 16]) (simp, simp, code_simp)

lemma split_nibbles:
  assumes "a < 16" "b < (16 :: byte)"
  shows "drop_bit 4 (push_bit 4 a OR b) = a" "(push_bit 4 a OR b) AND 15 = b"
  using small_nibble_bits [OF assms(1)] small_nibble_bits [OF assms(2)]
  by (intro byte_eqI; simp add: byte_bit_simps)+

lemma hex_canonical:
  "hex_DecodeString s = Some bs \<Longrightarrow> strings_ToLower s = s \<Longrightarrow> hex_EncodeToString bs = s"
proof (induction s arbitrary: bs rule: hex_DecodeString.induct)
  case (3 p q cs)
  from "3.prems"(1) obtain a b rest where
    ab: "fromHexChar p = Some a" "fromHexChar q = Some b"
    and rest: "hex_DecodeString cs = Some rest" and bs: "bs = (push_bit 4 a OR b) # rest"
    by (auto split: option.splits)
  from "3.prems"(2) have low: "toLowerASCII p = p" "toLowerASCII q = q" "strings_ToLower cs = cs"
    by (simp_all add: strings_ToLower_def)
  have "hex_EncodeToString rest = cs"
    using "3.IH" [OF _ ab(1) ab(2)] rest low(3) by blast
  with lower_hex_digit [OF ab(1) low(1)] lower_hex_digit [OF ab(2) low(2)] show ?case
    by (simp add: bs split_nibbles del: drop_bit_or)
qed simp_all

lemma hex_EncodeToString_lower: "strings_ToLower (hex_EncodeToString bs) = hex_EncodeToString bs"
  by (induction bs) (simp_all add: strings_ToLower_def hexDigit_lower nibble_bounds)

lemma take_hex: "hex_EncodeToString (take n bs) = take (2 * n) (hex_EncodeToString bs)"
  by (induction bs arbitrary: n) (simp_all add: take_Cons' numeral_2_eq_2 split: nat.splits)

lemma drop_hex: "hex_EncodeToString (drop n bs) = drop (2 * n) (hex_EncodeToString bs)"
proof -
  have "hex_EncodeToString (take n bs) @ hex_EncodeToString (drop n bs) =
        take (2 * n) (hex_EncodeToString bs) @ drop (2 * n) (hex_EncodeToString bs)"
    by (simp flip: hex_EncodeToString_append)
  then show ?thesis by (simp only: take_hex same_append_eq)
qed

subsection \<open>UUID round trips\<close>

lemma uuid_layout_split:
  assumes "uuid_layout s"
  shows "s = take 8 s @ [45] @ take 4 (drop 9 s) @ [45] @ take 4 (drop 14 s) @ [45] @
             take 4 (drop 19 s) @ [45] @ drop 24 s"
proof -
  have cut: "take n (drop i s) @ [45] @ drop (Suc (i + n)) s = drop i s"
    if "i + n < length s" "s ! (i + n) = 45" for i n
    using id_take_nth_drop [of n "drop i s"] that by (simp add: ac_simps)
  from assms have "length s = 36" "s ! 8 = 45" "s ! 13 = 45" "s ! 18 = 45" "s ! 23 = 45"
    by (simp_all add: uuid_layout_def)
  then have "take 8 s @ [45] @ drop 9 s = s" "take 4 (drop 9 s) @ [45] @ drop 14 s = drop 9 s"
    "take 4 (drop 14 s) @ [45] @ drop 19 s = drop 14 s"
    "take 4 (drop 19 s) @ [45] @ drop 24 s = drop 19 s"
    using cut [of 0 8] cut [of 9 4] cut [of 14 4] cut [of 19 4] by simp_all
  then show ?thesis by (simp only: append_assoc)
qed

lemma uuid_compact_join:
  "length a = 8 \<Longrightarrow> length b = 4 \<Longrightarrow> length c = 4 \<Longrightarrow> length d = 4 \<Longrightarrow> length e = 12 \<Longrightarrow>
   uuid_layout (a @ [45] @ b @ [45] @ c @ [45] @ d @ [45] @ e) \<and>
   uuid_compact (a @ [45] @ b @ [45] @ c @ [45] @ d @ [45] @ e) = a @ b @ c @ d @ e"
  by (simp add: uuid_layout_def uuid_compact_def nth_append)

lemma formatUUID_parts:
  "formatUUID v =
     (let h = hex_EncodeToString (be_bytes 16 v) in
      take 8 h @ [45] @ take 4 (drop 8 h) @ [45] @ take 4 (drop 12 h) @ [45] @
      take 4 (drop 16 h) @ [45] @ drop 20 h)"
  by (simp add: formatUUID_def Let_def take_hex drop_hex)

lemma take_drop_parts:
  "take 8 h @ take 4 (drop 8 h) @ take 4 (drop 12 h) @ take 4 (drop 16 h) @ drop 20 h = h"
proof -
  have "take n (drop i h) @ drop (n + i) h = drop i h" for n i
    using append_take_drop_id [of n "drop i h"] by (simp only: drop_drop)
  from this [of 8 0] this [of 4 8] this [of 4 12] this [of 4 16] show ?thesis by simp
qed

lemma formatUUID_layout:
  "uuid_layout (formatUUID v)" "uuid_compact (formatUUID v) = hex_EncodeToString (be_bytes 16 v)"
  "strings_ToLower (formatUUID v) = formatUUID v"
proof -
  let ?h = "hex_EncodeToString (be_bytes 16 v)"
  have "uuid_layout (formatUUID v) \<and> uuid_compact (formatUUID v) =
      take 8 ?h @ take 4 (drop 8 ?h) @ take 4 (drop 12 ?h) @ take 4 (drop 16 ?h) @ drop 20 ?h"
    unfolding formatUUID_parts Let_def by (rule uuid_compact_join) simp_all
  then show "uuid_layout (formatUUID v)" "uuid_compact (formatUUID v) = ?h"
    by (simp_all only: take_drop_parts)
  show "strings_ToLower (formatUUID v) = formatUUID v"
    using hex_EncodeToString_lower
    by (simp add: formatUUID_def Let_def strings_ToLower_def toLowerASCII_def)
qed

lemma formatUUID_compact:
  assumes "uuid_layout s" and "hex_EncodeToString (be_bytes 16 v) = uuid_compact s"
  shows "formatUUID v = s"
proof -
  from assms(1) have len: "length s = 36" by (simp add: uuid_layout_def)
  have "formatUUID v = take 8 s @ [45] @ take 4 (drop 9 s) @ [45] @ take 4 (drop 14 s) @ [45] @
             take 4 (drop 19 s) @ [45] @ drop 24 s"
    by (simp add: formatUUID_parts assms(2) uuid_compact_def Let_def len)
  with uuid_layout_split [OF assms(1)] show ?thesis by simp
qed

lemma formatUUID_inject [simp]: "formatUUID v = formatUUID w \<longleftrightarrow> v = w"
proof
  assume "formatUUID v = formatUUID w"
  then have "hex_EncodeToString (be_bytes 16 v) = hex_EncodeToString (be_bytes 16 w)"
    by (metis formatUUID_layout(2))
  then have "be_bytes 16 v = be_bytes 16 w" by (metis hex_roundtrip option.inject)
  then show "v = w" by (simp add: be_bytes_inject)
qed simp

lemma durable_parseUUID_formatUUID: "v \<noteq> 0 \<Longrightarrow> durable_parseUUID (formatUUID v) = Inr v"
  by (simp add: durable_parseUUID_def formatUUID_layout hex_roundtrip of_be_bytes_be_bytes)

lemma parseUUID_formatUUID: "v \<noteq> 0 \<Longrightarrow> parseUUID (formatUUID v) False = Inr v"
  by (simp add: parseUUID_def formatUUID_layout hex_roundtrip of_be_bytes_be_bytes)

text \<open>A version-4 identifier, as the bytes of the identifier.\<close>

definition versionFour :: "bytes16 \<Rightarrow> bool" where
  "versionFour v = (drop_bit 4 (be_bytes 16 v ! 6) = 4 \<and> drop_bit 6 (be_bytes 16 v ! 8) = 2)"

lemma parseUUID_success:
  assumes "parseUUID s r = Inr v"
  shows "formatUUID v = s" "v \<noteq> 0" "r \<Longrightarrow> versionFour v"
proof -
  from assms obtain bs where
    lay: "uuid_layout s" "strings_ToLower s = s" and dec: "hex_DecodeString (uuid_compact s) = Some bs"
    and len: "length bs = 16" and v: "v = of_be_bytes bs" and nz: "v \<noteq> 0"
    and v4: "r \<longrightarrow> drop_bit 4 (bs ! 6) = 4 \<and> drop_bit 6 (bs ! 8) = 2"
    by (auto simp: parseUUID_def split: if_splits option.splits)
  have be: "be_bytes 16 v = bs" using len by (simp add: v be_bytes_of_be_bytes)
  have "strings_ToLower (uuid_compact s) = uuid_compact s"
    using lay(2) unfolding strings_ToLower_def uuid_compact_def
    by (simp flip: take_map drop_map)
  with dec have "hex_EncodeToString bs = uuid_compact s" by (rule hex_canonical)
  with lay(1) be show "formatUUID v = s" by (intro formatUUID_compact) simp_all
  show "v \<noteq> 0" by fact
  show "r \<Longrightarrow> versionFour v" using v4 by (simp add: versionFour_def be)
qed

text \<open>C11. The text of an identifier accepted by the parser of the security state is exactly the
  canonical lower-case form that \<^verbatim>\<open>String\<close> prints of a non-zero identifier, and of a version-4
  one where the parser requires it: parsing is injective and printing is its inverse.\<close>

theorem parseUUID_canonical:
  "parseUUID s r = Inr v \<longleftrightarrow> s = formatUUID v \<and> v \<noteq> 0 \<and> (r \<longrightarrow> versionFour v)"
proof
  show "parseUUID s r = Inr v \<Longrightarrow> s = formatUUID v \<and> v \<noteq> 0 \<and> (r \<longrightarrow> versionFour v)"
    using parseUUID_success by blast
  show "s = formatUUID v \<and> v \<noteq> 0 \<and> (r \<longrightarrow> versionFour v) \<Longrightarrow> parseUUID s r = Inr v"
    by (auto simp: parseUUID_def formatUUID_layout hex_roundtrip of_be_bytes_be_bytes versionFour_def)
qed

theorem parseUUID_canonical_witness:
  "parseUUID (str ''0f1e2d3c-4b5a-4978-8796-a5b4c3d2e1f0'') True = Inr 0x0f1e2d3c4b5a49788796a5b4c3d2e1f0"
proof -
  have "str ''0f1e2d3c-4b5a-4978-8796-a5b4c3d2e1f0'' = formatUUID 0x0f1e2d3c4b5a49788796a5b4c3d2e1f0"
    by code_simp
  moreover have "versionFour 0x0f1e2d3c4b5a49788796a5b4c3d2e1f0" by code_simp
  ultimately show ?thesis by (simp add: parseUUID_canonical)
qed

lemma stampV4_version:
  assumes "length bs = 16"
  shows "versionFour (of_be_bytes (stampV4 bs))" "of_be_bytes (stampV4 bs) \<noteq> (0 :: bytes16)"
    "length (stampV4 bs) = 16"
proof -
  have nib: "drop_bit 4 ((b AND 0x0f) OR 0x40) = (4 :: byte)"
    "drop_bit 6 ((b AND 0x3f) OR 0x80) = (2 :: byte)" for b :: byte
    by (intro byte_eqI; simp add: byte_bit_simps)+
  show len: "length (stampV4 bs) = 16" using assms by (simp add: stampV4_def Let_def)
  have be: "be_bytes 16 (of_be_bytes (stampV4 bs) :: bytes16) = stampV4 bs"
    by (rule be_bytes_of_be_bytes) (simp_all add: len)
  show v4: "versionFour (of_be_bytes (stampV4 bs))"
    unfolding versionFour_def be using assms nib by (simp add: stampV4_def Let_def)
  have "be_bytes 16 (0 :: bytes16) = replicate 16 0"
    by (simp add: eval_nat_numeral)
  then have "\<not> versionFour 0" by (simp add: versionFour_def)
  with v4 show "of_be_bytes (stampV4 bs) \<noteq> (0 :: bytes16)" by metis
qed

subsection \<open>Nonce and token round trips\<close>

definition formatReplayNonce :: "ReplayNonce \<Rightarrow> gostring" where
  "formatReplayNonce n = base64_EncodeToString (be_bytes 16 n)"

definition formatOpaqueDestinationToken :: "OpaqueDestinationToken \<Rightarrow> gostring" where
  "formatOpaqueDestinationToken t = opaqueTokenPrefix @ base64_EncodeToString (be_bytes 32 t)"

lemma strings_Index_byte: "c \<notin> set s \<Longrightarrow> strings_Index s [c] = None"
  by (induction s) (auto simp: HasPrefix_def)

lemma no_padding: "\<not> strings_Contains (base64_EncodeToString bs) (str ''='')"
proof -
  have eq: "str ''='' = [61]" by (simp add: str_def)
  have "61 \<notin> set (base64_EncodeToString bs)" using base64_alphabet by blast
  then show ?thesis unfolding eq by (simp add: strings_Contains_def strings_Index_byte)
qed

lemma ParseReplayNonce_iff: "ParseReplayNonce s = Inr n \<longleftrightarrow> s = formatReplayNonce n"
proof
  assume "ParseReplayNonce s = Inr n"
  then show "s = formatReplayNonce n"
    by (auto simp: ParseReplayNonce_def formatReplayNonce_def be_bytes_of_be_bytes
        split: if_splits option.splits)
next
  show "s = formatReplayNonce n \<Longrightarrow> ParseReplayNonce s = Inr n"
    by (simp add: ParseReplayNonce_def formatReplayNonce_def replayNonceEncodedLength_def
        length_base64_EncodeToString base64_roundtrip no_padding of_be_bytes_be_bytes)
qed

text \<open>C12. The texts accepted as destination tokens are exactly the issued texts: the prefix
  followed by the unpadded URL-safe encoding of 32 bytes, one text for each token.\<close>

theorem ParseOpaqueDestinationToken_iff:
  "ParseOpaqueDestinationToken s = Inr t \<longleftrightarrow> s = formatOpaqueDestinationToken t"
proof
  assume parsed: "ParseOpaqueDestinationToken s = Inr t"
  then have "take (length opaqueTokenPrefix) s = opaqueTokenPrefix"
    by (auto simp: ParseOpaqueDestinationToken_def HasPrefix_def split: if_splits)
  then have "s = opaqueTokenPrefix @ drop (length opaqueTokenPrefix) s"
    using append_take_drop_id [of "length opaqueTokenPrefix" s] by simp
  with parsed show "s = formatOpaqueDestinationToken t"
    by (auto simp: ParseOpaqueDestinationToken_def formatOpaqueDestinationToken_def Let_def
        be_bytes_of_be_bytes split: if_splits option.splits)
next
  show "s = formatOpaqueDestinationToken t \<Longrightarrow> ParseOpaqueDestinationToken s = Inr t"
    by (simp add: ParseOpaqueDestinationToken_def formatOpaqueDestinationToken_def Let_def
        opaqueTokenBodyLength_def HasPrefix_def length_base64_EncodeToString base64_roundtrip
        of_be_bytes_be_bytes)
qed

end
