(* ===== verification/Go_Time.thy ===== *)
theory Go_Time
  imports Gateway_Prelude
begin

section \<open>Instants and durations\<close>

text \<open>
  A \<^verbatim>\<open>time.Time\<close> is an instant: the nanoseconds since the zero time (January 1, year 1,
  UTC), an integer. Locations and monotonic clock readings are left out: every
  comparison of the modelled code is by instant. A \<^verbatim>\<open>time.Duration\<close> is a number of
  nanoseconds in the range of \<^verbatim>\<open>int64\<close>; \<^verbatim>\<open>Time.Sub\<close> saturates at its ends.
\<close>

type_synonym time = int
type_synonym duration = int

definition IsZero :: "time \<Rightarrow> bool" where
  "IsZero t = (t = 0)"

definition Before :: "time \<Rightarrow> time \<Rightarrow> bool" where
  "Before t u = (t < u)"

definition After :: "time \<Rightarrow> time \<Rightarrow> bool" where
  "After t u = (u < t)"

definition Add :: "time \<Rightarrow> duration \<Rightarrow> time" where
  "Add t d = t + d"

definition minDuration :: duration where "minDuration = - (2 ^ 63)"
definition maxDuration :: duration where "maxDuration = 2 ^ 63 - 1"

definition Sub :: "time \<Rightarrow> time \<Rightarrow> duration" where
  "Sub t u = max minDuration (min maxDuration (t - u))"

definition Microsecond :: duration where "Microsecond = 1000"
definition Second :: duration where "Second = 1000000000"
definition Minute :: duration where "Minute = 60 * Second"
definition Hour :: duration where "Hour = 60 * Minute"

text \<open>\<^verbatim>\<open>Time.Truncate\<close> rounds down to a multiple of the duration since the zero time.\<close>

definition Truncate :: "time \<Rightarrow> duration \<Rightarrow> time" where
  "Truncate t d = (if d \<le> 0 then t else t - t mod d)"

text \<open>Seconds from the zero time to January 1, 1970.\<close>

definition unixToInternal :: int where "unixToInternal = 62135596800"

definition Unix :: "time \<Rightarrow> int" where
  "Unix t = t div Second - unixToInternal"

lemmas duration_defs = Microsecond_def Second_def Minute_def Hour_def
lemmas time_defs = IsZero_def Before_def After_def Add_def

lemma Sub_le_iff: "minDuration \<le> d \<Longrightarrow> d < maxDuration \<Longrightarrow> Sub t u \<le> d \<longleftrightarrow> t - u \<le> d"
  by (auto simp: Sub_def max_def min_def)

lemma Truncate_microsecond: "Truncate t Microsecond = t - t mod 1000"
  by (simp add: Truncate_def Microsecond_def)

lemma Truncate_le: "Truncate t Microsecond \<le> t"
  by (simp add: Truncate_microsecond)

lemma Truncate_mono: "t \<le> u \<Longrightarrow> Truncate t Microsecond \<le> Truncate u Microsecond"
  by (simp add: Truncate_microsecond minus_mod_eq_div_mult zdiv_mono1)

lemma Truncate_idem [simp]: "Truncate (Truncate t Microsecond) Microsecond = Truncate t Microsecond"
  by (simp add: Truncate_microsecond minus_mod_eq_div_mult)

text \<open>Truncation moves a difference by less than a microsecond, so a limit that is a whole
  number of microseconds survives it.\<close>

lemma Truncate_diff_le:
  assumes "u - t \<le> d" "d mod 1000 = 0"
  shows "Truncate u Microsecond - Truncate t Microsecond \<le> d"
proof -
  have d: "d = 1000 * (d div 1000)"
    using assms(2) mult_div_mod_eq [of 1000 d] by linarith
  have u: "u = 1000 * (u div 1000) + u mod 1000" and t: "t = 1000 * (t div 1000) + t mod 1000"
    by simp_all
  have "0 \<le> u mod 1000" "t mod 1000 < 1000" by simp_all
  with assms(1) d u t have "u div 1000 - t div 1000 \<le> d div 1000" by linarith
  with d u t show ?thesis unfolding Truncate_microsecond by linarith
qed

lemma Truncate_strict:
  assumes "t + 1000 \<le> u"
  shows "Truncate t Microsecond < Truncate u Microsecond"
proof -
  have "u mod 1000 < 1000" "0 \<le> t mod 1000" by simp_all
  with assms show ?thesis unfolding Truncate_microsecond by linarith
qed

end
