(* ===== verification/Security_State.thy ===== *)
theory Security_State
  imports Identifiers Go_Time
begin

section \<open>Durable security state\<close>

text \<open>
  The value types of \<^verbatim>\<open>internal/securitystate/types.go\<close>: principals, credential slots,
  credentials, destinations and destination tokens, with the validators that every
  constructor runs and the time windows in which a credential or a token may be used.
  An enumeration is a Go \<^verbatim>\<open>uint8\<close>; the last constructor of each datatype stands for the
  values outside the declared constants, the zero value included.
\<close>

definition credentialMaxLifetime :: duration where "credentialMaxLifetime = 90 * 24 * Hour"
definition credentialMaxOverlap :: duration where "credentialMaxOverlap = 24 * Hour"
definition tokenMaxLifetime :: duration where "tokenMaxLifetime = 90 * 24 * Hour"
definition tokenMaxCleanup :: duration where "tokenMaxCleanup = 24 * Hour"
definition tokenMaxOverlap :: duration where "tokenMaxOverlap = 24 * Hour"

lemmas lifetime_defs = credentialMaxLifetime_def credentialMaxOverlap_def tokenMaxLifetime_def
  tokenMaxCleanup_def tokenMaxOverlap_def

subsection \<open>Principals and credential slots\<close>

record Principal =
  pr_audienceID :: GatewayAudienceID
  pr_id :: CorePrincipalID
  pr_enabled :: bool
  pr_intakeAuthorized :: bool
  pr_createdAt :: time
  pr_stateChangedAt :: time

definition NewPrincipal ::
  "GatewayAudienceID \<Rightarrow> CorePrincipalID \<Rightarrow> bool \<Rightarrow> bool \<Rightarrow> time \<Rightarrow> time \<Rightarrow> Principal result" where
  "NewPrincipal audienceID id' enabled intakeAuthorized createdAt stateChangedAt =
     (if audienceID = 0 \<or> id' = 0 \<or> IsZero createdAt \<or> Before stateChangedAt createdAt
      then Inl (stateErr ErrInvalidState)
      else Inr \<lparr>pr_audienceID = audienceID, pr_id = id', pr_enabled = enabled,
                pr_intakeAuthorized = intakeAuthorized, pr_createdAt = createdAt,
                pr_stateChangedAt = stateChangedAt\<rparr>)"

definition AuthorizesIntake :: "Principal \<Rightarrow> GatewayAudienceID \<Rightarrow> bool" where
  "AuthorizesIntake p audienceID =
     (audienceID \<noteq> 0 \<and> audienceID = pr_audienceID p \<and> pr_enabled p \<and> pr_intakeAuthorized p)"

record CredentialSlot =
  sl_audienceID :: GatewayAudienceID
  sl_principalID :: CorePrincipalID
  sl_id :: CredentialSlotID
  sl_createdAt :: time

definition NewCredentialSlot ::
  "GatewayAudienceID \<Rightarrow> Principal \<Rightarrow> CredentialSlotID \<Rightarrow> time \<Rightarrow> CredentialSlot result" where
  "NewCredentialSlot audienceID p id' createdAt =
     (if audienceID = 0 \<or> pr_audienceID p \<noteq> audienceID \<or> pr_id p = 0 \<or> id' = 0 \<or>
         IsZero createdAt
      then if audienceID \<noteq> 0 \<and> pr_audienceID p \<noteq> 0 \<and> pr_audienceID p \<noteq> audienceID
           then Inl (stateErr ErrAudienceMismatch)
           else Inl (stateErr ErrInvalidState)
      else Inr \<lparr>sl_audienceID = audienceID, sl_principalID = pr_id p, sl_id = id',
                sl_createdAt = createdAt\<rparr>)"

subsection \<open>The shared lifecycle history\<close>

text \<open>\<^verbatim>\<open>validateLifecycleHistory\<close>; \<open>None\<close> is the nil error.\<close>

definition validateLifecycleHistory ::
  "time \<Rightarrow> time \<Rightarrow> time \<Rightarrow> time \<Rightarrow> time \<Rightarrow> time \<Rightarrow> duration \<Rightarrow> go_error option" where
  "validateLifecycleHistory createdAt stateChangedAt activatedAt retirementStartedAt
     retirementDeadline revokedAt maxRetirementOverlap =
     (if IsZero createdAt \<or> Before stateChangedAt createdAt then Some (stateErr ErrInvalidState)
      else if \<not> IsZero activatedAt \<and> (Before activatedAt createdAt \<or> After activatedAt stateChangedAt)
      then Some (stateErr ErrInvalidState)
      else if IsZero retirementStartedAt \<noteq> IsZero retirementDeadline
      then Some (stateErr ErrInvalidState)
      else if \<not> IsZero retirementStartedAt \<and>
        (IsZero activatedAt \<or> Before retirementStartedAt activatedAt \<or>
         After retirementStartedAt stateChangedAt \<or>
         \<not> After retirementDeadline retirementStartedAt \<or>
         Sub retirementDeadline retirementStartedAt > maxRetirementOverlap)
      then Some (stateErr ErrInvalidState)
      else if \<not> IsZero revokedAt \<and> (Before revokedAt createdAt \<or> After revokedAt stateChangedAt)
      then Some (stateErr ErrInvalidState)
      else None)"

subsection \<open>Credentials\<close>

datatype CredentialState =
    CredentialDisabled
  | CredentialActive
  | CredentialRetiring
  | CredentialRevoked
  | CredentialStateUndeclared

record CredentialSpec =
  cs_AudienceID :: GatewayAudienceID
  cs_Principal :: Principal
  cs_Slot :: CredentialSlot
  cs_RecordID :: CredentialRecordID
  cs_PublicID :: CredentialID
  cs_State :: CredentialState
  cs_NotBefore :: time
  cs_ExpiresAt :: time
  cs_ActivatedAt :: time
  cs_RetirementStartedAt :: time
  cs_RetirementDeadline :: time
  cs_RevokedAt :: time
  cs_CreatedAt :: time
  cs_StateChangedAt :: time

definition validateCredentialSpec :: "CredentialSpec \<Rightarrow> go_error option" where
  "validateCredentialSpec spec =
     (if cs_AudienceID spec = 0 \<or> pr_audienceID (cs_Principal spec) \<noteq> cs_AudienceID spec \<or>
         sl_audienceID (cs_Slot spec) \<noteq> cs_AudienceID spec \<or>
         sl_principalID (cs_Slot spec) \<noteq> pr_id (cs_Principal spec)
      then if cs_AudienceID spec \<noteq> 0 \<and>
              (pr_audienceID (cs_Principal spec) \<noteq> 0 \<and>
               pr_audienceID (cs_Principal spec) \<noteq> cs_AudienceID spec \<or>
               sl_audienceID (cs_Slot spec) \<noteq> 0 \<and>
               sl_audienceID (cs_Slot spec) \<noteq> cs_AudienceID spec)
           then Some (stateErr ErrAudienceMismatch)
           else Some (stateErr ErrInvalidState)
      else if cs_RecordID spec = 0 \<or> cs_PublicID spec = 0 \<or> sl_id (cs_Slot spec) = 0 \<or>
         IsZero (cs_CreatedAt spec) \<or> Before (cs_NotBefore spec) (cs_CreatedAt spec) \<or>
         \<not> After (cs_ExpiresAt spec) (cs_NotBefore spec) \<or>
         Sub (cs_ExpiresAt spec) (cs_NotBefore spec) > credentialMaxLifetime
      then Some (stateErr ErrInvalidState)
      else if validateLifecycleHistory (cs_CreatedAt spec) (cs_StateChangedAt spec)
                (cs_ActivatedAt spec) (cs_RetirementStartedAt spec) (cs_RetirementDeadline spec)
                (cs_RevokedAt spec) credentialMaxOverlap \<noteq> None
      then Some (stateErr ErrInvalidState)
      else case cs_State spec of
        CredentialDisabled \<Rightarrow>
          if \<not> IsZero (cs_RevokedAt spec) then Some (stateErr ErrInvalidState) else None
      | CredentialActive \<Rightarrow>
          if IsZero (cs_ActivatedAt spec) \<or> \<not> IsZero (cs_RetirementStartedAt spec) \<or>
             \<not> IsZero (cs_RetirementDeadline spec) \<or> \<not> IsZero (cs_RevokedAt spec)
          then Some (stateErr ErrInvalidState) else None
      | CredentialRetiring \<Rightarrow>
          if IsZero (cs_ActivatedAt spec) \<or> IsZero (cs_RetirementStartedAt spec) \<or>
             \<not> IsZero (cs_RevokedAt spec)
          then Some (stateErr ErrInvalidState) else None
      | CredentialRevoked \<Rightarrow>
          if IsZero (cs_RevokedAt spec) then Some (stateErr ErrInvalidState) else None
      | CredentialStateUndeclared \<Rightarrow> Some (stateErr ErrInvalidState))"

definition NewCredential :: "CredentialSpec \<Rightarrow> CredentialSpec result" where
  "NewCredential spec = (case validateCredentialSpec spec of Some e \<Rightarrow> Inl e | None \<Rightarrow> Inr spec)"

definition Credential_UsableAt :: "CredentialSpec \<Rightarrow> time \<Rightarrow> bool" where
  "Credential_UsableAt spec now =
     (if cs_State spec \<noteq> CredentialActive \<and> cs_State spec \<noteq> CredentialRetiring then False
      else if Before now (cs_NotBefore spec) \<or> Before now (cs_ActivatedAt spec) \<or>
              \<not> Before now (cs_ExpiresAt spec) then False
      else cs_State spec \<noteq> CredentialRetiring \<or> Before now (cs_RetirementDeadline spec))"

subsection \<open>Destinations and destination tokens\<close>

datatype DestinationState = DestinationEnabled | DestinationDisabled | DestinationStateUndeclared

record Destination =
  de_audienceID :: GatewayAudienceID
  de_id :: DestinationID
  de_state :: DestinationState
  de_createdAt :: time
  de_stateChangedAt :: time

definition zeroDestination :: Destination where
  "zeroDestination = \<lparr>de_audienceID = 0, de_id = 0, de_state = DestinationStateUndeclared,
     de_createdAt = 0, de_stateChangedAt = 0\<rparr>"

definition NewDestination ::
  "GatewayAudienceID \<Rightarrow> DestinationID \<Rightarrow> DestinationState \<Rightarrow> time \<Rightarrow> time \<Rightarrow> Destination result" where
  "NewDestination audienceID id' st createdAt stateChangedAt =
     (if audienceID = 0 \<or> id' = 0 \<or> st \<noteq> DestinationEnabled \<and> st \<noteq> DestinationDisabled \<or>
         IsZero createdAt \<or> Before stateChangedAt createdAt
      then Inl (stateErr ErrInvalidState)
      else Inr \<lparr>de_audienceID = audienceID, de_id = id', de_state = st, de_createdAt = createdAt,
                de_stateChangedAt = stateChangedAt\<rparr>)"

definition Destination_Enabled :: "Destination \<Rightarrow> bool" where
  "Destination_Enabled d = (de_state d = DestinationEnabled)"

datatype DestinationTokenState =
    DestinationTokenStaged
  | DestinationTokenActive
  | DestinationTokenRetiring
  | DestinationTokenRevoked
  | DestinationTokenStateUndeclared

record DestinationTokenSpec =
  ts_AudienceID :: GatewayAudienceID
  ts_Destination :: Destination
  ts_RecordID :: DestinationTokenRecordID
  ts_Verifier :: TokenVerifier
  ts_VerifierKeyID :: DestinationVerifierKeyID
  ts_State :: DestinationTokenState
  ts_CreatedAt :: time
  ts_ActivatedAt :: time
  ts_RetirementStartedAt :: time
  ts_RevokedAt :: time
  ts_ExpiresAt :: time
  ts_StagedCleanupDeadline :: time
  ts_RetirementDeadline :: time
  ts_StateChangedAt :: time

definition validateDestinationTokenSpec :: "DestinationTokenSpec \<Rightarrow> go_error option" where
  "validateDestinationTokenSpec spec =
     (if ts_AudienceID spec = 0 \<or> de_audienceID (ts_Destination spec) \<noteq> ts_AudienceID spec
      then if ts_AudienceID spec \<noteq> 0 \<and> de_audienceID (ts_Destination spec) \<noteq> 0 \<and>
              de_audienceID (ts_Destination spec) \<noteq> ts_AudienceID spec
           then Some (stateErr ErrAudienceMismatch)
           else Some (stateErr ErrInvalidState)
      else if de_id (ts_Destination spec) = 0 \<or> ts_RecordID spec = 0 \<or>
         TokenVerifier_IsZero (ts_Verifier spec) \<or> ts_VerifierKeyID spec = [] \<or>
         IsZero (ts_CreatedAt spec) \<or> \<not> After (ts_ExpiresAt spec) (ts_CreatedAt spec) \<or>
         Sub (ts_ExpiresAt spec) (ts_CreatedAt spec) > tokenMaxLifetime \<or>
         \<not> After (ts_StagedCleanupDeadline spec) (ts_CreatedAt spec) \<or>
         Sub (ts_StagedCleanupDeadline spec) (ts_CreatedAt spec) > tokenMaxCleanup
      then Some (stateErr ErrInvalidState)
      else if validateLifecycleHistory (ts_CreatedAt spec) (ts_StateChangedAt spec)
                (ts_ActivatedAt spec) (ts_RetirementStartedAt spec) (ts_RetirementDeadline spec)
                (ts_RevokedAt spec) tokenMaxOverlap \<noteq> None
      then Some (stateErr ErrInvalidState)
      else case ts_State spec of
        DestinationTokenStaged \<Rightarrow>
          if \<not> IsZero (ts_ActivatedAt spec) \<or> \<not> IsZero (ts_RetirementStartedAt spec) \<or>
             \<not> IsZero (ts_RetirementDeadline spec) \<or> \<not> IsZero (ts_RevokedAt spec)
          then Some (stateErr ErrInvalidState) else None
      | DestinationTokenActive \<Rightarrow>
          if IsZero (ts_ActivatedAt spec) \<or> \<not> IsZero (ts_RetirementStartedAt spec) \<or>
             \<not> IsZero (ts_RetirementDeadline spec) \<or> \<not> IsZero (ts_RevokedAt spec)
          then Some (stateErr ErrInvalidState) else None
      | DestinationTokenRetiring \<Rightarrow>
          if IsZero (ts_ActivatedAt spec) \<or> IsZero (ts_RetirementStartedAt spec) \<or>
             \<not> IsZero (ts_RevokedAt spec)
          then Some (stateErr ErrInvalidState) else None
      | DestinationTokenRevoked \<Rightarrow>
          if IsZero (ts_RevokedAt spec) then Some (stateErr ErrInvalidState) else None
      | DestinationTokenStateUndeclared \<Rightarrow> Some (stateErr ErrInvalidState))"

definition NewDestinationToken :: "DestinationTokenSpec \<Rightarrow> DestinationTokenSpec result" where
  "NewDestinationToken spec =
     (case validateDestinationTokenSpec spec of Some e \<Rightarrow> Inl e | None \<Rightarrow> Inr spec)"

definition DestinationToken_UsableAt :: "DestinationTokenSpec \<Rightarrow> time \<Rightarrow> bool" where
  "DestinationToken_UsableAt spec now =
     (if \<not> Destination_Enabled (ts_Destination spec) \<or>
         ts_State spec \<noteq> DestinationTokenActive \<and> ts_State spec \<noteq> DestinationTokenRetiring \<or>
         Before now (ts_ActivatedAt spec) \<or> \<not> Before now (ts_ExpiresAt spec)
      then False
      else ts_State spec \<noteq> DestinationTokenRetiring \<or> Before now (ts_RetirementDeadline spec))"

subsection \<open>What a constructed value guarantees\<close>

lemma NewDestination_iff:
  "NewDestination a i st c ch = Inr d \<longleftrightarrow>
     a \<noteq> 0 \<and> i \<noteq> 0 \<and> (st = DestinationEnabled \<or> st = DestinationDisabled) \<and> c \<noteq> 0 \<and> c \<le> ch \<and>
     d = \<lparr>de_audienceID = a, de_id = i, de_state = st, de_createdAt = c, de_stateChangedAt = ch\<rparr>"
  by (auto simp: NewDestination_def time_defs)

lemma NewPrincipal_iff:
  "NewPrincipal a i e ia c ch = Inr p \<longleftrightarrow>
     a \<noteq> 0 \<and> i \<noteq> 0 \<and> c \<noteq> 0 \<and> c \<le> ch \<and>
     p = \<lparr>pr_audienceID = a, pr_id = i, pr_enabled = e, pr_intakeAuthorized = ia, pr_createdAt = c,
          pr_stateChangedAt = ch\<rparr>"
  by (auto simp: NewPrincipal_def time_defs)

text \<open>The declarative reading of the history and of a token's validity.\<close>

definition historyOK :: "time \<Rightarrow> time \<Rightarrow> time \<Rightarrow> time \<Rightarrow> time \<Rightarrow> time \<Rightarrow> duration \<Rightarrow> bool" where
  "historyOK created changed activated retirement deadline revoked overlap =
     (created \<noteq> 0 \<and> created \<le> changed \<and>
      (activated \<noteq> 0 \<longrightarrow> created \<le> activated \<and> activated \<le> changed) \<and>
      (retirement = 0 \<longleftrightarrow> deadline = 0) \<and>
      (retirement \<noteq> 0 \<longrightarrow> activated \<noteq> 0 \<and> activated \<le> retirement \<and> retirement \<le> changed \<and>
         retirement < deadline \<and> deadline - retirement \<le> overlap) \<and>
      (revoked \<noteq> 0 \<longrightarrow> created \<le> revoked \<and> revoked \<le> changed))"

lemma validateLifecycleHistory_iff:
  assumes "minDuration \<le> overlap" "overlap < maxDuration"
  shows "validateLifecycleHistory c ch a r d v overlap = None \<longleftrightarrow> historyOK c ch a r d v overlap"
  using Sub_le_iff [OF assms, of d r]
  by (auto simp: validateLifecycleHistory_def historyOK_def time_defs)

lemma historyOK_overlap:
  "validateLifecycleHistory c ch a r d v credentialMaxOverlap = None \<longleftrightarrow>
     historyOK c ch a r d v credentialMaxOverlap"
  "validateLifecycleHistory c ch a r d v tokenMaxOverlap = None \<longleftrightarrow>
     historyOK c ch a r d v tokenMaxOverlap"
  by (rule validateLifecycleHistory_iff; simp add: lifetime_defs duration_defs minDuration_def maxDuration_def)+

fun tokenStateOK :: "DestinationTokenState \<Rightarrow> time \<Rightarrow> time \<Rightarrow> time \<Rightarrow> bool" where
  "tokenStateOK DestinationTokenStaged a r v = (a = 0 \<and> r = 0 \<and> v = 0)"
| "tokenStateOK DestinationTokenActive a r v = (a \<noteq> 0 \<and> r = 0 \<and> v = 0)"
| "tokenStateOK DestinationTokenRetiring a r v = (a \<noteq> 0 \<and> r \<noteq> 0 \<and> v = 0)"
| "tokenStateOK DestinationTokenRevoked a r v = (v \<noteq> 0)"
| "tokenStateOK DestinationTokenStateUndeclared a r v = False"

definition tokenSpecOK :: "DestinationTokenSpec \<Rightarrow> bool" where
  "tokenSpecOK spec =
     (ts_AudienceID spec \<noteq> 0 \<and> de_audienceID (ts_Destination spec) = ts_AudienceID spec \<and>
      de_id (ts_Destination spec) \<noteq> 0 \<and> ts_RecordID spec \<noteq> 0 \<and> tv_present (ts_Verifier spec) \<and>
      ts_VerifierKeyID spec \<noteq> [] \<and>
      ts_CreatedAt spec < ts_ExpiresAt spec \<and>
      ts_ExpiresAt spec - ts_CreatedAt spec \<le> tokenMaxLifetime \<and>
      ts_CreatedAt spec < ts_StagedCleanupDeadline spec \<and>
      ts_StagedCleanupDeadline spec - ts_CreatedAt spec \<le> tokenMaxCleanup \<and>
      historyOK (ts_CreatedAt spec) (ts_StateChangedAt spec) (ts_ActivatedAt spec)
        (ts_RetirementStartedAt spec) (ts_RetirementDeadline spec) (ts_RevokedAt spec)
        tokenMaxOverlap \<and>
      tokenStateOK (ts_State spec) (ts_ActivatedAt spec) (ts_RetirementStartedAt spec)
        (ts_RevokedAt spec))"

lemma Sub_lifetimes:
  "Sub t u \<le> tokenMaxLifetime \<longleftrightarrow> t - u \<le> tokenMaxLifetime"
  "Sub t u \<le> tokenMaxCleanup \<longleftrightarrow> t - u \<le> tokenMaxCleanup"
  "Sub t u \<le> credentialMaxLifetime \<longleftrightarrow> t - u \<le> credentialMaxLifetime"
  by (rule Sub_le_iff; simp add: lifetime_defs duration_defs minDuration_def maxDuration_def)+

lemma validateDestinationTokenSpec_iff:
  "validateDestinationTokenSpec spec = None \<longleftrightarrow> tokenSpecOK spec"
proof -
  have ret: "historyOK c ch a r d v o' \<Longrightarrow> r = 0 \<longleftrightarrow> d = 0" for c ch a r d v o'
    by (simp add: historyOK_def)
  have created: "historyOK c ch a r d v o' \<Longrightarrow> c \<noteq> 0" for c ch a r d v o'
    by (simp add: historyOK_def)
  show ?thesis
    unfolding validateDestinationTokenSpec_def tokenSpecOK_def
    by (cases "ts_State spec")
      (auto simp: historyOK_overlap TokenVerifier_IsZero_def Sub_lifetimes time_defs not_less
        simp flip: not_le dest: ret created)
qed

lemma NewDestinationToken_iff:
  "NewDestinationToken spec = Inr t \<longleftrightarrow> tokenSpecOK spec \<and> t = spec"
  by (auto simp: NewDestinationToken_def simp flip: validateDestinationTokenSpec_iff split: option.splits)

text \<open>C13. A token accepted by its constructor is usable only for an enabled destination, between
  its activation and its expiry, less than 90 days after it was created, and, once it is being
  retired, less than 24 hours after retirement started. A staged or revoked token is
  never usable.\<close>

theorem DestinationToken_UsableAt_window:
  assumes "NewDestinationToken spec = Inr token" and "DestinationToken_UsableAt token now"
  shows "Destination_Enabled (ts_Destination token) \<and>
         (ts_State token = DestinationTokenActive \<or> ts_State token = DestinationTokenRetiring) \<and>
         ts_CreatedAt token \<le> ts_ActivatedAt token \<and> ts_ActivatedAt token \<le> now \<and>
         now < ts_ExpiresAt token \<and> now - ts_CreatedAt token < 90 * 24 * Hour \<and>
         (ts_State token = DestinationTokenRetiring \<longrightarrow>
            now - ts_RetirementStartedAt token < 24 * Hour)"
  using assms
  by (auto simp: NewDestinationToken_iff DestinationToken_UsableAt_def tokenSpecOK_def historyOK_def
      time_defs lifetime_defs split: if_splits)

definition sampleDestination :: Destination where
  "sampleDestination = \<lparr>de_audienceID = 1, de_id = 2, de_state = DestinationEnabled,
     de_createdAt = 1000, de_stateChangedAt = 1000\<rparr>"

definition sampleToken :: DestinationTokenSpec where
  "sampleToken = \<lparr>ts_AudienceID = 1, ts_Destination = sampleDestination, ts_RecordID = 3,
     ts_Verifier = \<lparr>tv_bytes = 4, tv_present = True\<rparr>, ts_VerifierKeyID = [107],
     ts_State = DestinationTokenRetiring, ts_CreatedAt = 2000, ts_ActivatedAt = 3000,
     ts_RetirementStartedAt = 4000, ts_RevokedAt = 0, ts_ExpiresAt = 10000,
     ts_StagedCleanupDeadline = 9000, ts_RetirementDeadline = 8000, ts_StateChangedAt = 4000\<rparr>"

theorem DestinationToken_UsableAt_window_witness:
  "NewDestinationToken sampleToken = Inr sampleToken \<and> DestinationToken_UsableAt sampleToken 7999 \<and>
   7999 - ts_RetirementStartedAt sampleToken < 24 * Hour"
proof -
  have new: "NewDestinationToken sampleToken = Inr sampleToken"
    and use: "DestinationToken_UsableAt sampleToken 7999" by code_simp+
  have "ts_State sampleToken = DestinationTokenRetiring" by (simp add: sampleToken_def)
  with new use DestinationToken_UsableAt_window [OF new use] show ?thesis by blast
qed

end
