(* ===== verification/Lifecycle_Snapshot.thy ===== *)
theory Lifecycle_Snapshot
  imports Security_State
begin

section \<open>Lifecycle snapshots, candidates and commands\<close>

text \<open>
  The value types of \<^verbatim>\<open>internal/securitystate/destination_lifecycle.go\<close> that the lifecycle
  service and the PostgreSQL repository exchange. A snapshot classifies the complete set of
  staged, active and retiring token rows of one destination; the lemmas give its
  declarative reading, which the repository proofs use.
\<close>

definition MaximumDestinationTokenLifetime :: duration where
  "MaximumDestinationTokenLifetime = 90 * 24 * Hour"
definition MaximumStagedCleanupDuration :: duration where
  "MaximumStagedCleanupDuration = 24 * Hour"
definition MaximumRetiringOverlapDuration :: duration where
  "MaximumRetiringOverlapDuration = 24 * Hour"

lemmas lifecycle_maxima = MaximumDestinationTokenLifetime_def MaximumStagedCleanupDuration_def
  MaximumRetiringOverlapDuration_def

datatype RotationCompletionReason =
    RotationVerifiedAndDrained
  | RotationDeadlineElapsed
  | RotationReasonUndeclared

definition RotationCompletionReason_Valid :: "RotationCompletionReason \<Rightarrow> bool" where
  "RotationCompletionReason_Valid reason =
     (reason = RotationVerifiedAndDrained \<or> reason = RotationDeadlineElapsed)"

datatype DestinationLifecycleStatus =
    LifecycleUnprovisioned
  | LifecycleStagedInitial
  | LifecycleActive
  | LifecycleActiveWithStaged
  | LifecycleActiveWithRetiring
  | LifecycleReconciliationRequired
  | LifecycleStatusUndeclared

record LifecycleTokenView =
  lv_recordID :: DestinationTokenRecordID
  lv_state :: DestinationTokenState
  lv_createdAt :: time
  lv_expiresAt :: time
  lv_stagedCleanupDeadline :: time
  lv_activatedAt :: time
  lv_retirementStartedAt :: time
  lv_retirementDeadline :: time
  lv_revokedAt :: time
  lv_stateChangedAt :: time

definition zeroView :: LifecycleTokenView where
  "zeroView = \<lparr>lv_recordID = 0, lv_state = DestinationTokenStateUndeclared, lv_createdAt = 0,
     lv_expiresAt = 0, lv_stagedCleanupDeadline = 0, lv_activatedAt = 0,
     lv_retirementStartedAt = 0, lv_retirementDeadline = 0, lv_revokedAt = 0,
     lv_stateChangedAt = 0\<rparr>"

definition lifecycleTokenView :: "DestinationTokenSpec \<Rightarrow> LifecycleTokenView" where
  "lifecycleTokenView t = \<lparr>lv_recordID = ts_RecordID t, lv_state = ts_State t,
     lv_createdAt = ts_CreatedAt t, lv_expiresAt = ts_ExpiresAt t,
     lv_stagedCleanupDeadline = ts_StagedCleanupDeadline t, lv_activatedAt = ts_ActivatedAt t,
     lv_retirementStartedAt = ts_RetirementStartedAt t,
     lv_retirementDeadline = ts_RetirementDeadline t, lv_revokedAt = ts_RevokedAt t,
     lv_stateChangedAt = ts_StateChangedAt t\<rparr>"

record DestinationLifecycleSnapshot =
  sn_audienceID :: GatewayAudienceID
  sn_destinationID :: DestinationID
  sn_destinationEnabled :: bool
  sn_status :: DestinationLifecycleStatus
  sn_staged :: LifecycleTokenView
  sn_active :: LifecycleTokenView
  sn_retiring :: LifecycleTokenView
  sn_hasStaged :: bool
  sn_hasActive :: bool
  sn_hasRetiring :: bool

subsection \<open>Classification of the live rows\<close>

text \<open>The loop of \<^verbatim>\<open>NewDestinationLifecycleSnapshot\<close>: its state is the partial result, the
  \<^verbatim>\<open>stale\<close> flag and the record identities seen; \<open>None\<close> is the reconciliation error.\<close>

fun snapshot_loop ::
  "Destination \<Rightarrow> time \<Rightarrow> DestinationTokenSpec list \<Rightarrow> DestinationLifecycleSnapshot \<Rightarrow> bool \<Rightarrow>
   DestinationTokenRecordID list \<Rightarrow> (DestinationLifecycleSnapshot \<times> bool) option" where
  "snapshot_loop d now [] result stale seen = Some (result, stale)"
| "snapshot_loop d now (t # ts) result stale seen =
     (if ts_AudienceID t \<noteq> de_audienceID d \<or> de_id (ts_Destination t) \<noteq> de_id d \<or> ts_Destination t \<noteq> d
      then None
      else if ts_RecordID t \<in> set seen then None
      else
        let seen = ts_RecordID t # seen;
            view = lifecycleTokenView t;
            stale = (stale \<or> After (ts_CreatedAt t) now \<or> After (ts_StateChangedAt t) now)
        in case ts_State t of
          DestinationTokenStaged \<Rightarrow>
            if sn_hasStaged result then None
            else snapshot_loop d now ts (result\<lparr>sn_staged := view, sn_hasStaged := True\<rparr>)
                   (stale \<or> \<not> Before now (ts_ExpiresAt t) \<or> \<not> Before now (ts_StagedCleanupDeadline t))
                   seen
        | DestinationTokenActive \<Rightarrow>
            if sn_hasActive result then None
            else snapshot_loop d now ts (result\<lparr>sn_active := view, sn_hasActive := True\<rparr>)
                   (stale \<or> \<not> DestinationToken_UsableAt t now) seen
        | DestinationTokenRetiring \<Rightarrow>
            if sn_hasRetiring result then None
            else snapshot_loop d now ts (result\<lparr>sn_retiring := view, sn_hasRetiring := True\<rparr>)
                   (stale \<or> \<not> DestinationToken_UsableAt t now) seen
        | _ \<Rightarrow> None)"

definition emptySnapshot :: "Destination \<Rightarrow> DestinationLifecycleSnapshot" where
  "emptySnapshot d = \<lparr>sn_audienceID = de_audienceID d, sn_destinationID = de_id d,
     sn_destinationEnabled = Destination_Enabled d, sn_status = LifecycleStatusUndeclared,
     sn_staged = zeroView, sn_active = zeroView, sn_retiring = zeroView,
     sn_hasStaged = False, sn_hasActive = False, sn_hasRetiring = False\<rparr>"

definition NewDestinationLifecycleSnapshot ::
  "Destination \<Rightarrow> DestinationTokenSpec list \<Rightarrow> time \<Rightarrow> DestinationLifecycleSnapshot result" where
  "NewDestinationLifecycleSnapshot d tokens now =
     (if de_id d = 0 \<or> de_audienceID d = 0 \<or> IsZero now \<or> length tokens > 3
      then Inl (stateErr ErrDestinationLifecycleReconciliation)
      else case snapshot_loop d now tokens (emptySnapshot d) (\<not> Destination_Enabled d) [] of
        None \<Rightarrow> Inl (stateErr ErrDestinationLifecycleReconciliation)
      | Some (result, stale) \<Rightarrow>
          if sn_hasStaged result \<and> sn_hasRetiring result \<or> sn_hasRetiring result \<and> \<not> sn_hasActive result
          then Inl (stateErr ErrDestinationLifecycleReconciliation)
          else if sn_hasActive result \<and> sn_hasRetiring result \<and>
            (lv_activatedAt (sn_active result) \<noteq> lv_retirementStartedAt (sn_retiring result) \<or>
             lv_stateChangedAt (sn_active result) \<noteq> lv_activatedAt (sn_active result) \<or>
             lv_stateChangedAt (sn_retiring result) \<noteq> lv_retirementStartedAt (sn_retiring result))
          then Inl (stateErr ErrDestinationLifecycleReconciliation)
          else if stale then Inr (result\<lparr>sn_status := LifecycleReconciliationRequired\<rparr>)
          else if \<not> sn_hasStaged result \<and> \<not> sn_hasActive result \<and> \<not> sn_hasRetiring result
          then Inr (result\<lparr>sn_status := LifecycleUnprovisioned\<rparr>)
          else if sn_hasStaged result \<and> \<not> sn_hasActive result
          then Inr (result\<lparr>sn_status := LifecycleStagedInitial\<rparr>)
          else if sn_hasActive result \<and> \<not> sn_hasStaged result \<and> \<not> sn_hasRetiring result
          then Inr (result\<lparr>sn_status := LifecycleActive\<rparr>)
          else if sn_hasActive result \<and> sn_hasStaged result \<and> \<not> sn_hasRetiring result
          then Inr (result\<lparr>sn_status := LifecycleActiveWithStaged\<rparr>)
          else if sn_hasActive result \<and> sn_hasRetiring result \<and> \<not> sn_hasStaged result
          then Inr (result\<lparr>sn_status := LifecycleActiveWithRetiring\<rparr>)
          else Inl (stateErr ErrDestinationLifecycleReconciliation))"

record DestinationTokenRotationAttemptSnapshot =
  ra_lifecycle :: DestinationLifecycleSnapshot
  ra_newToken :: LifecycleTokenView
  ra_oldToken :: LifecycleTokenView

definition NewDestinationTokenRotationAttemptSnapshot ::
  "DestinationLifecycleSnapshot \<Rightarrow> DestinationTokenSpec \<Rightarrow> DestinationTokenSpec \<Rightarrow>
   DestinationTokenRecordID \<Rightarrow> DestinationTokenRecordID \<Rightarrow> time \<Rightarrow>
   DestinationTokenRotationAttemptSnapshot result" where
  "NewDestinationTokenRotationAttemptSnapshot lifecycle newToken oldToken newActiveRecordID
     oldRetiringRecordID now =
     (if sn_audienceID lifecycle = 0 \<or> sn_destinationID lifecycle = 0 \<or> IsZero now \<or>
         newActiveRecordID = 0 \<or> oldRetiringRecordID = 0 \<or>
         newActiveRecordID = oldRetiringRecordID \<or>
         ts_RecordID newToken \<noteq> newActiveRecordID \<or> ts_RecordID oldToken \<noteq> oldRetiringRecordID \<or>
         ts_AudienceID newToken \<noteq> sn_audienceID lifecycle \<or>
         ts_AudienceID oldToken \<noteq> sn_audienceID lifecycle \<or>
         de_id (ts_Destination newToken) \<noteq> sn_destinationID lifecycle \<or>
         de_id (ts_Destination oldToken) \<noteq> sn_destinationID lifecycle \<or>
         After (ts_CreatedAt newToken) now \<or> After (ts_CreatedAt oldToken) now \<or>
         After (ts_StateChangedAt newToken) now \<or> After (ts_StateChangedAt oldToken) now \<or>
         \<not> IsZero (ts_RevokedAt newToken) \<and> After (ts_RevokedAt newToken) now \<or>
         \<not> IsZero (ts_RevokedAt oldToken) \<and> After (ts_RevokedAt oldToken) now
      then Inl (stateErr ErrDestinationLifecycleReconciliation)
      else Inr \<lparr>ra_lifecycle = lifecycle, ra_newToken = lifecycleTokenView newToken,
                ra_oldToken = lifecycleTokenView oldToken\<rparr>)"

subsection \<open>Candidates, commands and receipts\<close>

record StagedTokenCandidate =
  sc_audienceID :: GatewayAudienceID
  sc_destination :: DestinationID
  sc_recordID :: DestinationTokenRecordID
  sc_verifier :: TokenVerifier
  sc_verifierKeyID :: DestinationVerifierKeyID
  sc_createdAt :: time
  sc_expiresAt :: time
  sc_stagedCleanupDeadline :: time

definition NewStagedTokenCandidate ::
  "GatewayAudienceID \<Rightarrow> DestinationID \<Rightarrow> DestinationTokenRecordID \<Rightarrow> TokenVerifier \<Rightarrow>
   DestinationVerifierKeyID \<Rightarrow> time \<Rightarrow> time \<Rightarrow> time \<Rightarrow> StagedTokenCandidate result" where
  "NewStagedTokenCandidate audience destination recordID verifier keyID createdAt expiresAt
     cleanupDeadline =
     (if audience = 0 \<or> destination = 0 \<or> recordID = 0 \<or> TokenVerifier_IsZero verifier \<or> keyID = [] \<or>
         IsZero createdAt \<or> \<not> After expiresAt createdAt \<or>
         Sub expiresAt createdAt > MaximumDestinationTokenLifetime \<or>
         \<not> After cleanupDeadline createdAt \<or>
         Sub cleanupDeadline createdAt > MaximumStagedCleanupDuration
      then Inl (stateErr ErrDestinationLifecycleInvalid)
      else Inr \<lparr>sc_audienceID = audience, sc_destination = destination, sc_recordID = recordID,
                sc_verifier = verifier, sc_verifierKeyID = keyID, sc_createdAt = createdAt,
                sc_expiresAt = expiresAt, sc_stagedCleanupDeadline = cleanupDeadline\<rparr>)"

text \<open>The constructor applied again to the fields of a candidate, as both callers do.\<close>

definition revalidateCandidate :: "StagedTokenCandidate \<Rightarrow> StagedTokenCandidate result" where
  "revalidateCandidate c =
     NewStagedTokenCandidate (sc_audienceID c) (sc_destination c) (sc_recordID c) (sc_verifier c)
       (sc_verifierKeyID c) (sc_createdAt c) (sc_expiresAt c) (sc_stagedCleanupDeadline c)"

record CreateRotationStagedTokenCommand =
  cr_candidate :: StagedTokenCandidate
  cr_expectedActiveRecordID :: DestinationTokenRecordID
  cr_now :: time

definition NewCreateRotationStagedTokenCommand ::
  "StagedTokenCandidate \<Rightarrow> DestinationTokenRecordID \<Rightarrow> time \<Rightarrow> CreateRotationStagedTokenCommand result" where
  "NewCreateRotationStagedTokenCommand candidate expectedActiveRecordID now =
     (case revalidateCandidate candidate of
        Inl e \<Rightarrow> Inl (stateErr ErrDestinationLifecycleInvalid)
      | Inr validated \<Rightarrow>
          if sc_recordID validated \<noteq> sc_recordID candidate \<or> expectedActiveRecordID = 0 \<or>
             expectedActiveRecordID = sc_recordID candidate \<or> IsZero now \<or>
             sc_createdAt candidate \<noteq> now
          then Inl (stateErr ErrDestinationLifecycleInvalid)
          else Inr \<lparr>cr_candidate = validated, cr_expectedActiveRecordID = expectedActiveRecordID,
                    cr_now = now\<rparr>)"

record ActivateRotationCommand =
  ac_AudienceID :: GatewayAudienceID
  ac_DestinationID :: DestinationID
  ac_StagedRecordID :: DestinationTokenRecordID
  ac_OldActiveRecordID :: DestinationTokenRecordID
  ac_Now :: time
  ac_OverlapDeadline :: time

record RollbackRotationCommand =
  rb_AudienceID :: GatewayAudienceID
  rb_DestinationID :: DestinationID
  rb_NewActiveRecordID :: DestinationTokenRecordID
  rb_OldRetiringRecordID :: DestinationTokenRecordID
  rb_Now :: time

record FinalizeRotationCommand =
  fc_AudienceID :: GatewayAudienceID
  fc_DestinationID :: DestinationID
  fc_NewActiveRecordID :: DestinationTokenRecordID
  fc_OldRetiringRecordID :: DestinationTokenRecordID
  fc_Reason :: RotationCompletionReason
  fc_Now :: time

definition canonicalDestinationLifecycleTimestamp :: "time \<Rightarrow> time" where
  "canonicalDestinationLifecycleTimestamp t = Truncate t Microsecond"

record DestinationTokenRotationActivationReceipt =
  rr_activatedAt :: time
  rr_retirementDeadline :: time

definition zeroReceipt :: DestinationTokenRotationActivationReceipt where
  "zeroReceipt = \<lparr>rr_activatedAt = 0, rr_retirementDeadline = 0\<rparr>"

definition RotationActivationReceipt_valid :: "DestinationTokenRotationActivationReceipt \<Rightarrow> bool" where
  "RotationActivationReceipt_valid r =
     (\<not> IsZero (rr_activatedAt r) \<and>
      rr_activatedAt r = canonicalDestinationLifecycleTimestamp (rr_activatedAt r) \<and>
      rr_retirementDeadline r = canonicalDestinationLifecycleTimestamp (rr_retirementDeadline r) \<and>
      After (rr_retirementDeadline r) (rr_activatedAt r) \<and>
      Sub (rr_retirementDeadline r) (rr_activatedAt r) \<le> MaximumRetiringOverlapDuration)"

definition RotationActivationReceipt_validAt ::
  "DestinationTokenRotationActivationReceipt \<Rightarrow> time \<Rightarrow> bool" where
  "RotationActivationReceipt_validAt r now =
     (RotationActivationReceipt_valid r \<and> \<not> IsZero now \<and> \<not> Before now (rr_activatedAt r) \<and>
      Before now (rr_retirementDeadline r))"

definition NewDestinationTokenRotationActivationReceipt ::
  "time \<Rightarrow> time \<Rightarrow> DestinationTokenRotationActivationReceipt result" where
  "NewDestinationTokenRotationActivationReceipt activatedAt retirementDeadline =
     (let receipt = \<lparr>rr_activatedAt = activatedAt, rr_retirementDeadline = retirementDeadline\<rparr> in
      if \<not> RotationActivationReceipt_valid receipt
      then Inl (stateErr ErrDestinationLifecycleInvalid) else Inr receipt)"

subsection \<open>The declarative reading of a snapshot\<close>

definition liveState :: "DestinationTokenState \<Rightarrow> bool" where
  "liveState st = (st = DestinationTokenStaged \<or> st = DestinationTokenActive \<or> st = DestinationTokenRetiring)"

definition staleToken :: "time \<Rightarrow> DestinationTokenSpec \<Rightarrow> bool" where
  "staleToken now t =
     (now < ts_CreatedAt t \<or> now < ts_StateChangedAt t \<or>
      (if ts_State t = DestinationTokenStaged
       then ts_ExpiresAt t \<le> now \<or> ts_StagedCleanupDeadline t \<le> now
       else \<not> DestinationToken_UsableAt t now))"

definition addToken :: "DestinationTokenSpec \<Rightarrow> DestinationLifecycleSnapshot \<Rightarrow> DestinationLifecycleSnapshot" where
  "addToken t r =
     (case ts_State t of
        DestinationTokenStaged \<Rightarrow> r\<lparr>sn_staged := lifecycleTokenView t, sn_hasStaged := True\<rparr>
      | DestinationTokenActive \<Rightarrow> r\<lparr>sn_active := lifecycleTokenView t, sn_hasActive := True\<rparr>
      | DestinationTokenRetiring \<Rightarrow> r\<lparr>sn_retiring := lifecycleTokenView t, sn_hasRetiring := True\<rparr>
      | _ \<Rightarrow> r)"

fun occupied :: "DestinationTokenState \<Rightarrow> DestinationLifecycleSnapshot \<Rightarrow> bool" where
  "occupied DestinationTokenStaged r = sn_hasStaged r"
| "occupied DestinationTokenActive r = sn_hasActive r"
| "occupied DestinationTokenRetiring r = sn_hasRetiring r"
| "occupied _ r = False"

definition belongsTo :: "Destination \<Rightarrow> DestinationTokenSpec \<Rightarrow> bool" where
  "belongsTo d t = (ts_AudienceID t = de_audienceID d \<and> ts_Destination t = d \<and> liveState (ts_State t))"

lemma occupied_addToken:
  "liveState (ts_State t) \<Longrightarrow> occupied st (addToken t r) \<longleftrightarrow> occupied st r \<or> st = ts_State t"
  by (cases st; cases "ts_State t") (simp_all add: liveState_def addToken_def)

lemma snapshot_loop_result:
  "snapshot_loop d now ts r stale seen =
     (if (\<forall>t\<in>set ts. belongsTo d t \<and> \<not> occupied (ts_State t) r \<and> ts_RecordID t \<notin> set seen) \<and>
         distinct (map ts_RecordID ts) \<and> distinct (map ts_State ts)
      then Some (fold addToken ts r, stale \<or> (\<exists>t\<in>set ts. staleToken now t)) else None)"
proof (induction ts arbitrary: r stale seen)
  case (Cons t ts)
  show ?case
  proof (cases "belongsTo d t \<and> \<not> occupied (ts_State t) r \<and> ts_RecordID t \<notin> set seen")
    case False
    then show ?thesis
      by (cases "ts_State t") (auto simp: belongsTo_def liveState_def)
  next
    case True
    then have live: "liveState (ts_State t)" by (simp add: belongsTo_def)
    with True have "snapshot_loop d now (t # ts) r stale seen =
        snapshot_loop d now ts (addToken t r) (stale \<or> staleToken now t) (ts_RecordID t # seen)"
      by (cases "ts_State t")
        (auto simp: belongsTo_def liveState_def staleToken_def addToken_def time_defs Let_def not_less)
    moreover have "((\<forall>u\<in>set ts. belongsTo d u \<and> \<not> occupied (ts_State u) (addToken t r) \<and>
          ts_RecordID u \<notin> set (ts_RecordID t # seen)) \<and>
          distinct (map ts_RecordID ts) \<and> distinct (map ts_State ts)) =
        ((\<forall>u\<in>set (t # ts). belongsTo d u \<and> \<not> occupied (ts_State u) r \<and> ts_RecordID u \<notin> set seen) \<and>
          distinct (map ts_RecordID (t # ts)) \<and> distinct (map ts_State (t # ts)))"
      using True
      by (simp add: occupied_addToken [OF live] image_iff ball_conj_distrib
          eq_commute [of "ts_State t"] eq_commute [of "ts_RecordID t"]) blast
    ultimately show ?thesis
      by (simp only: Cons.IH) (simp add: disj_ac)
  qed
qed simp

definition inState :: "DestinationTokenState \<Rightarrow> DestinationTokenSpec list \<Rightarrow> bool" where
  "inState st ts = (\<exists>t\<in>set ts. ts_State t = st)"

definition pairedRotation :: "DestinationTokenSpec list \<Rightarrow> bool" where
  "pairedRotation ts =
     (\<forall>a\<in>set ts. \<forall>r\<in>set ts. ts_State a = DestinationTokenActive \<and> ts_State r = DestinationTokenRetiring \<longrightarrow>
        ts_ActivatedAt a = ts_RetirementStartedAt r \<and> ts_StateChangedAt a = ts_ActivatedAt a \<and>
        ts_StateChangedAt r = ts_RetirementStartedAt r)"

definition liveStructure :: "Destination \<Rightarrow> DestinationTokenSpec list \<Rightarrow> bool" where
  "liveStructure d ts =
     ((\<forall>t\<in>set ts. belongsTo d t) \<and> distinct (map ts_RecordID ts) \<and> distinct (map ts_State ts) \<and>
      \<not> (inState DestinationTokenStaged ts \<and> inState DestinationTokenRetiring ts) \<and>
      (inState DestinationTokenRetiring ts \<longrightarrow> inState DestinationTokenActive ts) \<and> pairedRotation ts)"

definition staleSet :: "Destination \<Rightarrow> DestinationTokenSpec list \<Rightarrow> time \<Rightarrow> bool" where
  "staleSet d ts now = (\<not> Destination_Enabled d \<or> (\<exists>t\<in>set ts. staleToken now t))"

fun liveStatus :: "bool \<Rightarrow> bool \<Rightarrow> bool \<Rightarrow> DestinationLifecycleStatus" where
  "liveStatus staged active retiring =
     (if \<not> staged \<and> \<not> active \<and> \<not> retiring then LifecycleUnprovisioned
      else if staged \<and> \<not> active then LifecycleStagedInitial
      else if active \<and> \<not> staged \<and> \<not> retiring then LifecycleActive
      else if active \<and> staged \<and> \<not> retiring then LifecycleActiveWithStaged
      else LifecycleActiveWithRetiring)"

definition snapshotOf :: "Destination \<Rightarrow> DestinationTokenSpec list \<Rightarrow> time \<Rightarrow> DestinationLifecycleSnapshot" where
  "snapshotOf d ts now =
     (fold addToken ts (emptySnapshot d))\<lparr>sn_status :=
        if staleSet d ts now then LifecycleReconciliationRequired
        else liveStatus (inState DestinationTokenStaged ts) (inState DestinationTokenActive ts)
               (inState DestinationTokenRetiring ts)\<rparr>"

lemma fold_addToken_frame:
  "sn_audienceID (fold addToken ts r) = sn_audienceID r"
  "sn_destinationID (fold addToken ts r) = sn_destinationID r"
  "sn_destinationEnabled (fold addToken ts r) = sn_destinationEnabled r"
  "sn_status (fold addToken ts r) = sn_status r"
  by (induction ts arbitrary: r) (auto simp: addToken_def split: DestinationTokenState.splits)

lemma fold_addToken_has:
  "sn_hasStaged (fold addToken ts r) \<longleftrightarrow> sn_hasStaged r \<or> inState DestinationTokenStaged ts"
  "sn_hasActive (fold addToken ts r) \<longleftrightarrow> sn_hasActive r \<or> inState DestinationTokenActive ts"
  "sn_hasRetiring (fold addToken ts r) \<longleftrightarrow> sn_hasRetiring r \<or> inState DestinationTokenRetiring ts"
  by (induction ts arbitrary: r) (auto simp: inState_def addToken_def split: DestinationTokenState.splits)

lemma fold_addToken_skip:
  "\<not> inState DestinationTokenStaged ts \<Longrightarrow> sn_staged (fold addToken ts r) = sn_staged r"
  "\<not> inState DestinationTokenActive ts \<Longrightarrow> sn_active (fold addToken ts r) = sn_active r"
  "\<not> inState DestinationTokenRetiring ts \<Longrightarrow> sn_retiring (fold addToken ts r) = sn_retiring r"
  by (induction ts arbitrary: r) (auto simp: inState_def addToken_def split: DestinationTokenState.splits)

lemma fold_addToken_view:
  assumes "distinct (map ts_State ts)" "t \<in> set ts"
  shows "ts_State t = DestinationTokenStaged \<Longrightarrow> sn_staged (fold addToken ts r) = lifecycleTokenView t"
    and "ts_State t = DestinationTokenActive \<Longrightarrow> sn_active (fold addToken ts r) = lifecycleTokenView t"
    and "ts_State t = DestinationTokenRetiring \<Longrightarrow> sn_retiring (fold addToken ts r) = lifecycleTokenView t"
proof -
  from assms(2) obtain xs ys where ts: "ts = xs @ t # ys" by (auto dest: split_list)
  with assms(1) have "\<not> inState (ts_State t) ys" by (auto simp: inState_def image_iff)
  then show "ts_State t = DestinationTokenStaged \<Longrightarrow> sn_staged (fold addToken ts r) = lifecycleTokenView t"
    and "ts_State t = DestinationTokenActive \<Longrightarrow> sn_active (fold addToken ts r) = lifecycleTokenView t"
    and "ts_State t = DestinationTokenRetiring \<Longrightarrow> sn_retiring (fold addToken ts r) = lifecycleTokenView t"
    by (simp_all add: ts fold_addToken_skip addToken_def)
qed

lemma liveStructure_length:
  assumes "liveStructure d ts"
  shows "length ts \<le> 3"
proof -
  let ?live = "{DestinationTokenStaged, DestinationTokenActive, DestinationTokenRetiring}"
  have "set (map ts_State ts) \<subseteq> ?live"
    using assms by (auto simp: liveStructure_def belongsTo_def liveState_def)
  then have "card (set (map ts_State ts)) \<le> card ?live" by (intro card_mono) simp_all
  moreover have "card (set (map ts_State ts)) = length ts"
    using assms distinct_card [of "map ts_State ts"] by (simp add: liveStructure_def)
  ultimately show ?thesis by simp
qed

lemma inState_witness: "inState st ts \<Longrightarrow> (\<And>t. t \<in> set ts \<Longrightarrow> ts_State t = st \<Longrightarrow> P) \<Longrightarrow> P"
  by (auto simp: inState_def)

lemma snapshot_pairing:
  fixes d :: Destination and ts :: "DestinationTokenSpec list"
  defines "r \<equiv> fold addToken ts (emptySnapshot d)"
  assumes "distinct (map ts_State ts)"
  shows "(sn_hasActive r \<and> sn_hasRetiring r \<and>
      (lv_activatedAt (sn_active r) \<noteq> lv_retirementStartedAt (sn_retiring r) \<or>
       lv_stateChangedAt (sn_active r) \<noteq> lv_activatedAt (sn_active r) \<or>
       lv_stateChangedAt (sn_retiring r) \<noteq> lv_retirementStartedAt (sn_retiring r))) \<longleftrightarrow>
    \<not> pairedRotation ts"
proof (cases "inState DestinationTokenActive ts \<and> inState DestinationTokenRetiring ts")
  case True
  then obtain a b where ab: "a \<in> set ts" "ts_State a = DestinationTokenActive"
      "b \<in> set ts" "ts_State b = DestinationTokenRetiring" by (auto simp: inState_def)
  have uniq: "x \<in> set ts \<Longrightarrow> y \<in> set ts \<Longrightarrow> ts_State x = ts_State y \<Longrightarrow> x = y" for x y
    using assms(2) by (simp add: distinct_map inj_on_def)
  have "pairedRotation ts \<longleftrightarrow> ts_ActivatedAt a = ts_RetirementStartedAt b \<and>
      ts_StateChangedAt a = ts_ActivatedAt a \<and> ts_StateChangedAt b = ts_RetirementStartedAt b"
    unfolding pairedRotation_def using ab uniq by metis
  with True ab show ?thesis
    by (auto simp: r_def fold_addToken_has fold_addToken_view [OF assms(2)] lifecycleTokenView_def)
next
  case False
  then show ?thesis
    by (auto simp: r_def fold_addToken_has emptySnapshot_def pairedRotation_def inState_def)
qed

lemma snapshot_iff:
  "NewDestinationLifecycleSnapshot d ts now = Inr sn \<longleftrightarrow>
     de_id d \<noteq> 0 \<and> de_audienceID d \<noteq> 0 \<and> now \<noteq> 0 \<and> liveStructure d ts \<and> sn = snapshotOf d ts now"
proof (cases "de_id d \<noteq> 0 \<and> de_audienceID d \<noteq> 0 \<and> now \<noteq> 0 \<and> length ts \<le> 3 \<and> (\<forall>t\<in>set ts. belongsTo d t) \<and>
      distinct (map ts_RecordID ts) \<and> distinct (map ts_State ts)")
  case True
  let ?r = "fold addToken ts (emptySnapshot d)"
  have occ: "\<not> occupied st (emptySnapshot d)" for st by (cases st) (simp_all add: emptySnapshot_def)
  have loop: "snapshot_loop d now ts (emptySnapshot d) (\<not> Destination_Enabled d) [] =
      Some (?r, staleSet d ts now)"
    using True by (simp add: snapshot_loop_result occ staleSet_def)
  have has: "sn_hasStaged ?r = inState DestinationTokenStaged ts"
    "sn_hasActive ?r = inState DestinationTokenActive ts"
    "sn_hasRetiring ?r = inState DestinationTokenRetiring ts"
    by (simp_all add: fold_addToken_has emptySnapshot_def)
  from True have "distinct (map ts_State ts)" by simp
  note pair = snapshot_pairing [OF this, of d, unfolded has]
  show ?thesis
    unfolding NewDestinationLifecycleSnapshot_def loop option.case prod.case has pair
    using True
    by (cases "inState DestinationTokenStaged ts"; cases "inState DestinationTokenActive ts";
        cases "inState DestinationTokenRetiring ts"; cases "pairedRotation ts")
      (auto simp: liveStructure_def snapshotOf_def IsZero_def)
next
  case False
  have "\<not> (de_id d \<noteq> 0 \<and> de_audienceID d \<noteq> 0 \<and> now \<noteq> 0 \<and> liveStructure d ts)"
    using False liveStructure_length [of d ts] unfolding liveStructure_def by blast
  moreover have "NewDestinationLifecycleSnapshot d ts now \<noteq> Inr sn"
  proof (cases "de_id d = 0 \<or> de_audienceID d = 0 \<or> now = 0 \<or> length ts > 3")
    case True
    then show ?thesis by (simp add: NewDestinationLifecycleSnapshot_def IsZero_def)
  next
    case ok: False
    with False have "\<not> ((\<forall>t\<in>set ts. belongsTo d t) \<and> distinct (map ts_RecordID ts) \<and> distinct (map ts_State ts))"
      by (simp add: not_less)
    then have "snapshot_loop d now ts (emptySnapshot d) (\<not> Destination_Enabled d) [] = None"
      unfolding snapshot_loop_result by (intro if_not_P) blast
    with ok show ?thesis by (simp add: NewDestinationLifecycleSnapshot_def IsZero_def)
  qed
  ultimately show ?thesis by blast
qed

lemma snapshotOf_fields:
  "sn_audienceID (snapshotOf d ts now) = de_audienceID d"
  "sn_destinationID (snapshotOf d ts now) = de_id d"
  "sn_destinationEnabled (snapshotOf d ts now) = Destination_Enabled d"
  "sn_hasStaged (snapshotOf d ts now) = inState DestinationTokenStaged ts"
  "sn_hasActive (snapshotOf d ts now) = inState DestinationTokenActive ts"
  "sn_hasRetiring (snapshotOf d ts now) = inState DestinationTokenRetiring ts"
  "sn_status (snapshotOf d ts now) =
     (if staleSet d ts now then LifecycleReconciliationRequired
      else liveStatus (inState DestinationTokenStaged ts) (inState DestinationTokenActive ts)
             (inState DestinationTokenRetiring ts))"
  by (simp_all add: snapshotOf_def fold_addToken_frame fold_addToken_has emptySnapshot_def)

lemma snapshotOf_views:
  assumes "distinct (map ts_State ts)" "t \<in> set ts"
  shows "ts_State t = DestinationTokenStaged \<Longrightarrow> sn_staged (snapshotOf d ts now) = lifecycleTokenView t"
    and "ts_State t = DestinationTokenActive \<Longrightarrow> sn_active (snapshotOf d ts now) = lifecycleTokenView t"
    and "ts_State t = DestinationTokenRetiring \<Longrightarrow> sn_retiring (snapshotOf d ts now) = lifecycleTokenView t"
  using assms by (simp_all add: snapshotOf_def fold_addToken_view)

lemma NewStagedTokenCandidate_iff:
  "NewStagedTokenCandidate a d r v k c e cl = Inr x \<longleftrightarrow>
     a \<noteq> 0 \<and> d \<noteq> 0 \<and> r \<noteq> 0 \<and> tv_present v \<and> k \<noteq> [] \<and> c \<noteq> 0 \<and> c < e \<and> e - c \<le> tokenMaxLifetime \<and>
     c < cl \<and> cl - c \<le> tokenMaxCleanup \<and>
     x = \<lparr>sc_audienceID = a, sc_destination = d, sc_recordID = r, sc_verifier = v,
          sc_verifierKeyID = k, sc_createdAt = c, sc_expiresAt = e, sc_stagedCleanupDeadline = cl\<rparr>"
proof -
  have "MaximumDestinationTokenLifetime = tokenMaxLifetime"
    "MaximumStagedCleanupDuration = tokenMaxCleanup"
    by (simp_all add: lifecycle_maxima lifetime_defs)
  then show ?thesis
    by (auto simp: NewStagedTokenCandidate_def TokenVerifier_IsZero_def time_defs Sub_lifetimes
        simp flip: not_le)
qed

lemma revalidateCandidate_same: "revalidateCandidate c = Inr v \<Longrightarrow> v = c"
  by (simp add: revalidateCandidate_def NewStagedTokenCandidate_iff)

text \<open>C10. A snapshot is produced exactly for the row sets with the declared structure (rows of this
  destination only, distinct record identities, at most one row per live state, no staged row
  beside a retiring one, a retiring row only beside the active row activated in the same
  step); it then reports reconciliation exactly when the destination is disabled or a row is
  out of its time window, and otherwise the status that names the states present.\<close>

theorem NewDestinationLifecycleSnapshot_classifies:
  assumes "de_id d \<noteq> 0" "de_audienceID d \<noteq> 0" "now \<noteq> 0"
  shows "case NewDestinationLifecycleSnapshot d ts now of
      Inl e \<Rightarrow> e = stateErr ErrDestinationLifecycleReconciliation \<and> \<not> liveStructure d ts
    | Inr sn \<Rightarrow> liveStructure d ts \<and>
        (sn_status sn = LifecycleReconciliationRequired \<longleftrightarrow> staleSet d ts now) \<and>
        (\<not> staleSet d ts now \<longrightarrow>
           sn_status sn = liveStatus (inState DestinationTokenStaged ts)
             (inState DestinationTokenActive ts) (inState DestinationTokenRetiring ts)) \<and>
        (\<forall>t\<in>set ts. lifecycleTokenView t =
           (case ts_State t of DestinationTokenStaged \<Rightarrow> sn_staged sn
              | DestinationTokenActive \<Rightarrow> sn_active sn | _ \<Rightarrow> sn_retiring sn))"
proof (cases "NewDestinationLifecycleSnapshot d ts now")
  case (Inl e)
  moreover have "errs_in {stateErr ErrDestinationLifecycleReconciliation}
      (NewDestinationLifecycleSnapshot d ts now)"
    unfolding NewDestinationLifecycleSnapshot_def by (intro err_intro singletonI)
  ultimately have "e = stateErr ErrDestinationLifecycleReconciliation"
    by (auto dest: errs_inD)
  moreover have "\<not> liveStructure d ts"
    using Inl assms snapshot_iff [of d ts now "snapshotOf d ts now"] by simp
  ultimately show ?thesis by (simp add: Inl)
next
  case (Inr sn)
  then have live: "liveStructure d ts" and sn: "sn = snapshotOf d ts now" by (simp_all add: snapshot_iff)
  then have dist: "distinct (map ts_State ts)" and states: "\<forall>t\<in>set ts. liveState (ts_State t)"
    by (simp_all add: liveStructure_def belongsTo_def)
  have views: "\<forall>t\<in>set ts. lifecycleTokenView t = (case ts_State t of DestinationTokenStaged \<Rightarrow> sn_staged sn
              | DestinationTokenActive \<Rightarrow> sn_active sn | _ \<Rightarrow> sn_retiring sn)"
  proof
    fix t assume "t \<in> set ts"
    with states snapshotOf_views [OF dist this] show "lifecycleTokenView t = (case ts_State t of
        DestinationTokenStaged \<Rightarrow> sn_staged sn | DestinationTokenActive \<Rightarrow> sn_active sn
        | _ \<Rightarrow> sn_retiring sn)"
      by (cases "ts_State t") (auto simp: sn liveState_def)
  qed
  have "sn_status sn = (if staleSet d ts now then LifecycleReconciliationRequired
      else liveStatus (inState DestinationTokenStaged ts) (inState DestinationTokenActive ts)
             (inState DestinationTokenRetiring ts))"
    by (simp only: sn snapshotOf_fields)
  moreover have "liveStatus a b c \<noteq> LifecycleReconciliationRequired" for a b c by simp
  ultimately show ?thesis
    unfolding Inr sum.case using live views by (simp del: liveStatus.simps)
qed

theorem NewDestinationLifecycleSnapshot_classifies_witness:
  "case NewDestinationLifecycleSnapshot sampleDestination [sampleToken] 7000 of
     Inl e \<Rightarrow> e = stateErr ErrDestinationLifecycleReconciliation \<and>
       \<not> liveStructure sampleDestination [sampleToken]
   | Inr sn \<Rightarrow> False"
proof -
  have "NewDestinationLifecycleSnapshot sampleDestination [sampleToken] 7000 =
      Inl (stateErr ErrDestinationLifecycleReconciliation)" by code_simp
  then show ?thesis
    using NewDestinationLifecycleSnapshot_classifies [of sampleDestination 7000 "[sampleToken]"]
    by (simp add: sampleDestination_def)
qed

end
