(* ===== verification/Lifecycle_Rows.thy ===== *)
theory Lifecycle_Rows
  imports Lifecycle_Snapshot "HOL-Library.Multiset"
begin

section \<open>The destination tables and their statements\<close>

text \<open>
  The tables \<^verbatim>\<open>gateway_destinations\<close> and \<^verbatim>\<open>gateway_destination_tokens\<close> of
  \<^verbatim>\<open>internal/postgres/migrations/000002_security_state_v1.sql\<close>, the statements of
  \<^verbatim>\<open>internal/postgres/destination_token_lifecycle.go\<close> as functions on them, and the parsing of
  selected rows. A \<^verbatim>\<open>uuid\<close> column holds 128 bits and is selected as its canonical text; an
  identity argument is passed as the canonical text of the identity, which the database reads as
  that identity. A \<^verbatim>\<open>timestamptz\<close> column counts microseconds: an argument is cut to
  microseconds, as the driver encodes it, and a selected value is a whole number of
  microseconds. An interval day is 24 hours, as in a session without daylight saving time;
  the width of the \<^verbatim>\<open>varchar\<close> column is not modelled. A statement that violates a constraint
  is refused with the SQLSTATE and the name of the constraint.
\<close>

subsection \<open>Columns\<close>

datatype timestamptz = Stamp int | StampInfinity | StampNegativeInfinity

datatype InfinityModifier = Finite | Infinity | NegativeInfinity

record Timestamptz =
  tz_Time :: time
  tz_InfinityModifier :: InfinityModifier
  tz_Valid :: bool

fun scanTimestamptz :: "timestamptz option \<Rightarrow> Timestamptz" where
  "scanTimestamptz None = \<lparr>tz_Time = 0, tz_InfinityModifier = Finite, tz_Valid = False\<rparr>"
| "scanTimestamptz (Some (Stamp us)) = \<lparr>tz_Time = us * 1000, tz_InfinityModifier = Finite, tz_Valid = True\<rparr>"
| "scanTimestamptz (Some StampInfinity) = \<lparr>tz_Time = 0, tz_InfinityModifier = Infinity, tz_Valid = True\<rparr>"
| "scanTimestamptz (Some StampNegativeInfinity) =
     \<lparr>tz_Time = 0, tz_InfinityModifier = NegativeInfinity, tz_Valid = True\<rparr>"

definition timestampArgument :: "time \<Rightarrow> timestamptz" where
  "timestampArgument t = Stamp (t div 1000)"

fun stamp_less :: "timestamptz \<Rightarrow> timestamptz \<Rightarrow> bool" where
  "stamp_less (Stamp a) (Stamp b) = (a < b)"
| "stamp_less StampNegativeInfinity b = (b \<noteq> StampNegativeInfinity)"
| "stamp_less a StampInfinity = (a \<noteq> StampInfinity)"
| "stamp_less _ _ = False"

fun stamp_add :: "timestamptz \<Rightarrow> int \<Rightarrow> timestamptz" where
  "stamp_add (Stamp a) d = Stamp (a + d)"
| "stamp_add a d = a"

definition stamp_le :: "timestamptz \<Rightarrow> timestamptz \<Rightarrow> bool" where
  "stamp_le a b = (a = b \<or> stamp_less a b)"

definition interval_hours :: "int \<Rightarrow> int" where
  "interval_hours h = h * 3600 * 1000000"

definition finiteTimestamp :: "Timestamptz \<Rightarrow> bool" where
  "finiteTimestamp v = (tz_Valid v \<and> tz_InfinityModifier v = Finite \<and> \<not> IsZero (tz_Time v))"

definition optionalFiniteTime :: "Timestamptz \<Rightarrow> time result" where
  "optionalFiniteTime v =
     (if \<not> tz_Valid v then Inr 0
      else if tz_InfinityModifier v \<noteq> Finite \<or> IsZero (tz_Time v)
      then Inl (postgresErr ErrAuthenticationStateIntegrity)
      else Inr (tz_Time v))"

definition destinationState :: "gostring \<Rightarrow> DestinationState result" where
  "destinationState v =
     (if v = str ''enabled'' then Inr DestinationEnabled
      else if v = str ''disabled'' then Inr DestinationDisabled
      else Inl (postgresErr ErrDestinationResolverIntegrity))"

definition destinationTokenState :: "gostring \<Rightarrow> DestinationTokenState result" where
  "destinationTokenState v =
     (if v = str ''staged'' then Inr DestinationTokenStaged
      else if v = str ''active'' then Inr DestinationTokenActive
      else if v = str ''retiring'' then Inr DestinationTokenRetiring
      else if v = str ''revoked'' then Inr DestinationTokenRevoked
      else Inl (postgresErr ErrDestinationResolverIntegrity))"

subsection \<open>Tables\<close>

record destination_row =
  dr_destination_id :: bytes16
  dr_gateway_audience_id :: bytes16
  dr_destination_state :: gostring
  dr_created_at :: timestamptz
  dr_state_changed_at :: timestamptz

record token_row =
  tr_record_id :: bytes16
  tr_gateway_audience_id :: bytes16
  tr_destination_id :: bytes16
  tr_token_verifier :: "byte list"
  tr_verifier_key_id :: gostring
  tr_token_state :: gostring
  tr_created_at :: timestamptz
  tr_activated_at :: "timestamptz option"
  tr_retirement_started_at :: "timestamptz option"
  tr_revoked_at :: "timestamptz option"
  tr_expires_at :: timestamptz
  tr_staged_cleanup_deadline :: timestamptz
  tr_retirement_overlap_deadline :: "timestamptz option"
  tr_state_changed_at :: timestamptz

record gateway_db =
  db_destinations :: "destination_row list"
  db_tokens :: "token_row list"

text \<open>The \<^verbatim>\<open>CHECK\<close> constraints of the token table, by name, in the order of the definition.\<close>

definition tokenChecks :: "token_row \<Rightarrow> (string \<times> bool) list" where
  "tokenChecks r =
    [(''gateway_destination_tokens_record_id_nonzero'', tr_record_id r \<noteq> 0),
     (''gateway_destination_tokens_verifier_size'', length (tr_token_verifier r) = 32),
     (''gateway_destination_tokens_key_id_present'', tr_verifier_key_id r \<noteq> []),
     (''gateway_destination_tokens_state'',
        tr_token_state r \<in> {str ''staged'', str ''active'', str ''retiring'', str ''revoked''}),
     (''gateway_destination_tokens_lifetime'',
        stamp_less (tr_created_at r) (tr_expires_at r) \<and>
        stamp_le (tr_expires_at r) (stamp_add (tr_created_at r) (interval_hours (90 * 24)))),
     (''gateway_destination_tokens_staged_cleanup_bound'',
        stamp_less (tr_created_at r) (tr_staged_cleanup_deadline r) \<and>
        stamp_le (tr_staged_cleanup_deadline r) (stamp_add (tr_created_at r) (interval_hours 24))),
     (''gateway_destination_tokens_state_time_order'',
        stamp_le (tr_created_at r) (tr_state_changed_at r) \<and>
        (case tr_activated_at r of None \<Rightarrow> True
           | Some a \<Rightarrow> stamp_le (tr_created_at r) a \<and> stamp_le a (tr_state_changed_at r)) \<and>
        (case tr_retirement_started_at r of None \<Rightarrow> True
           | Some b \<Rightarrow> (case tr_activated_at r of None \<Rightarrow> False
               | Some a \<Rightarrow> stamp_le a b \<and> stamp_le b (tr_state_changed_at r))) \<and>
        (case tr_revoked_at r of None \<Rightarrow> True
           | Some v \<Rightarrow> stamp_le (tr_created_at r) v \<and> stamp_le v (tr_state_changed_at r))),
     (''gateway_destination_tokens_retirement_bound'',
        (case (tr_retirement_started_at r, tr_retirement_overlap_deadline r) of
           (None, None) \<Rightarrow> True
         | (Some b, Some d) \<Rightarrow> stamp_less b d \<and> stamp_le d (stamp_add b (interval_hours 24))
         | _ \<Rightarrow> False)),
     (''gateway_destination_tokens_state_fields'',
        tr_token_state r = str ''staged'' \<and> tr_activated_at r = None \<and>
          tr_retirement_started_at r = None \<and> tr_retirement_overlap_deadline r = None \<and>
          tr_revoked_at r = None \<or>
        tr_token_state r = str ''active'' \<and> tr_activated_at r \<noteq> None \<and>
          tr_retirement_started_at r = None \<and> tr_retirement_overlap_deadline r = None \<and>
          tr_revoked_at r = None \<or>
        tr_token_state r = str ''retiring'' \<and> tr_activated_at r \<noteq> None \<and>
          tr_retirement_started_at r \<noteq> None \<and> tr_retirement_overlap_deadline r \<noteq> None \<and>
          tr_revoked_at r = None \<or>
        tr_token_state r = str ''revoked'' \<and> tr_revoked_at r \<noteq> None)]"

text \<open>The unique constraint that a row violates in the table \<open>ts\<close> that contains it.\<close>

definition repeated :: "(token_row \<Rightarrow> bool) \<Rightarrow> token_row list \<Rightarrow> bool" where
  "repeated P ts = (length (filter P ts) > 1)"

definition liveIndex :: "gostring \<Rightarrow> token_row \<Rightarrow> token_row \<Rightarrow> bool" where
  "liveIndex st r x = (tr_destination_id x = tr_destination_id r \<and> tr_token_state x = st)"

definition uniqueViolation :: "token_row list \<Rightarrow> token_row \<Rightarrow> string option" where
  "uniqueViolation ts r =
     (if repeated (\<lambda>x. tr_record_id x = tr_record_id r) ts then Some ''gateway_destination_tokens_pkey''
      else if repeated (\<lambda>x. tr_gateway_audience_id x = tr_gateway_audience_id r \<and>
                 tr_verifier_key_id x = tr_verifier_key_id r \<and>
                 tr_token_verifier x = tr_token_verifier r) ts
      then Some ''gateway_destination_tokens_verifier_unique''
      else if tr_token_state r = str ''staged'' \<and> repeated (liveIndex (str ''staged'') r) ts
      then Some ''gateway_destination_tokens_one_staged_per_destination''
      else if tr_token_state r = str ''active'' \<and> repeated (liveIndex (str ''active'') r) ts
      then Some ''gateway_destination_tokens_one_active_per_destination''
      else if tr_token_state r = str ''retiring'' \<and> repeated (liveIndex (str ''retiring'') r) ts
      then Some ''gateway_destination_tokens_one_retiring_per_destination''
      else None)"

definition rowViolation :: "gateway_db \<Rightarrow> token_row list \<Rightarrow> token_row \<Rightarrow> go_error option" where
  "rowViolation db ts r =
     (case filter (\<lambda>(name, ok). \<not> ok) (tokenChecks r) of
        (name, _) # _ \<Rightarrow> Some (PgError (str ''23514'') (str name))
      | [] \<Rightarrow>
          (case uniqueViolation ts r of
             Some name \<Rightarrow> Some (PgError (str ''23505'') (str name))
           | None \<Rightarrow>
               if \<exists>d\<in>set (db_destinations db). dr_gateway_audience_id d = tr_gateway_audience_id r \<and>
                    dr_destination_id d = tr_destination_id r
               then None
               else Some (PgError (str ''23503'') (str ''gateway_destination_tokens_destination_fk''))))"

text \<open>The effect of a statement that gives the table \<open>ts\<close> with the rows \<open>changed\<close> written.\<close>

definition writeTokens :: "gateway_db \<Rightarrow> token_row list \<Rightarrow> token_row list \<Rightarrow> go_error + (nat \<times> gateway_db)" where
  "writeTokens db ts changed =
     (case first_some (rowViolation db ts) changed of
        Some e \<Rightarrow> Inl e
      | None \<Rightarrow> Inr (length changed, db\<lparr>db_tokens := ts\<rparr>))"

subsection \<open>Statements\<close>

definition selectLifecycleDestination :: "DestinationID \<Rightarrow> gateway_db \<Rightarrow> destination_row option" where
  "selectLifecycleDestination destination db =
     find (\<lambda>r. dr_destination_id r = destination) (db_destinations db)"

definition lockLifecycleDestinationSQL :: "DestinationID \<Rightarrow> gateway_db \<Rightarrow> destination_row option" where
  "lockLifecycleDestinationSQL = selectLifecycleDestination"

definition inspectLifecycleDestinationSQL :: "DestinationID \<Rightarrow> gateway_db \<Rightarrow> destination_row option" where
  "inspectLifecycleDestinationSQL = selectLifecycleDestination"

definition liveRow :: "DestinationID \<Rightarrow> token_row \<Rightarrow> bool" where
  "liveRow destination r = (tr_destination_id r = destination \<and> tr_token_state r \<noteq> str ''revoked'')"

definition selectLifecycleTokens :: "DestinationID \<Rightarrow> gateway_db \<Rightarrow> token_row list" where
  "selectLifecycleTokens destination db =
     take 4 (sort_key tr_token_state (sort_key tr_record_id (filter (liveRow destination) (db_tokens db))))"

definition lockLifecycleTokensSQL :: "DestinationID \<Rightarrow> gateway_db \<Rightarrow> token_row list" where
  "lockLifecycleTokensSQL = selectLifecycleTokens"

definition inspectLifecycleTokensSQL :: "DestinationID \<Rightarrow> gateway_db \<Rightarrow> token_row list" where
  "inspectLifecycleTokensSQL = selectLifecycleTokens"

definition inspectRotationAttemptTokensSQL ::
  "GatewayAudienceID \<Rightarrow> DestinationID \<Rightarrow> DestinationTokenRecordID \<Rightarrow> DestinationTokenRecordID \<Rightarrow>
   gateway_db \<Rightarrow> token_row list" where
  "inspectRotationAttemptTokensSQL audience destination first second db =
     sort_key tr_record_id (filter (\<lambda>r. tr_gateway_audience_id r = audience \<and>
       tr_destination_id r = destination \<and> (tr_record_id r = first \<or> tr_record_id r = second)) (db_tokens db))"

definition insertLifecycleStagedTokenSQL ::
  "DestinationTokenRecordID \<Rightarrow> GatewayAudienceID \<Rightarrow> DestinationID \<Rightarrow> byte list \<Rightarrow> gostring \<Rightarrow>
   time \<Rightarrow> time \<Rightarrow> time \<Rightarrow> gateway_db \<Rightarrow> go_error + (nat \<times> gateway_db)" where
  "insertLifecycleStagedTokenSQL recordID audience destination verifier keyID createdAt expiresAt
     cleanupDeadline db =
     (let row = \<lparr>tr_record_id = recordID, tr_gateway_audience_id = audience,
            tr_destination_id = destination, tr_token_verifier = verifier,
            tr_verifier_key_id = keyID, tr_token_state = str ''staged'',
            tr_created_at = timestampArgument createdAt, tr_activated_at = None,
            tr_retirement_started_at = None, tr_revoked_at = None,
            tr_expires_at = timestampArgument expiresAt,
            tr_staged_cleanup_deadline = timestampArgument cleanupDeadline,
            tr_retirement_overlap_deadline = None,
            tr_state_changed_at = timestampArgument createdAt\<rparr>
      in writeTokens db (db_tokens db @ [row]) [row])"

text \<open>The common form of the lifecycle updates: the row of one audience, destination and record in
  the state \<open>st\<close> whose last change is the observed one.\<close>

definition lifecycleTarget ::
  "GatewayAudienceID \<Rightarrow> DestinationID \<Rightarrow> DestinationTokenRecordID \<Rightarrow> gostring \<Rightarrow> time \<Rightarrow> token_row \<Rightarrow> bool" where
  "lifecycleTarget audience destination recordID st changedAt r =
     (tr_gateway_audience_id r = audience \<and> tr_destination_id r = destination \<and>
      tr_record_id r = recordID \<and> tr_token_state r = st \<and>
      tr_state_changed_at r = timestampArgument changedAt)"

definition updateTokens ::
  "(token_row \<Rightarrow> bool) \<Rightarrow> (token_row \<Rightarrow> token_row) \<Rightarrow> gateway_db \<Rightarrow> go_error + (nat \<times> gateway_db)" where
  "updateTokens P f db =
     writeTokens db (map (\<lambda>r. if P r then f r else r) (db_tokens db)) (map f (filter P (db_tokens db)))"

definition markActive :: "time \<Rightarrow> token_row \<Rightarrow> token_row" where
  "markActive now r = r\<lparr>tr_token_state := str ''active'',
     tr_activated_at := Some (timestampArgument now), tr_state_changed_at := timestampArgument now\<rparr>"

definition markRetiring :: "time \<Rightarrow> time \<Rightarrow> token_row \<Rightarrow> token_row" where
  "markRetiring now deadline r = r\<lparr>tr_token_state := str ''retiring'',
     tr_retirement_started_at := Some (timestampArgument now),
     tr_retirement_overlap_deadline := Some (timestampArgument deadline),
     tr_state_changed_at := timestampArgument now\<rparr>"

definition markRevoked :: "time \<Rightarrow> token_row \<Rightarrow> token_row" where
  "markRevoked now r = r\<lparr>tr_token_state := str ''revoked'',
     tr_revoked_at := Some (timestampArgument now), tr_state_changed_at := timestampArgument now\<rparr>"

definition markRestored :: "time \<Rightarrow> token_row \<Rightarrow> token_row" where
  "markRestored now r = r\<lparr>tr_token_state := str ''active'', tr_retirement_started_at := None,
     tr_retirement_overlap_deadline := None, tr_state_changed_at := timestampArgument now\<rparr>"

definition activateInitialLifecycleTokenSQL where
  "activateInitialLifecycleTokenSQL audience destination recordID changedAt now =
     updateTokens (lifecycleTarget audience destination recordID (str ''staged'') changedAt) (markActive now)"

definition retireLifecycleTokenSQL where
  "retireLifecycleTokenSQL audience destination recordID changedAt now deadline =
     updateTokens (lifecycleTarget audience destination recordID (str ''active'') changedAt)
       (markRetiring now deadline)"

definition activateRotationLifecycleTokenSQL where
  "activateRotationLifecycleTokenSQL audience destination recordID changedAt now =
     updateTokens (lifecycleTarget audience destination recordID (str ''staged'') changedAt) (markActive now)"

definition revokeStagedLifecycleTokenSQL where
  "revokeStagedLifecycleTokenSQL audience destination recordID changedAt now =
     updateTokens (lifecycleTarget audience destination recordID (str ''staged'') changedAt) (markRevoked now)"

definition revokeActiveLifecycleTokenSQL where
  "revokeActiveLifecycleTokenSQL audience destination recordID changedAt now =
     updateTokens (lifecycleTarget audience destination recordID (str ''active'') changedAt) (markRevoked now)"

definition restoreRetiringLifecycleTokenSQL where
  "restoreRetiringLifecycleTokenSQL audience destination recordID changedAt now =
     updateTokens (lifecycleTarget audience destination recordID (str ''retiring'') changedAt) (markRestored now)"

definition revokeRetiringLifecycleTokenSQL where
  "revokeRetiringLifecycleTokenSQL audience destination recordID changedAt now =
     updateTokens (lifecycleTarget audience destination recordID (str ''retiring'') changedAt) (markRevoked now)"

subsection \<open>Parsing selected rows\<close>

record lifecycleDestinationRecord =
  ld_destinationText :: gostring
  ld_audienceText :: gostring
  ld_stateText :: gostring
  ld_createdAt :: Timestamptz
  ld_stateChangedAt :: Timestamptz

definition scanDestination :: "destination_row \<Rightarrow> lifecycleDestinationRecord" where
  "scanDestination r = \<lparr>ld_destinationText = formatUUID (dr_destination_id r),
     ld_audienceText = formatUUID (dr_gateway_audience_id r),
     ld_stateText = dr_destination_state r,
     ld_createdAt = scanTimestamptz (Some (dr_created_at r)),
     ld_stateChangedAt = scanTimestamptz (Some (dr_state_changed_at r))\<rparr>"

definition lifecycleDestinationRecord_destination ::
  "GatewayAudienceID \<Rightarrow> DestinationID \<Rightarrow> time \<Rightarrow> lifecycleDestinationRecord \<Rightarrow> Destination result" where
  "lifecycleDestinationRecord_destination expectedAudience expectedDestination now record =
     (let reconcile = Inl (stateErr ErrDestinationLifecycleReconciliation) in
      if \<not> finiteTimestamp (ld_createdAt record) \<or> \<not> finiteTimestamp (ld_stateChangedAt record)
      then reconcile
      else if After (tz_Time (ld_createdAt record)) now \<or> After (tz_Time (ld_stateChangedAt record)) now
      then reconcile
      else case (parseUUID (ld_destinationText record) False, parseUUID (ld_audienceText record) False,
                 destinationState (ld_stateText record)) of
        (Inr destination, Inr audience, Inr st) \<Rightarrow>
          if destination \<noteq> expectedDestination \<or> audience \<noteq> expectedAudience then reconcile
          else (case NewDestination audience destination st (tz_Time (ld_createdAt record))
                       (tz_Time (ld_stateChangedAt record)) of
                  Inl _ \<Rightarrow> reconcile
                | Inr v \<Rightarrow> Inr v)
      | _ \<Rightarrow> reconcile)"

record lifecycleTokenRecord =
  lt_recordText :: gostring
  lt_audienceText :: gostring
  lt_destinationText :: gostring
  lt_verifierBytes :: "byte list"
  lt_keyIDText :: gostring
  lt_stateText :: gostring
  lt_createdAt :: Timestamptz
  lt_activatedAt :: Timestamptz
  lt_retirementStartedAt :: Timestamptz
  lt_revokedAt :: Timestamptz
  lt_expiresAt :: Timestamptz
  lt_stagedCleanupDeadline :: Timestamptz
  lt_retirementDeadline :: Timestamptz
  lt_stateChangedAt :: Timestamptz

definition scanToken :: "token_row \<Rightarrow> lifecycleTokenRecord" where
  "scanToken r = \<lparr>lt_recordText = formatUUID (tr_record_id r),
     lt_audienceText = formatUUID (tr_gateway_audience_id r),
     lt_destinationText = formatUUID (tr_destination_id r),
     lt_verifierBytes = tr_token_verifier r, lt_keyIDText = tr_verifier_key_id r,
     lt_stateText = tr_token_state r,
     lt_createdAt = scanTimestamptz (Some (tr_created_at r)),
     lt_activatedAt = scanTimestamptz (tr_activated_at r),
     lt_retirementStartedAt = scanTimestamptz (tr_retirement_started_at r),
     lt_revokedAt = scanTimestamptz (tr_revoked_at r),
     lt_expiresAt = scanTimestamptz (Some (tr_expires_at r)),
     lt_stagedCleanupDeadline = scanTimestamptz (Some (tr_staged_cleanup_deadline r)),
     lt_retirementDeadline = scanTimestamptz (tr_retirement_overlap_deadline r),
     lt_stateChangedAt = scanTimestamptz (Some (tr_state_changed_at r))\<rparr>"

definition lifecycleTokenRecord_token ::
  "GatewayAudienceID \<Rightarrow> Destination \<Rightarrow> lifecycleTokenRecord \<Rightarrow> DestinationTokenSpec result" where
  "lifecycleTokenRecord_token expectedAudience destination record =
     (let reconcile = Inl (stateErr ErrDestinationLifecycleReconciliation) in
      if \<not> finiteTimestamp (lt_createdAt record) \<or> \<not> finiteTimestamp (lt_expiresAt record) \<or>
         \<not> finiteTimestamp (lt_stagedCleanupDeadline record) \<or>
         \<not> finiteTimestamp (lt_stateChangedAt record)
      then reconcile
      else case (parseUUID (lt_recordText record) False, parseUUID (lt_audienceText record) False,
                 parseUUID (lt_destinationText record) False,
                 NewTokenVerifier (lt_verifierBytes record),
                 NewDestinationVerifierKeyID (lt_keyIDText record),
                 destinationTokenState (lt_stateText record),
                 optionalFiniteTime (lt_activatedAt record),
                 optionalFiniteTime (lt_retirementStartedAt record),
                 optionalFiniteTime (lt_revokedAt record),
                 optionalFiniteTime (lt_retirementDeadline record)) of
        (Inr recordID, Inr audience, Inr destinationID, Inr verifier, Inr keyID, Inr st,
         Inr activatedAt, Inr retirementStartedAt, Inr revokedAt, Inr retirementDeadline) \<Rightarrow>
          if audience \<noteq> expectedAudience \<or> destinationID \<noteq> de_id destination \<or>
             de_audienceID destination \<noteq> audience
          then reconcile
          else (case NewDestinationToken
                  \<lparr>ts_AudienceID = audience, ts_Destination = destination, ts_RecordID = recordID,
                   ts_Verifier = verifier, ts_VerifierKeyID = keyID, ts_State = st,
                   ts_CreatedAt = tz_Time (lt_createdAt record), ts_ActivatedAt = activatedAt,
                   ts_RetirementStartedAt = retirementStartedAt, ts_RevokedAt = revokedAt,
                   ts_ExpiresAt = tz_Time (lt_expiresAt record),
                   ts_StagedCleanupDeadline = tz_Time (lt_stagedCleanupDeadline record),
                   ts_RetirementDeadline = retirementDeadline,
                   ts_StateChangedAt = tz_Time (lt_stateChangedAt record)\<rparr> of
                  Inl _ \<Rightarrow> reconcile
                | Inr v \<Rightarrow> Inr v)
      | _ \<Rightarrow> reconcile)"

subsection \<open>What a parsed row is\<close>

fun stampTime :: "timestamptz \<Rightarrow> time" where
  "stampTime (Stamp us) = us * 1000"
| "stampTime _ = 0"

definition optionTime :: "timestamptz option \<Rightarrow> time" where
  "optionTime s = (case s of None \<Rightarrow> 0 | Some t \<Rightarrow> stampTime t)"

fun finiteStamp :: "timestamptz \<Rightarrow> bool" where
  "finiteStamp (Stamp us) = (us \<noteq> 0)"
| "finiteStamp _ = False"

definition optionStampOK :: "timestamptz option \<Rightarrow> bool" where
  "optionStampOK s = (case s of None \<Rightarrow> True | Some t \<Rightarrow> finiteStamp t)"

lemma finiteTimestamp_scan: "finiteTimestamp (scanTimestamptz (Some s)) \<longleftrightarrow> finiteStamp s"
  by (cases s) (simp_all add: finiteTimestamp_def IsZero_def)

lemma tz_Time_scan: "tz_Time (scanTimestamptz (Some s)) = stampTime s"
  by (cases s) simp_all

lemma optionalFiniteTime_scan:
  "optionalFiniteTime (scanTimestamptz s) =
     (if optionStampOK s then Inr (optionTime s) else Inl (postgresErr ErrAuthenticationStateIntegrity))"
proof (cases s)
  case (Some t)
  then show ?thesis
    by (cases t) (simp_all add: optionalFiniteTime_def optionStampOK_def optionTime_def IsZero_def)
qed (simp add: optionalFiniteTime_def optionStampOK_def optionTime_def)

definition tokenStateText :: "DestinationTokenState \<Rightarrow> gostring" where
  "tokenStateText st = (case st of DestinationTokenStaged \<Rightarrow> str ''staged''
     | DestinationTokenActive \<Rightarrow> str ''active'' | DestinationTokenRetiring \<Rightarrow> str ''retiring''
     | DestinationTokenRevoked \<Rightarrow> str ''revoked'' | DestinationTokenStateUndeclared \<Rightarrow> [])"

lemma state_texts_distinct [simp]:
  "str ''staged'' \<noteq> str ''active''" "str ''staged'' \<noteq> str ''retiring''" "str ''staged'' \<noteq> str ''revoked''"
  "str ''active'' \<noteq> str ''staged''" "str ''active'' \<noteq> str ''retiring''" "str ''active'' \<noteq> str ''revoked''"
  "str ''retiring'' \<noteq> str ''staged''" "str ''retiring'' \<noteq> str ''active''" "str ''retiring'' \<noteq> str ''revoked''"
  "str ''revoked'' \<noteq> str ''staged''" "str ''revoked'' \<noteq> str ''active''" "str ''revoked'' \<noteq> str ''retiring''"
  by code_simp+

lemma destinationTokenState_iff:
  "destinationTokenState x = Inr st \<longleftrightarrow> st \<noteq> DestinationTokenStateUndeclared \<and> x = tokenStateText st"
  by (cases st) (auto simp: destinationTokenState_def tokenStateText_def)

definition stateOfText :: "gostring \<Rightarrow> DestinationTokenState" where
  "stateOfText x = (case destinationTokenState x of Inr st \<Rightarrow> st | Inl _ \<Rightarrow> DestinationTokenStateUndeclared)"

lemma stateOfText_simps [simp]:
  "stateOfText (str ''staged'') = DestinationTokenStaged"
  "stateOfText (str ''active'') = DestinationTokenActive"
  "stateOfText (str ''retiring'') = DestinationTokenRetiring"
  "stateOfText (str ''revoked'') = DestinationTokenRevoked"
  by (simp_all add: stateOfText_def destinationTokenState_def)

definition specOf :: "Destination \<Rightarrow> token_row \<Rightarrow> DestinationTokenSpec" where
  "specOf d r = \<lparr>ts_AudienceID = tr_gateway_audience_id r, ts_Destination = d,
     ts_RecordID = tr_record_id r,
     ts_Verifier = \<lparr>tv_bytes = of_be_bytes (tr_token_verifier r), tv_present = True\<rparr>,
     ts_VerifierKeyID = tr_verifier_key_id r, ts_State = stateOfText (tr_token_state r),
     ts_CreatedAt = stampTime (tr_created_at r), ts_ActivatedAt = optionTime (tr_activated_at r),
     ts_RetirementStartedAt = optionTime (tr_retirement_started_at r),
     ts_RevokedAt = optionTime (tr_revoked_at r), ts_ExpiresAt = stampTime (tr_expires_at r),
     ts_StagedCleanupDeadline = stampTime (tr_staged_cleanup_deadline r),
     ts_RetirementDeadline = optionTime (tr_retirement_overlap_deadline r),
     ts_StateChangedAt = stampTime (tr_state_changed_at r)\<rparr>"

definition rowShapeOK :: "token_row \<Rightarrow> bool" where
  "rowShapeOK r = (finiteStamp (tr_created_at r) \<and> finiteStamp (tr_expires_at r) \<and>
     finiteStamp (tr_staged_cleanup_deadline r) \<and> finiteStamp (tr_state_changed_at r) \<and>
     optionStampOK (tr_activated_at r) \<and> optionStampOK (tr_retirement_started_at r) \<and>
     optionStampOK (tr_revoked_at r) \<and> optionStampOK (tr_retirement_overlap_deadline r) \<and>
     length (tr_token_verifier r) = 32 \<and> validKeyID (tr_verifier_key_id r))"

lemma parseUUID_format_cases:
  "parseUUID (formatUUID v) False = (if v = 0 then Inl (stateErr ErrInvalidState) else Inr v)"
proof (cases "v = 0")
  case True
  have "errs_in {stateErr ErrInvalidState} (parseUUID (formatUUID v) False)"
    unfolding parseUUID_def by (intro err_intro singletonI)
  moreover have "parseUUID (formatUUID v) False \<noteq> Inr w" for w
    using parseUUID_success(1,2) [of "formatUUID v" False w] True by auto
  ultimately show ?thesis
    using True by (cases "parseUUID (formatUUID v) False") (auto simp: errs_in_def)
qed (simp add: parseUUID_formatUUID)

lemmas row_parse_simps = finiteTimestamp_scan tz_Time_scan optionalFiniteTime_scan
  parseUUID_format_cases NewTokenVerifier_def NewDestinationVerifierKeyID_def result_simps

lemma token_parse:
  "lifecycleTokenRecord_token audience d (scanToken r) = Inr t \<longleftrightarrow>
     rowShapeOK r \<and> tr_record_id r \<noteq> 0 \<and> tr_gateway_audience_id r \<noteq> 0 \<and> tr_destination_id r \<noteq> 0 \<and>
     (\<exists>st. destinationTokenState (tr_token_state r) = Inr st) \<and>
     tr_gateway_audience_id r = audience \<and> tr_destination_id r = de_id d \<and>
     de_audienceID d = tr_gateway_audience_id r \<and> NewDestinationToken (specOf d r) = Inr t"
proof (cases "destinationTokenState (tr_token_state r)")
  case (Inl e)
  show ?thesis
    unfolding lifecycleTokenRecord_token_def scanToken_def Let_def
    by (simp add: Inl row_parse_simps split del: if_split)
next
  case (Inr st)
  then have "stateOfText (tr_token_state r) = st" by (simp add: stateOfText_def)
  then show ?thesis
    unfolding lifecycleTokenRecord_token_def scanToken_def Let_def specOf_def rowShapeOK_def
    by (simp add: Inr row_parse_simps split del: if_split) blast
qed

lemma token_iff:
  "lifecycleTokenRecord_token audience d (scanToken r) = Inr t \<longleftrightarrow>
     rowShapeOK r \<and> tr_gateway_audience_id r = audience \<and> tr_destination_id r = de_id d \<and>
     tokenSpecOK (specOf d r) \<and> t = specOf d r"
proof -
  have "tokenSpecOK (specOf d r) \<Longrightarrow> \<exists>st. destinationTokenState (tr_token_state r) = Inr st"
    by (auto simp: tokenSpecOK_def specOf_def stateOfText_def split: sum.splits)
  moreover have "tokenSpecOK (specOf d r) \<Longrightarrow> tr_record_id r \<noteq> 0 \<and> tr_gateway_audience_id r \<noteq> 0 \<and>
      de_audienceID d = tr_gateway_audience_id r \<and> de_id d \<noteq> 0"
    by (auto simp: tokenSpecOK_def specOf_def)
  ultimately show ?thesis
    unfolding token_parse NewDestinationToken_iff by auto
qed

end
