(* ===== verification/Pg_Session.thy ===== *)
theory Pg_Session
  imports Go_Errors Go_Time
begin

section \<open>The database session of a repository call\<close>

text \<open>
  The repositories of \<^verbatim>\<open>internal/postgres\<close> talk to PostgreSQL through the interfaces of the
  \<^verbatim>\<open>pgx\<close> driver. A session holds the committed database, the working copy of the open
  transaction, the answers the driver will give to the successive calls, the results of the
  successive \<^verbatim>\<open>ctx.Err()\<close> polls, and the log of what became of the acquired connection.
  Nothing is fixed about the answers: a call may be answered, refused without effect, or
  take effect while an error is reported, and a call that returns an object may return a nil
  one. The theorems of the repositories hold for every sequence of answers.

  The row lock that every mutation takes first (\<^verbatim>\<open>for update\<close> on the destination row) makes the
  working copy the state of that destination until the end of the transaction, so a
  transaction's view is the committed database at its start. A rollback always discards the
  working copy, also when the driver reports an error for it.
\<close>

datatype driver_answer =
    Answered
  | Refused go_error
  | Lost go_error
  | NilObject

datatype connection_event = Acquired | Released | Destroyed

datatype go_context = NilContext | CallContext

record 'db session =
  s_db :: 'db
  s_tx :: "'db option"
  s_script :: "driver_answer list"
  s_polls :: "go_error option list"
  s_log :: "connection_event list"

definition next_answer :: "('db session, driver_answer) state" where
  "next_answer = do {
     s \<leftarrow> State_Monad.get;
     case s_script s of
       [] \<Rightarrow> State_Monad.return Answered
     | a # rest \<Rightarrow> do { State_Monad.set (s\<lparr>s_script := rest\<rparr>); State_Monad.return a } }"

text \<open>One evaluation of \<^verbatim>\<open>ctx.Err()\<close>.\<close>

definition ctx_Err :: "('db session, go_error option) state" where
  "ctx_Err = do {
     s \<leftarrow> State_Monad.get;
     case s_polls s of
       [] \<Rightarrow> State_Monad.return None
     | e # rest \<Rightarrow> do { State_Monad.set (s\<lparr>s_polls := rest\<rparr>); State_Monad.return e } }"

definition record_event :: "connection_event \<Rightarrow> ('db session, unit) state" where
  "record_event e = State_Monad.update (\<lambda>s. s\<lparr>s_log := s_log s @ [e]\<rparr>)"

text \<open>\<^verbatim>\<open>pool.Acquire\<close>: whether a connection is returned, and the error.\<close>

definition pool_Acquire :: "('db session, bool \<times> go_error option) state" where
  "pool_Acquire = do {
     a \<leftarrow> next_answer;
     case a of
       Answered \<Rightarrow> do { record_event Acquired; State_Monad.return (True, None) }
     | Lost e \<Rightarrow> do { record_event Acquired; State_Monad.return (True, Some e) }
     | Refused e \<Rightarrow> State_Monad.return (False, Some e)
     | NilObject \<Rightarrow> State_Monad.return (False, None) }"

definition connection_Release :: "('db session, unit) state" where
  "connection_Release = record_event Released"

definition connection_Destroy :: "('db session, unit) state" where
  "connection_Destroy = record_event Destroyed"

text \<open>\<^verbatim>\<open>connection.Begin\<close>: whether a transaction is returned, and the error. The driver closes
  a connection on which it could not confirm the start of a transaction.\<close>

definition connection_Begin :: "('db session, bool \<times> go_error option) state" where
  "connection_Begin = do {
     a \<leftarrow> next_answer;
     case a of
       Answered \<Rightarrow> do {
         State_Monad.update (\<lambda>s. s\<lparr>s_tx := Some (s_db s)\<rparr>);
         State_Monad.return (True, None) }
     | Lost e \<Rightarrow> State_Monad.return (False, Some e)
     | Refused e \<Rightarrow> State_Monad.return (False, Some e)
     | NilObject \<Rightarrow> State_Monad.return (False, None) }"

text \<open>The database a statement runs on.\<close>

fun view_of :: "'db \<Rightarrow> 'db option \<Rightarrow> 'db" where
  "view_of db None = db"
| "view_of db (Some d) = d"

definition tx_view :: "'db session \<Rightarrow> 'db" where
  "tx_view s = view_of (s_db s) (s_tx s)"

text \<open>\<^verbatim>\<open>transaction.QueryRow(...).Scan(...)\<close> of a query that selects at most one row: \<open>None\<close> is a nil
  row object.\<close>

definition tx_QueryRow :: "('db \<Rightarrow> 'row option) \<Rightarrow> ('db session, 'row result option) state" where
  "tx_QueryRow query = do {
     a \<leftarrow> next_answer;
     s \<leftarrow> State_Monad.get;
     State_Monad.return
       (case a of
          NilObject \<Rightarrow> None
        | Refused e \<Rightarrow> Some (Inl e)
        | Lost e \<Rightarrow> Some (Inl e)
        | Answered \<Rightarrow> Some (case query (tx_view s) of
            None \<Rightarrow> Inl (Sentinel (Pgx ErrNoRows))
          | Some r \<Rightarrow> Inr r)) }"

text \<open>\<^verbatim>\<open>transaction.Query\<close>: the rows object, when there is one, and the error.\<close>

definition tx_Query :: "('db \<Rightarrow> 'row list) \<Rightarrow> ('db session, 'row list option \<times> go_error option) state" where
  "tx_Query query = do {
     a \<leftarrow> next_answer;
     s \<leftarrow> State_Monad.get;
     State_Monad.return
       (case a of
          Answered \<Rightarrow> (Some (query (tx_view s)), None)
        | Lost e \<Rightarrow> (Some [], Some e)
        | Refused e \<Rightarrow> (None, Some e)
        | NilObject \<Rightarrow> (None, None)) }"

text \<open>An error reported by \<^verbatim>\<open>rows.Next\<close>, \<^verbatim>\<open>rows.Scan\<close> or \<^verbatim>\<open>rows.Err\<close>.\<close>

definition rows_error :: "('db session, go_error option) state" where
  "rows_error = do {
     a \<leftarrow> next_answer;
     State_Monad.return
       (case a of Refused e \<Rightarrow> Some e | Lost e \<Rightarrow> Some e | _ \<Rightarrow> None) }"

text \<open>\<^verbatim>\<open>transaction.Exec\<close> of a statement that changes rows: the number of rows affected. The
  statement itself may be refused by the database, with the error its constraint gives.\<close>

definition tx_Exec :: "('db \<Rightarrow> go_error + (nat \<times> 'db)) \<Rightarrow> ('db session, nat result) state" where
  "tx_Exec statement = do {
     a \<leftarrow> next_answer;
     s \<leftarrow> State_Monad.get;
     case a of
       Refused e \<Rightarrow> State_Monad.return (Inl e)
     | _ \<Rightarrow>
        (case statement (tx_view s) of
           Inl e \<Rightarrow> State_Monad.return (Inl e)
         | Inr (n, d) \<Rightarrow> do {
             State_Monad.set (s\<lparr>s_tx := Some d\<rparr>);
             State_Monad.return (case a of Lost e \<Rightarrow> Inl e | _ \<Rightarrow> Inr n) }) }"

text \<open>\<^verbatim>\<open>transaction.QueryRow(...).Scan(...)\<close> of a statement that changes rows and returns at most one.
  The driver's row object is never nil here.\<close>

definition tx_QueryRow_returning ::
  "('db \<Rightarrow> go_error + ('row option \<times> 'db)) \<Rightarrow> ('db session, 'row result) state" where
  "tx_QueryRow_returning statement = do {
     a \<leftarrow> next_answer;
     s \<leftarrow> State_Monad.get;
     case a of
       Refused e \<Rightarrow> State_Monad.return (Inl e)
     | _ \<Rightarrow>
        (case statement (tx_view s) of
           Inl e \<Rightarrow> State_Monad.return (Inl e)
         | Inr (row, d) \<Rightarrow> do {
             State_Monad.set (s\<lparr>s_tx := Some d\<rparr>);
             State_Monad.return (case a of
                 Lost e \<Rightarrow> Inl e
               | _ \<Rightarrow> (case row of None \<Rightarrow> Inl (Sentinel (Pgx ErrNoRows)) | Some r \<Rightarrow> Inr r)) }) }"

definition tx_Commit :: "('db session, go_error option) state" where
  "tx_Commit = do {
     a \<leftarrow> next_answer;
     s \<leftarrow> State_Monad.get;
     case a of
       Refused e \<Rightarrow> do { State_Monad.set (s\<lparr>s_tx := None\<rparr>); State_Monad.return (Some e) }
     | _ \<Rightarrow> do {
         State_Monad.set (s\<lparr>s_db := tx_view s, s_tx := None\<rparr>);
         State_Monad.return (case a of Lost e \<Rightarrow> Some e | _ \<Rightarrow> None) } }"

definition tx_Rollback :: "('db session, go_error option) state" where
  "tx_Rollback = do {
     a \<leftarrow> next_answer;
     s \<leftarrow> State_Monad.get;
     State_Monad.set (s\<lparr>s_tx := None\<rparr>);
     State_Monad.return (case a of Refused e \<Rightarrow> Some e | Lost e \<Rightarrow> Some e | _ \<Rightarrow> None) }"

text \<open>The documented meaning of \<^verbatim>\<open>pgx.ErrTxCommitRollback\<close>: the server answered \<^verbatim>\<open>COMMIT\<close> with
  \<^verbatim>\<open>ROLLBACK\<close>, so it is never the error of a commit that took effect.\<close>

definition driver_honest :: "'db session \<Rightarrow> bool" where
  "driver_honest s = (Lost (Sentinel (Pgx ErrTxCommitRollback)) \<notin> set (s_script s))"

text \<open>The documented meaning of \<^verbatim>\<open>pgx.ErrNoRows\<close>: the statement gave no row, so it is never the error of
  a statement that took effect.\<close>

definition no_rows_honest :: "'db session \<Rightarrow> bool" where
  "no_rows_honest s = (\<forall>e. Lost e \<in> set (s_script s) \<longrightarrow> \<not> errors_Is e (Pgx ErrNoRows))"

subsection \<open>Reasoning about a call for every answer\<close>

text \<open>\<open>after p s Q\<close>: running \<open>p\<close> in \<open>s\<close> gives a result and a session that satisfy \<open>Q\<close>.\<close>

definition after :: "('s, 'a) state \<Rightarrow> 's \<Rightarrow> ('a \<Rightarrow> 's \<Rightarrow> bool) \<Rightarrow> bool" where
  "after p s Q = (case run_state p s of (x, s') \<Rightarrow> Q x s')"

named_theorems after_simps

lemma after_return [after_simps]: "after (State_Monad.return x) s Q = Q x s"
  by (simp add: after_def)

lemma after_bind [after_simps]: "after (State_Monad.bind p f) s Q = after p s (\<lambda>x s'. after (f x) s' Q)"
  by (simp add: after_def go_run split: prod.splits)

lemma after_get [after_simps]: "after State_Monad.get s Q = Q s s"
  by (simp add: after_def go_run)

lemma after_set [after_simps]: "after (State_Monad.set s') s Q = Q () s'"
  by (simp add: after_def go_run)

lemma after_update [after_simps]: "after (State_Monad.update f) s Q = Q () (f s)"
  by (simp add: after_def go_run)

lemma after_if [after_simps]: "after (if c then p else q) s Q = (if c then after p s Q else after q s Q)"
  by simp

lemma after_case_option [after_simps]:
  "after (case x of None \<Rightarrow> p | Some a \<Rightarrow> f a) s Q = (case x of None \<Rightarrow> after p s Q | Some a \<Rightarrow> after (f a) s Q)"
  by (cases x) simp_all

lemma after_case_sum [after_simps]:
  "after (case x of Inl e \<Rightarrow> f e | Inr a \<Rightarrow> g a) s Q =
     (case x of Inl e \<Rightarrow> after (f e) s Q | Inr a \<Rightarrow> after (g a) s Q)"
  by (cases x) simp_all

lemma after_case_prod [after_simps]:
  "after (case x of (a, b) \<Rightarrow> f a b) s Q = (case x of (a, b) \<Rightarrow> after (f a b) s Q)"
  by (cases x) simp

lemma after_mono: "after p s Q \<Longrightarrow> (\<And>x s'. Q x s' \<Longrightarrow> R x s') \<Longrightarrow> after p s R"
  by (auto simp: after_def split: prod.splits)

lemma after_conj: "after p s Q \<Longrightarrow> after p s R \<Longrightarrow> after p s (\<lambda>x s'. Q x s' \<and> R x s')"
  by (auto simp: after_def split: prod.splits)

lemma afterD: "after p s Q \<Longrightarrow> run_state p s = (x, s') \<Longrightarrow> Q x s'"
  by (simp add: after_def)

lemma afterI: "(\<And>x s'. run_state p s = (x, s') \<Longrightarrow> Q x s') \<Longrightarrow> after p s Q"
  by (auto simp: after_def split: prod.splits)

text \<open>What a call that only consumes an answer or a poll leaves alone.\<close>

definition same_data :: "'db session \<Rightarrow> 'db session \<Rightarrow> bool" where
  "same_data s s' = (s_db s' = s_db s \<and> s_tx s' = s_tx s \<and> s_log s' = s_log s \<and>
     set (s_script s') \<subseteq> set (s_script s))"

lemma same_data_refl [simp]: "same_data s s"
  by (simp add: same_data_def)

lemma same_data_trans: "same_data s s' \<Longrightarrow> same_data s' s'' \<Longrightarrow> same_data s s''"
  by (auto simp: same_data_def)

lemma same_data_honest: "same_data s s' \<Longrightarrow> driver_honest s \<Longrightarrow> driver_honest s'"
  by (auto simp: same_data_def driver_honest_def)

lemma same_data_view: "same_data s s' \<Longrightarrow> tx_view s' = tx_view s"
  by (simp add: same_data_def tx_view_def)

lemma next_answer_after:
  "(\<And>a s'. same_data s s' \<Longrightarrow> a \<in> insert Answered (set (s_script s)) \<Longrightarrow> Q a s') \<Longrightarrow> after next_answer s Q"
  by (cases "s_script s") (simp_all add: next_answer_def after_simps same_data_def subset_insertI)

lemma ctx_Err_after: "(\<And>e s'. same_data s s' \<Longrightarrow> Q e s') \<Longrightarrow> after ctx_Err s Q"
  by (cases "s_polls s") (simp_all add: ctx_Err_def after_simps same_data_def)

text \<open>\<open>moved s d t evs s'\<close>: the session went from \<open>s\<close> to \<open>s'\<close>, where the committed database is \<open>d\<close>
  and the working copy \<open>t\<close>, with the connection events \<open>evs\<close>.\<close>

definition moved ::
  "'db session \<Rightarrow> 'db \<Rightarrow> 'db option \<Rightarrow> connection_event list \<Rightarrow> 'db session \<Rightarrow> bool" where
  "moved s d t evs s' = (s_db s' = d \<and> s_tx s' = t \<and> s_log s' = s_log s @ evs \<and>
     set (s_script s') \<subseteq> set (s_script s))"

lemma moved_same: "same_data s s' \<longleftrightarrow> moved s (s_db s) (s_tx s) [] s'"
  by (auto simp: same_data_def moved_def)

lemma moved_trans: "moved s d t evs s' \<Longrightarrow> moved s' d' t' evs' s'' \<Longrightarrow> moved s d' t' (evs @ evs') s''"
  by (auto simp: moved_def)

lemma moved_fields: "moved s d t evs s' \<Longrightarrow> s_db s' = d \<and> s_tx s' = t \<and> s_log s' = s_log s @ evs"
  by (simp add: moved_def)

lemma moved_honest: "moved s d t evs s' \<Longrightarrow> driver_honest s \<Longrightarrow> driver_honest s'"
  by (auto simp: moved_def driver_honest_def)

lemma record_event_after: "Q () (s\<lparr>s_log := s_log s @ [ev]\<rparr>) \<Longrightarrow> after (record_event ev) s Q"
  by (simp add: record_event_def after_simps)

lemma connection_end_after:
  "(\<And>s'. moved s (s_db s) (s_tx s) [Released] s' \<Longrightarrow> Q () s') \<Longrightarrow> after connection_Release s Q"
  "(\<And>s'. moved s (s_db s) (s_tx s) [Destroyed] s' \<Longrightarrow> Q () s') \<Longrightarrow> after connection_Destroy s Q"
  by (simp_all add: connection_Release_def connection_Destroy_def record_event_def after_simps moved_def)

lemma pool_Acquire_after:
  assumes "\<And>c e s'. moved s (s_db s) (s_tx s) (if c then [Acquired] else []) s' \<Longrightarrow> Q (c, e) s'"
  shows "after pool_Acquire s Q"
  unfolding pool_Acquire_def after_bind
proof (rule next_answer_after)
  fix a s' assume "same_data s s'"
  then show "after (case a of
       Answered \<Rightarrow> State_Monad.bind (record_event Acquired) (\<lambda>_. State_Monad.return (True, None))
     | Refused e \<Rightarrow> State_Monad.return (False, Some e)
     | Lost e \<Rightarrow> State_Monad.bind (record_event Acquired) (\<lambda>_. State_Monad.return (True, Some e))
     | NilObject \<Rightarrow> State_Monad.return (False, None)) s' Q"
    using assms by (cases a) (simp_all add: record_event_def after_simps same_data_def moved_def)
qed

lemma connection_Begin_after:
  assumes "\<And>c e s'. moved s (s_db s) (if c then Some (s_db s) else s_tx s) [] s' \<Longrightarrow>
    (c \<longrightarrow> e = None) \<Longrightarrow> Q (c, e) s'"
  shows "after connection_Begin s Q"
  unfolding connection_Begin_def after_bind
proof (rule next_answer_after)
  fix a s' assume "same_data s s'"
  then show "after (case a of
       Answered \<Rightarrow> State_Monad.bind (State_Monad.update (\<lambda>s. s\<lparr>s_tx := Some (s_db s)\<rparr>))
         (\<lambda>_. State_Monad.return (True, None))
     | Refused e \<Rightarrow> State_Monad.return (False, Some e)
     | Lost e \<Rightarrow> State_Monad.return (False, Some e)
     | NilObject \<Rightarrow> State_Monad.return (False, None)) s' Q"
    using assms by (cases a) (simp_all add: after_simps same_data_def moved_def)
qed

lemma tx_QueryRow_after:
  assumes "\<And>r s'. same_data s s' \<Longrightarrow>
    (\<And>row. r = Some (Inr row) \<Longrightarrow> query (tx_view s) = Some row) \<Longrightarrow> Q r s'"
  shows "after (tx_QueryRow query) s Q"
  unfolding tx_QueryRow_def after_bind after_get after_return
proof (rule next_answer_after)
  fix a s' assume "same_data s s'"
  then show "Q (case a of NilObject \<Rightarrow> None | Refused e \<Rightarrow> Some (Inl e) | Lost e \<Rightarrow> Some (Inl e)
      | Answered \<Rightarrow> Some (case query (tx_view s') of None \<Rightarrow> Inl (Sentinel (Pgx ErrNoRows)) | Some r \<Rightarrow> Inr r)) s'"
    by (intro assms) (auto simp: same_data_view split: driver_answer.splits option.splits)
qed

lemma tx_Query_after:
  assumes "\<And>rows e s'. same_data s s' \<Longrightarrow>
    (\<And>rs. rows = Some rs \<Longrightarrow> e = None \<Longrightarrow> rs = query (tx_view s)) \<Longrightarrow> Q (rows, e) s'"
  shows "after (tx_Query query) s Q"
  unfolding tx_Query_def after_bind after_get after_return
proof (rule next_answer_after)
  fix a s' assume same: "same_data s s'"
  show "Q (case a of Answered \<Rightarrow> (Some (query (tx_view s')), None) | Refused e \<Rightarrow> (None, Some e)
      | Lost e \<Rightarrow> (Some [], Some e) | NilObject \<Rightarrow> (None, None)) s'"
    by (cases a) (auto simp: same_data_view [OF same] intro!: assms [OF same])
qed

lemma rows_error_after: "(\<And>e s'. same_data s s' \<Longrightarrow> Q e s') \<Longrightarrow> after rows_error s Q"
  unfolding rows_error_def after_bind after_return by (rule next_answer_after) simp

lemma tx_Exec_after:
  assumes "\<And>r t s'. moved s (s_db s) t [] s' \<Longrightarrow>
    (\<And>n. r = Inr n \<Longrightarrow> \<exists>d. statement (tx_view s) = Inr (n, d) \<and> t = Some d) \<Longrightarrow> Q r s'"
  shows "after (tx_Exec statement) s Q"
  unfolding tx_Exec_def after_bind after_get
proof (rule next_answer_after)
  fix a s' assume same: "same_data s s'"
  have Q: "Q r s''" if "moved s (s_db s) t [] s''"
    "\<And>n. r = Inr n \<Longrightarrow> \<exists>d. statement (tx_view s') = Inr (n, d) \<and> t = Some d" for r t s''
    using assms [OF that(1)] that(2) by (simp add: same_data_view [OF same])
  have keep: "Q (Inl e) s'" for e
    using same by (intro Q [of "s_tx s"]) (simp_all add: moved_same)
  have "Q (case a of Lost e \<Rightarrow> Inl e | _ \<Rightarrow> Inr n) (s'\<lparr>s_tx := Some d\<rparr>)"
    if "statement (tx_view s') = Inr (n, d)" for n d
    using same that by (intro Q [of "Some d"]) (auto simp: same_data_def moved_def split: driver_answer.splits)
  with keep show "after (case a of
       Refused e \<Rightarrow> State_Monad.return (Inl e)
     | _ \<Rightarrow>
        (case statement (tx_view s') of
           Inl e \<Rightarrow> State_Monad.return (Inl e)
         | Inr (n, d) \<Rightarrow> do {
             State_Monad.set (s'\<lparr>s_tx := Some d\<rparr>);
             State_Monad.return (case a of Lost e \<Rightarrow> Inl e | _ \<Rightarrow> Inr n) })) s' Q"
    by (auto simp: after_simps split: driver_answer.splits sum.splits prod.splits)
qed

lemma tx_QueryRow_returning_after:
  assumes "\<And>r t s'. moved s (s_db s) t [] s' \<Longrightarrow>
    (\<And>row. r = Inr row \<Longrightarrow> \<exists>d. statement (tx_view s) = Inr (Some row, d) \<and> t = Some d) \<Longrightarrow>
    (\<And>e. r = Inl e \<Longrightarrow> no_rows_honest s \<Longrightarrow> errors_Is e (Pgx ErrNoRows) \<Longrightarrow>
       t = s_tx s \<or> (\<exists>d. statement (tx_view s) = Inr (None, d) \<and> t = Some d)) \<Longrightarrow> Q r s'"
  shows "after (tx_QueryRow_returning statement) s Q"
  unfolding tx_QueryRow_returning_def after_bind after_get
proof (rule next_answer_after)
  fix a s' assume same: "same_data s s'" and a: "a \<in> insert Answered (set (s_script s))"
  have view: "tx_view s' = tx_view s" by (rule same_data_view [OF same])
  have keep: "Q (Inl e) s'" for e
    using same by (intro assms [of "s_tx s"]) (simp_all add: moved_same)
  have "Q (case a of Lost e \<Rightarrow> Inl e | _ \<Rightarrow> (case row of None \<Rightarrow> Inl (Sentinel (Pgx ErrNoRows)) | Some r \<Rightarrow> Inr r))
      (s'\<lparr>s_tx := Some d\<rparr>)"
    if "statement (tx_view s') = Inr (row, d)" for row d
    using same a that view
    by (intro assms [of "Some d"])
      (auto simp: same_data_def moved_def no_rows_honest_def split: driver_answer.splits option.splits)
  with keep show "after (case a of
       Refused e \<Rightarrow> State_Monad.return (Inl e)
     | _ \<Rightarrow>
        (case statement (tx_view s') of
           Inl e \<Rightarrow> State_Monad.return (Inl e)
         | Inr (row, d) \<Rightarrow> do {
             State_Monad.set (s'\<lparr>s_tx := Some d\<rparr>);
             State_Monad.return (case a of
                 Lost e \<Rightarrow> Inl e
               | _ \<Rightarrow> (case row of None \<Rightarrow> Inl (Sentinel (Pgx ErrNoRows)) | Some r \<Rightarrow> Inr r)) })) s' Q"
    by (auto simp: after_simps split: driver_answer.splits sum.splits prod.splits)
qed

lemma tx_Commit_after:
  assumes "\<And>e d s'. moved s d None [] s' \<Longrightarrow> d = s_db s \<or> d = tx_view s \<Longrightarrow>
    (e = None \<Longrightarrow> d = tx_view s) \<Longrightarrow>
    (driver_honest s \<Longrightarrow> e = Some (Sentinel (Pgx ErrTxCommitRollback)) \<Longrightarrow> d = s_db s) \<Longrightarrow> Q e s'"
  shows "after tx_Commit s Q"
  unfolding tx_Commit_def after_bind after_get
proof (rule next_answer_after)
  fix a s' assume same: "same_data s s'" and a: "a \<in> insert Answered (set (s_script s))"
  have view: "tx_view s' = tx_view s" by (rule same_data_view [OF same])
  show "after (case a of
       Refused e \<Rightarrow> do { State_Monad.set (s'\<lparr>s_tx := None\<rparr>); State_Monad.return (Some e) }
     | _ \<Rightarrow> do {
         State_Monad.set (s'\<lparr>s_db := tx_view s', s_tx := None\<rparr>);
         State_Monad.return (case a of Lost e \<Rightarrow> Some e | _ \<Rightarrow> None) }) s' Q"
  proof (cases a)
    case (Refused e)
    show ?thesis using same
      by (auto simp: Refused after_simps same_data_def moved_def intro!: assms [of "s_db s"])
  next
    case (Lost e)
    with a have "driver_honest s \<Longrightarrow> e \<noteq> Sentinel (Pgx ErrTxCommitRollback)"
      by (auto simp: driver_honest_def)
    then show ?thesis using same
      by (auto simp: Lost after_simps same_data_def moved_def view intro!: assms [of "tx_view s"])
  qed (use same in \<open>auto simp: after_simps same_data_def moved_def view intro!: assms [of "tx_view s"]\<close>)
qed

lemma tx_Rollback_after:
  "(\<And>e s'. moved s (s_db s) None [] s' \<Longrightarrow> Q e s') \<Longrightarrow> after tx_Rollback s Q"
  unfolding tx_Rollback_def after_bind after_get after_set after_return
  by (rule next_answer_after) (simp add: same_data_def moved_def)

lemmas session_after = next_answer_after ctx_Err_after connection_end_after pool_Acquire_after
  connection_Begin_after tx_QueryRow_after tx_Query_after rows_error_after tx_Exec_after
  tx_QueryRow_returning_after tx_Commit_after tx_Rollback_after

subsection \<open>Symbolic execution\<close>

text \<open>Rules that follow the syntax of a program; the goals they leave are the postcondition at
  each return, under what the branches and the driver calls establish.\<close>

named_theorems after_intro

lemma after_bindI [after_intro]: "after p s (\<lambda>x s'. after (f x) s' Q) \<Longrightarrow> after (State_Monad.bind p f) s Q"
  by (simp add: after_simps)

lemma after_returnI [after_intro]: "Q x s \<Longrightarrow> after (State_Monad.return x) s Q"
  by (simp add: after_simps)

lemma after_ifI [after_intro]:
  "(c \<Longrightarrow> after p s Q) \<Longrightarrow> (\<not> c \<Longrightarrow> after q s Q) \<Longrightarrow> after (if c then p else q) s Q"
  by simp

lemma after_optionI [after_intro]:
  "(x = None \<Longrightarrow> after p s Q) \<Longrightarrow> (\<And>a. x = Some a \<Longrightarrow> after (f a) s Q) \<Longrightarrow>
     after (case x of None \<Rightarrow> p | Some a \<Rightarrow> f a) s Q"
  by (cases x) simp_all

lemma after_sumI [after_intro]:
  "(\<And>e. x = Inl e \<Longrightarrow> after (f e) s Q) \<Longrightarrow> (\<And>a. x = Inr a \<Longrightarrow> after (g a) s Q) \<Longrightarrow>
     after (case x of Inl e \<Rightarrow> f e | Inr a \<Rightarrow> g a) s Q"
  by (cases x) simp_all

lemma after_prodI [after_intro]:
  "(\<And>a b. x = (a, b) \<Longrightarrow> after (f a b) s Q) \<Longrightarrow> after (case x of (a, b) \<Rightarrow> f a b) s Q"
  by (cases x) simp

lemma after_letI [after_intro]: "(\<And>x. x = a \<Longrightarrow> after (f x) s Q) \<Longrightarrow> after (let x = a in f x) s Q"
  by simp

lemmas session_frame = same_data_def moved_def tx_view_def

subsection \<open>A driver that answers every call\<close>

text \<open>No failure is left in the script.\<close>

definition answering :: "'db session \<Rightarrow> bool" where
  "answering s = (s_script s = [])"

lemma answering_update [simp]:
  "answering (s\<lparr>s_db := d\<rparr>) = answering s" "answering (s\<lparr>s_tx := t\<rparr>) = answering s"
  "answering (s\<lparr>s_log := l\<rparr>) = answering s" "answering (s\<lparr>s_polls := ps\<rparr>) = answering s"
  by (simp_all add: answering_def)

lemma answering_answer: "answering s \<Longrightarrow> after next_answer s Q = Q Answered s"
  by (simp add: answering_def next_answer_def after_simps)

lemma answering_after:
  assumes "answering s"
  shows "after pool_Acquire s Q' = Q' (True, None) (s\<lparr>s_log := s_log s @ [Acquired]\<rparr>)"
    "after connection_Begin s Q' = Q' (True, None) (s\<lparr>s_tx := Some (s_db s)\<rparr>)"
    "after (tx_QueryRow query) s R = R (Some (case query (tx_view s) of
       None \<Rightarrow> Inl (Sentinel (Pgx ErrNoRows)) | Some r \<Rightarrow> Inr r)) s"
    "after (tx_Query queries) s R' = R' (Some (queries (tx_view s)), None) s"
    "after rows_error s Q = Q None s"
    "after (tx_Exec statement) s E = (case statement (tx_view s) of
       Inl e \<Rightarrow> E (Inl e) s | Inr (n, d) \<Rightarrow> E (Inr n) (s\<lparr>s_tx := Some d\<rparr>))"
    "after (tx_QueryRow_returning returning) s F = (case returning (tx_view s) of
       Inl e \<Rightarrow> F (Inl e) s
     | Inr (row, d) \<Rightarrow> F (case row of None \<Rightarrow> Inl (Sentinel (Pgx ErrNoRows)) | Some r \<Rightarrow> Inr r) (s\<lparr>s_tx := Some d\<rparr>))"
    "after tx_Commit s Q = Q None (s\<lparr>s_db := tx_view s, s_tx := None\<rparr>)"
    "after tx_Rollback s Q = Q None (s\<lparr>s_tx := None\<rparr>)"
  using assms
  by (simp_all add: pool_Acquire_def connection_Begin_def tx_QueryRow_def tx_Query_def rows_error_def
      tx_Exec_def tx_QueryRow_returning_def tx_Commit_def tx_Rollback_def record_event_def after_simps answering_answer
      split: sum.splits prod.splits)

text \<open>A driver that answers and a context that is not cancelled.\<close>

definition calm :: "'db session \<Rightarrow> bool" where
  "calm s = (answering s \<and> s_polls s = [])"

lemma calm_update [simp]:
  "calm (s\<lparr>s_db := d\<rparr>) = calm s" "calm (s\<lparr>s_tx := t\<rparr>) = calm s" "calm (s\<lparr>s_log := l\<rparr>) = calm s"
  by (simp_all add: calm_def)

lemma calm_answering: "calm s \<Longrightarrow> answering s"
  by (simp add: calm_def)

lemma calm_answer: "calm s \<Longrightarrow> after next_answer s Q = Q Answered s"
  by (rule answering_answer [OF calm_answering])

lemma calm_ctx_Err: "calm s \<Longrightarrow> after ctx_Err s Q = Q None s"
  by (simp add: calm_def ctx_Err_def after_simps)

lemmas calm_after = calm_ctx_Err answering_after [OF calm_answering]

text \<open>Every poll of the context left to be made finds it alive.\<close>

definition live :: "'db session \<Rightarrow> bool" where
  "live s = list_all (\<lambda>p. p = None) (s_polls s)"

lemma live_ctx_Err:
  assumes "live s" "\<And>ps. live (s\<lparr>s_polls := ps\<rparr>) \<Longrightarrow> Q None (s\<lparr>s_polls := ps\<rparr>)"
  shows "after ctx_Err s Q"
proof (cases "s_polls s")
  case Nil
  then have "s\<lparr>s_polls := []\<rparr> = s" by (cases s) simp
  with Nil assms(1) assms(2) [of "[]"] show ?thesis by (simp add: ctx_Err_def after_simps)
next
  case (Cons p ps)
  then show ?thesis using assms(1) assms(2) [of ps] by (simp add: ctx_Err_def after_simps live_def)
qed

end
