(* ===== verification/Lifecycle_Repository.thy ===== *)
theory Lifecycle_Repository
  imports Lifecycle_Rows Pg_Session
begin

section \<open>The PostgreSQL repository of the token lifecycle\<close>

text \<open>
  \<^verbatim>\<open>internal/postgres/destination_token_lifecycle.go\<close>: each lifecycle operation acquires a
  connection, opens a transaction, loads and classifies the live rows of the destination, checks
  the operation's precondition, runs one or two guarded updates and commits; every failure is
  turned into one of the safe lifecycle errors, and the connection is released or destroyed.
  A Go function with an error result returns \<open>go_error option\<close>; the deferred functions
  run where the model says \<open>cleanup\<close>. The parameter \<open>timeout\<close> is the driver's \<^verbatim>\<open>pgconn.Timeout\<close>.
\<close>

subsection \<open>Error classification\<close>

abbreviation lifecycleRepositoryError :: "securitystate_sentinel \<Rightarrow> string \<Rightarrow> go_error" where
  "lifecycleRepositoryError kind operation \<equiv> safeError (stateErr kind) operation"

text \<open>\<^verbatim>\<open>lifecycleRepositoryCancellation\<close> with a non-nil error, which does not consult the context.\<close>

definition errorCancellation :: "go_error \<Rightarrow> securitystate_sentinel option" where
  "errorCancellation err =
     (if lifecycleRepositorySingleCauseMatches err (Context Canceled)
      then Some ErrDestinationLifecycleCanceled
      else if lifecycleRepositorySingleCauseMatches err (Context DeadlineExceeded)
      then Some ErrDestinationLifecycleDeadline
      else None)"

definition lifecycleRepositoryCancellation ::
  "go_context \<Rightarrow> go_error option \<Rightarrow> ('db session, securitystate_sentinel option) state" where
  "lifecycleRepositoryCancellation ctx err =
     (case err of
        Some e \<Rightarrow> State_Monad.return (errorCancellation e)
      | None \<Rightarrow>
          if ctx = NilContext then State_Monad.return None
          else do {
            first \<leftarrow> ctx_Err;
            if first = Some (contextErr Canceled)
            then State_Monad.return (Some ErrDestinationLifecycleCanceled)
            else do {
              second \<leftarrow> ctx_Err;
              if second = Some (contextErr DeadlineExceeded)
              then State_Monad.return (Some ErrDestinationLifecycleDeadline)
              else State_Monad.return None } })"

definition lifecycleConnectionError :: "go_error \<Rightarrow> string \<Rightarrow> go_error" where
  "lifecycleConnectionError err operation =
     (case errorCancellation err of
        Some cancellation \<Rightarrow> lifecycleRepositoryError cancellation operation
      | None \<Rightarrow> lifecycleRepositoryError ErrDestinationLifecycleUnavailable operation)"

definition lifecycleUnsafeOrConnectionInterruption :: "(go_error \<Rightarrow> bool) \<Rightarrow> go_error \<Rightarrow> bool" where
  "lifecycleUnsafeOrConnectionInterruption timeout err =
     (if \<not> lifecycleRepositorySingleCauseChain err then True
      else isConnectionInterruption timeout (Some err))"

definition lifecycleReadError :: "(go_error \<Rightarrow> bool) \<Rightarrow> go_error \<Rightarrow> go_error" where
  "lifecycleReadError timeout err =
     (if \<not> lifecycleRepositorySingleCauseChain err
      then LifecycleInternalError (stateErr ErrDestinationLifecycleUnavailable) True
      else case errorCancellation err of
        Some cancellation \<Rightarrow>
          LifecycleInternalError (stateErr cancellation) (isConnectionInterruption timeout (Some err))
      | None \<Rightarrow>
          LifecycleInternalError (stateErr ErrDestinationLifecycleUnavailable)
            (isConnectionInterruption timeout (Some err)))"

text \<open>\<^verbatim>\<open>lifecycleConstraintName\<close>; the empty string is the Go empty string.\<close>

definition lifecycleConstraintName :: "go_error \<Rightarrow> gostring" where
  "lifecycleConstraintName err =
     (if \<not> singleCausePostgresError err then []
      else case errors_As_PgError err of
        Some (code, constraint) \<Rightarrow> if code = str ''23505'' then constraint else []
      | None \<Rightarrow> [])"

definition lifecycleMutationError :: "(go_error \<Rightarrow> bool) \<Rightarrow> go_error \<Rightarrow> go_error" where
  "lifecycleMutationError timeout err =
     (if \<not> lifecycleRepositorySingleCauseChain err
      then LifecycleInternalError (stateErr ErrDestinationLifecycleOutcomeUnknown) True
      else case errorCancellation err of
        Some cancellation \<Rightarrow>
          LifecycleInternalError (stateErr cancellation) (isConnectionInterruption timeout (Some err))
      | None \<Rightarrow>
          if isConnectionInterruption timeout (Some err)
          then LifecycleInternalError (stateErr ErrDestinationLifecycleUnavailable) True
          else if lifecycleConstraintName err \<noteq> []
          then (if lifecycleConstraintName err = str ''gateway_destination_tokens_one_staged_per_destination'' \<or>
                   lifecycleConstraintName err = str ''gateway_destination_tokens_one_active_per_destination'' \<or>
                   lifecycleConstraintName err = str ''gateway_destination_tokens_one_retiring_per_destination''
                then stateErr ErrDestinationLifecycleConflict
                else stateErr ErrDestinationLifecycleUnavailable)
          else if singleCausePostgresError err
          then stateErr ErrDestinationLifecycleUnavailable
          else LifecycleInternalError (stateErr ErrDestinationLifecycleOutcomeUnknown) True)"

definition lifecycleErrorRequiresDestroy :: "go_error \<Rightarrow> bool" where
  "lifecycleErrorRequiresDestroy err = (errors_As_lifecycleInternalError err = Some True)"

definition lifecycleRowsAffected :: "nat \<Rightarrow> go_error option" where
  "lifecycleRowsAffected n =
     (if n = 1 then None
      else if n = 0 then Some (stateErr ErrDestinationLifecycleConflict)
      else Some (stateErr ErrDestinationLifecycleReconciliation))"

subsection \<open>Connections\<close>

record lifecycleRepository =
  lr_acquire :: bool
  lr_rollbackTimeout :: duration

definition destinationTokenLifecycleRollbackTimeout :: duration where
  "destinationTokenLifecycleRollbackTimeout = 5 * Second"

text \<open>The constructor, given whether the pool is a nil interface.\<close>

definition NewDestinationTokenLifecycleRepository :: "bool \<Rightarrow> lifecycleRepository option" where
  "NewDestinationTokenLifecycleRepository nilPool =
     (if nilPool then Some \<lparr>lr_acquire = False, lr_rollbackTimeout = 0\<rparr>
      else Some \<lparr>lr_acquire = True, lr_rollbackTimeout = destinationTokenLifecycleRollbackTimeout\<rparr>)"

text \<open>The \<^verbatim>\<open>acquire\<close> closure of the constructor.\<close>

definition lifecycle_acquire :: "('db session, bool \<times> go_error option) state" where
  "lifecycle_acquire = do {
     (connection, err) \<leftarrow> pool_Acquire;
     case err of
       Some e \<Rightarrow> do {
         (if connection then connection_Destroy else State_Monad.return ());
         State_Monad.return (False, Some e) }
     | None \<Rightarrow>
         if \<not> connection
         then State_Monad.return (False, Some (stateErr ErrDestinationLifecycleUnavailable))
         else State_Monad.return (True, None) }"

definition validateLifecycleRepositoryInput ::
  "lifecycleRepository option \<Rightarrow> go_context \<Rightarrow> GatewayAudienceID \<Rightarrow> DestinationID \<Rightarrow> time \<Rightarrow>
   ('db session, go_error option) state" where
  "validateLifecycleRepositoryInput repository ctx audience destination now =
     (if (case repository of None \<Rightarrow> True | Some r \<Rightarrow> \<not> lr_acquire r \<or> lr_rollbackTimeout r \<le> 0) \<or>
         ctx = NilContext \<or> audience = 0 \<or> destination = 0 \<or> IsZero now
      then State_Monad.return
             (Some (lifecycleRepositoryError ErrDestinationLifecycleInvalid ''lifecycle repository input''))
      else do {
        cancellation \<leftarrow> lifecycleRepositoryCancellation ctx None;
        State_Monad.return (case cancellation of
            Some kind \<Rightarrow> Some (lifecycleRepositoryError kind ''lifecycle repository canceled'')
          | None \<Rightarrow> None) })"

subsection \<open>Loading the locked state\<close>

record lifecycleLockedState =
  ls_destination :: Destination
  ls_snapshot :: DestinationLifecycleSnapshot

text \<open>The loop over \<^verbatim>\<open>rows.Next\<close>: a \<^verbatim>\<open>Next\<close> that ends early leaves its error in \<^verbatim>\<open>rows.Err\<close>.\<close>

fun read_lifecycle_tokens ::
  "(go_error \<Rightarrow> bool) \<Rightarrow> GatewayAudienceID \<Rightarrow> Destination \<Rightarrow> token_row list \<Rightarrow>
   DestinationTokenSpec list \<Rightarrow> ('db session, DestinationTokenSpec list result) state" where
  "read_lifecycle_tokens timeout audience destination [] tokens = do {
     err \<leftarrow> rows_error;
     case err of
       Some e \<Rightarrow> State_Monad.return (Inl (lifecycleReadError timeout e))
     | None \<Rightarrow> State_Monad.return (Inr tokens) }"
| "read_lifecycle_tokens timeout audience destination (row # rows) tokens = do {
     err \<leftarrow> rows_error;
     case err of
       Some e \<Rightarrow> State_Monad.return (Inl (lifecycleReadError timeout e))
     | None \<Rightarrow>
         if length tokens = 3
         then State_Monad.return (Inl (stateErr ErrDestinationLifecycleReconciliation))
         else do {
           scanErr \<leftarrow> rows_error;
           case scanErr of
             Some e \<Rightarrow>
               if lifecycleUnsafeOrConnectionInterruption timeout e \<or> errorCancellation e \<noteq> None
               then State_Monad.return (Inl (lifecycleReadError timeout e))
               else State_Monad.return (Inl (stateErr ErrDestinationLifecycleReconciliation))
           | None \<Rightarrow>
               (case lifecycleTokenRecord_token audience destination (scanToken row) of
                  Inl _ \<Rightarrow> State_Monad.return (Inl (stateErr ErrDestinationLifecycleReconciliation))
                | Inr token \<Rightarrow>
                    read_lifecycle_tokens timeout audience destination rows (tokens @ [token])) } }"

definition loadDestinationLifecycleState ::
  "(go_error \<Rightarrow> bool) \<Rightarrow> GatewayAudienceID \<Rightarrow> DestinationID \<Rightarrow> time \<Rightarrow> bool \<Rightarrow>
   (gateway_db session, lifecycleLockedState result) state" where
  "loadDestinationLifecycleState timeout expectedAudience expectedDestination now lock =
     (let destinationSQL = (if lock then lockLifecycleDestinationSQL else inspectLifecycleDestinationSQL);
          tokensSQL = (if lock then lockLifecycleTokensSQL else inspectLifecycleTokensSQL)
      in do {
        row \<leftarrow> tx_QueryRow (destinationSQL expectedDestination);
        case row of
          None \<Rightarrow> State_Monad.return
            (Inl (LifecycleInternalError (stateErr ErrDestinationLifecycleUnavailable) True))
        | Some (Inl err) \<Rightarrow>
            if err = Sentinel (Pgx ErrNoRows)
            then State_Monad.return (Inl (stateErr ErrDestinationLifecycleConflict))
            else State_Monad.return (Inl (lifecycleReadError timeout err))
        | Some (Inr scanned) \<Rightarrow>
            (case lifecycleDestinationRecord_destination expectedAudience expectedDestination now
                    (scanDestination scanned) of
               Inl _ \<Rightarrow> State_Monad.return (Inl (stateErr ErrDestinationLifecycleReconciliation))
             | Inr destination \<Rightarrow> do {
                 (rows, err) \<leftarrow> tx_Query (tokensSQL expectedDestination);
                 case (err, rows) of
                   (Some e, _) \<Rightarrow> State_Monad.return (Inl (lifecycleReadError timeout e))
                 | (None, None) \<Rightarrow> State_Monad.return
                     (Inl (LifecycleInternalError (stateErr ErrDestinationLifecycleUnavailable) True))
                 | (None, Some rs) \<Rightarrow> do {
                     read \<leftarrow> read_lifecycle_tokens timeout expectedAudience destination rs [];
                     State_Monad.return (case read of
                         Inl e \<Rightarrow> Inl e
                       | Inr tokens \<Rightarrow>
                           (case NewDestinationLifecycleSnapshot destination tokens now of
                              Inl _ \<Rightarrow> Inl (stateErr ErrDestinationLifecycleReconciliation)
                            | Inr snapshot \<Rightarrow>
                                Inr \<lparr>ls_destination = destination, ls_snapshot = snapshot\<rparr>)) } }) })"

subsection \<open>Rolling back\<close>

text \<open>The error of a mutation that was rolled back, by its cause.\<close>

definition lifecycleMutationFailure :: "go_error \<Rightarrow> go_error" where
  "lifecycleMutationFailure cause =
     (let matches = lifecycleRepositorySingleCauseMatches cause in
      if matches (Securitystate ErrDestinationLifecycleOutcomeUnknown)
      then lifecycleRepositoryError ErrDestinationLifecycleOutcomeUnknown ''lifecycle mutation''
      else if matches (Securitystate ErrDestinationLifecycleCanceled)
      then lifecycleRepositoryError ErrDestinationLifecycleCanceled ''lifecycle mutation canceled''
      else if matches (Securitystate ErrDestinationLifecycleDeadline)
      then lifecycleRepositoryError ErrDestinationLifecycleDeadline ''lifecycle mutation canceled''
      else case errorCancellation cause of
        Some cancellation \<Rightarrow> lifecycleRepositoryError cancellation ''lifecycle mutation canceled''
      | None \<Rightarrow>
          (case find (\<lambda>kind. matches (Securitystate kind))
             [ErrDestinationLifecycleInvalid, ErrDestinationLifecycleConflict,
              ErrDestinationLifecycleReconciliation, ErrDestinationLifecycleUnavailable] of
             Some kind \<Rightarrow> lifecycleRepositoryError kind ''lifecycle mutation''
           | None \<Rightarrow> lifecycleRepositoryError ErrDestinationLifecycleUnavailable ''lifecycle mutation''))"

text \<open>\<^verbatim>\<open>rollbackLifecycleMutation\<close>. The result is the error and the flags \<^verbatim>\<open>transactionOpen\<close> and
  \<^verbatim>\<open>release\<close> that the caller's deferred functions read.\<close>

definition rollbackLifecycleMutation ::
  "(go_error \<Rightarrow> bool) \<Rightarrow> go_error \<Rightarrow> ('db session, go_error option \<times> bool \<times> bool) state" where
  "rollbackLifecycleMutation timeout cause = do {
     rollbackErr \<leftarrow> tx_Rollback;
     case rollbackErr of
       Some _ \<Rightarrow> do {
         connection_Destroy;
         State_Monad.return
           (Some (lifecycleRepositoryError ErrDestinationLifecycleOutcomeUnknown
                    ''lifecycle mutation rollback''), False, False) }
     | None \<Rightarrow>
         if lifecycleErrorRequiresDestroy cause \<or> isConnectionInterruption timeout (Some cause)
         then do {
           connection_Destroy;
           State_Monad.return (Some (lifecycleMutationFailure cause), False, False) }
         else State_Monad.return (Some (lifecycleMutationFailure cause), False, True) }"

definition lifecycleReadFailure :: "go_error \<Rightarrow> go_error" where
  "lifecycleReadFailure cause =
     (let matches = lifecycleRepositorySingleCauseMatches cause in
      if matches (Securitystate ErrDestinationLifecycleCanceled)
      then lifecycleRepositoryError ErrDestinationLifecycleCanceled ''lifecycle inspection canceled''
      else if matches (Securitystate ErrDestinationLifecycleDeadline)
      then lifecycleRepositoryError ErrDestinationLifecycleDeadline ''lifecycle inspection canceled''
      else case errorCancellation cause of
        Some cancellation \<Rightarrow> lifecycleRepositoryError cancellation ''lifecycle inspection canceled''
      | None \<Rightarrow>
          (case find (\<lambda>kind. matches (Securitystate kind))
             [ErrDestinationLifecycleConflict, ErrDestinationLifecycleReconciliation,
              ErrDestinationLifecycleUnavailable] of
             Some kind \<Rightarrow> lifecycleRepositoryError kind ''lifecycle inspection''
           | None \<Rightarrow> lifecycleRepositoryError ErrDestinationLifecycleUnavailable ''lifecycle inspection''))"

definition lifecycleRollbackRead ::
  "(go_error \<Rightarrow> bool) \<Rightarrow> go_error \<Rightarrow> ('db session, go_error \<times> bool \<times> bool) state" where
  "lifecycleRollbackRead timeout cause = do {
     rollbackErr \<leftarrow> tx_Rollback;
     case rollbackErr of
       Some _ \<Rightarrow> do {
         connection_Destroy;
         State_Monad.return
           (lifecycleRepositoryError ErrDestinationLifecycleUnavailable ''lifecycle inspection rollback'',
            False, False) }
     | None \<Rightarrow>
         if lifecycleErrorRequiresDestroy cause \<or> isConnectionInterruption timeout (Some cause)
         then do {
           connection_Destroy;
           State_Monad.return (lifecycleReadFailure cause, False, False) }
         else State_Monad.return (lifecycleReadFailure cause, False, True) }"

subsection \<open>Running a mutation\<close>

text \<open>A \<^verbatim>\<open>lifecycleMutation\<close> returns its error and the value it leaves in \<^verbatim>\<open>mutationSent\<close>.\<close>

type_synonym lifecycleMutation =
  "lifecycleLockedState \<Rightarrow> (gateway_db session, go_error option \<times> bool) state"

text \<open>From the load of the locked state to the commit; the result is the error with the flags
  \<^verbatim>\<open>transactionOpen\<close> and \<^verbatim>\<open>release\<close>.\<close>

definition lifecycle_mutation_transaction ::
  "(go_error \<Rightarrow> bool) \<Rightarrow> GatewayAudienceID \<Rightarrow> DestinationID \<Rightarrow> time \<Rightarrow> lifecycleMutation \<Rightarrow>
   (gateway_db session, go_error option \<times> bool \<times> bool) state" where
  "lifecycle_mutation_transaction timeout audience destination now mutation = do {
     loaded \<leftarrow> loadDestinationLifecycleState timeout audience destination now True;
     case loaded of
       Inl err \<Rightarrow> rollbackLifecycleMutation timeout err
     | Inr st \<Rightarrow> do {
         (mutationErr, mutationSent) \<leftarrow> mutation st;
         case mutationErr of
           Some err \<Rightarrow> rollbackLifecycleMutation timeout err
         | None \<Rightarrow>
             if \<not> mutationSent
             then rollbackLifecycleMutation timeout (stateErr ErrDestinationLifecycleReconciliation)
             else do {
               commitErr \<leftarrow> tx_Commit;
               case commitErr of
                 None \<Rightarrow> State_Monad.return (None, False, True)
               | Some err \<Rightarrow>
                   if err = Sentinel (Pgx ErrTxCommitRollback)
                   then State_Monad.return
                     (Some (lifecycleRepositoryError ErrDestinationLifecycleUnavailable
                              ''lifecycle mutation commit''), False, True)
                   else do {
                     connection_Destroy;
                     State_Monad.return
                       (Some (lifecycleRepositoryError ErrDestinationLifecycleOutcomeUnknown
                                ''lifecycle mutation commit''), False, False) } } } }"

text \<open>The deferred rollback of a transaction that is still open.\<close>

definition lifecycle_mutation_cleanup ::
  "go_error option \<times> bool \<times> bool \<Rightarrow> ('db session, go_error option \<times> bool) state" where
  "lifecycle_mutation_cleanup outcome =
     (case outcome of (resultErr, transactionOpen, release) \<Rightarrow>
        if \<not> transactionOpen then State_Monad.return (resultErr, release)
        else do {
          rollbackErr \<leftarrow> tx_Rollback;
          case rollbackErr of
            None \<Rightarrow> State_Monad.return (resultErr, release)
          | Some _ \<Rightarrow> do {
              connection_Destroy;
              State_Monad.return
                (Some (lifecycleRepositoryError ErrDestinationLifecycleOutcomeUnknown
                         ''lifecycle mutation cleanup''), False) } })"

definition lifecycle_mutation_connection ::
  "(go_error \<Rightarrow> bool) \<Rightarrow> GatewayAudienceID \<Rightarrow> DestinationID \<Rightarrow> time \<Rightarrow> lifecycleMutation \<Rightarrow>
   (gateway_db session, go_error option \<times> bool) state" where
  "lifecycle_mutation_connection timeout audience destination now mutation = do {
     (transaction, err) \<leftarrow> connection_Begin;
     case err of
       Some e \<Rightarrow>
         if lifecycleUnsafeOrConnectionInterruption timeout e
         then do {
           connection_Destroy;
           State_Monad.return (Some (lifecycleConnectionError e ''lifecycle mutation begin''), False) }
         else State_Monad.return (Some (lifecycleConnectionError e ''lifecycle mutation begin''), True)
     | None \<Rightarrow>
         if \<not> transaction
         then do {
           connection_Destroy;
           State_Monad.return
             (Some (lifecycleRepositoryError ErrDestinationLifecycleUnavailable
                      ''lifecycle mutation begin''), False) }
         else do {
           outcome \<leftarrow> lifecycle_mutation_transaction timeout audience destination now mutation;
           lifecycle_mutation_cleanup outcome } }"

definition runLifecycleMutation ::
  "(go_error \<Rightarrow> bool) \<Rightarrow> lifecycleRepository option \<Rightarrow> go_context \<Rightarrow> GatewayAudienceID \<Rightarrow>
   DestinationID \<Rightarrow> time \<Rightarrow> lifecycleMutation option \<Rightarrow> (gateway_db session, go_error option) state" where
  "runLifecycleMutation timeout repository ctx audience destination now mutation = do {
     inputErr \<leftarrow> validateLifecycleRepositoryInput repository ctx audience destination now;
     case (inputErr, mutation) of
       (Some e, _) \<Rightarrow> State_Monad.return (Some e)
     | (None, None) \<Rightarrow> State_Monad.return
         (Some (lifecycleRepositoryError ErrDestinationLifecycleInvalid ''lifecycle mutation input''))
     | (None, Some m) \<Rightarrow> do {
         (connection, err) \<leftarrow> lifecycle_acquire;
         case err of
           Some e \<Rightarrow> do {
             (if connection then connection_Destroy else State_Monad.return ());
             State_Monad.return (Some (lifecycleConnectionError e ''lifecycle mutation connection'')) }
         | None \<Rightarrow>
             if \<not> connection
             then State_Monad.return
               (Some (lifecycleRepositoryError ErrDestinationLifecycleUnavailable
                        ''lifecycle mutation connection''))
             else do {
               (resultErr, release) \<leftarrow>
                 lifecycle_mutation_connection timeout audience destination now m;
               (if release then connection_Release else State_Monad.return ());
               State_Monad.return resultErr } } }"

subsection \<open>The mutations\<close>

text \<open>One statement of a mutation: \<^verbatim>\<open>transaction.Exec\<close> followed by \<^verbatim>\<open>lifecycleRowsAffected\<close>.\<close>

definition exec_one_row ::
  "(go_error \<Rightarrow> bool) \<Rightarrow> (gateway_db \<Rightarrow> go_error + (nat \<times> gateway_db)) \<Rightarrow> (gateway_db session, go_error option) state" where
  "exec_one_row timeout statement = do {
     tag \<leftarrow> tx_Exec statement;
     State_Monad.return (case tag of
         Inl e \<Rightarrow> Some (lifecycleMutationError timeout e)
       | Inr n \<Rightarrow> lifecycleRowsAffected n) }"

definition insertLifecycleStagedToken ::
  "(go_error \<Rightarrow> bool) \<Rightarrow> StagedTokenCandidate \<Rightarrow> (gateway_db session, go_error option \<times> bool) state" where
  "insertLifecycleStagedToken timeout candidate = do {
     err \<leftarrow> exec_one_row timeout (insertLifecycleStagedTokenSQL (sc_recordID candidate)
       (sc_audienceID candidate) (sc_destination candidate)
       (be_bytes 32 (tv_bytes (sc_verifier candidate))) (sc_verifierKeyID candidate)
       (sc_createdAt candidate) (sc_expiresAt candidate) (sc_stagedCleanupDeadline candidate));
     State_Monad.return (err, True) }"

definition createStagedGuard :: "lifecycleLockedState \<Rightarrow> securitystate_sentinel option" where
  "createStagedGuard st =
     (if \<not> Destination_Enabled (ls_destination st) then Some ErrDestinationLifecycleReconciliation
      else case sn_status (ls_snapshot st) of
        LifecycleUnprovisioned \<Rightarrow> None
      | LifecycleReconciliationRequired \<Rightarrow> Some ErrDestinationLifecycleReconciliation
      | _ \<Rightarrow> Some ErrDestinationLifecycleConflict)"

definition createStagedMutation :: "(go_error \<Rightarrow> bool) \<Rightarrow> StagedTokenCandidate \<Rightarrow> lifecycleMutation" where
  "createStagedMutation timeout candidate st =
     (case createStagedGuard st of
        Some kind \<Rightarrow> State_Monad.return (Some (stateErr kind), False)
      | None \<Rightarrow> insertLifecycleStagedToken timeout candidate)"

definition CreateStagedToken ::
  "(go_error \<Rightarrow> bool) \<Rightarrow> lifecycleRepository option \<Rightarrow> go_context \<Rightarrow> StagedTokenCandidate \<Rightarrow> time \<Rightarrow>
   (gateway_db session, go_error option) state" where
  "CreateStagedToken timeout repository ctx candidate now =
     (case revalidateCandidate candidate of
        Inl _ \<Rightarrow> State_Monad.return
          (Some (lifecycleRepositoryError ErrDestinationLifecycleInvalid ''staged token input''))
      | Inr validated \<Rightarrow>
          if sc_recordID validated \<noteq> sc_recordID candidate \<or> IsZero now \<or> sc_createdAt candidate \<noteq> now
          then State_Monad.return
            (Some (lifecycleRepositoryError ErrDestinationLifecycleInvalid ''staged token input''))
          else runLifecycleMutation timeout repository ctx (sc_audienceID candidate)
                 (sc_destination candidate) now (Some (createStagedMutation timeout candidate)))"

definition createRotationStagedGuard ::
  "DestinationTokenRecordID \<Rightarrow> lifecycleLockedState \<Rightarrow> securitystate_sentinel option" where
  "createRotationStagedGuard expectedActiveRecordID st =
     (if \<not> Destination_Enabled (ls_destination st) \<or>
         sn_status (ls_snapshot st) = LifecycleReconciliationRequired
      then Some ErrDestinationLifecycleReconciliation
      else if sn_status (ls_snapshot st) \<noteq> LifecycleActive \<or> \<not> sn_hasActive (ls_snapshot st) \<or>
              sn_hasStaged (ls_snapshot st) \<or> sn_hasRetiring (ls_snapshot st) \<or>
              lv_recordID (sn_active (ls_snapshot st)) \<noteq> expectedActiveRecordID
      then Some ErrDestinationLifecycleConflict
      else None)"

definition createRotationStagedMutation ::
  "(go_error \<Rightarrow> bool) \<Rightarrow> StagedTokenCandidate \<Rightarrow> DestinationTokenRecordID \<Rightarrow> lifecycleMutation" where
  "createRotationStagedMutation timeout candidate expectedActiveRecordID st =
     (case createRotationStagedGuard expectedActiveRecordID st of
        Some kind \<Rightarrow> State_Monad.return (Some (stateErr kind), False)
      | None \<Rightarrow> insertLifecycleStagedToken timeout candidate)"

definition CreateRotationStagedToken ::
  "(go_error \<Rightarrow> bool) \<Rightarrow> lifecycleRepository option \<Rightarrow> go_context \<Rightarrow> CreateRotationStagedTokenCommand \<Rightarrow>
   (gateway_db session, go_error option) state" where
  "CreateRotationStagedToken timeout repository ctx command =
     (case NewCreateRotationStagedTokenCommand (cr_candidate command)
             (cr_expectedActiveRecordID command) (cr_now command) of
        Inl _ \<Rightarrow> State_Monad.return
          (Some (lifecycleRepositoryError ErrDestinationLifecycleInvalid ''rotation staged token input''))
      | Inr validated \<Rightarrow>
          if cr_expectedActiveRecordID validated \<noteq> cr_expectedActiveRecordID command
          then State_Monad.return
            (Some (lifecycleRepositoryError ErrDestinationLifecycleInvalid ''rotation staged token input''))
          else let candidate = cr_candidate validated in
            runLifecycleMutation timeout repository ctx (sc_audienceID candidate)
              (sc_destination candidate) (cr_now validated)
              (Some (createRotationStagedMutation timeout candidate (cr_expectedActiveRecordID validated))))"

definition activateInitialGuard ::
  "DestinationTokenRecordID \<Rightarrow> lifecycleLockedState \<Rightarrow> securitystate_sentinel option" where
  "activateInitialGuard stagedID st =
     (if sn_status (ls_snapshot st) = LifecycleReconciliationRequired
      then Some ErrDestinationLifecycleReconciliation
      else if sn_status (ls_snapshot st) \<noteq> LifecycleStagedInitial \<or> \<not> sn_hasStaged (ls_snapshot st) \<or>
              lv_recordID (sn_staged (ls_snapshot st)) \<noteq> stagedID
      then Some ErrDestinationLifecycleConflict
      else None)"

definition activateInitialMutation ::
  "(go_error \<Rightarrow> bool) \<Rightarrow> GatewayAudienceID \<Rightarrow> DestinationID \<Rightarrow> DestinationTokenRecordID \<Rightarrow> time \<Rightarrow> lifecycleMutation" where
  "activateInitialMutation timeout audience destination stagedID now st =
     (case activateInitialGuard stagedID st of
        Some kind \<Rightarrow> State_Monad.return (Some (stateErr kind), False)
      | None \<Rightarrow> do {
          err \<leftarrow> exec_one_row timeout (activateInitialLifecycleTokenSQL audience destination stagedID
            (lv_stateChangedAt (sn_staged (ls_snapshot st))) now);
          State_Monad.return (err, True) })"

definition ActivateInitialToken ::
  "(go_error \<Rightarrow> bool) \<Rightarrow> lifecycleRepository option \<Rightarrow> go_context \<Rightarrow> GatewayAudienceID \<Rightarrow> DestinationID \<Rightarrow>
   DestinationTokenRecordID \<Rightarrow> time \<Rightarrow> (gateway_db session, go_error option) state" where
  "ActivateInitialToken timeout repository ctx audience destination stagedID now =
     (if stagedID = 0
      then State_Monad.return
        (Some (lifecycleRepositoryError ErrDestinationLifecycleInvalid ''initial activation input''))
      else runLifecycleMutation timeout repository ctx audience destination now
             (Some (activateInitialMutation timeout audience destination stagedID now)))"

definition activateRotationGuard ::
  "DestinationTokenRecordID \<Rightarrow> DestinationTokenRecordID \<Rightarrow> time \<Rightarrow> lifecycleLockedState \<Rightarrow>
   securitystate_sentinel option" where
  "activateRotationGuard stagedID oldActiveID overlapDeadline st =
     (let snapshot = ls_snapshot st; staged = sn_staged snapshot; active = sn_active snapshot in
      if sn_status snapshot = LifecycleReconciliationRequired
      then Some ErrDestinationLifecycleReconciliation
      else if sn_status snapshot \<noteq> LifecycleActiveWithStaged \<or> \<not> sn_hasStaged snapshot \<or>
              \<not> sn_hasActive snapshot \<or> lv_recordID staged \<noteq> stagedID \<or> lv_recordID active \<noteq> oldActiveID
      then Some ErrDestinationLifecycleConflict
      else if \<not> Before overlapDeadline (lv_expiresAt staged) \<or> \<not> Before overlapDeadline (lv_expiresAt active)
      then Some ErrDestinationLifecycleConflict
      else None)"

definition activateRotationMutation ::
  "(go_error \<Rightarrow> bool) \<Rightarrow> ActivateRotationCommand \<Rightarrow> lifecycleMutation" where
  "activateRotationMutation timeout c st =
     (case activateRotationGuard (ac_StagedRecordID c) (ac_OldActiveRecordID c) (ac_OverlapDeadline c) st of
        Some kind \<Rightarrow> State_Monad.return (Some (stateErr kind), False)
      | None \<Rightarrow> do {
          err \<leftarrow> exec_one_row timeout (retireLifecycleTokenSQL (ac_AudienceID c) (ac_DestinationID c)
            (ac_OldActiveRecordID c) (lv_stateChangedAt (sn_active (ls_snapshot st))) (ac_Now c)
            (ac_OverlapDeadline c));
          case err of
            Some e \<Rightarrow> State_Monad.return (Some e, True)
          | None \<Rightarrow> do {
              err \<leftarrow> exec_one_row timeout (activateRotationLifecycleTokenSQL (ac_AudienceID c)
                (ac_DestinationID c) (ac_StagedRecordID c)
                (lv_stateChangedAt (sn_staged (ls_snapshot st))) (ac_Now c));
              State_Monad.return (err, True) } })"

definition ActivateRotation ::
  "(go_error \<Rightarrow> bool) \<Rightarrow> lifecycleRepository option \<Rightarrow> go_context \<Rightarrow> ActivateRotationCommand \<Rightarrow>
   (gateway_db session, go_error option) state" where
  "ActivateRotation timeout repository ctx c =
     (if ac_StagedRecordID c = 0 \<or> ac_OldActiveRecordID c = 0 \<or> ac_StagedRecordID c = ac_OldActiveRecordID c \<or>
         \<not> After (ac_OverlapDeadline c) (ac_Now c) \<or>
         Sub (ac_OverlapDeadline c) (ac_Now c) > MaximumRetiringOverlapDuration
      then State_Monad.return
        (Some (lifecycleRepositoryError ErrDestinationLifecycleInvalid ''rotation activation input''))
      else runLifecycleMutation timeout repository ctx (ac_AudienceID c) (ac_DestinationID c) (ac_Now c)
             (Some (activateRotationMutation timeout c)))"

definition lifecycleStagedAbortAllowed ::
  "lifecycleLockedState \<Rightarrow> LifecycleTokenView \<Rightarrow> time \<Rightarrow> securitystate_sentinel option" where
  "lifecycleStagedAbortAllowed st staged now =
     (let snapshot = ls_snapshot st; active = sn_active snapshot in
      if sn_status snapshot = LifecycleStagedInitial \<or> sn_status snapshot = LifecycleActiveWithStaged
      then None
      else if sn_status snapshot \<noteq> LifecycleReconciliationRequired
      then Some ErrDestinationLifecycleConflict
      else if \<not> Destination_Enabled (ls_destination st) \<or> After (lv_stateChangedAt staged) now \<or>
              Before now (lv_expiresAt staged) \<and> Before now (lv_stagedCleanupDeadline staged)
      then Some ErrDestinationLifecycleReconciliation
      else if \<not> sn_hasActive snapshot then None
      else if After (lv_activatedAt active) now \<or> After (lv_stateChangedAt active) now \<or>
              \<not> Before now (lv_expiresAt active)
      then Some ErrDestinationLifecycleReconciliation
      else None)"

definition abortStagedGuard ::
  "DestinationTokenRecordID \<Rightarrow> time \<Rightarrow> lifecycleLockedState \<Rightarrow> securitystate_sentinel option" where
  "abortStagedGuard stagedID now st =
     (let snapshot = ls_snapshot st in
      if \<not> sn_hasStaged snapshot \<or> sn_hasRetiring snapshot \<or> lv_recordID (sn_staged snapshot) \<noteq> stagedID
      then Some ErrDestinationLifecycleConflict
      else lifecycleStagedAbortAllowed st (sn_staged snapshot) now)"

definition abortStagedMutation ::
  "(go_error \<Rightarrow> bool) \<Rightarrow> GatewayAudienceID \<Rightarrow> DestinationID \<Rightarrow> DestinationTokenRecordID \<Rightarrow> time \<Rightarrow> lifecycleMutation" where
  "abortStagedMutation timeout audience destination stagedID now st =
     (case abortStagedGuard stagedID now st of
        Some kind \<Rightarrow> State_Monad.return (Some (stateErr kind), False)
      | None \<Rightarrow> do {
          err \<leftarrow> exec_one_row timeout (revokeStagedLifecycleTokenSQL audience destination stagedID
            (lv_stateChangedAt (sn_staged (ls_snapshot st))) now);
          State_Monad.return (err, True) })"

definition AbortStagedToken ::
  "(go_error \<Rightarrow> bool) \<Rightarrow> lifecycleRepository option \<Rightarrow> go_context \<Rightarrow> GatewayAudienceID \<Rightarrow> DestinationID \<Rightarrow>
   DestinationTokenRecordID \<Rightarrow> time \<Rightarrow> (gateway_db session, go_error option) state" where
  "AbortStagedToken timeout repository ctx audience destination stagedID now =
     (if stagedID = 0
      then State_Monad.return
        (Some (lifecycleRepositoryError ErrDestinationLifecycleInvalid ''staged abort input''))
      else runLifecycleMutation timeout repository ctx audience destination now
             (Some (abortStagedMutation timeout audience destination stagedID now)))"

text \<open>\<^verbatim>\<open>lifecycleRotationPair\<close>; the views it returns are the active and the retiring view of the
  snapshot.\<close>

definition lifecycleRotationPair ::
  "lifecycleLockedState \<Rightarrow> DestinationTokenRecordID \<Rightarrow> DestinationTokenRecordID \<Rightarrow> time \<Rightarrow> bool \<Rightarrow>
   securitystate_sentinel + (LifecycleTokenView \<times> LifecycleTokenView)" where
  "lifecycleRotationPair st newActiveID oldRetiringID now allowRetiringStale =
     (let snapshot = ls_snapshot st; active = sn_active snapshot; retiring = sn_retiring snapshot in
      if \<not> sn_hasActive snapshot \<or> \<not> sn_hasRetiring snapshot \<or> sn_hasStaged snapshot \<or>
         lv_recordID active \<noteq> newActiveID \<or> lv_recordID retiring \<noteq> oldRetiringID
      then Inl ErrDestinationLifecycleConflict
      else if \<not> Destination_Enabled (ls_destination st) \<or> \<not> Before now (lv_expiresAt active) \<or>
              After (lv_activatedAt active) now \<or> After (lv_stateChangedAt active) now \<or>
              After (lv_activatedAt retiring) now \<or> After (lv_retirementStartedAt retiring) now \<or>
              After (lv_stateChangedAt retiring) now \<or>
              lv_activatedAt active \<noteq> lv_stateChangedAt active \<or>
              lv_activatedAt active \<noteq> lv_retirementStartedAt retiring \<or>
              lv_retirementStartedAt retiring \<noteq> lv_stateChangedAt retiring \<or>
              IsZero (lv_retirementDeadline retiring)
      then Inl ErrDestinationLifecycleReconciliation
      else if \<not> allowRetiringStale \<and> \<not> Before now (lv_expiresAt retiring)
      then Inl ErrDestinationLifecycleReconciliation
      else Inr (active, retiring))"

definition rollbackRotationGuard ::
  "RollbackRotationCommand \<Rightarrow> lifecycleLockedState \<Rightarrow> securitystate_sentinel option" where
  "rollbackRotationGuard c st =
     (case lifecycleRotationPair st (rb_NewActiveRecordID c) (rb_OldRetiringRecordID c) (rb_Now c) False of
        Inl kind \<Rightarrow> Some kind
      | Inr (active, retiring) \<Rightarrow>
          if \<not> Before (rb_Now c) (lv_retirementDeadline retiring)
          then Some ErrDestinationLifecycleConflict else None)"

definition rollbackRotationMutation ::
  "(go_error \<Rightarrow> bool) \<Rightarrow> RollbackRotationCommand \<Rightarrow> lifecycleMutation" where
  "rollbackRotationMutation timeout c st =
     (case rollbackRotationGuard c st of
        Some kind \<Rightarrow> State_Monad.return (Some (stateErr kind), False)
      | None \<Rightarrow> do {
          err \<leftarrow> exec_one_row timeout (revokeActiveLifecycleTokenSQL (rb_AudienceID c) (rb_DestinationID c)
            (rb_NewActiveRecordID c) (lv_stateChangedAt (sn_active (ls_snapshot st))) (rb_Now c));
          case err of
            Some e \<Rightarrow> State_Monad.return (Some e, True)
          | None \<Rightarrow> do {
              err \<leftarrow> exec_one_row timeout (restoreRetiringLifecycleTokenSQL (rb_AudienceID c)
                (rb_DestinationID c) (rb_OldRetiringRecordID c)
                (lv_stateChangedAt (sn_retiring (ls_snapshot st))) (rb_Now c));
              State_Monad.return (err, True) } })"

definition RollbackRotation ::
  "(go_error \<Rightarrow> bool) \<Rightarrow> lifecycleRepository option \<Rightarrow> go_context \<Rightarrow> RollbackRotationCommand \<Rightarrow>
   (gateway_db session, go_error option) state" where
  "RollbackRotation timeout repository ctx c =
     (if rb_NewActiveRecordID c = 0 \<or> rb_OldRetiringRecordID c = 0 \<or>
         rb_NewActiveRecordID c = rb_OldRetiringRecordID c
      then State_Monad.return
        (Some (lifecycleRepositoryError ErrDestinationLifecycleInvalid ''rotation rollback input''))
      else runLifecycleMutation timeout repository ctx (rb_AudienceID c) (rb_DestinationID c) (rb_Now c)
             (Some (rollbackRotationMutation timeout c)))"

definition finalizeRotationGuard ::
  "FinalizeRotationCommand \<Rightarrow> lifecycleLockedState \<Rightarrow> securitystate_sentinel option" where
  "finalizeRotationGuard c st =
     (case lifecycleRotationPair st (fc_NewActiveRecordID c) (fc_OldRetiringRecordID c) (fc_Now c) True of
        Inl kind \<Rightarrow> Some kind
      | Inr (active, retiring) \<Rightarrow>
          if fc_Reason c = RotationDeadlineElapsed \<and> Before (fc_Now c) (lv_retirementDeadline retiring)
          then Some ErrDestinationLifecycleConflict else None)"

definition finalizeRotationMutation ::
  "(go_error \<Rightarrow> bool) \<Rightarrow> FinalizeRotationCommand \<Rightarrow> lifecycleMutation" where
  "finalizeRotationMutation timeout c st =
     (case finalizeRotationGuard c st of
        Some kind \<Rightarrow> State_Monad.return (Some (stateErr kind), False)
      | None \<Rightarrow> do {
          err \<leftarrow> exec_one_row timeout (revokeRetiringLifecycleTokenSQL (fc_AudienceID c)
            (fc_DestinationID c) (fc_OldRetiringRecordID c)
            (lv_stateChangedAt (sn_retiring (ls_snapshot st))) (fc_Now c));
          State_Monad.return (err, True) })"

definition FinalizeRotation ::
  "(go_error \<Rightarrow> bool) \<Rightarrow> lifecycleRepository option \<Rightarrow> go_context \<Rightarrow> FinalizeRotationCommand \<Rightarrow>
   (gateway_db session, go_error option) state" where
  "FinalizeRotation timeout repository ctx c =
     (if fc_NewActiveRecordID c = 0 \<or> fc_OldRetiringRecordID c = 0 \<or>
         fc_NewActiveRecordID c = fc_OldRetiringRecordID c \<or> \<not> RotationCompletionReason_Valid (fc_Reason c)
      then State_Monad.return
        (Some (lifecycleRepositoryError ErrDestinationLifecycleInvalid ''rotation finalization input''))
      else runLifecycleMutation timeout repository ctx (fc_AudienceID c) (fc_DestinationID c) (fc_Now c)
             (Some (finalizeRotationMutation timeout c)))"

end
