(* ===== verification/Lifecycle_Transitions.thy ===== *)
theory Lifecycle_Transitions
  imports Lifecycle_Repository
begin

section \<open>The lifecycle operations as transitions of the tables\<close>

text \<open>
  Each operation of the repository has a pure counterpart on the tables, without connection,
  transaction or driver failure: the state it locks, its guard, its statements. The first part
  defines these steps; the second shows that the repository code performs exactly the step of an
  operation when it reports success, and none of it when it reports an error other than an
  unknown outcome, whatever the driver answers.
\<close>

subsection \<open>The pure steps\<close>

definition rowParses :: "GatewayAudienceID \<Rightarrow> Destination \<Rightarrow> token_row \<Rightarrow> bool" where
  "rowParses audience d r = (rowShapeOK r \<and> tr_gateway_audience_id r = audience \<and>
     tr_destination_id r = de_id d \<and> tokenSpecOK (specOf d r))"

lemma token_parses:
  "lifecycleTokenRecord_token audience d (scanToken r) = Inr t \<longleftrightarrow> rowParses audience d r \<and> t = specOf d r"
  by (auto simp: token_iff rowParses_def)

definition lockedStateOf ::
  "GatewayAudienceID \<Rightarrow> DestinationID \<Rightarrow> time \<Rightarrow> gateway_db \<Rightarrow> lifecycleLockedState option" where
  "lockedStateOf audience destination now db =
     (case selectLifecycleDestination destination db of
        None \<Rightarrow> None
      | Some row \<Rightarrow>
          (case lifecycleDestinationRecord_destination audience destination now (scanDestination row) of
             Inl _ \<Rightarrow> None
           | Inr d \<Rightarrow>
               (let rows = selectLifecycleTokens destination db in
                if length rows \<le> 3 \<and> (\<forall>r\<in>set rows. rowParses audience d r)
                then (case NewDestinationLifecycleSnapshot d (map (specOf d) rows) now of
                        Inl _ \<Rightarrow> None
                      | Inr snapshot \<Rightarrow> Some \<lparr>ls_destination = d, ls_snapshot = snapshot\<rparr>)
                else None)))"

definition stepOne :: "(gateway_db \<Rightarrow> go_error + (nat \<times> gateway_db)) \<Rightarrow> gateway_db \<Rightarrow> gateway_db option" where
  "stepOne statement db =
     (case statement db of Inl _ \<Rightarrow> None | Inr (n, d) \<Rightarrow> if n = 1 then Some d else None)"

datatype lifecycle_command =
    CreateStaged StagedTokenCandidate time
  | CreateRotationStaged CreateRotationStagedTokenCommand
  | ActivateInitial GatewayAudienceID DestinationID DestinationTokenRecordID time
  | ActivateRotate ActivateRotationCommand
  | AbortStaged GatewayAudienceID DestinationID DestinationTokenRecordID time
  | RollbackRotate RollbackRotationCommand
  | FinalizeRotate FinalizeRotationCommand

fun commandAudience :: "lifecycle_command \<Rightarrow> GatewayAudienceID" where
  "commandAudience (CreateStaged c now) = sc_audienceID c"
| "commandAudience (CreateRotationStaged c) = sc_audienceID (cr_candidate c)"
| "commandAudience (ActivateInitial a d r now) = a"
| "commandAudience (ActivateRotate c) = ac_AudienceID c"
| "commandAudience (AbortStaged a d r now) = a"
| "commandAudience (RollbackRotate c) = rb_AudienceID c"
| "commandAudience (FinalizeRotate c) = fc_AudienceID c"

fun commandDestination :: "lifecycle_command \<Rightarrow> DestinationID" where
  "commandDestination (CreateStaged c now) = sc_destination c"
| "commandDestination (CreateRotationStaged c) = sc_destination (cr_candidate c)"
| "commandDestination (ActivateInitial a d r now) = d"
| "commandDestination (ActivateRotate c) = ac_DestinationID c"
| "commandDestination (AbortStaged a d r now) = d"
| "commandDestination (RollbackRotate c) = rb_DestinationID c"
| "commandDestination (FinalizeRotate c) = fc_DestinationID c"

fun commandNow :: "lifecycle_command \<Rightarrow> time" where
  "commandNow (CreateStaged c now) = now"
| "commandNow (CreateRotationStaged c) = cr_now c"
| "commandNow (ActivateInitial a d r now) = now"
| "commandNow (ActivateRotate c) = ac_Now c"
| "commandNow (AbortStaged a d r now) = now"
| "commandNow (RollbackRotate c) = rb_Now c"
| "commandNow (FinalizeRotate c) = fc_Now c"

text \<open>The checks an operation makes of its arguments before it touches the database.\<close>

fun commandInputOK :: "lifecycle_command \<Rightarrow> bool" where
  "commandInputOK (CreateStaged c now) =
     (revalidateCandidate c = Inr c \<and> sc_createdAt c = now)"
| "commandInputOK (CreateRotationStaged c) =
     (revalidateCandidate (cr_candidate c) = Inr (cr_candidate c) \<and> cr_expectedActiveRecordID c \<noteq> 0 \<and>
      cr_expectedActiveRecordID c \<noteq> sc_recordID (cr_candidate c) \<and> sc_createdAt (cr_candidate c) = cr_now c)"
| "commandInputOK (ActivateInitial a d r now) = (r \<noteq> 0)"
| "commandInputOK (ActivateRotate c) =
     (ac_StagedRecordID c \<noteq> 0 \<and> ac_OldActiveRecordID c \<noteq> 0 \<and> ac_StagedRecordID c \<noteq> ac_OldActiveRecordID c \<and>
      After (ac_OverlapDeadline c) (ac_Now c) \<and>
      Sub (ac_OverlapDeadline c) (ac_Now c) \<le> MaximumRetiringOverlapDuration)"
| "commandInputOK (AbortStaged a d r now) = (r \<noteq> 0)"
| "commandInputOK (RollbackRotate c) =
     (rb_NewActiveRecordID c \<noteq> 0 \<and> rb_OldRetiringRecordID c \<noteq> 0 \<and>
      rb_NewActiveRecordID c \<noteq> rb_OldRetiringRecordID c)"
| "commandInputOK (FinalizeRotate c) =
     (fc_NewActiveRecordID c \<noteq> 0 \<and> fc_OldRetiringRecordID c \<noteq> 0 \<and>
      fc_NewActiveRecordID c \<noteq> fc_OldRetiringRecordID c \<and> RotationCompletionReason_Valid (fc_Reason c))"

definition insertStatement :: "StagedTokenCandidate \<Rightarrow> gateway_db \<Rightarrow> go_error + (nat \<times> gateway_db)" where
  "insertStatement c = insertLifecycleStagedTokenSQL (sc_recordID c) (sc_audienceID c) (sc_destination c)
     (be_bytes 32 (tv_bytes (sc_verifier c))) (sc_verifierKeyID c) (sc_createdAt c) (sc_expiresAt c)
     (sc_stagedCleanupDeadline c)"

fun commandGuard :: "lifecycle_command \<Rightarrow> lifecycleLockedState \<Rightarrow> securitystate_sentinel option" where
  "commandGuard (CreateStaged c now) st = createStagedGuard st"
| "commandGuard (CreateRotationStaged c) st = createRotationStagedGuard (cr_expectedActiveRecordID c) st"
| "commandGuard (ActivateInitial a d r now) st = activateInitialGuard r st"
| "commandGuard (ActivateRotate c) st =
     activateRotationGuard (ac_StagedRecordID c) (ac_OldActiveRecordID c) (ac_OverlapDeadline c) st"
| "commandGuard (AbortStaged a d r now) st = abortStagedGuard r now st"
| "commandGuard (RollbackRotate c) st = rollbackRotationGuard c st"
| "commandGuard (FinalizeRotate c) st = finalizeRotationGuard c st"

text \<open>The statements of an operation, in order.\<close>

fun commandStatements ::
  "lifecycle_command \<Rightarrow> DestinationLifecycleSnapshot \<Rightarrow> (gateway_db \<Rightarrow> go_error + (nat \<times> gateway_db)) list" where
  "commandStatements (CreateStaged c now) sn = [insertStatement c]"
| "commandStatements (CreateRotationStaged c) sn = [insertStatement (cr_candidate c)]"
| "commandStatements (ActivateInitial a d r now) sn =
     [activateInitialLifecycleTokenSQL a d r (lv_stateChangedAt (sn_staged sn)) now]"
| "commandStatements (ActivateRotate c) sn =
     [retireLifecycleTokenSQL (ac_AudienceID c) (ac_DestinationID c) (ac_OldActiveRecordID c)
        (lv_stateChangedAt (sn_active sn)) (ac_Now c) (ac_OverlapDeadline c),
      activateRotationLifecycleTokenSQL (ac_AudienceID c) (ac_DestinationID c) (ac_StagedRecordID c)
        (lv_stateChangedAt (sn_staged sn)) (ac_Now c)]"
| "commandStatements (AbortStaged a d r now) sn =
     [revokeStagedLifecycleTokenSQL a d r (lv_stateChangedAt (sn_staged sn)) now]"
| "commandStatements (RollbackRotate c) sn =
     [revokeActiveLifecycleTokenSQL (rb_AudienceID c) (rb_DestinationID c) (rb_NewActiveRecordID c)
        (lv_stateChangedAt (sn_active sn)) (rb_Now c),
      restoreRetiringLifecycleTokenSQL (rb_AudienceID c) (rb_DestinationID c) (rb_OldRetiringRecordID c)
        (lv_stateChangedAt (sn_retiring sn)) (rb_Now c)]"
| "commandStatements (FinalizeRotate c) sn =
     [revokeRetiringLifecycleTokenSQL (fc_AudienceID c) (fc_DestinationID c) (fc_OldRetiringRecordID c)
        (lv_stateChangedAt (sn_retiring sn)) (fc_Now c)]"

fun stepAll :: "(gateway_db \<Rightarrow> go_error + (nat \<times> gateway_db)) list \<Rightarrow> gateway_db \<Rightarrow> gateway_db option" where
  "stepAll [] db = Some db"
| "stepAll (st # sts) db = (case stepOne st db of None \<Rightarrow> None | Some d \<Rightarrow> stepAll sts d)"

definition commandEffect :: "lifecycle_command \<Rightarrow> lifecycleLockedState \<Rightarrow> gateway_db \<Rightarrow> gateway_db option" where
  "commandEffect cmd st db =
     (if commandGuard cmd st = None then stepAll (commandStatements cmd (ls_snapshot st)) db else None)"

definition commandStep :: "lifecycle_command \<Rightarrow> gateway_db \<Rightarrow> gateway_db option" where
  "commandStep cmd db =
     (if commandInputOK cmd \<and> commandAudience cmd \<noteq> 0 \<and> commandDestination cmd \<noteq> 0 \<and> commandNow cmd \<noteq> 0
      then case lockedStateOf (commandAudience cmd) (commandDestination cmd) (commandNow cmd) db of
             None \<Rightarrow> None
           | Some st \<Rightarrow> commandEffect cmd st db
      else None)"

text \<open>The repository operation of a command.\<close>

fun commandRun ::
  "(go_error \<Rightarrow> bool) \<Rightarrow> lifecycleRepository option \<Rightarrow> go_context \<Rightarrow> lifecycle_command \<Rightarrow>
   (gateway_db session, go_error option) state" where
  "commandRun timeout repository ctx (CreateStaged c now) = CreateStagedToken timeout repository ctx c now"
| "commandRun timeout repository ctx (CreateRotationStaged c) = CreateRotationStagedToken timeout repository ctx c"
| "commandRun timeout repository ctx (ActivateInitial a d r now) =
     ActivateInitialToken timeout repository ctx a d r now"
| "commandRun timeout repository ctx (ActivateRotate c) = ActivateRotation timeout repository ctx c"
| "commandRun timeout repository ctx (AbortStaged a d r now) =
     AbortStagedToken timeout repository ctx a d r now"
| "commandRun timeout repository ctx (RollbackRotate c) = RollbackRotation timeout repository ctx c"
| "commandRun timeout repository ctx (FinalizeRotate c) = FinalizeRotation timeout repository ctx c"

subsection \<open>Loading and executing for every driver answer\<close>

lemma read_lifecycle_tokens_after:
  assumes "length tokens \<le> 3"
  shows "after (read_lifecycle_tokens timeout audience d rows tokens) s (\<lambda>r s'. same_data s s' \<and>
    (\<forall>ts. r = Inr ts \<longrightarrow> ts = tokens @ map (specOf d) rows \<and> (\<forall>x\<in>set rows. rowParses audience d x) \<and>
       length ts \<le> 3))"
  using assms
proof (induction rows arbitrary: tokens s)
  case Nil
  then show ?case
    unfolding read_lifecycle_tokens.simps
    by (intro after_intro rows_error_after) auto
next
  case (Cons row rows)
  show ?case
    unfolding read_lifecycle_tokens.simps
    by (intro after_intro rows_error_after after_mono [OF Cons.IH])
      (use Cons.prems in \<open>auto simp: token_parses session_frame\<close>)
qed

lemma lock_statements:
  "(if lock then lockLifecycleDestinationSQL else inspectLifecycleDestinationSQL) = selectLifecycleDestination"
  "(if lock then lockLifecycleTokensSQL else inspectLifecycleTokensSQL) = selectLifecycleTokens"
  by (simp_all add: lockLifecycleDestinationSQL_def inspectLifecycleDestinationSQL_def
      lockLifecycleTokensSQL_def inspectLifecycleTokensSQL_def)

lemma load_after:
  "after (loadDestinationLifecycleState timeout audience destination now lock) s (\<lambda>r s'. same_data s s' \<and>
     (\<forall>st. r = Inr st \<longrightarrow> lockedStateOf audience destination now (tx_view s) = Some st))"
  unfolding loadDestinationLifecycleState_def lock_statements Let_def
  by (intro after_intro tx_QueryRow_after tx_Query_after after_mono [OF read_lifecycle_tokens_after])
    (auto simp: session_frame lockedStateOf_def Let_def split: sum.splits)

lemma exec_one_row_after:
  "after (exec_one_row timeout statement) s (\<lambda>err s'. \<exists>t. moved s (s_db s) t [] s' \<and>
     (err = None \<longrightarrow> (\<exists>d. stepOne statement (tx_view s) = Some d \<and> t = Some d)))"
  unfolding exec_one_row_def
  by (intro after_intro tx_Exec_after)
    (auto simp: stepOne_def lifecycleRowsAffected_def split: sum.splits if_splits)

subsection \<open>The refinement\<close>

text \<open>A mutation refines an effect on the locked state and the tables: it touches only the working
  copy, and when it reports success after sending a statement, the working copy is the effect.\<close>

definition mutationRefines ::
  "lifecycleMutation \<Rightarrow> (lifecycleLockedState \<Rightarrow> gateway_db \<Rightarrow> gateway_db option) \<Rightarrow> bool" where
  "mutationRefines m eff = (\<forall>st s. after (m st) s (\<lambda>r s'. \<exists>t. moved s (s_db s) t [] s' \<and>
     (r = (None, True) \<longrightarrow> (\<exists>d. eff st (tx_view s) = Some d \<and> t = Some d))))"

lemma mutationRefines_after:
  "mutationRefines m eff \<Longrightarrow> after (m st) s (\<lambda>r s'. \<exists>t. moved s (s_db s) t [] s' \<and>
     (r = (None, True) \<longrightarrow> (\<exists>d. eff st (tx_view s) = Some d \<and> t = Some d)))"
  by (simp add: mutationRefines_def)

lemmas mutation_defs = createStagedMutation_def createRotationStagedMutation_def
  activateInitialMutation_def activateRotationMutation_def abortStagedMutation_def
  rollbackRotationMutation_def finalizeRotationMutation_def insertLifecycleStagedToken_def

lemma command_mutations_refine:
  "mutationRefines (createStagedMutation timeout c) (commandEffect (CreateStaged c now))"
  "mutationRefines (createRotationStagedMutation timeout (cr_candidate rc) (cr_expectedActiveRecordID rc))
     (commandEffect (CreateRotationStaged rc))"
  "mutationRefines (activateInitialMutation timeout a d r now) (commandEffect (ActivateInitial a d r now))"
  "mutationRefines (activateRotationMutation timeout ac) (commandEffect (ActivateRotate ac))"
  "mutationRefines (abortStagedMutation timeout a d r now) (commandEffect (AbortStaged a d r now))"
  "mutationRefines (rollbackRotationMutation timeout rb) (commandEffect (RollbackRotate rb))"
  "mutationRefines (finalizeRotationMutation timeout fc) (commandEffect (FinalizeRotate fc))"
  unfolding mutationRefines_def mutation_defs
  by (intro allI after_intro after_mono [OF exec_one_row_after];
      fastforce simp: session_frame commandEffect_def insertStatement_def)+

text \<open>The errors the repository reports, and the connection's end: never acquired, or released or
  destroyed exactly once.\<close>

definition lifecycleKinds :: "securitystate_sentinel set" where
  "lifecycleKinds = {ErrDestinationLifecycleInvalid, ErrDestinationLifecycleConflict,
     ErrDestinationLifecycleReconciliation, ErrDestinationLifecycleUnavailable,
     ErrDestinationLifecycleCanceled, ErrDestinationLifecycleDeadline,
     ErrDestinationLifecycleOutcomeUnknown}"

definition safeLifecycleError :: "go_error \<Rightarrow> bool" where
  "safeLifecycleError e = (\<exists>kind\<in>lifecycleKinds. \<exists>operation. e = lifecycleRepositoryError kind operation)"

definition outcomeUnknown :: "go_error \<Rightarrow> bool" where
  "outcomeUnknown e = (\<exists>operation. e = lifecycleRepositoryError ErrDestinationLifecycleOutcomeUnknown operation)"

definition connectionSettled :: "connection_event list \<Rightarrow> connection_event list \<Rightarrow> bool" where
  "connectionSettled log log' =
     (log' = log \<or> log' = log @ [Acquired, Released] \<or> log' = log @ [Acquired, Destroyed])"

definition lifecycleOutcome :: "'db \<Rightarrow> 'db option \<Rightarrow> go_error option \<Rightarrow> 'db \<Rightarrow> bool" where
  "lifecycleOutcome db step err db' =
     (case err of
        None \<Rightarrow> step = Some db'
      | Some e \<Rightarrow> safeLifecycleError e \<and> (db' = db \<or> outcomeUnknown e \<and> step = Some db'))"

lemma safeLifecycleErrorI: "kind \<in> lifecycleKinds \<Longrightarrow> safeLifecycleError (lifecycleRepositoryError kind operation)"
  by (auto simp: safeLifecycleError_def)

lemma errorCancellation_kind: "errorCancellation e = Some k \<Longrightarrow> k \<in> lifecycleKinds"
  by (auto simp: errorCancellation_def lifecycleKinds_def split: if_splits)

lemma lifecycleConnectionError_safe: "safeLifecycleError (lifecycleConnectionError e operation)"
  by (auto simp: lifecycleConnectionError_def lifecycleKinds_def split: option.splits
      intro!: safeLifecycleErrorI dest: errorCancellation_kind)

lemma find_kind: "find P ks = Some k \<Longrightarrow> set ks \<subseteq> lifecycleKinds \<Longrightarrow> k \<in> lifecycleKinds"
  by (auto simp: find_Some_iff)

lemma safe_if: "safeLifecycleError x \<Longrightarrow> safeLifecycleError y \<Longrightarrow> safeLifecycleError (if c then x else y)"
  by simp

lemma safe_option:
  "(x = None \<Longrightarrow> safeLifecycleError y) \<Longrightarrow> (\<And>k. x = Some k \<Longrightarrow> safeLifecycleError (f k)) \<Longrightarrow>
     safeLifecycleError (case x of None \<Rightarrow> y | Some k \<Rightarrow> f k)"
  by (cases x) simp_all

lemma lifecycle_failures_safe:
  "safeLifecycleError (lifecycleMutationFailure cause)" "safeLifecycleError (lifecycleReadFailure cause)"
  unfolding lifecycleMutationFailure_def lifecycleReadFailure_def Let_def
  by (intro safe_if safe_option safeLifecycleErrorI;
      (erule errorCancellation_kind | erule find_kind | simp only: lifecycleKinds_def); simp add: lifecycleKinds_def)+

lemma rollback_after:
  "after (rollbackLifecycleMutation timeout cause) s (\<lambda>(err, isOpen, release) s'.
     moved s (s_db s) None (if release then [] else [Destroyed]) s' \<and> \<not> isOpen \<and>
     (\<exists>e. err = Some e \<and> safeLifecycleError e))"
  unfolding rollbackLifecycleMutation_def
  by (intro after_intro tx_Rollback_after connection_end_after)
    (auto simp: session_frame lifecycle_failures_safe lifecycleKinds_def intro!: safeLifecycleErrorI)

definition lockedEffect :: "GatewayAudienceID \<Rightarrow> DestinationID \<Rightarrow> time \<Rightarrow>
  (lifecycleLockedState \<Rightarrow> gateway_db \<Rightarrow> gateway_db option) \<Rightarrow> gateway_db \<Rightarrow> gateway_db option" where
  "lockedEffect audience destination now eff db =
     (case lockedStateOf audience destination now db of None \<Rightarrow> None | Some st \<Rightarrow> eff st db)"

lemma transaction_after:
  assumes "mutationRefines m eff" "driver_honest s"
  shows "after (lifecycle_mutation_transaction timeout audience destination now m) s
    (\<lambda>(err, isOpen, release) s'. \<exists>d. moved s d None (if release then [] else [Destroyed]) s' \<and> \<not> isOpen \<and>
       lifecycleOutcome (s_db s) (lockedEffect audience destination now eff (tx_view s)) err d)"
  unfolding lifecycle_mutation_transaction_def
  by (intro after_intro after_mono [OF load_after] after_mono [OF rollback_after]
      after_mono [OF mutationRefines_after [OF assms(1)]] tx_Commit_after connection_end_after;
      use assms(2) in \<open>auto simp: session_frame driver_honest_def lifecycleOutcome_def outcomeUnknown_def
        lifecycleKinds_def lockedEffect_def intro!: safeLifecycleErrorI\<close>)

lemma acquire_after:
  "after lifecycle_acquire s (\<lambda>(c, e) s'. \<exists>evs. moved s (s_db s) (s_tx s) evs s' \<and>
     (if c then e = None \<and> evs = [Acquired] else evs = [] \<or> evs = [Acquired, Destroyed]))"
  unfolding lifecycle_acquire_def
  by (intro after_intro pool_Acquire_after connection_end_after) (auto simp: session_frame split: if_splits)

lemma cancellation_after:
  "after (lifecycleRepositoryCancellation ctx err) s (\<lambda>k s'. same_data s s' \<and> (\<forall>kind. k = Some kind \<longrightarrow> kind \<in> lifecycleKinds))"
  unfolding lifecycleRepositoryCancellation_def
  by (intro after_intro ctx_Err_after) (auto simp: session_frame lifecycleKinds_def dest: errorCancellation_kind)

lemma validate_after:
  "after (validateLifecycleRepositoryInput repository ctx audience destination now) s (\<lambda>err s'. same_data s s' \<and>
     (case err of None \<Rightarrow> audience \<noteq> 0 \<and> destination \<noteq> 0 \<and> now \<noteq> 0 | Some e \<Rightarrow> safeLifecycleError e))"
  unfolding validateLifecycleRepositoryInput_def
  by (intro after_intro after_mono [OF cancellation_after])
    (auto simp: lifecycleKinds_def IsZero_def intro!: safeLifecycleErrorI split: option.splits)

lemma connection_after:
  assumes "mutationRefines m eff" "driver_honest s" "s_tx s = None"
  shows "after (lifecycle_mutation_connection timeout audience destination now m) s
    (\<lambda>(err, release) s'. \<exists>d. moved s d None (if release then [] else [Destroyed]) s' \<and>
       lifecycleOutcome (s_db s) (lockedEffect audience destination now eff (s_db s)) err d)"
  unfolding lifecycle_mutation_connection_def lifecycle_mutation_cleanup_def
  by (intro after_intro connection_Begin_after connection_end_after tx_Rollback_after
      after_mono [OF transaction_after [OF assms(1)]];
      use assms in \<open>auto simp: session_frame driver_honest_def lifecycleOutcome_def lifecycleKinds_def
        lifecycleConnectionError_safe intro!: safeLifecycleErrorI\<close>)

definition guardedStep :: "GatewayAudienceID \<Rightarrow> DestinationID \<Rightarrow> time \<Rightarrow>
  (lifecycleLockedState \<Rightarrow> gateway_db \<Rightarrow> gateway_db option) \<Rightarrow> gateway_db \<Rightarrow> gateway_db option" where
  "guardedStep audience destination now eff db =
     (if audience \<noteq> 0 \<and> destination \<noteq> 0 \<and> now \<noteq> 0
      then lockedEffect audience destination now eff db else None)"

definition mutationPost :: "gateway_db session \<Rightarrow> gateway_db option \<Rightarrow> go_error option \<Rightarrow> gateway_db session \<Rightarrow> bool" where
  "mutationPost s step err s' =
     (s_tx s' = None \<and> set (s_script s') \<subseteq> set (s_script s) \<and> connectionSettled (s_log s) (s_log s') \<and>
      lifecycleOutcome (s_db s) step err (s_db s'))"

lemma run_after:
  assumes "mutationRefines m eff" "driver_honest s" "s_tx s = None"
  shows "after (runLifecycleMutation timeout repository ctx audience destination now (Some m)) s
    (mutationPost s (guardedStep audience destination now eff (s_db s)))"
  unfolding runLifecycleMutation_def prod.case option.case
  by (intro after_intro after_mono [OF validate_after] after_mono [OF acquire_after] connection_end_after
      after_mono [OF connection_after [OF assms(1)]];
      use assms in \<open>auto simp: session_frame driver_honest_def lifecycleOutcome_def lifecycleKinds_def
        mutationPost_def connectionSettled_def guardedStep_def
        lifecycleConnectionError_safe intro!: safeLifecycleErrorI split: if_splits\<close>)

lemma guardedStep_command:
  "commandInputOK cmd \<Longrightarrow> commandStep cmd db =
     guardedStep (commandAudience cmd) (commandDestination cmd) (commandNow cmd) (commandEffect cmd) db"
  by (simp add: commandStep_def guardedStep_def lockedEffect_def)

lemma rejected_after:
  "driver_honest s \<Longrightarrow> s_tx s = None \<Longrightarrow>
   after (State_Monad.return (Some (lifecycleRepositoryError ErrDestinationLifecycleInvalid operation))) s
     (mutationPost s step)"
  by (intro after_intro)
    (auto simp: mutationPost_def connectionSettled_def lifecycleOutcome_def lifecycleKinds_def
      intro!: safeLifecycleErrorI)

lemma command_after:
  assumes "driver_honest s" "s_tx s = None"
  shows "after (commandRun timeout repository ctx cmd) s (mutationPost s (commandStep cmd (s_db s)))"
proof (cases "commandInputOK cmd")
  case False
  with assms show ?thesis
    by (cases cmd)
      (auto simp: CreateStagedToken_def CreateRotationStagedToken_def NewCreateRotationStagedTokenCommand_def
        ActivateInitialToken_def ActivateRotation_def AbortStagedToken_def RollbackRotation_def
        FinalizeRotation_def dest: revalidateCandidate_same split: sum.splits intro!: rejected_after)
next
  case True
  from True show ?thesis
    unfolding guardedStep_command [OF True]
    by (cases cmd)
      (auto simp: CreateStagedToken_def CreateRotationStagedToken_def NewCreateRotationStagedTokenCommand_def
        ActivateInitialToken_def ActivateRotation_def AbortStagedToken_def RollbackRotation_def
        FinalizeRotation_def Let_def dest: revalidateCandidate_same split: sum.splits
        intro!: rejected_after [OF assms] run_after [OF _ assms] command_mutations_refine)
qed

end
