(* ===== verification/Lifecycle_Invariant.thy ===== *)
theory Lifecycle_Invariant
  imports Lifecycle_Transitions
begin

section \<open>What a lifecycle step keeps and does\<close>

text \<open>
  The steps of \<open>Lifecycle_Transitions\<close> keep the tables readable: after every step the rows of the
  destination parse, and they have the structure that a snapshot requires. A step moves
  the identities of the staged, active and retiring token as the rotation protocol says, and
  does nothing to any other destination. The \<^verbatim>\<open>CHECK\<close> constraints of the token table carry
  part of the argument: for rows with finite times they say what the Go validator says.
\<close>

subsection \<open>Order of the rows\<close>

lemma liveStructure_mset:
  assumes "mset ts = mset ts'"
  shows "liveStructure d ts = liveStructure d ts'"
proof -
  have "set ts = set ts'" using assms by (rule mset_eq_setD)
  moreover have "distinct (map ts_RecordID ts) = distinct (map ts_RecordID ts')"
    "distinct (map ts_State ts) = distinct (map ts_State ts')"
    using assms by (intro mset_eq_imp_distinct_iff; simp)+
  ultimately show ?thesis by (simp add: liveStructure_def inState_def pairedRotation_def)
qed

lemma addToken_commute:
  "ts_State t \<noteq> ts_State u \<or> t = u \<Longrightarrow> addToken t \<circ> addToken u = addToken u \<circ> addToken t"
  by (cases "ts_State t"; cases "ts_State u") (auto simp: addToken_def fun_eq_iff)

lemma snapshotOf_mset:
  assumes "mset ts = mset ts'" "distinct (map ts_State ts)"
  shows "snapshotOf d ts now = snapshotOf d ts' now"
proof -
  have set: "set ts = set ts'" using assms(1) by (rule mset_eq_setD)
  have "fold addToken ts = fold addToken ts'"
  proof (rule fold_multiset_equiv [OF _ assms(1)])
    show "addToken x \<circ> addToken y = addToken y \<circ> addToken x" if "x \<in> set ts" "y \<in> set ts" for x y
      using that assms(2) by (intro addToken_commute) (auto simp: distinct_map inj_on_def)
  qed
  then show ?thesis by (simp add: snapshotOf_def staleSet_def inState_def set)
qed

definition liveRows :: "DestinationID \<Rightarrow> gateway_db \<Rightarrow> token_row list" where
  "liveRows destination db = filter (liveRow destination) (db_tokens db)"

definition readableRows :: "GatewayAudienceID \<Rightarrow> Destination \<Rightarrow> token_row list \<Rightarrow> bool" where
  "readableRows audience d rows = ((\<forall>r\<in>set rows. rowParses audience d r) \<and> liveStructure d (map (specOf d) rows))"

definition readableDestination ::
  "GatewayAudienceID \<Rightarrow> DestinationID \<Rightarrow> time \<Rightarrow> gateway_db \<Rightarrow> Destination \<Rightarrow> bool" where
  "readableDestination audience destination now db d =
     (\<exists>row. selectLifecycleDestination destination db = Some row \<and>
        lifecycleDestinationRecord_destination audience destination now (scanDestination row) = Inr d)"

lemma destination_iff:
  "lifecycleDestinationRecord_destination audience destination now (scanDestination row) = Inr d \<longleftrightarrow>
     finiteStamp (dr_created_at row) \<and> finiteStamp (dr_state_changed_at row) \<and>
     stampTime (dr_created_at row) \<le> now \<and> stampTime (dr_state_changed_at row) \<le> now \<and>
     dr_destination_id row = destination \<and> dr_gateway_audience_id row = audience \<and>
     destination \<noteq> 0 \<and> audience \<noteq> 0 \<and>
     (\<exists>st. destinationState (dr_destination_state row) = Inr st \<and>
        NewDestination audience destination st (stampTime (dr_created_at row))
          (stampTime (dr_state_changed_at row)) = Inr d)"
  unfolding lifecycleDestinationRecord_destination_def scanDestination_def Let_def
  by (cases "destinationState (dr_destination_state row)")
    (auto simp: finiteTimestamp_scan tz_Time_scan parseUUID_format_cases result_simps After_def
      split: if_splits sum.splits)

lemma readableDestination_facts:
  assumes "readableDestination audience destination now db d"
  shows "de_id d = destination" "de_audienceID d = audience" "destination \<noteq> 0" "audience \<noteq> 0"
  using assms by (auto simp: readableDestination_def destination_iff NewDestination_iff)

lemma readableDestination_later:
  "readableDestination audience destination now db d \<Longrightarrow> now \<le> later \<Longrightarrow>
     db_destinations db' = db_destinations db \<Longrightarrow> readableDestination audience destination later db' d"
  by (fastforce simp: readableDestination_def destination_iff selectLifecycleDestination_def)

lemma lockedStateOf_iff:
  "lockedStateOf audience destination now db = Some st \<longleftrightarrow>
     (\<exists>d. readableDestination audience destination now db d \<and> now \<noteq> 0 \<and>
        readableRows audience d (liveRows destination db) \<and>
        st = \<lparr>ls_destination = d, ls_snapshot = snapshotOf d (map (specOf d) (liveRows destination db)) now\<rparr>)"
proof -
  let ?sorted = "sort_key tr_token_state (sort_key tr_record_id (liveRows destination db))"
  have mset: "mset (map (specOf d) ?sorted) = mset (map (specOf d) (liveRows destination db))" for d
    by simp
  have select: "selectLifecycleTokens destination db = take 4 ?sorted"
    by (simp add: selectLifecycleTokens_def liveRows_def)
  have rows: "(length (take 4 ?sorted) \<le> 3 \<and> (\<forall>r\<in>set (take 4 ?sorted). rowParses audience d r) \<and>
        NewDestinationLifecycleSnapshot d (map (specOf d) (take 4 ?sorted)) now = Inr sn) \<longleftrightarrow>
      (de_id d \<noteq> 0 \<and> de_audienceID d \<noteq> 0 \<and> now \<noteq> 0 \<and> readableRows audience d (liveRows destination db) \<and>
        sn = snapshotOf d (map (specOf d) (liveRows destination db)) now)" for d sn
  proof (cases "length ?sorted \<le> 3")
    case True
    then have take: "take 4 ?sorted = ?sorted" by simp
    have "liveStructure d (map (specOf d) ?sorted) \<Longrightarrow>
        snapshotOf d (map (specOf d) ?sorted) now = snapshotOf d (map (specOf d) (liveRows destination db)) now"
      by (rule snapshotOf_mset [OF mset]) (simp add: liveStructure_def)
    with True show ?thesis
      unfolding take snapshot_iff readableRows_def liveStructure_mset [OF mset] by auto
  next
    case False
    with liveStructure_length [of d "map (specOf d) (liveRows destination db)"] show ?thesis
      by (auto simp: readableRows_def)
  qed
  have split: "(if a \<and> b then case n of Inl _ \<Rightarrow> None | Inr sn \<Rightarrow> Some (f sn) else None) = Some st \<longleftrightarrow>
      (\<exists>sn. (a \<and> b \<and> n = Inr sn) \<and> st = f sn)" for a b and n :: "DestinationLifecycleSnapshot result" and f
    by (auto split: sum.splits)
  show ?thesis
  proof (cases "\<exists>d. readableDestination audience destination now db d")
    case False
    then show ?thesis
      by (auto simp: lockedStateOf_def readableDestination_def split: option.splits sum.splits)
  next
    case True
    then obtain d where d: "readableDestination audience destination now db d" by blast
    then have only: "readableDestination audience destination now db d' \<longleftrightarrow> d' = d" for d'
      by (auto simp: readableDestination_def)
    from d have "lockedStateOf audience destination now db =
        (if length (take 4 ?sorted) \<le> 3 \<and> (\<forall>r\<in>set (take 4 ?sorted). rowParses audience d r)
         then case NewDestinationLifecycleSnapshot d (map (specOf d) (take 4 ?sorted)) now of
             Inl _ \<Rightarrow> None | Inr sn \<Rightarrow> Some \<lparr>ls_destination = d, ls_snapshot = sn\<rparr>
         else None)"
      by (auto simp: lockedStateOf_def readableDestination_def select Let_def)
    then show ?thesis
      unfolding only by (simp only: split rows) (use readableDestination_facts [OF d] in auto)
  qed
qed

subsection \<open>The constraints of the table and the validator\<close>

definition checksPass :: "token_row \<Rightarrow> bool" where
  "checksPass r = (\<forall>(name, ok)\<in>set (tokenChecks r). ok)"

lemma finiteStampE: "finiteStamp s \<Longrightarrow> (\<And>us. s = Stamp us \<Longrightarrow> us \<noteq> 0 \<Longrightarrow> P) \<Longrightarrow> P"
  by (cases s) auto

lemma optionStamp_cases:
  assumes "optionStampOK s"
  obtains "s = None" | us where "s = Some (Stamp us)" "us \<noteq> 0"
  using assms by (cases s) (auto simp: optionStampOK_def elim: finiteStampE)

lemma stamp_le_Stamp: "stamp_le (Stamp a) (Stamp b) \<longleftrightarrow> a \<le> b"
  by (auto simp: stamp_le_def)

lemma span_check:
  "stamp_less (Stamp c) (Stamp e) \<and> stamp_le (Stamp e) (stamp_add (Stamp c) h) \<longleftrightarrow>
     c * 1000 < e * 1000 \<and> e * 1000 - c * 1000 \<le> h * 1000"
  by (auto simp: stamp_le_Stamp)

lemma optionTime_None: "optionStampOK s \<Longrightarrow> s = None \<longleftrightarrow> optionTime s = 0"
  by (erule optionStamp_cases) (simp_all add: optionTime_def)

lemma between_check:
  "optionStampOK s \<Longrightarrow>
   (case s of None \<Rightarrow> True | Some t \<Rightarrow> stamp_le (Stamp c) t \<and> stamp_le t (Stamp ch)) \<longleftrightarrow>
   (optionTime s \<noteq> 0 \<longrightarrow> c * 1000 \<le> optionTime s \<and> optionTime s \<le> ch * 1000)"
  by (erule optionStamp_cases) (simp_all add: optionTime_def stamp_le_Stamp)

lemma retirement_check:
  "optionStampOK a \<Longrightarrow> optionStampOK b \<Longrightarrow>
   (case b of None \<Rightarrow> True | Some x \<Rightarrow> (case a of None \<Rightarrow> False | Some y \<Rightarrow> stamp_le y x \<and> stamp_le x (Stamp ch))) \<longleftrightarrow>
   (optionTime b \<noteq> 0 \<longrightarrow> optionTime a \<noteq> 0 \<and> optionTime a \<le> optionTime b \<and> optionTime b \<le> ch * 1000)"
  by (erule optionStamp_cases; erule optionStamp_cases) (simp_all add: optionTime_def stamp_le_Stamp)

lemma overlap_check:
  "optionStampOK b \<Longrightarrow> optionStampOK d \<Longrightarrow>
   (case (b, d) of (None, None) \<Rightarrow> True | (Some x, Some y) \<Rightarrow> stamp_less x y \<and> stamp_le y (stamp_add x h) | _ \<Rightarrow> False) \<longleftrightarrow>
   (optionTime b = 0 \<longleftrightarrow> optionTime d = 0) \<and>
   (optionTime b \<noteq> 0 \<longrightarrow> optionTime b < optionTime d \<and> optionTime d - optionTime b \<le> h * 1000)"
  by (erule optionStamp_cases; erule optionStamp_cases) (auto simp: optionTime_def stamp_le_Stamp)

lemma tokenStateOK_text: "tokenStateOK (stateOfText x) a b v \<longleftrightarrow>
   (x = str ''staged'' \<and> a = 0 \<and> b = 0 \<and> v = 0 \<or> x = str ''active'' \<and> a \<noteq> 0 \<and> b = 0 \<and> v = 0 \<or>
    x = str ''retiring'' \<and> a \<noteq> 0 \<and> b \<noteq> 0 \<and> v = 0 \<or> x = str ''revoked'' \<and> v \<noteq> 0)"
  by (simp add: stateOfText_def destinationTokenState_def)

lemma interval_times:
  "interval_hours (90 * 24) * 1000 = tokenMaxLifetime" "interval_hours 24 * 1000 = tokenMaxCleanup"
  "interval_hours 24 * 1000 = tokenMaxOverlap"
  by (simp_all add: interval_hours_def lifetime_defs duration_defs)

lemma checks_spec:
  assumes "rowShapeOK r" "tr_gateway_audience_id r \<noteq> 0" "de_id d \<noteq> 0" "de_audienceID d = tr_gateway_audience_id r"
  shows "checksPass r \<longleftrightarrow> tokenSpecOK (specOf d r)"
proof -
  from assms(1) obtain c e cl ch where
    req: "tr_created_at r = Stamp c" "tr_expires_at r = Stamp e" "tr_staged_cleanup_deadline r = Stamp cl"
      "tr_state_changed_at r = Stamp ch" and nz: "c \<noteq> 0"
    and opt: "optionStampOK (tr_activated_at r)" "optionStampOK (tr_retirement_started_at r)"
      "optionStampOK (tr_revoked_at r)" "optionStampOK (tr_retirement_overlap_deadline r)"
    and key: "tr_verifier_key_id r \<noteq> []" "length (tr_token_verifier r) = 32"
    by (auto simp: rowShapeOK_def validKeyID_def elim!: finiteStampE)
  show ?thesis
    unfolding checksPass_def tokenChecks_def tokenSpecOK_def specOf_def historyOK_def req
      span_check between_check [OF opt(1)] between_check [OF opt(3)] retirement_check [OF opt(1,2)]
      overlap_check [OF opt(2,4)] DestinationTokenSpec.select_convs tokenStateOK_text interval_times
      optionTime_None [OF opt(1)] optionTime_None [OF opt(2)] optionTime_None [OF opt(3)]
      optionTime_None [OF opt(4)]
    using assms(2-4) nz key interval_times(2,3)
    by (cases "optionTime (tr_retirement_started_at r) = 0";
        cases "optionTime (tr_retirement_overlap_deadline r) = 0") (auto simp: stamp_le_Stamp)
qed


definition sampleRow :: token_row where
  "sampleRow = \<lparr>tr_record_id = 3, tr_gateway_audience_id = 1, tr_destination_id = 2,
     tr_token_verifier = replicate 32 4, tr_verifier_key_id = [107], tr_token_state = str ''retiring'',
     tr_created_at = Stamp 2, tr_activated_at = Some (Stamp 3), tr_retirement_started_at = Some (Stamp 4),
     tr_revoked_at = None, tr_expires_at = Stamp 10, tr_staged_cleanup_deadline = Stamp 9,
     tr_retirement_overlap_deadline = Some (Stamp 8), tr_state_changed_at = Stamp 4\<rparr>"


subsection \<open>What a successful statement did\<close>

lemma filter_one:
  assumes "length (filter P xs) = 1"
  obtains ys x zs where "xs = ys @ x # zs" "P x" "\<forall>y\<in>set ys \<union> set zs. \<not> P y"
proof -
  from assms obtain x where "filter P xs = [x]" by (auto simp: length_Suc_conv)
  then obtain us vs where "xs = us @ x # vs" "\<forall>u\<in>set us. \<not> P u" "P x" "[] = filter P vs"
    unfolding filter_eq_Cons_iff by blast
  moreover from this(4) have "\<forall>v\<in>set vs. \<not> P v" by (metis filter_empty_conv)
  ultimately show thesis using that by blast
qed

lemma rowViolation_None:
  "rowViolation db ts r = None \<Longrightarrow> checksPass r \<and> uniqueViolation ts r = None"
  by (auto simp: rowViolation_def checksPass_def filter_empty_conv split: list.splits option.splits)

lemma update_step:
  assumes "stepOne (updateTokens P f) db = Some db'"
  obtains xs r ys where "db_tokens db = xs @ r # ys" "P r" "db' = db\<lparr>db_tokens := xs @ f r # ys\<rparr>"
    "checksPass (f r)" "uniqueViolation (xs @ f r # ys) (f r) = None"
proof -
  from assms have one: "length (filter P (db_tokens db)) = 1"
    by (auto simp: stepOne_def updateTokens_def writeTokens_def split: option.splits if_splits)
  from filter_one [OF one] obtain xs r ys where
    t: "db_tokens db = xs @ r # ys" and r: "P r" and no: "\<forall>y\<in>set xs \<union> set ys. \<not> P y" by metis
  have "map (\<lambda>x. if P x then f x else x) (db_tokens db) = xs @ f r # ys"
    "filter P (db_tokens db) = [r]"
    using r no by (auto simp: t filter_empty_conv intro!: map_idI)
  with assms have "db' = db\<lparr>db_tokens := xs @ f r # ys\<rparr>" "rowViolation db (xs @ f r # ys) (f r) = None"
    by (auto simp: stepOne_def updateTokens_def writeTokens_def split: option.splits if_splits)
  with t r that show thesis by (auto dest: rowViolation_None)
qed

definition candidateRow :: "StagedTokenCandidate \<Rightarrow> token_row" where
  "candidateRow c = \<lparr>tr_record_id = sc_recordID c, tr_gateway_audience_id = sc_audienceID c,
     tr_destination_id = sc_destination c, tr_token_verifier = be_bytes 32 (tv_bytes (sc_verifier c)),
     tr_verifier_key_id = sc_verifierKeyID c, tr_token_state = str ''staged'',
     tr_created_at = timestampArgument (sc_createdAt c), tr_activated_at = None,
     tr_retirement_started_at = None, tr_revoked_at = None,
     tr_expires_at = timestampArgument (sc_expiresAt c),
     tr_staged_cleanup_deadline = timestampArgument (sc_stagedCleanupDeadline c),
     tr_retirement_overlap_deadline = None, tr_state_changed_at = timestampArgument (sc_createdAt c)\<rparr>"

lemma insert_step:
  assumes "stepOne (insertStatement c) db = Some db'"
  shows "db' = db\<lparr>db_tokens := db_tokens db @ [candidateRow c]\<rparr>" "checksPass (candidateRow c)"
    "uniqueViolation (db_tokens db @ [candidateRow c]) (candidateRow c) = None"
proof -
  have "insertStatement c db = writeTokens db (db_tokens db @ [candidateRow c]) [candidateRow c]"
    by (simp add: insertStatement_def insertLifecycleStagedTokenSQL_def candidateRow_def Let_def)
  with assms have "db' = db\<lparr>db_tokens := db_tokens db @ [candidateRow c]\<rparr>"
    "rowViolation db (db_tokens db @ [candidateRow c]) (candidateRow c) = None"
    by (auto simp: stepOne_def writeTokens_def split: option.splits)
  then show "db' = db\<lparr>db_tokens := db_tokens db @ [candidateRow c]\<rparr>" "checksPass (candidateRow c)"
    "uniqueViolation (db_tokens db @ [candidateRow c]) (candidateRow c) = None"
    by (auto dest: rowViolation_None)
qed

lemma liveRows_update:
  assumes "db_tokens db = xs @ r # ys" "liveRow destination r"
  shows "mset (liveRows destination (db\<lparr>db_tokens := xs @ r' # ys\<rparr>)) =
    mset (liveRows destination db) - {#r#} + (if liveRow destination r' then {#r'#} else {#})"
  using assms by (simp add: liveRows_def)

lemma liveRows_other:
  assumes "db_tokens db = xs @ r # ys" "tr_destination_id r = destination" "tr_destination_id r' = destination"
    "other \<noteq> destination"
  shows "liveRows other (db\<lparr>db_tokens := xs @ r' # ys\<rparr>) = liveRows other db"
  using assms by (simp add: liveRows_def liveRow_def)

lemma not_repeated_record:
  assumes "uniqueViolation (xs @ [r]) r = None" "x \<in> set xs"
  shows "tr_record_id x \<noteq> tr_record_id r"
proof
  assume "tr_record_id x = tr_record_id r"
  with assms(2) have "filter (\<lambda>x. tr_record_id x = tr_record_id r) xs \<noteq> []"
    unfolding filter_empty_conv by blast
  then have "repeated (\<lambda>x. tr_record_id x = tr_record_id r) (xs @ [r])"
    by (simp add: repeated_def)
  with assms(1) show False by (simp add: uniqueViolation_def)
qed

subsection \<open>The live rows by state\<close>

lemma distinct_mapD: "distinct (map f xs) \<Longrightarrow> distinct xs"
  by (simp add: distinct_map)

lemma readable_states:
  assumes "readableRows audience d rows"
  shows "distinct (map tr_token_state rows)"
    and "\<forall>r\<in>set rows. tr_token_state r = str ''staged'' \<or> tr_token_state r = str ''active'' \<or>
           tr_token_state r = str ''retiring''"
    and "inState st (map (specOf d) rows) \<longleftrightarrow> (\<exists>r\<in>set rows. stateOfText (tr_token_state r) = st)"
proof -
  have "map ts_State (map (specOf d) rows) = map stateOfText (map tr_token_state rows)"
    by (simp add: specOf_def)
  moreover from assms have "distinct (map ts_State (map (specOf d) rows))"
    unfolding readableRows_def liveStructure_def by blast
  ultimately have "distinct (map stateOfText (map tr_token_state rows))" by (simp only:)
  then show "distinct (map tr_token_state rows)" by (rule distinct_mapD)
  show "\<forall>r\<in>set rows. tr_token_state r = str ''staged'' \<or> tr_token_state r = str ''active'' \<or>
           tr_token_state r = str ''retiring''"
  proof
    fix r assume "r \<in> set rows"
    with assms have "liveState (stateOfText (tr_token_state r))"
      by (auto simp: readableRows_def liveStructure_def belongsTo_def specOf_def)
    then show "tr_token_state r = str ''staged'' \<or> tr_token_state r = str ''active'' \<or>
           tr_token_state r = str ''retiring''"
      by (auto simp: liveState_def stateOfText_def destinationTokenState_def split: if_splits)
  qed
  show "inState st (map (specOf d) rows) \<longleftrightarrow> (\<exists>r\<in>set rows. stateOfText (tr_token_state r) = st)"
    by (auto simp: inState_def specOf_def)
qed

lemma distinct_key_one:
  assumes "distinct (map g rows)" "g ` set rows = {a}"
  obtains x where "mset rows = {#x#}" "g x = a"
proof -
  have "length rows = 1" using assms distinct_card [of "map g rows"] by simp
  then obtain x where "rows = [x]" by (auto simp: length_Suc_conv)
  with assms(2) that show thesis by simp
qed

lemma distinct_key_two:
  assumes "distinct (map g rows)" "g ` set rows = {a, b}" "a \<noteq> b"
  obtains x y where "mset rows = {#x, y#}" "g x = a" "g y = b"
proof -
  have "length rows = 2" using assms distinct_card [of "map g rows"] by simp
  then obtain x y where rows: "rows = [x, y]" by (auto simp: length_Suc_conv numeral_2_eq_2)
  with assms have "g x = a \<and> g y = b \<or> g x = b \<and> g y = a" by auto
  then show thesis
  proof
    assume "g x = a \<and> g y = b"
    with rows show thesis by (intro that [of x y]) simp_all
  next
    assume "g x = b \<and> g y = a"
    with rows show thesis by (intro that [of y x]) simp_all
  qed
qed

lemma text_sets:
  assumes "X \<subseteq> {S, A, R}" "\<not> (S \<in> X \<and> R \<in> X)" "R \<in> X \<longrightarrow> A \<in> X"
  shows "S \<notin> X \<Longrightarrow> A \<notin> X \<Longrightarrow> X = {}" "S \<in> X \<Longrightarrow> A \<notin> X \<Longrightarrow> X = {S}"
    "A \<in> X \<Longrightarrow> S \<notin> X \<Longrightarrow> R \<notin> X \<Longrightarrow> X = {A}" "S \<in> X \<Longrightarrow> A \<in> X \<Longrightarrow> X = {S, A}"
    "A \<in> X \<Longrightarrow> R \<in> X \<Longrightarrow> X = {A, R}"
  using assms by blast+

lemma rows_by_states:
  assumes "readableRows audience d rows"
  shows "\<not> inState DestinationTokenStaged (map (specOf d) rows) \<Longrightarrow>
      \<not> inState DestinationTokenActive (map (specOf d) rows) \<Longrightarrow> rows = []"
    and "inState DestinationTokenStaged (map (specOf d) rows) \<Longrightarrow>
      \<not> inState DestinationTokenActive (map (specOf d) rows) \<Longrightarrow>
      \<exists>s. mset rows = {#s#} \<and> tr_token_state s = str ''staged''"
    and "inState DestinationTokenActive (map (specOf d) rows) \<Longrightarrow>
      \<not> inState DestinationTokenStaged (map (specOf d) rows) \<Longrightarrow>
      \<not> inState DestinationTokenRetiring (map (specOf d) rows) \<Longrightarrow>
      \<exists>a. mset rows = {#a#} \<and> tr_token_state a = str ''active''"
    and "inState DestinationTokenStaged (map (specOf d) rows) \<Longrightarrow>
      inState DestinationTokenActive (map (specOf d) rows) \<Longrightarrow>
      \<exists>s a. mset rows = {#s, a#} \<and> tr_token_state s = str ''staged'' \<and> tr_token_state a = str ''active''"
    and "inState DestinationTokenActive (map (specOf d) rows) \<Longrightarrow>
      inState DestinationTokenRetiring (map (specOf d) rows) \<Longrightarrow>
      \<exists>a r. mset rows = {#a, r#} \<and> tr_token_state a = str ''active'' \<and> tr_token_state r = str ''retiring''"
proof -
  note states = readable_states [OF assms]
  have has: "inState DestinationTokenStaged (map (specOf d) rows) \<longleftrightarrow> str ''staged'' \<in> tr_token_state ` set rows"
    "inState DestinationTokenActive (map (specOf d) rows) \<longleftrightarrow> str ''active'' \<in> tr_token_state ` set rows"
    "inState DestinationTokenRetiring (map (specOf d) rows) \<longleftrightarrow> str ''retiring'' \<in> tr_token_state ` set rows"
    using states(2) unfolding states(3) by force+
  from assms have rules: "\<not> (str ''staged'' \<in> tr_token_state ` set rows \<and> str ''retiring'' \<in> tr_token_state ` set rows)"
    "str ''retiring'' \<in> tr_token_state ` set rows \<longrightarrow> str ''active'' \<in> tr_token_state ` set rows"
    unfolding readableRows_def liveStructure_def has by blast+
  have sub: "tr_token_state ` set rows \<subseteq> {str ''staged'', str ''active'', str ''retiring''}"
    using states(2) by blast
  note one = distinct_key_one [OF states(1)] and two = distinct_key_two [OF states(1)]
    and texts = text_sets [OF sub rules]
  show "\<not> inState DestinationTokenStaged (map (specOf d) rows) \<Longrightarrow>
      \<not> inState DestinationTokenActive (map (specOf d) rows) \<Longrightarrow> rows = []"
    unfolding has using texts(1) by simp
  show "inState DestinationTokenStaged (map (specOf d) rows) \<Longrightarrow>
      \<not> inState DestinationTokenActive (map (specOf d) rows) \<Longrightarrow>
      \<exists>s. mset rows = {#s#} \<and> tr_token_state s = str ''staged''"
    unfolding has by (rule one [OF texts(2)]) blast+
  show "inState DestinationTokenActive (map (specOf d) rows) \<Longrightarrow>
      \<not> inState DestinationTokenStaged (map (specOf d) rows) \<Longrightarrow>
      \<not> inState DestinationTokenRetiring (map (specOf d) rows) \<Longrightarrow>
      \<exists>a. mset rows = {#a#} \<and> tr_token_state a = str ''active''"
    unfolding has by (rule one [OF texts(3)]) blast+
  show "inState DestinationTokenStaged (map (specOf d) rows) \<Longrightarrow>
      inState DestinationTokenActive (map (specOf d) rows) \<Longrightarrow>
      \<exists>s a. mset rows = {#s, a#} \<and> tr_token_state s = str ''staged'' \<and> tr_token_state a = str ''active''"
    unfolding has by (rule two [OF texts(4) state_texts_distinct(1)]) blast+
  show "inState DestinationTokenActive (map (specOf d) rows) \<Longrightarrow>
      inState DestinationTokenRetiring (map (specOf d) rows) \<Longrightarrow>
      \<exists>a r. mset rows = {#a, r#} \<and> tr_token_state a = str ''active'' \<and> tr_token_state r = str ''retiring''"
    unfolding has by (rule two [OF texts(5) state_texts_distinct(5)]) blast+
qed

lemma snapshot_rows:
  assumes "readableRows audience d rows" "r \<in> set rows"
  shows "tr_token_state r = str ''staged'' \<Longrightarrow> sn_staged (snapshotOf d (map (specOf d) rows) now) = lifecycleTokenView (specOf d r)"
    and "tr_token_state r = str ''active'' \<Longrightarrow> sn_active (snapshotOf d (map (specOf d) rows) now) = lifecycleTokenView (specOf d r)"
    and "tr_token_state r = str ''retiring'' \<Longrightarrow> sn_retiring (snapshotOf d (map (specOf d) rows) now) = lifecycleTokenView (specOf d r)"
proof -
  have dist: "distinct (map ts_State (map (specOf d) rows))"
    using assms(1) unfolding readableRows_def liveStructure_def by blast
  have "ts_State (specOf d r) = stateOfText (tr_token_state r)" by (simp add: specOf_def)
  with snapshotOf_views [OF dist, of "specOf d r" d now] assms(2)
  show "tr_token_state r = str ''staged'' \<Longrightarrow> sn_staged (snapshotOf d (map (specOf d) rows) now) = lifecycleTokenView (specOf d r)"
    and "tr_token_state r = str ''active'' \<Longrightarrow> sn_active (snapshotOf d (map (specOf d) rows) now) = lifecycleTokenView (specOf d r)"
    and "tr_token_state r = str ''retiring'' \<Longrightarrow> sn_retiring (snapshotOf d (map (specOf d) rows) now) = lifecycleTokenView (specOf d r)"
    by simp_all
qed

subsection \<open>The rows a command changes\<close>

text \<open>What every step leaves alone: the destination table and the rows of other destinations.\<close>

definition stepFrame :: "DestinationID \<Rightarrow> gateway_db \<Rightarrow> gateway_db \<Rightarrow> bool" where
  "stepFrame destination db db' = (db_destinations db' = db_destinations db \<and>
     (\<forall>other. other \<noteq> destination \<longrightarrow> liveRows other db' = liveRows other db))"

lemma stepFrame_trans: "stepFrame d a b \<Longrightarrow> stepFrame d b c \<Longrightarrow> stepFrame d a c"
  by (simp add: stepFrame_def)

lemma update_live:
  assumes "stepOne (updateTokens (lifecycleTarget audience destination recordID st changedAt) f) db = Some db'"
    and "st \<noteq> str ''revoked''"
    and "\<And>r. tr_destination_id (f r) = tr_destination_id r"
  obtains r where "r \<in> set (liveRows destination db)" "tr_token_state r = st" "tr_record_id r = recordID"
    "mset (liveRows destination db') = mset (liveRows destination db) - {#r#} +
       (if tr_token_state (f r) \<noteq> str ''revoked'' then {#f r#} else {#})"
    "checksPass (f r)" "stepFrame destination db db'"
proof -
  from update_step [OF assms(1)] obtain xs r ys where
    t: "db_tokens db = xs @ r # ys" and r: "lifecycleTarget audience destination recordID st changedAt r"
    and db': "db' = db\<lparr>db_tokens := xs @ f r # ys\<rparr>" and ok: "checksPass (f r)" by metis
  from r have dest: "tr_destination_id r = destination" "tr_token_state r = st" "tr_record_id r = recordID"
    by (simp_all add: lifecycleTarget_def)
  then have live: "liveRow destination r" using assms(2) by (simp add: liveRow_def)
  have "r \<in> set (liveRows destination db)" using live by (simp add: liveRows_def t)
  moreover have "mset (liveRows destination db') = mset (liveRows destination db) - {#r#} +
       (if tr_token_state (f r) \<noteq> str ''revoked'' then {#f r#} else {#})"
    unfolding db' liveRows_update [OF t live] by (simp add: liveRow_def assms(3) dest)
  moreover have "stepFrame destination db db'"
    using liveRows_other [OF t dest(1), of "f r"] by (simp add: stepFrame_def db' assms(3) dest)
  ultimately show thesis using dest ok that by blast
qed

lemma insert_live:
  assumes "stepOne (insertStatement c) db = Some db'"
  shows "mset (liveRows (sc_destination c) db') = mset (liveRows (sc_destination c) db) + {#candidateRow c#}"
    "checksPass (candidateRow c)" "stepFrame (sc_destination c) db db'"
    "\<forall>x\<in>set (liveRows (sc_destination c) db). tr_record_id x \<noteq> sc_recordID c"
proof -
  note ins = insert_step [OF assms]
  have row: "liveRow (sc_destination c) (candidateRow c)" "tr_record_id (candidateRow c) = sc_recordID c"
    "tr_destination_id (candidateRow c) = sc_destination c"
    by (simp_all add: liveRow_def candidateRow_def)
  from row(1) show "mset (liveRows (sc_destination c) db') = mset (liveRows (sc_destination c) db) + {#candidateRow c#}"
    by (simp add: ins(1) liveRows_def)
  show "checksPass (candidateRow c)" by (rule ins(2))
  show "stepFrame (sc_destination c) db db'"
    using row(3) by (simp add: stepFrame_def ins(1) liveRows_def liveRow_def)
  show "\<forall>x\<in>set (liveRows (sc_destination c) db). tr_record_id x \<noteq> sc_recordID c"
    using not_repeated_record [OF ins(3)] row(2) by (simp add: liveRows_def)
qed

definition rowIn :: "token_row \<Rightarrow> gostring \<Rightarrow> DestinationTokenRecordID \<Rightarrow> bool" where
  "rowIn r st recordID = (tr_token_state r = st \<and> tr_record_id r = recordID)"

text \<open>The live rows of the destination before and after a step of each command.\<close>

fun commandRows :: "lifecycle_command \<Rightarrow> token_row multiset \<Rightarrow> token_row multiset \<Rightarrow> bool" where
  "commandRows (CreateStaged c now) M M' = (M = {#} \<and> M' = {#candidateRow c#})"
| "commandRows (CreateRotationStaged c) M M' =
     (\<exists>a. M = {#a#} \<and> rowIn a (str ''active'') (cr_expectedActiveRecordID c) \<and>
        tr_record_id a \<noteq> sc_recordID (cr_candidate c) \<and> M' = {#a, candidateRow (cr_candidate c)#})"
| "commandRows (ActivateInitial aud dest recordID now) M M' =
     (\<exists>s. M = {#s#} \<and> rowIn s (str ''staged'') recordID \<and> M' = {#markActive now s#})"
| "commandRows (ActivateRotate c) M M' =
     (\<exists>s a. M = {#s, a#} \<and> rowIn s (str ''staged'') (ac_StagedRecordID c) \<and>
        rowIn a (str ''active'') (ac_OldActiveRecordID c) \<and>
        M' = {#markActive (ac_Now c) s, markRetiring (ac_Now c) (ac_OverlapDeadline c) a#})"
| "commandRows (AbortStaged aud dest recordID now) M M' =
     (\<exists>s. rowIn s (str ''staged'') recordID \<and>
        (M = {#s#} \<and> M' = {#} \<or>
         (\<exists>a. M = {#s, a#} \<and> tr_token_state a = str ''active'' \<and> M' = {#a#})))"
| "commandRows (RollbackRotate c) M M' =
     (\<exists>a r. M = {#a, r#} \<and> rowIn a (str ''active'') (rb_NewActiveRecordID c) \<and>
        rowIn r (str ''retiring'') (rb_OldRetiringRecordID c) \<and> M' = {#markRestored (rb_Now c) r#})"
| "commandRows (FinalizeRotate c) M M' =
     (\<exists>a r. M = {#a, r#} \<and> rowIn a (str ''active'') (fc_NewActiveRecordID c) \<and>
        rowIn r (str ''retiring'') (fc_OldRetiringRecordID c) \<and> M' = {#a#})"

text \<open>A step unfolded: the readable state it starts from, its guard and its statements.\<close>

definition stateAt :: "Destination \<Rightarrow> DestinationID \<Rightarrow> gateway_db \<Rightarrow> time \<Rightarrow> lifecycleLockedState" where
  "stateAt d destination db now =
     \<lparr>ls_destination = d, ls_snapshot = snapshotOf d (map (specOf d) (liveRows destination db)) now\<rparr>"

lemma command_unfold:
  assumes "commandStep cmd db = Some db'"
  obtains d where "commandInputOK cmd" "commandAudience cmd \<noteq> 0" "commandDestination cmd \<noteq> 0" "commandNow cmd \<noteq> 0"
    "readableDestination (commandAudience cmd) (commandDestination cmd) (commandNow cmd) db d"
    "readableRows (commandAudience cmd) d (liveRows (commandDestination cmd) db)"
    "commandGuard cmd (stateAt d (commandDestination cmd) db (commandNow cmd)) = None"
    "stepAll (commandStatements cmd (ls_snapshot (stateAt d (commandDestination cmd) db (commandNow cmd)))) db = Some db'"
  using assms
  by (auto simp: commandStep_def commandEffect_def lockedStateOf_iff stateAt_def
      split: if_splits option.splits)

lemma stepAll_one: "stepAll [st] db = Some db' \<Longrightarrow> stepOne st db = Some db'"
  by (simp split: option.splits)

lemma stepAll_two:
  "stepAll [st, st'] db = Some db' \<Longrightarrow> (\<And>d. stepOne st db = Some d \<Longrightarrow> stepOne st' d = Some db' \<Longrightarrow> P) \<Longrightarrow> P"
  by (auto split: option.splits)

lemma pair_flags:
  assumes "lifecycleRotationPair st newID oldID now stale = Inr p"
  shows "sn_hasActive (ls_snapshot st)" "sn_hasRetiring (ls_snapshot st)" "\<not> sn_hasStaged (ls_snapshot st)"
    "p = (sn_active (ls_snapshot st), sn_retiring (ls_snapshot st))"
    "lv_recordID (sn_active (ls_snapshot st)) = newID" "lv_recordID (sn_retiring (ls_snapshot st)) = oldID"
  using assms by (auto simp: lifecycleRotationPair_def Let_def split: if_splits)

lemmas mark_simps = markActive_def markRetiring_def markRevoked_def markRestored_def

lemma mark_keeps [simp]:
  "tr_destination_id (markActive now r) = tr_destination_id r" "tr_record_id (markActive now r) = tr_record_id r"
  "tr_destination_id (markRetiring now dl r) = tr_destination_id r" "tr_record_id (markRetiring now dl r) = tr_record_id r"
  "tr_destination_id (markRevoked now r) = tr_destination_id r" "tr_record_id (markRevoked now r) = tr_record_id r"
  "tr_destination_id (markRestored now r) = tr_destination_id r" "tr_record_id (markRestored now r) = tr_record_id r"
  "tr_token_state (markActive now r) = str ''active''" "tr_token_state (markRetiring now dl r) = str ''retiring''"
  "tr_token_state (markRevoked now r) = str ''revoked''" "tr_token_state (markRestored now r) = str ''active''"
  by (simp_all add: mark_simps)

definition newRowsChecked :: "token_row multiset \<Rightarrow> token_row multiset \<Rightarrow> bool" where
  "newRowsChecked M M' = (\<forall>r\<in>#M'. r \<in># M \<or> checksPass r)"

lemma mset_members:
  "mset xs = {#x#} \<Longrightarrow> r \<in> set xs \<Longrightarrow> r = x"
  "mset xs = {#x, y#} \<Longrightarrow> r \<in> set xs \<Longrightarrow> r = x \<or> r = y"
  by (metis set_mset_mset set_mset_add_mset_insert set_mset_empty insert_iff empty_iff)+

definition commandPost :: "lifecycle_command \<Rightarrow> gateway_db \<Rightarrow> gateway_db \<Rightarrow> bool" where
  "commandPost cmd db db' =
     (commandRows cmd (mset (liveRows (commandDestination cmd) db)) (mset (liveRows (commandDestination cmd) db')) \<and>
      stepFrame (commandDestination cmd) db db' \<and>
      newRowsChecked (mset (liveRows (commandDestination cmd) db)) (mset (liveRows (commandDestination cmd) db')))"

lemma commandPostI:
  assumes "mset (liveRows dest db) = M" "mset (liveRows dest db') = M'" "stepFrame dest db db'"
    "dest = commandDestination cmd" "commandRows cmd M M'" "newRowsChecked M M'"
  shows "commandPost cmd db db'"
  using assms by (simp add: commandPost_def)

lemma rows_ActivateInitial:
  assumes "readableRows aud d (liveRows dest db)"
    "activateInitialGuard recordID (stateAt d dest db now) = None"
    "stepOne (activateInitialLifecycleTokenSQL aud dest recordID changed now) db = Some db'"
  shows "commandPost (ActivateInitial aud dest recordID now) db db'"
proof -
  let ?ts = "map (specOf d) (liveRows dest db)"
  have "sn_status (snapshotOf d ?ts now) = LifecycleStagedInitial"
    using assms(2) by (auto simp: activateInitialGuard_def stateAt_def split: if_splits)
  then have "inState DestinationTokenStaged ?ts" "\<not> inState DestinationTokenActive ?ts"
    by (auto simp: snapshotOf_fields split: if_splits)
  with rows_by_states(2) [OF assms(1)] obtain s where s: "mset (liveRows dest db) = {#s#}"
    by blast
  from assms(3) obtain r where "r \<in> set (liveRows dest db)" "tr_record_id r = recordID"
    "tr_token_state r = str ''staged''"
    "mset (liveRows dest db') = mset (liveRows dest db) - {#r#} + {#markActive now r#}"
    "checksPass (markActive now r)" "stepFrame dest db db'"
    unfolding activateInitialLifecycleTokenSQL_def by (rule update_live) simp_all
  with mset_members(1) [OF s] s show ?thesis
    by (intro commandPostI [OF s]) (auto simp: rowIn_def newRowsChecked_def)
qed

lemma rows_ActivateRotate:
  assumes "readableRows aud d (liveRows dest db)"
    "activateRotationGuard (ac_StagedRecordID c) (ac_OldActiveRecordID c) (ac_OverlapDeadline c) (stateAt d dest db now) = None"
    "stepOne (retireLifecycleTokenSQL aud dest (ac_OldActiveRecordID c) ch (ac_Now c) (ac_OverlapDeadline c)) db = Some db1"
    "stepOne (activateRotationLifecycleTokenSQL aud dest (ac_StagedRecordID c) ch' (ac_Now c)) db1 = Some db'"
    "dest = ac_DestinationID c"
  shows "commandPost (ActivateRotate c) db db'"
proof -
  let ?ts = "map (specOf d) (liveRows dest db)"
  have "sn_status (snapshotOf d ?ts now) = LifecycleActiveWithStaged"
    using assms(2) by (auto simp: activateRotationGuard_def stateAt_def Let_def split: if_splits)
  then have "inState DestinationTokenStaged ?ts" "inState DestinationTokenActive ?ts"
    by (auto simp: snapshotOf_fields split: if_splits)
  with rows_by_states(4) [OF assms(1)] obtain s a where sa: "mset (liveRows dest db) = {#s, a#}"
    "tr_token_state s = str ''staged''" "tr_token_state a = str ''active''" by blast
  from assms(3) obtain r where r: "r \<in> set (liveRows dest db)" "tr_record_id r = ac_OldActiveRecordID c"
    "tr_token_state r = str ''active''"
    "mset (liveRows dest db1) = mset (liveRows dest db) - {#r#} + {#markRetiring (ac_Now c) (ac_OverlapDeadline c) r#}"
    "checksPass (markRetiring (ac_Now c) (ac_OverlapDeadline c) r)" "stepFrame dest db db1"
    unfolding retireLifecycleTokenSQL_def by (rule update_live) simp_all
  with mset_members(2) [OF sa(1) r(1)] sa have ra: "r = a" by auto
  with r sa have m1: "mset (liveRows dest db1) = {#s, markRetiring (ac_Now c) (ac_OverlapDeadline c) a#}" by simp
  from assms(4) obtain q where q: "q \<in> set (liveRows dest db1)" "tr_record_id q = ac_StagedRecordID c"
    "tr_token_state q = str ''staged''"
    "mset (liveRows dest db') = mset (liveRows dest db1) - {#q#} + {#markActive (ac_Now c) q#}"
    "checksPass (markActive (ac_Now c) q)" "stepFrame dest db1 db'"
    unfolding activateRotationLifecycleTokenSQL_def by (rule update_live) simp_all
  with mset_members(2) [OF m1 q(1)] have qs: "q = s" by auto
  have "mset (liveRows dest db') = {#markActive (ac_Now c) s, markRetiring (ac_Now c) (ac_OverlapDeadline c) a#}"
    using q(4) by (simp add: m1 qs)
  moreover have "commandRows (ActivateRotate c) {#s, a#}
      {#markActive (ac_Now c) s, markRetiring (ac_Now c) (ac_OverlapDeadline c) a#}"
    unfolding commandRows.simps
    by (rule exI [of _ s], rule exI [of _ a]) (use r q sa ra qs in \<open>simp add: rowIn_def\<close>)
  moreover have "newRowsChecked {#s, a#}
      {#markActive (ac_Now c) s, markRetiring (ac_Now c) (ac_OverlapDeadline c) a#}"
    using r(5) q(5) by (simp add: newRowsChecked_def ra qs)
  moreover have "dest = commandDestination (ActivateRotate c)" using assms(5) by simp
  ultimately show ?thesis by (intro commandPostI [OF sa(1) _ stepFrame_trans [OF r(6) q(6)]])
qed

lemma rows_AbortStaged:
  assumes "readableRows aud d (liveRows dest db)"
    "stepOne (revokeStagedLifecycleTokenSQL aud dest recordID changed now) db = Some db'"
  shows "commandPost (AbortStaged aud dest recordID now) db db'"
proof -
  let ?ts = "map (specOf d) (liveRows dest db)"
  from assms(2) obtain r where r: "r \<in> set (liveRows dest db)" "tr_record_id r = recordID"
    "tr_token_state r = str ''staged''"
    "mset (liveRows dest db') = mset (liveRows dest db) - {#r#}" "stepFrame dest db db'"
    unfolding revokeStagedLifecycleTokenSQL_def by (rule update_live) simp_all
  then have staged: "inState DestinationTokenStaged ?ts"
    using readable_states(3) [OF assms(1)] by force
  show ?thesis
  proof (cases "inState DestinationTokenActive ?ts")
    case True
    with staged rows_by_states(4) [OF assms(1)] obtain s a where sa: "mset (liveRows dest db) = {#s, a#}"
      "tr_token_state s = str ''staged''" "tr_token_state a = str ''active''" by blast
    with mset_members(2) [OF sa(1) r(1)] r have "r = s" by auto
    then have "commandRows (AbortStaged aud dest recordID now) {#s, a#} {#a#}"
      unfolding commandRows.simps using r sa by (intro exI [of _ s] conjI disjI2 exI [of _ a]) (simp_all add: rowIn_def)
    moreover have "mset (liveRows dest db') = {#a#}" using r(4) by (simp add: sa(1) \<open>r = s\<close>)
    moreover have "newRowsChecked {#s, a#} {#a#}" by (simp add: newRowsChecked_def)
    moreover have "dest = commandDestination (AbortStaged aud dest recordID now)" by simp
    ultimately show ?thesis by (intro commandPostI [OF sa(1) _ r(5)])
  next
    case False
    with staged rows_by_states(2) [OF assms(1)] obtain s where s: "mset (liveRows dest db) = {#s#}" by blast
    with mset_members(1) [OF s r(1)] r have "commandRows (AbortStaged aud dest recordID now) {#s#} {#}"
      "mset (liveRows dest db') = {#}" "newRowsChecked {#s#} {#}"
      by (simp_all add: rowIn_def newRowsChecked_def)
    then show ?thesis by (intro commandPostI [OF s _ r(5)]) simp_all
  qed
qed

lemma rotation_pair_rows:
  assumes "readableRows aud d (liveRows dest db)"
    "lifecycleRotationPair (stateAt d dest db now) newID oldID now stale = Inr p"
  obtains a r where "mset (liveRows dest db) = {#a, r#}" "rowIn a (str ''active'') newID"
    "rowIn r (str ''retiring'') oldID"
proof -
  let ?ts = "map (specOf d) (liveRows dest db)"
  note flags = pair_flags [OF assms(2), unfolded stateAt_def lifecycleLockedState.select_convs snapshotOf_fields]
  from rows_by_states(5) [OF assms(1) flags(1,2)] obtain a r where
    ar: "mset (liveRows dest db) = {#a, r#}" "tr_token_state a = str ''active''" "tr_token_state r = str ''retiring''"
    by blast
  then have "a \<in> set (liveRows dest db)" "r \<in> set (liveRows dest db)"
    by (metis set_mset_mset union_single_eq_member add_mset_commute)+
  with snapshot_rows [OF assms(1)] ar flags(5,6) have "tr_record_id a = newID" "tr_record_id r = oldID"
    by (auto simp: lifecycleTokenView_def specOf_def)
  with ar that show thesis by (simp add: rowIn_def)
qed

lemma rows_RollbackRotate:
  assumes "readableRows aud d (liveRows dest db)"
    "rollbackRotationGuard c (stateAt d dest db (rb_Now c)) = None"
    "stepOne (revokeActiveLifecycleTokenSQL aud dest (rb_NewActiveRecordID c) ch (rb_Now c)) db = Some db1"
    "stepOne (restoreRetiringLifecycleTokenSQL aud dest (rb_OldRetiringRecordID c) ch' (rb_Now c)) db1 = Some db'"
    "dest = rb_DestinationID c"
  shows "commandPost (RollbackRotate c) db db'"
proof -
  from assms(2) obtain p where "lifecycleRotationPair (stateAt d dest db (rb_Now c)) (rb_NewActiveRecordID c)
      (rb_OldRetiringRecordID c) (rb_Now c) False = Inr p"
    by (auto simp: rollbackRotationGuard_def split: sum.splits)
  with assms(1) obtain a r where ar: "mset (liveRows dest db) = {#a, r#}"
    "rowIn a (str ''active'') (rb_NewActiveRecordID c)" "rowIn r (str ''retiring'') (rb_OldRetiringRecordID c)"
    by (rule rotation_pair_rows)
  from assms(3) obtain x where x: "x \<in> set (liveRows dest db)" "tr_token_state x = str ''active''"
    "mset (liveRows dest db1) = mset (liveRows dest db) - {#x#}" "stepFrame dest db db1"
    unfolding revokeActiveLifecycleTokenSQL_def by (rule update_live) simp_all
  with mset_members(2) [OF ar(1) x(1)] ar have "x = a" by (auto simp: rowIn_def)
  with x ar have m1: "mset (liveRows dest db1) = {#r#}" by simp
  from assms(4) obtain y where y: "y \<in> set (liveRows dest db1)"
    "mset (liveRows dest db') = mset (liveRows dest db1) - {#y#} + {#markRestored (rb_Now c) y#}"
    "checksPass (markRestored (rb_Now c) y)" "stepFrame dest db1 db'"
    unfolding restoreRetiringLifecycleTokenSQL_def by (rule update_live) simp_all
  with mset_members(1) [OF m1] have "y = r" by blast
  have "commandRows (RollbackRotate c) {#a, r#} {#markRestored (rb_Now c) r#}"
    unfolding commandRows.simps by (rule exI [of _ a], rule exI [of _ r]) (simp add: ar)
  moreover have "mset (liveRows dest db') = {#markRestored (rb_Now c) r#}"
    using y(2) by (simp add: m1 \<open>y = r\<close>)
  moreover have "newRowsChecked {#a, r#} {#markRestored (rb_Now c) r#}"
    using y(3) by (simp add: newRowsChecked_def \<open>y = r\<close>)
  moreover have "dest = commandDestination (RollbackRotate c)" using assms(5) by simp
  ultimately show ?thesis by (intro commandPostI [OF ar(1) _ stepFrame_trans [OF x(4) y(4)]])
qed

lemma rows_FinalizeRotate:
  assumes "readableRows aud d (liveRows dest db)"
    "finalizeRotationGuard c (stateAt d dest db (fc_Now c)) = None"
    "stepOne (revokeRetiringLifecycleTokenSQL aud dest (fc_OldRetiringRecordID c) ch (fc_Now c)) db = Some db'"
    "dest = fc_DestinationID c"
  shows "commandPost (FinalizeRotate c) db db'"
proof -
  from assms(2) obtain p where "lifecycleRotationPair (stateAt d dest db (fc_Now c)) (fc_NewActiveRecordID c)
      (fc_OldRetiringRecordID c) (fc_Now c) True = Inr p"
    by (auto simp: finalizeRotationGuard_def split: sum.splits)
  with assms(1) obtain a r where ar: "mset (liveRows dest db) = {#a, r#}"
    "rowIn a (str ''active'') (fc_NewActiveRecordID c)" "rowIn r (str ''retiring'') (fc_OldRetiringRecordID c)"
    by (rule rotation_pair_rows)
  from assms(3) obtain x where x: "x \<in> set (liveRows dest db)" "tr_token_state x = str ''retiring''"
    "mset (liveRows dest db') = mset (liveRows dest db) - {#x#}" "stepFrame dest db db'"
    unfolding revokeRetiringLifecycleTokenSQL_def by (rule update_live) simp_all
  with mset_members(2) [OF ar(1) x(1)] ar have "x = r" by (auto simp: rowIn_def)
  have "commandRows (FinalizeRotate c) {#a, r#} {#a#}"
    unfolding commandRows.simps by (rule exI [of _ a], rule exI [of _ r]) (simp add: ar)
  moreover have "mset (liveRows dest db') = {#a#}" using x(3) by (simp add: ar(1) \<open>x = r\<close>)
  moreover have "newRowsChecked {#a, r#} {#a#}" by (simp add: newRowsChecked_def)
  moreover have "dest = commandDestination (FinalizeRotate c)" using assms(4) by simp
  ultimately show ?thesis by (intro commandPostI [OF ar(1) _ x(4)])
qed

lemma rows_CreateStaged:
  assumes "readableRows aud d (liveRows (sc_destination c) db)"
    "createStagedGuard (stateAt d (sc_destination c) db now) = None"
    "stepOne (insertStatement c) db = Some db'"
  shows "commandPost (CreateStaged c now) db db'"
proof -
  let ?ts = "map (specOf d) (liveRows (sc_destination c) db)"
  have "sn_status (snapshotOf d ?ts now) = LifecycleUnprovisioned"
    using assms(2) by (auto simp: createStagedGuard_def stateAt_def split: if_splits DestinationLifecycleStatus.splits)
  then have "\<not> inState DestinationTokenStaged ?ts" "\<not> inState DestinationTokenActive ?ts"
    by (auto simp: snapshotOf_fields split: if_splits)
  then have empty: "liveRows (sc_destination c) db = []" by (rule rows_by_states(1) [OF assms(1)])
  note ins = insert_live [OF assms(3)]
  have "newRowsChecked {#} {#candidateRow c#}" using ins(2) by (simp add: newRowsChecked_def)
  with ins empty show ?thesis
    by (intro commandPostI [of "sc_destination c" _ "{#}" _ "{#candidateRow c#}"]) simp_all
qed

lemma rows_CreateRotationStaged:
  assumes "readableRows aud d (liveRows dest db)"
    "createRotationStagedGuard (cr_expectedActiveRecordID c) (stateAt d dest db now) = None"
    "stepOne (insertStatement (cr_candidate c)) db = Some db'" "dest = sc_destination (cr_candidate c)"
  shows "commandPost (CreateRotationStaged c) db db'"
proof -
  let ?ts = "map (specOf d) (liveRows dest db)"
  have guard: "sn_hasActive (snapshotOf d ?ts now)" "\<not> sn_hasStaged (snapshotOf d ?ts now)"
    "\<not> sn_hasRetiring (snapshotOf d ?ts now)"
    "lv_recordID (sn_active (snapshotOf d ?ts now)) = cr_expectedActiveRecordID c"
    using assms(2) by (auto simp: createRotationStagedGuard_def stateAt_def split: if_splits)
  from rows_by_states(3) [OF assms(1)] guard(1-3) obtain a where
    a: "mset (liveRows dest db) = {#a#}" "tr_token_state a = str ''active''"
    unfolding snapshotOf_fields by blast
  then have mem: "a \<in> set (liveRows dest db)" by (metis set_mset_mset union_single_eq_member)
  have rec: "tr_record_id a = cr_expectedActiveRecordID c"
    using guard(4) snapshot_rows(2) [OF assms(1) mem a(2)] by (simp add: lifecycleTokenView_def specOf_def)
  note ins = insert_live [OF assms(3), folded assms(4)]
  have "commandRows (CreateRotationStaged c) {#a#} {#a, candidateRow (cr_candidate c)#}"
    using a(2) rec bspec [OF ins(4) mem] by (simp add: rowIn_def)
  moreover have "newRowsChecked {#a#} {#a, candidateRow (cr_candidate c)#}"
    using ins(2) by (simp add: newRowsChecked_def)
  moreover have "mset (liveRows dest db') = {#a, candidateRow (cr_candidate c)#}"
    using ins(1) by (simp add: a(1))
  moreover have "dest = commandDestination (CreateRotationStaged c)" using assms(4) by simp
  ultimately show ?thesis by (intro commandPostI [OF a(1) _ ins(3)])
qed

theorem command_rows:
  assumes "commandStep cmd db = Some db'"
  shows "commandPost cmd db db'"
proof (rule command_unfold [OF assms])
  fix d
  assume rows: "readableRows (commandAudience cmd) d (liveRows (commandDestination cmd) db)"
    and guard: "commandGuard cmd (stateAt d (commandDestination cmd) db (commandNow cmd)) = None"
    and steps: "stepAll (commandStatements cmd (ls_snapshot (stateAt d (commandDestination cmd) db (commandNow cmd)))) db = Some db'"
  show ?thesis
  proof (cases cmd)
    case (CreateStaged c now)
    with rows guard steps show ?thesis
      by (auto dest!: stepAll_one simp del: stepAll.simps intro!: rows_CreateStaged)
  next
    case (CreateRotationStaged c)
    with rows guard steps show ?thesis
      by (auto dest!: stepAll_one simp del: stepAll.simps intro: rows_CreateRotationStaged)
  next
    case (ActivateInitial a dest r now)
    with rows guard steps show ?thesis
      by (auto dest!: stepAll_one simp del: stepAll.simps intro: rows_ActivateInitial)
  next
    case (ActivateRotate c)
    with rows guard steps show ?thesis
      by (auto elim!: stepAll_two simp del: stepAll.simps intro: rows_ActivateRotate)
  next
    case (AbortStaged a dest r now)
    with rows guard steps show ?thesis
      by (auto dest!: stepAll_one simp del: stepAll.simps intro: rows_AbortStaged)
  next
    case (RollbackRotate c)
    with rows guard steps show ?thesis
      by (auto elim!: stepAll_two simp del: stepAll.simps intro: rows_RollbackRotate)
  next
    case (FinalizeRotate c)
    with rows guard steps show ?thesis
      by (auto dest!: stepAll_one simp del: stepAll.simps intro: rows_FinalizeRotate)
  qed
qed

end
