(* ===== verification/Lifecycle_Safety.thy ===== *)
theory Lifecycle_Safety
  imports Lifecycle_Invariant
begin

section \<open>Safety of the token lifecycle\<close>

text \<open>
  Every step keeps the tables readable, at the destination it changes and at every other one,
  so a sequence of commands does too. On the record identities of the staged, active and
  retiring token the steps are the transitions of a small rotation machine, and that machine
  never leaves a destination that has an active token without one.
\<close>

subsection \<open>Rows that parse\<close>

lemma finite_argument: "1000 \<le> t \<Longrightarrow> finiteStamp (timestampArgument t)"
  by (simp add: timestampArgument_def div_eq_0_iff)

lemma mark_fields [simp]:
  "tr_gateway_audience_id (markActive now r) = tr_gateway_audience_id r"
  "tr_gateway_audience_id (markRetiring now deadline r) = tr_gateway_audience_id r"
  "tr_gateway_audience_id (markRestored now r) = tr_gateway_audience_id r"
  "tr_activated_at (markActive now r) = Some (timestampArgument now)"
  "tr_state_changed_at (markActive now r) = timestampArgument now"
  "tr_retirement_started_at (markRetiring now deadline r) = Some (timestampArgument now)"
  "tr_state_changed_at (markRetiring now deadline r) = timestampArgument now"
  by (simp_all add: mark_simps)

lemma mark_shape:
  assumes "rowShapeOK r" "1000 \<le> now"
  shows "rowShapeOK (markActive now r)" "now < deadline \<Longrightarrow> rowShapeOK (markRetiring now deadline r)"
    "rowShapeOK (markRestored now r)"
  using assms by (simp_all add: rowShapeOK_def mark_simps optionStampOK_def finite_argument)

lemma candidate_fields [simp]:
  "tr_record_id (candidateRow c) = sc_recordID c" "tr_gateway_audience_id (candidateRow c) = sc_audienceID c"
  "tr_destination_id (candidateRow c) = sc_destination c" "tr_token_state (candidateRow c) = str ''staged''"
  by (simp_all add: candidateRow_def)

lemma candidate_shape:
  assumes "revalidateCandidate c = Inr v" "1000 \<le> sc_createdAt c" "validKeyID (sc_verifierKeyID c)"
  shows "rowShapeOK (candidateRow c)"
  using assms by (simp add: revalidateCandidate_def NewStagedTokenCandidate_iff rowShapeOK_def
      candidateRow_def optionStampOK_def finite_argument)

lemma row_parses_checked:
  assumes "rowShapeOK r" "checksPass r" "tr_gateway_audience_id r = audience" "tr_destination_id r = de_id d"
    "de_audienceID d = audience" "de_id d \<noteq> 0" "audience \<noteq> 0"
  shows "rowParses audience d r"
  using assms checks_spec [of r d] by (simp add: rowParses_def)

lemma readableRows_mset:
  assumes "mset rows = mset rows'"
  shows "readableRows audience d rows = readableRows audience d rows'"
proof -
  have "mset (map (specOf d) rows) = mset (map (specOf d) rows')" using assms by simp
  from liveStructure_mset [OF this] mset_eq_setD [OF assms] show ?thesis by (simp add: readableRows_def)
qed

lemma parsed_belongs:
  assumes "rowParses audience d r" "de_audienceID d = audience" "liveState (stateOfText (tr_token_state r))"
  shows "belongsTo d (specOf d r)"
  using assms by (simp add: rowParses_def belongsTo_def specOf_def)

lemma readable_none: "readableRows audience d []"
  by (simp add: readableRows_def liveStructure_def inState_def pairedRotation_def)

lemma readable_one:
  assumes "rowParses audience d r" "de_audienceID d = audience"
    "tr_token_state r = str ''staged'' \<or> tr_token_state r = str ''active''"
  shows "readableRows audience d [r]"
proof -
  have "ts_State (specOf d r) = stateOfText (tr_token_state r)" by (simp add: specOf_def)
  with assms parsed_belongs [of audience d r] show ?thesis
    by (auto simp: readableRows_def liveStructure_def inState_def pairedRotation_def liveState_def)
qed

lemma readable_staged_active:
  assumes "rowParses audience d s" "rowParses audience d a" "de_audienceID d = audience"
    "tr_token_state s = str ''staged''" "tr_token_state a = str ''active''" "tr_record_id a \<noteq> tr_record_id s"
  shows "readableRows audience d [s, a]"
proof -
  have "ts_State (specOf d s) = DestinationTokenStaged" "ts_State (specOf d a) = DestinationTokenActive"
    "ts_RecordID (specOf d s) \<noteq> ts_RecordID (specOf d a)"
    using assms(4-6) by (simp_all add: specOf_def)
  with assms parsed_belongs [of audience d s] parsed_belongs [of audience d a] show ?thesis
    by (auto simp: readableRows_def liveStructure_def inState_def pairedRotation_def liveState_def)
qed

lemma readable_active_retiring:
  assumes "rowParses audience d a" "rowParses audience d r" "de_audienceID d = audience"
    "tr_token_state a = str ''active''" "tr_token_state r = str ''retiring''" "tr_record_id a \<noteq> tr_record_id r"
    "tr_activated_at a = Some t" "tr_state_changed_at a = t"
    "tr_retirement_started_at r = Some t" "tr_state_changed_at r = t"
  shows "readableRows audience d [a, r]"
proof -
  have "ts_State (specOf d a) = DestinationTokenActive" "ts_State (specOf d r) = DestinationTokenRetiring"
    "ts_RecordID (specOf d a) \<noteq> ts_RecordID (specOf d r)"
    "ts_ActivatedAt (specOf d a) = stampTime t" "ts_StateChangedAt (specOf d a) = stampTime t"
    "ts_RetirementStartedAt (specOf d r) = stampTime t" "ts_StateChangedAt (specOf d r) = stampTime t"
    using assms(4-10) by (simp_all add: specOf_def optionTime_def)
  with assms parsed_belongs [of audience d a] parsed_belongs [of audience d r] show ?thesis
    by (auto simp: readableRows_def liveStructure_def inState_def pairedRotation_def liveState_def)
qed

subsection \<open>Every step keeps the rows readable\<close>

text \<open>The key identifier of a candidate is a value of a type whose only constructor checks it.\<close>

fun commandKeyOK :: "lifecycle_command \<Rightarrow> bool" where
  "commandKeyOK (CreateStaged c now) = validKeyID (sc_verifierKeyID c)"
| "commandKeyOK (CreateRotationStaged c) = validKeyID (sc_verifierKeyID (cr_candidate c))"
| "commandKeyOK _ = True"

text \<open>A command whose time the timestamp column can represent and whose key identifier is valid.\<close>

definition commandFit :: "lifecycle_command \<Rightarrow> bool" where
  "commandFit cmd = (commandKeyOK cmd \<and> 1000 \<le> commandNow cmd)"

lemma readable_old: "readableRows audience d rows \<Longrightarrow> r \<in># mset rows \<Longrightarrow> rowParses audience d r"
  by (simp add: readableRows_def)

lemma readable_distinct:
  assumes "readableRows audience d rows" "mset rows = {#x, y#}"
  shows "tr_record_id x \<noteq> tr_record_id y"
proof -
  have "mset (map tr_record_id rows) = mset [tr_record_id x, tr_record_id y]" using assms(2) by simp
  moreover have "distinct (map tr_record_id rows)"
    using assms(1) by (simp add: readableRows_def liveStructure_def specOf_def comp_def)
  ultimately have "distinct [tr_record_id x, tr_record_id y]" by (metis mset_eq_imp_distinct_iff)
  then show ?thesis by simp
qed

lemma new_row_parses:
  assumes "readableRows audience d rows" "newRowsChecked (mset rows) (mset rows')"
    "rowShapeOK r" "r \<in># mset rows'" "tr_gateway_audience_id r = audience" "tr_destination_id r = de_id d"
    "de_audienceID d = audience" "audience \<noteq> 0" "de_id d \<noteq> 0"
  shows "rowParses audience d r"
proof (cases "r \<in># mset rows")
  case True
  then show ?thesis by (rule readable_old [OF assms(1)])
next
  case False
  with assms(2,4) have "checksPass r" by (auto simp: newRowsChecked_def)
  with assms show ?thesis by (intro row_parses_checked)
qed

lemma commandRows_readable:
  assumes rows: "readableRows audience d rows" and post: "commandRows cmd (mset rows) (mset rows')"
    and new: "newRowsChecked (mset rows) (mset rows')" and ok: "commandInputOK cmd" "commandFit cmd"
    and d: "de_id d = commandDestination cmd" "de_audienceID d = audience" "audience = commandAudience cmd"
      "audience \<noteq> 0" "de_id d \<noteq> 0"
  shows "readableRows audience d rows'"
proof -
  note old = readable_old [OF rows] and distinct = readable_distinct [OF rows]
    and step = new_row_parses [OF rows new _ _ _ _ d(2,4,5)]
  have fit: "1000 \<le> commandNow cmd" "commandKeyOK cmd" using ok(2) by (simp_all add: commandFit_def)
  have mark: "rowParses audience d (markActive (commandNow cmd) r)" if "r \<in># mset rows" "markActive (commandNow cmd) r \<in># mset rows'" for r
    using old [OF that(1)] by (intro step that mark_shape fit) (simp_all add: rowParses_def)
  show ?thesis
  proof (cases cmd)
    case (CreateStaged c now)
    with post have after: "mset rows' = mset [candidateRow c]" by simp
    have "rowParses audience d (candidateRow c)"
      using CreateStaged fit ok(1) d after
      by (intro step) (auto intro!: candidate_shape)
    then show ?thesis
      unfolding readableRows_mset [OF after] using d(2) by (intro readable_one) simp_all
  next
    case (CreateRotationStaged c)
    with post obtain a where a: "mset rows = {#a#}" "tr_token_state a = str ''active''"
      "tr_record_id a \<noteq> sc_recordID (cr_candidate c)" and after: "mset rows' = mset [candidateRow (cr_candidate c), a]"
      by (auto simp: rowIn_def)
    have "rowParses audience d (candidateRow (cr_candidate c))"
      using CreateRotationStaged fit ok(1) d after
      by (intro step) (auto intro!: candidate_shape)
    then show ?thesis
      unfolding readableRows_mset [OF after] using d(2) a old [of a]
      by (intro readable_staged_active) simp_all
  next
    case (ActivateInitial aud dest recordID now)
    with post obtain s where "mset rows = {#s#}" and after: "mset rows' = mset [markActive now s]" by auto
    then show ?thesis
      unfolding readableRows_mset [OF after] using d(2) mark [of s] ActivateInitial
      by (intro readable_one) simp_all
  next
    case (ActivateRotate c)
    with post obtain s a where before: "mset rows = {#s, a#}"
      and after: "mset rows' = mset [markActive (ac_Now c) s, markRetiring (ac_Now c) (ac_OverlapDeadline c) a]" by auto
    have "rowParses audience d (markRetiring (ac_Now c) (ac_OverlapDeadline c) a)"
      using old [of a] before after ActivateRotate fit ok(1)
      by (intro step) (auto intro!: mark_shape simp: rowParses_def After_def)
    then show ?thesis
      unfolding readableRows_mset [OF after] using d(2) mark [of s] ActivateRotate before after distinct [OF before]
      by (intro readable_active_retiring) simp_all
  next
    case (AbortStaged aud dest recordID now)
    then consider "mset rows' = mset []" | s a where "mset rows = {#s, a#}" "tr_token_state a = str ''active''" "mset rows' = mset [a]"
      using post by auto
    then show ?thesis
    proof cases
      case 1
      then show ?thesis by (simp add: readable_none)
    next
      case 2
      then show ?thesis
        unfolding readableRows_mset [OF 2(3)] using d(2) old [of a] by (intro readable_one) simp_all
    qed
  next
    case (RollbackRotate c)
    with post obtain a r where before: "mset rows = {#a, r#}" and after: "mset rows' = mset [markRestored (rb_Now c) r]" by auto
    have "rowParses audience d (markRestored (rb_Now c) r)"
      using old [of r] before after RollbackRotate fit
      by (intro step) (auto intro!: mark_shape simp: rowParses_def)
    then show ?thesis
      unfolding readableRows_mset [OF after] using d(2) by (intro readable_one) simp_all
  next
    case (FinalizeRotate c)
    with post obtain a r where "mset rows = {#a, r#}" "tr_token_state a = str ''active''" and after: "mset rows' = mset [a]"
      by (auto simp: rowIn_def)
    then show ?thesis
      unfolding readableRows_mset [OF after] using d(2) old [of a] by (intro readable_one) simp_all
  qed
qed

subsection \<open>Steps and sequences of steps\<close>

lemma readable_audience:
  assumes "readableDestination a destination now db d" "readableDestination a' destination now' db d'"
  shows "a = a'" "d = d'"
proof -
  from assms obtain row where row: "selectLifecycleDestination destination db = Some row"
    "lifecycleDestinationRecord_destination a destination now (scanDestination row) = Inr d"
    "lifecycleDestinationRecord_destination a' destination now' (scanDestination row) = Inr d'"
    unfolding readableDestination_def by force
  note facts = row(2,3) [unfolded destination_iff]
  from facts show "a = a'" by simp
  with facts show "d = d'" by force
qed

lemma locked_readable:
  "(\<exists>st. lockedStateOf audience destination now db = Some st) \<longleftrightarrow>
     now \<noteq> 0 \<and> (\<exists>d. readableDestination audience destination now db d \<and> readableRows audience d (liveRows destination db))"
  by (auto simp: lockedStateOf_iff)

lemma step_readable:
  assumes "commandStep cmd db = Some db'" "commandFit cmd"
    "readableDestination audience destination now db d" "readableRows audience d (liveRows destination db)"
  shows "readableDestination audience destination now db' d" "readableRows audience d (liveRows destination db')"
proof -
  note post = command_rows [OF assms(1)]
  then have frame: "stepFrame (commandDestination cmd) db db'" by (simp add: commandPost_def)
  with assms(3) show "readableDestination audience destination now db' d"
    by (intro readableDestination_later [OF assms(3)]) (simp_all add: stepFrame_def)
  show "readableRows audience d (liveRows destination db')"
  proof (cases "destination = commandDestination cmd")
    case False
    with frame assms(4) show ?thesis by (simp add: stepFrame_def)
  next
    case True
    show ?thesis
    proof (rule command_unfold [OF assms(1)])
      fix d' assume "commandInputOK cmd" "readableDestination (commandAudience cmd) (commandDestination cmd) (commandNow cmd) db d'"
      with True readable_audience [OF assms(3)] have same: "audience = commandAudience cmd" "commandInputOK cmd"
        by auto
      show ?thesis
        using post assms(2) same readableDestination_facts [OF assms(3)]
        by (intro commandRows_readable [OF assms(4)]) (simp_all add: commandPost_def True)
    qed
  qed
qed

text \<open>A command that fails leaves the tables as they are.\<close>

definition runCommand :: "lifecycle_command \<Rightarrow> gateway_db \<Rightarrow> gateway_db" where
  "runCommand cmd db = (case commandStep cmd db of None \<Rightarrow> db | Some db' \<Rightarrow> db')"

definition runCommands :: "lifecycle_command list \<Rightarrow> gateway_db \<Rightarrow> gateway_db" where
  "runCommands cmds db = fold runCommand cmds db"

lemma runCommands_readable:
  assumes "\<forall>cmd\<in>set cmds. commandFit cmd"
    "readableDestination audience destination now db d" "readableRows audience d (liveRows destination db)"
  shows "readableDestination audience destination now (runCommands cmds db) d \<and>
    readableRows audience d (liveRows destination (runCommands cmds db))"
  using assms
proof (induction cmds arbitrary: db)
  case (Cons cmd cmds)
  have "readableDestination audience destination now (runCommand cmd db) d \<and>
    readableRows audience d (liveRows destination (runCommand cmd db))"
    using Cons.prems step_readable [of cmd db _ audience destination now d]
    by (auto simp: runCommand_def split: option.splits)
  with Cons.IH [of "runCommand cmd db"] Cons.prems(1) show ?case by (simp add: runCommands_def)
qed (simp add: runCommands_def)

text \<open>C3. A destination whose rows can be loaded stays loadable through every sequence of lifecycle
  commands, of whatever destinations and at whatever times: no interleaving of successful and
  failing operations leaves rows that the repository rejects as an integrity failure.\<close>

theorem lifecycle_stays_readable:
  assumes "\<forall>cmd\<in>set cmds. commandFit cmd" "lockedStateOf audience destination now db = Some st" "now \<le> later"
    "later \<noteq> 0"
  shows "\<exists>st'. lockedStateOf audience destination later (runCommands cmds db) = Some st'"
proof -
  from assms(2) obtain d where "readableDestination audience destination now db d"
    "readableRows audience d (liveRows destination db)" by (auto simp: lockedStateOf_iff)
  from runCommands_readable [OF assms(1) this] readableDestination_later [OF _ assms(3)] assms(4)
  show ?thesis unfolding locked_readable by blast
qed

subsection \<open>The rotation machine\<close>

text \<open>The abstract state of a destination: which record is staged, which is active and which is retiring.\<close>

record rotation =
  ro_staged :: "DestinationTokenRecordID option"
  ro_active :: "DestinationTokenRecordID option"
  ro_retiring :: "DestinationTokenRecordID option"

definition recordIn :: "gostring \<Rightarrow> token_row list \<Rightarrow> DestinationTokenRecordID option" where
  "recordIn st rows = map_option tr_record_id (find (\<lambda>r. tr_token_state r = st) rows)"

definition rotationRows :: "token_row list \<Rightarrow> rotation" where
  "rotationRows rows = \<lparr>ro_staged = recordIn (str ''staged'') rows, ro_active = recordIn (str ''active'') rows,
     ro_retiring = recordIn (str ''retiring'') rows\<rparr>"

abbreviation rotationOf :: "DestinationID \<Rightarrow> gateway_db \<Rightarrow> rotation" where
  "rotationOf destination db \<equiv> rotationRows (liveRows destination db)"

inductive rotation_step :: "lifecycle_command \<Rightarrow> rotation \<Rightarrow> rotation \<Rightarrow> bool" where
  stage_initial: "rotation_step (CreateStaged c now) \<lparr>ro_staged = None, ro_active = None, ro_retiring = None\<rparr>
     \<lparr>ro_staged = Some (sc_recordID c), ro_active = None, ro_retiring = None\<rparr>"
| stage_rotation: "a = cr_expectedActiveRecordID c \<Longrightarrow> s = sc_recordID (cr_candidate c) \<Longrightarrow> a \<noteq> s \<Longrightarrow>
     rotation_step (CreateRotationStaged c) \<lparr>ro_staged = None, ro_active = Some a, ro_retiring = None\<rparr>
     \<lparr>ro_staged = Some s, ro_active = Some a, ro_retiring = None\<rparr>"
| activate_initial: "rotation_step (ActivateInitial aud dest s now) \<lparr>ro_staged = Some s, ro_active = None, ro_retiring = None\<rparr>
     \<lparr>ro_staged = None, ro_active = Some s, ro_retiring = None\<rparr>"
| activate_rotation: "s = ac_StagedRecordID c \<Longrightarrow> a = ac_OldActiveRecordID c \<Longrightarrow>
     rotation_step (ActivateRotate c) \<lparr>ro_staged = Some s, ro_active = Some a, ro_retiring = None\<rparr>
     \<lparr>ro_staged = None, ro_active = Some s, ro_retiring = Some a\<rparr>"
| abort_staged: "rotation_step (AbortStaged aud dest s now) \<lparr>ro_staged = Some s, ro_active = a, ro_retiring = None\<rparr>
     \<lparr>ro_staged = None, ro_active = a, ro_retiring = None\<rparr>"
| rollback: "a = rb_NewActiveRecordID c \<Longrightarrow> r = rb_OldRetiringRecordID c \<Longrightarrow>
     rotation_step (RollbackRotate c) \<lparr>ro_staged = None, ro_active = Some a, ro_retiring = Some r\<rparr>
     \<lparr>ro_staged = None, ro_active = Some r, ro_retiring = None\<rparr>"
| finalize: "a = fc_NewActiveRecordID c \<Longrightarrow> r = fc_OldRetiringRecordID c \<Longrightarrow>
     rotation_step (FinalizeRotate c) \<lparr>ro_staged = None, ro_active = Some a, ro_retiring = Some r\<rparr>
     \<lparr>ro_staged = None, ro_active = Some a, ro_retiring = None\<rparr>"

inductive_simps rotation_step_simps:
  "rotation_step (CreateStaged c now) x y" "rotation_step (CreateRotationStaged c) x y"
  "rotation_step (ActivateInitial aud dest s now) x y" "rotation_step (ActivateRotate c) x y"
  "rotation_step (AbortStaged aud dest s now) x y" "rotation_step (RollbackRotate c) x y"
  "rotation_step (FinalizeRotate c) x y"

lemma mset_one: "mset xs = {#x#} \<longleftrightarrow> xs = [x]"
  by simp

lemma mset_two: "mset xs = {#x, y#} \<Longrightarrow> xs = [x, y] \<or> xs = [y, x]"
proof -
  assume xs: "mset xs = {#x, y#}"
  then have "length xs = 2" by (metis size_mset size_add_mset size_empty numeral_2_eq_2)
  then obtain a b where "xs = [a, b]" by (auto simp: length_Suc_conv numeral_2_eq_2)
  with xs show ?thesis by (auto simp: add_eq_conv_ex)
qed

lemma rotation_two:
  assumes "mset rows = {#x, y#}" "tr_token_state x \<noteq> tr_token_state y"
  shows "rotationRows rows = rotationRows [x, y]"
  using mset_two [OF assms(1)] assms(2) by (auto simp: rotationRows_def recordIn_def)

lemma rotation_small:
  "rotationRows [] = \<lparr>ro_staged = None, ro_active = None, ro_retiring = None\<rparr>"
  "tr_token_state r = str ''staged'' \<Longrightarrow>
     rotationRows [r] = \<lparr>ro_staged = Some (tr_record_id r), ro_active = None, ro_retiring = None\<rparr>"
  "tr_token_state r = str ''active'' \<Longrightarrow>
     rotationRows [r] = \<lparr>ro_staged = None, ro_active = Some (tr_record_id r), ro_retiring = None\<rparr>"
  "mset rows = {#x, y#} \<Longrightarrow> tr_token_state x = str ''staged'' \<Longrightarrow> tr_token_state y = str ''active'' \<Longrightarrow>
     rotationRows rows = \<lparr>ro_staged = Some (tr_record_id x), ro_active = Some (tr_record_id y), ro_retiring = None\<rparr>"
  "mset rows = {#x, y#} \<Longrightarrow> tr_token_state x = str ''active'' \<Longrightarrow> tr_token_state y = str ''retiring'' \<Longrightarrow>
     rotationRows rows = \<lparr>ro_staged = None, ro_active = Some (tr_record_id x), ro_retiring = Some (tr_record_id y)\<rparr>"
  by (simp_all only: rotation_two [of rows x y] simp_thms state_texts_distinct)
    (simp_all add: rotationRows_def recordIn_def)

lemma commandRows_rotation:
  assumes "commandRows cmd (mset rows) (mset rows')"
  shows "rotation_step cmd (rotationRows rows) (rotationRows rows')"
proof (cases cmd)
  case (CreateRotationStaged c)
  from assms [unfolded CreateRotationStaged commandRows.simps] obtain a where
    a: "mset rows = {#a#}" "rowIn a (str ''active'') (cr_expectedActiveRecordID c)"
      "tr_record_id a \<noteq> sc_recordID (cr_candidate c)" "mset rows' = {#a, candidateRow (cr_candidate c)#}"
    by blast
  from a(4) have after: "mset rows' = {#candidateRow (cr_candidate c), a#}" by (simp add: add_mset_commute)
  from a(1-3) rotation_small(4) [OF after] show ?thesis
    by (simp add: CreateRotationStaged rowIn_def rotation_small(3) rotation_step_simps)
next
  case (AbortStaged aud dest recordID now)
  from assms [unfolded AbortStaged commandRows.simps] obtain s where s: "rowIn s (str ''staged'') recordID"
    and rows: "mset rows = {#s#} \<and> mset rows' = {#} \<or>
      (\<exists>a. mset rows = {#s, a#} \<and> tr_token_state a = str ''active'' \<and> mset rows' = {#a#})" by blast
  from rows show ?thesis
  proof (elim disjE exE conjE)
    assume "mset rows = {#s#}" "mset rows' = {#}"
    with s show ?thesis by (simp add: AbortStaged rotation_small rotation_step_simps rowIn_def)
  next
    fix a assume before: "mset rows = {#s, a#}" and a: "tr_token_state a = str ''active''" and "mset rows' = {#a#}"
    with s rotation_small(4) [OF before _ a] show ?thesis
      by (simp add: AbortStaged rotation_small(3) rotation_step_simps rowIn_def)
  qed
next
  case (ActivateRotate c)
  from assms [unfolded ActivateRotate commandRows.simps] obtain s a where rows: "mset rows = {#s, a#}" "rowIn s (str ''staged'') (ac_StagedRecordID c)"
    "rowIn a (str ''active'') (ac_OldActiveRecordID c)"
    "mset rows' = {#markActive (ac_Now c) s, markRetiring (ac_Now c) (ac_OverlapDeadline c) a#}" by blast
  then show ?thesis
    using rotation_small(4) [OF rows(1)] rotation_small(5) [OF rows(4)]
    by (simp add: ActivateRotate rotation_step_simps rowIn_def)
next
  case (RollbackRotate c)
  from assms [unfolded RollbackRotate commandRows.simps] obtain a r where rows: "mset rows = {#a, r#}" "rowIn a (str ''active'') (rb_NewActiveRecordID c)"
    "rowIn r (str ''retiring'') (rb_OldRetiringRecordID c)" "mset rows' = {#markRestored (rb_Now c) r#}" by blast
  then show ?thesis
    using rotation_small(5) [OF rows(1)] by (simp add: RollbackRotate rotation_small(3) rotation_step_simps rowIn_def)
next
  case (FinalizeRotate c)
  from assms [unfolded FinalizeRotate commandRows.simps] obtain a r where rows: "mset rows = {#a, r#}" "rowIn a (str ''active'') (fc_NewActiveRecordID c)"
    "rowIn r (str ''retiring'') (fc_OldRetiringRecordID c)" "mset rows' = {#a#}" by blast
  then show ?thesis
    using rotation_small(5) [OF rows(1)] by (simp add: FinalizeRotate rotation_small(3) rotation_step_simps rowIn_def)
next
  case (CreateStaged c now)
  with assms show ?thesis by (simp add: rotation_small(1,2) rotation_step_simps)
next
  case (ActivateInitial aud dest recordID now)
  from assms [unfolded ActivateInitial commandRows.simps] obtain s where
    "mset rows = {#s#}" "rowIn s (str ''staged'') recordID" "mset rows' = {#markActive now s#}" by blast
  then show ?thesis by (simp add: ActivateInitial rowIn_def rotation_small(2,3) rotation_step_simps)
qed

text \<open>A destination with an active token, over any sequence of commands.\<close>

lemma rotation_keeps_active: "rotation_step cmd x y \<Longrightarrow> ro_active x \<noteq> None \<Longrightarrow> ro_active y \<noteq> None"
  by (cases cmd) (auto simp: rotation_step_simps)

lemma runCommand_active:
  assumes "ro_active (rotationOf destination db) \<noteq> None"
  shows "ro_active (rotationOf destination (runCommand cmd db)) \<noteq> None"
proof (cases "commandStep cmd db")
  case (Some db')
  note post = command_rows [OF Some, unfolded commandPost_def]
  show ?thesis
  proof (cases "destination = commandDestination cmd")
    case True
    with post assms Some rotation_keeps_active [OF commandRows_rotation, of cmd "liveRows destination db"] show ?thesis
      by (simp add: runCommand_def)
  next
    case False
    with post assms Some show ?thesis by (simp add: runCommand_def stepFrame_def)
  qed
qed (use assms in \<open>simp add: runCommand_def\<close>)

text \<open>C2. On the identities of a destination's staged, active and retiring records a successful command
  is the transition of the rotation machine with that name: staging needs an empty slot,
  activation promotes the staged record and retires the old active one, rollback restores the
  retiring record, finalization drops it and an abort drops the staged one. The records of
  every other destination and the destination table are the same before and after.\<close>

theorem lifecycle_refines_rotation:
  assumes "commandStep cmd db = Some db'"
  shows "rotation_step cmd (rotationOf (commandDestination cmd) db) (rotationOf (commandDestination cmd) db') \<and>
    (\<forall>other. other \<noteq> commandDestination cmd \<longrightarrow> liveRows other db' = liveRows other db) \<and>
    db_destinations db' = db_destinations db"
  using command_rows [OF assms] commandRows_rotation
  unfolding commandPost_def stepFrame_def by blast

text \<open>C4. A destination that has an active token has one after every sequence of lifecycle commands,
  successful or not: no rotation, rollback, abort or finalization leaves it without a token
  that authenticates deliveries.\<close>

theorem lifecycle_never_loses_active:
  assumes "ro_active (rotationOf destination db) \<noteq> None"
  shows "ro_active (rotationOf destination (runCommands cmds db)) \<noteq> None"
  using assms
proof (induction cmds arbitrary: db)
  case (Cons cmd cmds)
  show ?case using Cons.IH [OF runCommand_active [OF Cons.prems]] by (simp add: runCommands_def)
qed (simp add: runCommands_def)

subsection \<open>A concrete destination\<close>

definition sampleDb :: gateway_db where
  "sampleDb = \<lparr>db_destinations = [\<lparr>dr_destination_id = 2, dr_gateway_audience_id = 1,
       dr_destination_state = str ''enabled'', dr_created_at = Stamp 1, dr_state_changed_at = Stamp 1\<rparr>],
     db_tokens = []\<rparr>"

definition sampleCandidate :: StagedTokenCandidate where
  "sampleCandidate = \<lparr>sc_audienceID = 1, sc_destination = 2, sc_recordID = 3,
     sc_verifier = \<lparr>tv_bytes = 4, tv_present = True\<rparr>, sc_verifierKeyID = str ''k'',
     sc_createdAt = 5000, sc_expiresAt = 90000, sc_stagedCleanupDeadline = 50000\<rparr>"

definition sampleCreate :: lifecycle_command where
  "sampleCreate = CreateStaged sampleCandidate 5000"

definition sampleActivate :: lifecycle_command where
  "sampleActivate = ActivateInitial 1 2 3 6000"

definition stagedDb :: gateway_db where
  "stagedDb = sampleDb\<lparr>db_tokens := [candidateRow sampleCandidate]\<rparr>"

lemma sample_fit: "commandFit sampleCreate" "commandFit sampleActivate"
proof -
  have "validKeyID (str ''k'')" by code_simp
  then show "commandFit sampleCreate" "commandFit sampleActivate"
    by (simp_all add: commandFit_def sampleCreate_def sampleActivate_def sampleCandidate_def)
qed

lemma sample_destination: "5000 \<le> now \<Longrightarrow> db_destinations db = db_destinations sampleDb \<Longrightarrow>
   readableDestination 1 2 now db sampleDestination"
  by (simp add: readableDestination_def selectLifecycleDestination_def sampleDb_def destination_iff
      NewDestination_iff destinationState_def sampleDestination_def)

lemma sample_empty: "liveRows 2 sampleDb = []"
  by (simp add: sampleDb_def liveRows_def)

lemma sample_locked: "lockedStateOf 1 2 5000 sampleDb = Some (stateAt sampleDestination 2 sampleDb 5000)"
  unfolding lockedStateOf_iff
  using sample_destination [of 5000 sampleDb] readable_none [of 1 sampleDestination]
  by (simp add: stateAt_def sample_empty exI [of _ sampleDestination])

lemma sample_insert: "stepOne (insertStatement sampleCandidate) sampleDb = Some stagedDb"
  by code_simp

lemma sample_fields: "sc_audienceID sampleCandidate = 1" "sc_destination sampleCandidate = 2"
  by (simp_all add: sampleCandidate_def)

lemma sample_created: "commandStep sampleCreate sampleDb = Some stagedDb"
proof -
  have "revalidateCandidate sampleCandidate = Inr sampleCandidate" "sc_createdAt sampleCandidate = 5000"
    by code_simp+
  then have "commandInputOK sampleCreate" by (simp add: sampleCreate_def)
  moreover have "createStagedGuard (stateAt sampleDestination 2 sampleDb 5000) = None"
    by code_simp
  ultimately show ?thesis
    using sample_locked sample_insert
    by (simp add: commandStep_def sampleCreate_def commandEffect_def sample_fields)
qed

definition activeDb :: gateway_db where
  "activeDb = sampleDb\<lparr>db_tokens := [markActive 6000 (candidateRow sampleCandidate)]\<rparr>"

lemma sample_activated: "commandStep sampleActivate stagedDb = Some activeDb"
  by code_simp

theorem lifecycle_stays_readable_witness:
  "\<exists>st. lockedStateOf 1 2 9000 (runCommands [sampleCreate, sampleActivate] sampleDb) = Some st"
  using lifecycle_stays_readable [of "[sampleCreate, sampleActivate]" 1 2 5000 sampleDb _ 9000]
    sample_fit sample_locked by simp

theorem lifecycle_refines_rotation_witness:
  "commandStep sampleActivate stagedDb = Some activeDb \<and>
   rotation_step sampleActivate (rotationOf 2 stagedDb) (rotationOf 2 activeDb) \<and> liveRows 7 activeDb = liveRows 7 stagedDb"
  using lifecycle_refines_rotation [OF sample_activated] sample_activated by (simp add: sampleActivate_def)

theorem lifecycle_never_loses_active_witness:
  "ro_active (rotationOf 2 activeDb) = Some 3 \<and>
   ro_active (rotationOf 2 (runCommands [sampleCreate, AbortStaged 1 2 3 7000] activeDb)) \<noteq> None"
proof -
  have active: "ro_active (rotationOf 2 activeDb) = Some 3" by code_simp
  then show ?thesis using lifecycle_never_loses_active [of 2 activeDb] by simp
qed

end
