(* ===== verification/Lifecycle_Progress.thy ===== *)
theory Lifecycle_Progress
  imports Lifecycle_Safety
begin

section \<open>Operations that succeed\<close>

text \<open>
  The refinement of \<open>Lifecycle_Transitions\<close> says what an operation may report. With a driver that
  answers every call and a context that is not cancelled, an operation whose step is enabled
  reports success, commits exactly that step and releases its connection.
\<close>

lemma read_tokens_calm:
  assumes "calm s" "\<forall>r\<in>set rows. rowParses audience d r" "length tokens + length rows \<le> 3"
  shows "after (read_lifecycle_tokens timeout audience d rows tokens) s Q = Q (Inr (tokens @ map (specOf d) rows)) s"
  using assms(2,3)
proof (induction rows arbitrary: tokens)
  case (Cons r rows)
  then have "lifecycleTokenRecord_token audience d (scanToken r) = Inr (specOf d r)" "length tokens \<noteq> 3"
    by (simp_all add: token_parses)
  with Cons show ?case by (simp add: after_simps calm_after [OF assms(1)])
qed (simp add: after_simps calm_after [OF assms(1)])

lemma load_calm:
  assumes "calm s" "lockedStateOf audience destination now (tx_view s) = Some st"
  shows "after (loadDestinationLifecycleState timeout audience destination now lock) s Q = Q (Inr st) s"
proof -
  from assms(2) obtain row d sn where
    "selectLifecycleDestination destination (tx_view s) = Some row"
    "lifecycleDestinationRecord_destination audience destination now (scanDestination row) = Inr d"
    and rows: "length (selectLifecycleTokens destination (tx_view s)) \<le> 3"
      "\<forall>r\<in>set (selectLifecycleTokens destination (tx_view s)). rowParses audience d r"
    and "NewDestinationLifecycleSnapshot d (map (specOf d) (selectLifecycleTokens destination (tx_view s))) now = Inr sn"
      "st = \<lparr>ls_destination = d, ls_snapshot = sn\<rparr>"
    by (auto simp: lockedStateOf_def Let_def split: option.splits sum.splits if_splits)
  then show ?thesis
    unfolding loadDestinationLifecycleState_def lock_statements Let_def
    by (simp add: after_simps calm_after [OF assms(1)] read_tokens_calm [OF assms(1) rows(2), of "[]"])
qed

lemma exec_calm:
  assumes "calm s" "stepOne statement (tx_view s) = Some d"
  shows "after (exec_one_row timeout statement) s Q = Q None (s\<lparr>s_tx := Some d\<rparr>)"
  using assms(2)
  by (auto simp: exec_one_row_def stepOne_def after_simps calm_after [OF assms(1)] lifecycleRowsAffected_def
      split: sum.splits if_splits)

definition mutationCompletes ::
  "lifecycleMutation \<Rightarrow> (lifecycleLockedState \<Rightarrow> gateway_db \<Rightarrow> gateway_db option) \<Rightarrow> bool" where
  "mutationCompletes m eff = (\<forall>st s d Q. calm s \<longrightarrow> eff st (tx_view s) = Some d \<longrightarrow>
     after (m st) s Q = Q (None, True) (s\<lparr>s_tx := Some d\<rparr>))"

lemma tx_view_set [simp]: "tx_view (s\<lparr>s_tx := Some d\<rparr>) = d" "s_tx s = None \<Longrightarrow> tx_view s = s_db s"
  by (simp_all add: tx_view_def)

lemma command_mutations_complete:
  "mutationCompletes (createStagedMutation timeout c) (commandEffect (CreateStaged c now))"
  "mutationCompletes (createRotationStagedMutation timeout (cr_candidate rc) (cr_expectedActiveRecordID rc))
     (commandEffect (CreateRotationStaged rc))"
  "mutationCompletes (activateInitialMutation timeout a d r now) (commandEffect (ActivateInitial a d r now))"
  "mutationCompletes (activateRotationMutation timeout ac) (commandEffect (ActivateRotate ac))"
  "mutationCompletes (abortStagedMutation timeout a d r now) (commandEffect (AbortStaged a d r now))"
  "mutationCompletes (rollbackRotationMutation timeout rb) (commandEffect (RollbackRotate rb))"
  "mutationCompletes (finalizeRotationMutation timeout fc) (commandEffect (FinalizeRotate fc))"
  unfolding mutationCompletes_def mutation_defs
  by (auto simp: commandEffect_def insertStatement_def after_simps exec_calm
      split: if_splits option.splits)

lemma run_calm:
  assumes "mutationCompletes m eff" "calm s" "s_tx s = None" "guardedStep audience destination now eff (s_db s) = Some d"
  shows "after (runLifecycleMutation timeout (NewDestinationTokenLifecycleRepository False) CallContext
      audience destination now (Some m)) s
    (\<lambda>err s'. err = None \<and> s' = s\<lparr>s_db := d, s_log := s_log s @ [Acquired, Released]\<rparr>)"
proof -
  from assms(4) obtain st where st: "audience \<noteq> 0" "destination \<noteq> 0" "now \<noteq> 0"
    "lockedStateOf audience destination now (s_db s) = Some st" "eff st (s_db s) = Some d"
    by (auto simp: guardedStep_def lockedEffect_def split: if_splits option.splits)
  have complete: "calm s' \<Longrightarrow> eff st' (tx_view s') = Some d' \<Longrightarrow>
      after (m st') s' Q = Q (None, True) (s'\<lparr>s_tx := Some d'\<rparr>)" for st' s' d' Q
    using assms(1) by (simp add: mutationCompletes_def)
  show ?thesis
    using assms(2,3) st
    by (simp add: runLifecycleMutation_def validateLifecycleRepositoryInput_def lifecycleRepositoryCancellation_def
        NewDestinationTokenLifecycleRepository_def destinationTokenLifecycleRollbackTimeout_def duration_defs IsZero_def
        lifecycle_acquire_def lifecycle_mutation_connection_def lifecycle_mutation_transaction_def
        lifecycle_mutation_cleanup_def connection_Release_def record_event_def
        after_simps calm_after load_calm complete)
qed

subsection \<open>The seven operations\<close>

definition sampleSession :: "driver_answer list \<Rightarrow> gateway_db \<Rightarrow> gateway_db session" where
  "sampleSession script db = \<lparr>s_db = db, s_tx = None, s_script = script, s_polls = [], s_log = []\<rparr>"

text \<open>C1. Every lifecycle operation refines its step whatever the driver answers: a reported success
  means that exactly the step was committed, a reported failure means that nothing was
  committed, except that an outcome-unknown error leaves either possible. No transaction stays
  open, the connection is released or destroyed exactly once, and the error carries no more
  than a fixed kind and a fixed text. The hypothesis is the documented meaning of the driver's
  commit-rollback error.\<close>

theorem lifecycle_operation_refines:
  assumes "driver_honest s" "s_tx s = None" "run_state (commandRun timeout repository ctx cmd) s = (err, s')"
  shows "lifecycleOutcome (s_db s) (commandStep cmd (s_db s)) err (s_db s') \<and> s_tx s' = None \<and>
    connectionSettled (s_log s) (s_log s')"
  using command_after [OF assms(1,2), of timeout repository ctx cmd] assms(3)
  by (simp add: after_def mutationPost_def)

theorem lifecycle_operation_refines_witness:
  "\<exists>err s'. run_state (commandRun (\<lambda>_. False) (NewDestinationTokenLifecycleRepository False) CallContext sampleCreate)
       (sampleSession [Answered, Answered, Lost (Sentinel (Pgx ErrNoRows))] sampleDb) = (err, s') \<and>
     lifecycleOutcome sampleDb (commandStep sampleCreate sampleDb) err (s_db s') \<and> s_tx s' = None \<and>
     connectionSettled [] (s_log s')"
proof -
  let ?s = "sampleSession [Answered, Answered, Lost (Sentinel (Pgx ErrNoRows))] sampleDb"
  have honest: "driver_honest ?s" and closed: "s_tx ?s = None" and fields: "s_db ?s = sampleDb" "s_log ?s = []"
    by (simp_all add: driver_honest_def sampleSession_def)
  show ?thesis
    using lifecycle_operation_refines [OF honest closed] unfolding fields by (metis surj_pair)
qed

text \<open>C5. When the step of a command is enabled, the driver answers every call and the context is live,
  the operation of the command reports success, commits exactly the step and releases the one
  connection it acquired.\<close>

theorem lifecycle_operation_succeeds:
  assumes "calm s" "s_tx s = None" "commandStep cmd (s_db s) = Some d"
  shows "run_state (commandRun timeout (NewDestinationTokenLifecycleRepository False) CallContext cmd) s =
    (None, s\<lparr>s_db := d, s_log := s_log s @ [Acquired, Released]\<rparr>)"
proof -
  from assms(3) have ok: "commandInputOK cmd" by (simp add: commandStep_def split: if_splits)
  from assms(3) have step: "guardedStep (commandAudience cmd) (commandDestination cmd) (commandNow cmd) (commandEffect cmd) (s_db s) = Some d"
    by (simp add: guardedStep_command [OF ok])
  then have "commandNow cmd \<noteq> 0" by (auto simp: guardedStep_def split: if_splits)
  with ok step have "after (commandRun timeout (NewDestinationTokenLifecycleRepository False) CallContext cmd) s
    (\<lambda>err s'. err = None \<and> s' = s\<lparr>s_db := d, s_log := s_log s @ [Acquired, Released]\<rparr>)"
    by (cases cmd)
      (auto simp: CreateStagedToken_def CreateRotationStagedToken_def NewCreateRotationStagedTokenCommand_def
        ActivateInitialToken_def ActivateRotation_def AbortStagedToken_def RollbackRotation_def
        FinalizeRotation_def IsZero_def Let_def
        intro!: run_calm [OF command_mutations_complete(1) assms(1,2)] run_calm [OF command_mutations_complete(2) assms(1,2)]
          run_calm [OF command_mutations_complete(3) assms(1,2)] run_calm [OF command_mutations_complete(4) assms(1,2)]
          run_calm [OF command_mutations_complete(5) assms(1,2)] run_calm [OF command_mutations_complete(6) assms(1,2)]
          run_calm [OF command_mutations_complete(7) assms(1,2)])
  then show ?thesis by (auto simp: after_def)
qed

theorem lifecycle_operation_succeeds_witness:
  "run_state (commandRun (\<lambda>_. False) (NewDestinationTokenLifecycleRepository False) CallContext sampleActivate)
     (sampleSession [] stagedDb) =
   (None, sampleSession [] activeDb\<lparr>s_log := [Acquired, Released]\<rparr>)"
proof -
  have calm: "calm (sampleSession [] stagedDb)" and closed: "s_tx (sampleSession [] stagedDb) = None"
    and step: "commandStep sampleActivate (s_db (sampleSession [] stagedDb)) = Some activeDb"
    by (simp_all add: sampleSession_def calm_def answering_def sample_activated)
  show ?thesis
    using lifecycle_operation_succeeds [OF calm closed step] by (simp add: sampleSession_def)
qed

end
