(* ===== verification/Lifecycle_Inspection.thy ===== *)
theory Lifecycle_Inspection
  imports Lifecycle_Progress
begin

section \<open>Inspections of the token lifecycle\<close>

text \<open>
  The two read-only operations of \<^verbatim>\<open>DestinationTokenLifecycleRepository\<close>: the lifecycle snapshot
  of a destination, and the snapshot of one rotation attempt with the rows of its two
  records. Both open a repeatable-read transaction; the shared part, from acquiring the
  connection to releasing it, is \<open>lifecycle_inspection\<close>, with the texts the two operations put
  into their errors as arguments.
\<close>

subsection \<open>The causes of a failed read\<close>

text \<open>\<^verbatim>\<open>lifecycleSameDirectReadCause\<close>: the two errors are one object of a type that neither unwraps nor
  matches other errors. The driver reports a failure of a result set as one object, so
  equal leaves are the same object.\<close>

definition directCause :: "go_error \<Rightarrow> bool" where
  "directCause e =
     (case e of
        Sentinel s \<Rightarrow> errors_Unwrap e = None
      | PgError code constraint \<Rightarrow> True
      | Leaf n net \<Rightarrow> True
      | _ \<Rightarrow> False)"

definition lifecycleSameDirectReadCause :: "go_error \<Rightarrow> go_error \<Rightarrow> bool" where
  "lifecycleSameDirectReadCause primary terminal =
     (if nilInterface_error primary \<or> nilInterface_error terminal then False
      else if \<not> directCause primary \<or> \<not> directCause terminal then False
      else primary = terminal)"

definition lifecycleCombinedReadCause :: "go_error option \<Rightarrow> go_error option \<Rightarrow> go_error option" where
  "lifecycleCombinedReadCause primary terminal =
     (case (primary, terminal) of
        (None, _) \<Rightarrow> terminal
      | (Some p, None) \<Rightarrow> Some p
      | (Some p, Some t) \<Rightarrow> if lifecycleSameDirectReadCause p t then Some p else Some (Joined [p, t]))"

subsection \<open>The shared part\<close>

text \<open>An inspection body ends with a result, and the flags \<^verbatim>\<open>transactionOpen\<close> and \<^verbatim>\<open>release\<close>.\<close>

type_synonym 'a inspectionBody = "(gateway_db session, 'a result \<times> bool \<times> bool) state"

definition inspection_rollback :: "(go_error \<Rightarrow> bool) \<Rightarrow> go_error \<Rightarrow> 'a inspectionBody" where
  "inspection_rollback timeout cause = do {
     (err, transactionOpen, release) \<leftarrow> lifecycleRollbackRead timeout cause;
     State_Monad.return (Inl err, transactionOpen, release) }"

definition inspection_commit :: "string \<Rightarrow> 'a \<Rightarrow> 'a inspectionBody" where
  "inspection_commit operation value = do {
     commitErr \<leftarrow> tx_Commit;
     case commitErr of
       Some err \<Rightarrow> do {
         connection_Destroy;
         State_Monad.return (Inl (lifecycleConnectionError err operation), False, False) }
     | None \<Rightarrow> State_Monad.return (Inr value, False, True) }"

definition inspection_cleanup ::
  "string \<Rightarrow> 'a result \<times> bool \<times> bool \<Rightarrow> (gateway_db session, 'a result \<times> bool) state" where
  "inspection_cleanup operation outcome =
     (case outcome of (result, transactionOpen, release) \<Rightarrow>
        if \<not> transactionOpen then State_Monad.return (result, release)
        else do {
          rollbackErr \<leftarrow> tx_Rollback;
          case rollbackErr of
            None \<Rightarrow> State_Monad.return (result, release)
          | Some _ \<Rightarrow> do {
              connection_Destroy;
              State_Monad.return
                (Inl (lifecycleRepositoryError ErrDestinationLifecycleUnavailable operation), False) } })"

definition inspection_transaction ::
  "(go_error \<Rightarrow> bool) \<Rightarrow> string \<Rightarrow> string \<Rightarrow> 'a inspectionBody \<Rightarrow> (gateway_db session, 'a result \<times> bool) state" where
  "inspection_transaction timeout beginText cleanupText body = do {
     (transaction, err) \<leftarrow> connection_Begin;
     case err of
       Some e \<Rightarrow>
         if lifecycleUnsafeOrConnectionInterruption timeout e
         then do {
           connection_Destroy;
           State_Monad.return (Inl (lifecycleConnectionError e beginText), False) }
         else State_Monad.return (Inl (lifecycleConnectionError e beginText), True)
     | None \<Rightarrow>
         if \<not> transaction
         then do {
           connection_Destroy;
           State_Monad.return
             (Inl (lifecycleRepositoryError ErrDestinationLifecycleUnavailable beginText), False) }
         else do {
           outcome \<leftarrow> body;
           inspection_cleanup cleanupText outcome } }"

definition lifecycle_inspection ::
  "(go_error \<Rightarrow> bool) \<Rightarrow> string \<Rightarrow> string \<Rightarrow> string \<Rightarrow> 'a inspectionBody \<Rightarrow> (gateway_db session, 'a result) state" where
  "lifecycle_inspection timeout connectionText beginText cleanupText body = do {
     (connection, err) \<leftarrow> lifecycle_acquire;
     case err of
       Some e \<Rightarrow> do {
         (if connection then connection_Destroy else State_Monad.return ());
         State_Monad.return (Inl (lifecycleConnectionError e connectionText)) }
     | None \<Rightarrow>
         if \<not> connection
         then State_Monad.return
           (Inl (lifecycleRepositoryError ErrDestinationLifecycleUnavailable connectionText))
         else do {
           (result, release) \<leftarrow> inspection_transaction timeout beginText cleanupText body;
           (if release then connection_Release else State_Monad.return ());
           State_Monad.return result } }"

subsection \<open>The snapshot of a destination\<close>

definition inspect_lifecycle_body ::
  "(go_error \<Rightarrow> bool) \<Rightarrow> GatewayAudienceID \<Rightarrow> DestinationID \<Rightarrow> time \<Rightarrow> DestinationLifecycleSnapshot inspectionBody" where
  "inspect_lifecycle_body timeout audience destination now = do {
     loaded \<leftarrow> loadDestinationLifecycleState timeout audience destination now False;
     case loaded of
       Inl err \<Rightarrow> inspection_rollback timeout err
     | Inr st \<Rightarrow> inspection_commit ''lifecycle inspection commit'' (ls_snapshot st) }"

definition InspectLifecycleState ::
  "(go_error \<Rightarrow> bool) \<Rightarrow> lifecycleRepository option \<Rightarrow> go_context \<Rightarrow> GatewayAudienceID \<Rightarrow> DestinationID \<Rightarrow> time \<Rightarrow>
   (gateway_db session, DestinationLifecycleSnapshot result) state" where
  "InspectLifecycleState timeout repository ctx audience destination now = do {
     inputErr \<leftarrow> validateLifecycleRepositoryInput repository ctx audience destination now;
     case inputErr of
       Some e \<Rightarrow> State_Monad.return (Inl e)
     | None \<Rightarrow> lifecycle_inspection timeout ''lifecycle inspection connection'' ''lifecycle inspection begin''
         ''lifecycle inspection cleanup'' (inspect_lifecycle_body timeout audience destination now) }"

subsection \<open>The snapshot of a rotation attempt\<close>

text \<open>The values the loop over the rows leaves: \<^verbatim>\<open>err\<close>, \<^verbatim>\<open>readErr\<close>, the two tokens (\<open>None\<close> is the zero
  value), \<^verbatim>\<open>seen\<close>, and \<^verbatim>\<open>rows.Err()\<close> after the rows are closed.\<close>

record attemptRead =
  ar_err :: "go_error option"
  ar_readErr :: "go_error option"
  ar_newToken :: "DestinationTokenSpec option"
  ar_oldToken :: "DestinationTokenSpec option"
  ar_seen :: nat
  ar_rowsErr :: "go_error option"

definition tokenSet :: "DestinationTokenSpec option \<Rightarrow> bool" where
  "tokenSet token = (case token of None \<Rightarrow> False | Some t \<Rightarrow> ts_RecordID t \<noteq> 0)"

definition attempt_close ::
  "go_error option \<Rightarrow> go_error option \<Rightarrow> DestinationTokenSpec option \<Rightarrow> DestinationTokenSpec option \<Rightarrow> nat \<Rightarrow>
   ('db session, attemptRead) state" where
  "attempt_close err readErr newToken oldToken seen = do {
     rowsErr \<leftarrow> rows_error;
     State_Monad.return \<lparr>ar_err = err, ar_readErr = readErr, ar_newToken = newToken,
       ar_oldToken = oldToken, ar_seen = seen, ar_rowsErr = rowsErr\<rparr> }"

fun read_attempt_rows ::
  "(go_error \<Rightarrow> bool) \<Rightarrow> GatewayAudienceID \<Rightarrow> Destination \<Rightarrow> DestinationTokenRecordID \<Rightarrow>
   DestinationTokenRecordID \<Rightarrow> token_row list \<Rightarrow> DestinationTokenSpec option \<Rightarrow> DestinationTokenSpec option \<Rightarrow> nat \<Rightarrow>
   ('db session, attemptRead) state" where
  "read_attempt_rows timeout audience d newID oldID [] newToken oldToken seen =
     attempt_close None None newToken oldToken seen"
| "read_attempt_rows timeout audience d newID oldID (row # rows) newToken oldToken seen = do {
     nextErr \<leftarrow> rows_error;
     case nextErr of
       Some e \<Rightarrow> State_Monad.return \<lparr>ar_err = None, ar_readErr = None, ar_newToken = newToken,
         ar_oldToken = oldToken, ar_seen = seen, ar_rowsErr = Some e\<rparr>
     | None \<Rightarrow>
         if seen = 2
         then attempt_close (Some (stateErr ErrDestinationLifecycleReconciliation)) None newToken oldToken seen
         else do {
           scanErr \<leftarrow> rows_error;
           case scanErr of
             Some e \<Rightarrow>
               if lifecycleUnsafeOrConnectionInterruption timeout e \<or> errorCancellation e \<noteq> None
               then attempt_close None (Some e) newToken oldToken seen
               else attempt_close (Some (stateErr ErrDestinationLifecycleReconciliation)) None newToken oldToken seen
           | None \<Rightarrow>
               (case lifecycleTokenRecord_token audience d (scanToken row) of
                  Inl _ \<Rightarrow>
                    attempt_close (Some (stateErr ErrDestinationLifecycleReconciliation)) None newToken oldToken seen
                | Inr token \<Rightarrow>
                    if ts_RecordID token = newID \<and> \<not> tokenSet newToken
                    then read_attempt_rows timeout audience d newID oldID rows (Some token) oldToken (Suc seen)
                    else if ts_RecordID token \<noteq> newID \<and> ts_RecordID token = oldID \<and> \<not> tokenSet oldToken
                    then read_attempt_rows timeout audience d newID oldID rows newToken (Some token) (Suc seen)
                    else attempt_close (Some (stateErr ErrDestinationLifecycleReconciliation)) None newToken oldToken seen) } }"

text \<open>The error after the rows are closed.\<close>

definition attemptReadCause :: "attemptRead \<Rightarrow> go_error option" where
  "attemptReadCause r =
     (case ar_rowsErr r of
        None \<Rightarrow> ar_readErr r
      | Some rowsErr \<Rightarrow>
          (case (ar_readErr r, ar_err r) of
             (Some readErr, _) \<Rightarrow> lifecycleCombinedReadCause (Some readErr) (Some rowsErr)
           | (None, Some err) \<Rightarrow> Some (Joined [err, rowsErr])
           | (None, None) \<Rightarrow> Some rowsErr))"

definition attemptReadError :: "(go_error \<Rightarrow> bool) \<Rightarrow> attemptRead \<Rightarrow> go_error option" where
  "attemptReadError timeout r =
     (case attemptReadCause r of
        Some cause \<Rightarrow> Some (lifecycleReadError timeout cause)
      | None \<Rightarrow>
          (case ar_err r of
             Some e \<Rightarrow> Some e
           | None \<Rightarrow>
               if ar_seen r \<noteq> 2 \<or> \<not> tokenSet (ar_newToken r) \<or> \<not> tokenSet (ar_oldToken r)
               then Some (stateErr ErrDestinationLifecycleConflict) else None))"

definition inspect_attempt_rows ::
  "(go_error \<Rightarrow> bool) \<Rightarrow> lifecycleLockedState \<Rightarrow> GatewayAudienceID \<Rightarrow> DestinationTokenRecordID \<Rightarrow>
   DestinationTokenRecordID \<Rightarrow> time \<Rightarrow> token_row list \<Rightarrow> DestinationTokenRotationAttemptSnapshot inspectionBody" where
  "inspect_attempt_rows timeout st audience newID oldID now rows = do {
     read \<leftarrow> read_attempt_rows timeout audience (ls_destination st) newID oldID rows None None 0;
     case (attemptReadError timeout read, ar_newToken read, ar_oldToken read) of
       (None, Some newToken, Some oldToken) \<Rightarrow>
         (case NewDestinationTokenRotationAttemptSnapshot (ls_snapshot st) newToken oldToken newID oldID now of
            Inl err \<Rightarrow> inspection_rollback timeout err
          | Inr result \<Rightarrow> inspection_commit ''rotation attempt inspection commit'' result)
     | (Some err, _, _) \<Rightarrow> inspection_rollback timeout err
     | (None, _, _) \<Rightarrow> inspection_rollback timeout (stateErr ErrDestinationLifecycleConflict) }"

definition inspect_attempt_body ::
  "(go_error \<Rightarrow> bool) \<Rightarrow> GatewayAudienceID \<Rightarrow> DestinationID \<Rightarrow> DestinationTokenRecordID \<Rightarrow>
   DestinationTokenRecordID \<Rightarrow> time \<Rightarrow> DestinationTokenRotationAttemptSnapshot inspectionBody" where
  "inspect_attempt_body timeout audience destination newID oldID now = do {
     loaded \<leftarrow> loadDestinationLifecycleState timeout audience destination now False;
     case loaded of
       Inl err \<Rightarrow> inspection_rollback timeout err
     | Inr st \<Rightarrow> do {
         (rows, err) \<leftarrow> tx_Query (inspectRotationAttemptTokensSQL audience destination newID oldID);
         case (err, rows) of
           (None, Some rs) \<Rightarrow> inspect_attempt_rows timeout st audience newID oldID now rs
         | (None, None) \<Rightarrow> inspection_rollback timeout
             (LifecycleInternalError (stateErr ErrDestinationLifecycleUnavailable) True)
         | (Some e, None) \<Rightarrow> inspection_rollback timeout (lifecycleReadError timeout e)
         | (Some e, Some rs) \<Rightarrow> do {
             rowsErr \<leftarrow> rows_error;
             inspection_rollback timeout
               (case lifecycleCombinedReadCause (Some e) rowsErr of
                  Some cause \<Rightarrow> lifecycleReadError timeout cause
                | None \<Rightarrow> LifecycleInternalError (stateErr ErrDestinationLifecycleUnavailable) True) } } }"

definition InspectRotationAttempt ::
  "(go_error \<Rightarrow> bool) \<Rightarrow> lifecycleRepository option \<Rightarrow> go_context \<Rightarrow> GatewayAudienceID \<Rightarrow> DestinationID \<Rightarrow>
   DestinationTokenRecordID \<Rightarrow> DestinationTokenRecordID \<Rightarrow> time \<Rightarrow>
   (gateway_db session, DestinationTokenRotationAttemptSnapshot result) state" where
  "InspectRotationAttempt timeout repository ctx audience destination newActiveRecordID oldRetiringRecordID now = do {
     inputErr \<leftarrow> validateLifecycleRepositoryInput repository ctx audience destination now;
     case inputErr of
       Some e \<Rightarrow> State_Monad.return (Inl e)
     | None \<Rightarrow>
         if newActiveRecordID = 0 \<or> oldRetiringRecordID = 0 \<or> newActiveRecordID = oldRetiringRecordID
         then State_Monad.return
           (Inl (lifecycleRepositoryError ErrDestinationLifecycleInvalid ''rotation attempt inspection input''))
         else lifecycle_inspection timeout ''rotation attempt inspection connection''
           ''rotation attempt inspection begin'' ''rotation attempt inspection cleanup''
           (inspect_attempt_body timeout audience destination newActiveRecordID oldRetiringRecordID now) }"

subsection \<open>What an inspection returns\<close>

text \<open>The end of a body: the transaction is over and the tables are as they were; an error is one of
  the repository's own, a value satisfies \<open>P\<close>.\<close>

definition bodyPost :: "gateway_db session \<Rightarrow> ('a \<Rightarrow> bool) \<Rightarrow> 'a result \<times> bool \<times> bool \<Rightarrow> gateway_db session \<Rightarrow> bool" where
  "bodyPost s P outcome s' =
     (case outcome of (result, isOpen, release) \<Rightarrow>
        moved s (s_db s) None (if release then [] else [Destroyed]) s' \<and> \<not> isOpen \<and>
        (case result of Inl e \<Rightarrow> safeLifecycleError e | Inr v \<Rightarrow> P v))"

definition inspectionPost :: "gateway_db session \<Rightarrow> ('a \<Rightarrow> bool) \<Rightarrow> 'a result \<Rightarrow> gateway_db session \<Rightarrow> bool" where
  "inspectionPost s P result s' =
     (s_db s' = s_db s \<and> s_tx s' = None \<and> set (s_script s') \<subseteq> set (s_script s) \<and> connectionSettled (s_log s) (s_log s') \<and>
      (case result of Inl e \<Rightarrow> safeLifecycleError e | Inr v \<Rightarrow> P v))"

lemma inspection_rollback_after: "after (inspection_rollback timeout cause) s (bodyPost s P)"
  unfolding inspection_rollback_def lifecycleRollbackRead_def
  by (intro after_intro tx_Rollback_after connection_end_after)
    (auto simp: session_frame bodyPost_def lifecycle_failures_safe lifecycleKinds_def intro!: safeLifecycleErrorI)

lemma inspection_commit_after:
  "tx_view s = s_db s \<Longrightarrow> P v \<Longrightarrow> after (inspection_commit operation v) s (bodyPost s P)"
  unfolding inspection_commit_def
  by (intro after_intro tx_Commit_after connection_end_after)
    (auto simp: session_frame bodyPost_def lifecycleConnectionError_safe)

lemma bodyPost_same: "same_data s s1 \<Longrightarrow> bodyPost s1 P x s' \<Longrightarrow> bodyPost s P x s'"
  by (auto simp: bodyPost_def session_frame split: prod.splits)

lemma lifecycle_inspection_after:
  assumes "s_tx s = None" "\<And>s1. moved s (s_db s) (Some (s_db s)) [Acquired] s1 \<Longrightarrow> after body s1 (bodyPost s1 P)"
  shows "after (lifecycle_inspection timeout connectionText beginText cleanupText body) s (inspectionPost s P)"
  unfolding lifecycle_inspection_def inspection_transaction_def inspection_cleanup_def
  by (intro after_intro after_mono [OF acquire_after] connection_Begin_after connection_end_after tx_Rollback_after
      after_mono [OF assms(2)];
      use assms(1) in \<open>auto simp: session_frame bodyPost_def inspectionPost_def connectionSettled_def
        lifecycleConnectionError_safe lifecycleKinds_def intro!: safeLifecycleErrorI split: if_splits\<close>)

lemma inspect_lifecycle_body_after:
  assumes "s_tx s = Some (s_db s)"
  shows "after (inspect_lifecycle_body timeout audience destination now) s
    (bodyPost s (\<lambda>sn. \<exists>st. lockedStateOf audience destination now (s_db s) = Some st \<and> sn = ls_snapshot st))"
  unfolding inspect_lifecycle_body_def
  by (intro after_intro after_mono [OF load_after] after_mono [OF inspection_rollback_after]
      after_mono [OF inspection_commit_after];
      use assms in \<open>auto intro: bodyPost_same simp: session_frame tx_view_def\<close>)

text \<open>The rows an attempt is read from: the tokens are those of rows that parse.\<close>

definition fromRow :: "GatewayAudienceID \<Rightarrow> Destination \<Rightarrow> token_row set \<Rightarrow> DestinationTokenRecordID \<Rightarrow> DestinationTokenSpec option \<Rightarrow> bool" where
  "fromRow audience d R recordID token =
     (\<forall>t. token = Some t \<longrightarrow> (\<exists>r\<in>R. rowParses audience d r \<and> t = specOf d r \<and> tr_record_id r = recordID))"

lemma fromRow_intros:
  "fromRow audience d R recordID None"
  "r \<in> R \<Longrightarrow> rowParses audience d r \<Longrightarrow> tr_record_id r = recordID \<Longrightarrow> fromRow audience d R recordID (Some (specOf d r))"
  by (auto simp: fromRow_def)

lemma ts_RecordID_specOf: "ts_RecordID (specOf d r) = tr_record_id r"
  by (simp add: specOf_def)

lemma read_attempt_rows_after:
  assumes "set rows \<subseteq> R" "fromRow audience d R newID newToken" "fromRow audience d R oldID oldToken"
  shows "after (read_attempt_rows timeout audience d newID oldID rows newToken oldToken seen) s
    (\<lambda>r s'. same_data s s' \<and> fromRow audience d R newID (ar_newToken r) \<and> fromRow audience d R oldID (ar_oldToken r))"
  using assms
proof (induction rows arbitrary: newToken oldToken seen s)
  case Nil
  then show ?case
    unfolding read_attempt_rows.simps attempt_close_def by (intro after_intro rows_error_after) auto
next
  case (Cons row rows)
  show ?case
    unfolding read_attempt_rows.simps attempt_close_def
    by (intro after_intro rows_error_after after_mono [OF Cons.IH])
      (use Cons.prems in \<open>auto simp: token_parses session_frame ts_RecordID_specOf intro!: fromRow_intros\<close>)
qed

text \<open>The attempt snapshot of the tables.\<close>

definition attemptIn ::
  "GatewayAudienceID \<Rightarrow> DestinationID \<Rightarrow> DestinationTokenRecordID \<Rightarrow> DestinationTokenRecordID \<Rightarrow> time \<Rightarrow> gateway_db \<Rightarrow>
   DestinationTokenRotationAttemptSnapshot \<Rightarrow> bool" where
  "attemptIn audience destination newID oldID now db ra =
     (\<exists>st n old. lockedStateOf audience destination now db = Some st \<and>
        n \<in> set (db_tokens db) \<and> tr_record_id n = newID \<and> rowParses audience (ls_destination st) n \<and>
        old \<in> set (db_tokens db) \<and> tr_record_id old = oldID \<and> rowParses audience (ls_destination st) old \<and>
        NewDestinationTokenRotationAttemptSnapshot (ls_snapshot st) (specOf (ls_destination st) n)
          (specOf (ls_destination st) old) newID oldID now = Inr ra)"

lemma attempt_rows_subset: "set (inspectRotationAttemptTokensSQL audience destination newID oldID db) \<subseteq> set (db_tokens db)"
  by (auto simp: inspectRotationAttemptTokensSQL_def)

lemma inspect_attempt_rows_after:
  assumes "set rows \<subseteq> set (db_tokens (s_db s))" "lockedStateOf audience destination now (s_db s) = Some st"
    "tx_view s = s_db s"
  shows "after (inspect_attempt_rows timeout st audience newID oldID now rows) s
    (bodyPost s (attemptIn audience destination newID oldID now (s_db s)))"
  unfolding inspect_attempt_rows_def
  by (intro after_intro after_mono [OF read_attempt_rows_after [OF assms(1) fromRow_intros(1) fromRow_intros(1)]]
      after_mono [OF inspection_rollback_after [where P = "attemptIn audience destination newID oldID now (s_db s)"]]
      after_mono [OF inspection_commit_after [where P = "attemptIn audience destination newID oldID now (s_db s)"]];
      use assms in \<open>auto intro: bodyPost_same simp: session_frame attemptIn_def fromRow_def\<close>)

lemma inspect_attempt_body_after:
  assumes "s_tx s = Some (s_db s)"
  shows "after (inspect_attempt_body timeout audience destination newID oldID now) s
    (bodyPost s (attemptIn audience destination newID oldID now (s_db s)))"
proof -
  let ?P = "attemptIn audience destination newID oldID now (s_db s)"
  have rows: "after (inspect_attempt_rows timeout st audience newID oldID now rows) s1 (bodyPost s ?P)"
    if "same_data s s1" "rows = inspectRotationAttemptTokensSQL audience destination newID oldID (s_db s)"
      "lockedStateOf audience destination now (s_db s) = Some st" for st rows s1
    using that assms attempt_rows_subset [of audience destination newID oldID "s_db s"]
    by (intro after_mono [OF inspect_attempt_rows_after [where s = s1]])
      (auto intro: bodyPost_same simp: session_frame tx_view_def)
  show ?thesis
    unfolding inspect_attempt_body_def
    by (intro after_intro after_mono [OF load_after] tx_Query_after rows_error_after
        after_mono [OF inspection_rollback_after [where P = ?P]] rows;
        use assms in \<open>auto simp: bodyPost_def session_frame tx_view_def\<close>)
qed

lemma inspect_lifecycle_after:
  assumes "s_tx s = None"
  shows "after (InspectLifecycleState timeout repository ctx audience destination now) s
      (inspectionPost s (\<lambda>sn. \<exists>st. lockedStateOf audience destination now (s_db s) = Some st \<and> sn = ls_snapshot st))"
  unfolding InspectLifecycleState_def
  by (intro after_intro after_mono [OF validate_after] after_mono [OF lifecycle_inspection_after]
      after_mono [OF inspect_lifecycle_body_after];
      use assms in \<open>auto simp: session_frame inspectionPost_def connectionSettled_def\<close>)

lemma inspect_attempt_after:
  assumes "s_tx s = None"
  shows "after (InspectRotationAttempt timeout repository ctx audience destination newID oldID now) s
      (inspectionPost s (attemptIn audience destination newID oldID now (s_db s)))"
  unfolding InspectRotationAttempt_def
  by (intro after_intro after_mono [OF validate_after] after_mono [OF lifecycle_inspection_after]
      after_mono [OF inspect_attempt_body_after];
      use assms in \<open>auto simp: session_frame inspectionPost_def connectionSettled_def lifecycleKinds_def
        intro!: safeLifecycleErrorI\<close>)

text \<open>C8. The two inspections are reads: whatever the driver answers, the tables are unchanged, no
  transaction stays open, the connection is released or destroyed once and an error is one of
  the repository's kinds. A returned snapshot is the snapshot of the tables, and a returned
  attempt is built from the rows of exactly the two records asked for.\<close>

theorem inspections_read:
  assumes "s_tx s = None"
  shows "after (InspectLifecycleState timeout repository ctx audience destination now) s
      (inspectionPost s (\<lambda>sn. \<exists>st. lockedStateOf audience destination now (s_db s) = Some st \<and> sn = ls_snapshot st)) \<and>
    after (InspectRotationAttempt timeout repository ctx audience destination newID oldID now) s
      (inspectionPost s (attemptIn audience destination newID oldID now (s_db s)))"
  using inspect_lifecycle_after [OF assms] inspect_attempt_after [OF assms] by blast

theorem inspections_read_witness:
  "after (InspectLifecycleState (\<lambda>_. False) (NewDestinationTokenLifecycleRepository False) CallContext 1 2 7000)
      (sampleSession [Answered, Answered, Lost (Leaf 0 True)] activeDb)
      (inspectionPost (sampleSession [Answered, Answered, Lost (Leaf 0 True)] activeDb)
        (\<lambda>sn. \<exists>st. lockedStateOf 1 2 7000 activeDb = Some st \<and> sn = ls_snapshot st))"
proof -
  have closed: "s_tx (sampleSession [Answered, Answered, Lost (Leaf 0 True)] activeDb) = None"
    and db: "s_db (sampleSession [Answered, Answered, Lost (Leaf 0 True)] activeDb) = activeDb"
    by (simp_all add: sampleSession_def)
  show ?thesis using inspections_read [OF closed] unfolding db by blast
qed

end
