(* ===== verification/Crypto_Hash.thy ===== *)
theory Crypto_Hash
  imports Gateway_Prelude
begin

unbundle bit_operations_syntax

section \<open>SHA-256 and HMAC\<close>

text \<open>
  The functions of \<^verbatim>\<open>crypto/sha256\<close> and \<^verbatim>\<open>crypto/hmac\<close> that the gateway calls, as FIPS 180-4 and
  RFC 2104 define them, on byte lists. The gateway relies on the length of a digest and on
  the digest being a function of the bytes written; the first is proved here and the
  second holds because these are functions.
\<close>

subsection \<open>The compression function\<close>

text \<open>
  FIPS 180-4 takes the constants from the first 32 bits of the fractional parts of the roots of
  the first primes: cube roots for the round constants, square roots for the initial hash value.
  \<open>root_bits\<close> finds the integer part of the root of \<open>m\<close> bit by bit, from bit \<open>n - 1\<close> down.
\<close>

fun root_bits :: "nat \<Rightarrow> nat \<Rightarrow> nat \<Rightarrow> nat \<Rightarrow> nat" where
  "root_bits k m 0 r = r"
| "root_bits k m (Suc n) r = root_bits k m n (if (r + 2 ^ n) ^ k \<le> m then r + 2 ^ n else r)"

definition root_fraction :: "nat \<Rightarrow> nat \<Rightarrow> 32 word" where
  "root_fraction k p = word_of_nat (root_bits k (p * 2 ^ (32 * k)) 37 0)"

definition primes_below :: "nat \<Rightarrow> nat list" where
  "primes_below n = filter (\<lambda>p. list_all (\<lambda>d. p mod d \<noteq> 0) [2..<p]) [2..<n]"

definition sha256_K :: "32 word list" where
  "sha256_K = map (root_fraction 3) (primes_below 312)"

definition sha256_H0 :: "32 word list" where
  "sha256_H0 = map (root_fraction 2) (primes_below 20)"

lemma length_sha256_H0: "length sha256_H0 = 8"
  by (simp add: sha256_H0_def primes_below_def upt_rec)

definition rotr :: "nat \<Rightarrow> 32 word \<Rightarrow> 32 word" where
  "rotr n x = drop_bit n x OR push_bit (32 - n) x"

definition sha256_schedule_word :: "32 word list \<Rightarrow> nat \<Rightarrow> 32 word" where
  "sha256_schedule_word w t =
     (let x = w ! (t - 15); y = w ! (t - 2) in
      (rotr 17 y XOR rotr 19 y XOR drop_bit 10 y) + w ! (t - 7) +
      (rotr 7 x XOR rotr 18 x XOR drop_bit 3 x) + w ! (t - 16))"

definition sha256_schedule :: "32 word list \<Rightarrow> 32 word list" where
  "sha256_schedule block = fold (\<lambda>t w. w @ [sha256_schedule_word w t]) [16..<64] block"

fun sha256_round :: "32 word \<times> 32 word \<Rightarrow> 32 word list \<Rightarrow> 32 word list" where
  "sha256_round (k, w) [a, b, c, d, e, f, g, h] =
     (let t1 = h + (rotr 6 e XOR rotr 11 e XOR rotr 25 e) + ((e AND f) XOR (NOT e AND g)) + k + w;
          t2 = (rotr 2 a XOR rotr 13 a XOR rotr 22 a) + ((a AND b) XOR (a AND c) XOR (b AND c))
      in [t1 + t2, a, b, c, d + t1, e, f, g])"
| "sha256_round kw state = state"

definition sha256_compress :: "32 word list \<Rightarrow> 32 word list \<Rightarrow> 32 word list" where
  "sha256_compress state block =
     map2 (+) state (fold sha256_round (zip sha256_K (sha256_schedule block)) state)"

subsection \<open>Padding and blocks\<close>

definition sha256_pad :: "byte list \<Rightarrow> byte list" where
  "sha256_pad msg = msg @ [0x80] @ replicate ((119 - length msg mod 64) mod 64) 0 @
     be_bytes 8 (word_of_nat (8 * length msg) :: 64 word)"

function chunks :: "nat \<Rightarrow> 'a list \<Rightarrow> 'a list list" where
  "chunks n xs = (if n = 0 \<or> xs = [] then [] else take n xs # chunks n (drop n xs))"
  by pat_completeness auto
termination by (relation "measure (\<lambda>(n, xs). length xs)") (auto simp: neq_Nil_conv)

declare chunks.simps [simp del]

definition sha256_Sum :: "byte list \<Rightarrow> byte list" where
  "sha256_Sum msg =
     concat (map (be_bytes 4)
       (fold (\<lambda>block state. sha256_compress state (map of_be_bytes (chunks 4 block)))
          (chunks 64 (sha256_pad msg)) sha256_H0))"

definition sha256_Size :: nat where "sha256_Size = 32"

text \<open>\<^verbatim>\<open>hmac.New(sha256.New, key)\<close>, the writes, and \<^verbatim>\<open>Sum(nil)\<close>.\<close>

definition hmac_key :: "byte list \<Rightarrow> byte list" where
  "hmac_key key =
     (let k = (if 64 < length key then sha256_Sum key else key) in k @ replicate (64 - length k) 0)"

definition hmac_sha256 :: "byte list \<Rightarrow> byte list \<Rightarrow> byte list" where
  "hmac_sha256 key msg =
     sha256_Sum (map (\<lambda>b. b XOR 0x5c) (hmac_key key) @
       sha256_Sum (map (\<lambda>b. b XOR 0x36) (hmac_key key) @ msg))"

subsection \<open>Lengths\<close>

lemma length_sha256_round: "length (sha256_round kw state) = length state"
  by (cases "(kw, state)" rule: sha256_round.cases) (simp_all add: Let_def)

lemma length_fold_rounds: "length (fold sha256_round kws state) = length state"
  by (induction kws arbitrary: state) (simp_all add: length_sha256_round)

lemma length_sha256_compress: "length (sha256_compress state block) = length state"
  by (simp add: sha256_compress_def length_fold_rounds)

lemma length_fold_compress:
  "length (fold (\<lambda>block state. sha256_compress state (f block)) blocks state) = length state"
  by (induction blocks arbitrary: state) (simp_all add: length_sha256_compress)

lemma length_sha256_Sum [simp]: "length (sha256_Sum msg) = 32"
  by (simp add: sha256_Sum_def length_concat comp_def sum_list_triv length_fold_compress length_sha256_H0)

lemma length_hmac_sha256 [simp]: "length (hmac_sha256 key msg) = 32"
  by (simp add: hmac_sha256_def)

end
