(* ===== verification/Lifecycle_Service.thy ===== *)
theory Lifecycle_Service
  imports Lifecycle_Inspection Crypto_Hash
begin

section \<open>The token lifecycle service\<close>

text \<open>
  \<^verbatim>\<open>DestinationTokenLifecycleService\<close> of \<^verbatim>\<open>internal/securitystate/destination_lifecycle.go\<close> and the
  verifier it stores, \<^verbatim>\<open>internal/securitystate/destination_verifier.go\<close>. The service is a record
  of its dependencies: each is an operation on a world \<open>'w\<close> that the service does not look
  into, and the repository interface is a record of operations. A service pointer that is nil,
  or that points to a zero value with nil dependencies, is \<open>None\<close>. \<open>ctxErr\<close> is one evaluation of
  \<^verbatim>\<open>ctx.Err()\<close>.
\<close>

subsection \<open>The verifier of a token\<close>

definition destinationTokenVerifierDomain :: gostring where
  "destinationTokenVerifierDomain = str ''MS_ONCALL_GATEWAY_DESTINATION_TOKEN_V1''"

definition verifierMessage :: "GatewayAudienceID \<Rightarrow> OpaqueDestinationToken \<Rightarrow> byte list" where
  "verifierMessage audience token =
     destinationTokenVerifierDomain @ [0] @ formatUUID audience @ [0] @ be_bytes 32 token"

definition ComputeDestinationTokenVerifier ::
  "GatewayAudienceID \<Rightarrow> OpaqueDestinationToken \<Rightarrow> DestinationVerifierKey \<Rightarrow> TokenVerifier result" where
  "ComputeDestinationTokenVerifier audience token key =
     (if audience = 0 \<or> length key < sha256_Size then Inl (stateErr ErrInvalidState)
      else NewTokenVerifier (hmac_sha256 key (verifierMessage audience token)))"

text \<open>The bytes authenticated for two audiences or two tokens differ.\<close>

lemma verifierMessage_inject [simp]:
  "verifierMessage a t = verifierMessage a' t' \<longleftrightarrow> a = a' \<and> t = t'"
proof -
  have len: "length (formatUUID a) = length (formatUUID a')"
    using formatUUID_layout by (simp add: uuid_layout_def)
  show ?thesis
    by (auto simp: verifierMessage_def append_eq_append_conv [OF disjI1 [OF len]] be_bytes_inject)
qed

lemma compute_present: "ComputeDestinationTokenVerifier a t k = Inr v \<Longrightarrow> tv_present v"
  by (auto simp: ComputeDestinationTokenVerifier_def NewTokenVerifier_def split: if_splits)

lemma compute_iff:
  "(\<exists>v. ComputeDestinationTokenVerifier a t k = Inr v) \<longleftrightarrow> a \<noteq> 0 \<and> 32 \<le> length k"
  by (auto simp: ComputeDestinationTokenVerifier_def NewTokenVerifier_def sha256_Size_def)

subsection \<open>Record identities\<close>

text \<open>\<^verbatim>\<open>UUIDv4DestinationTokenRecordIDGenerator\<close>; \<open>read\<close> is \<^verbatim>\<open>io.ReadFull\<close> of sixteen bytes from its
  reader, or from the system's generator when the reader is nil.\<close>

definition NewDestinationTokenRecordID ::
  "('w, bytes16 result) state option \<Rightarrow> ('w, DestinationTokenRecordID result) state" where
  "NewDestinationTokenRecordID generator =
     (case generator of
        None \<Rightarrow> State_Monad.return (Inl (stateErr ErrDestinationLifecycleInvalid))
      | Some read \<Rightarrow> do {
          r \<leftarrow> read;
          State_Monad.return (case r of
              Inl _ \<Rightarrow> Inl (stateErr ErrDestinationLifecycleUnavailable)
            | Inr value \<Rightarrow>
                (let stamped = of_be_bytes (stampV4 (be_bytes 16 value)) in
                 if stamped = 0 then Inl (stateErr ErrDestinationLifecycleUnavailable) else Inr stamped)) })"

subsection \<open>The interfaces\<close>

record 'w lifecycleAPI =
  api_CreateStagedToken :: "StagedTokenCandidate \<Rightarrow> time \<Rightarrow> ('w, go_error option) state"
  api_CreateRotationStagedToken :: "CreateRotationStagedTokenCommand \<Rightarrow> ('w, go_error option) state"
  api_ActivateInitialToken ::
    "GatewayAudienceID \<Rightarrow> DestinationID \<Rightarrow> DestinationTokenRecordID \<Rightarrow> time \<Rightarrow> ('w, go_error option) state"
  api_ActivateRotation :: "ActivateRotationCommand \<Rightarrow> ('w, go_error option) state"
  api_AbortStagedToken ::
    "GatewayAudienceID \<Rightarrow> DestinationID \<Rightarrow> DestinationTokenRecordID \<Rightarrow> time \<Rightarrow> ('w, go_error option) state"
  api_RollbackRotation :: "RollbackRotationCommand \<Rightarrow> ('w, go_error option) state"
  api_FinalizeRotation :: "FinalizeRotationCommand \<Rightarrow> ('w, go_error option) state"
  api_InspectLifecycleState ::
    "GatewayAudienceID \<Rightarrow> DestinationID \<Rightarrow> time \<Rightarrow> ('w, DestinationLifecycleSnapshot result) state"

record 'w DestinationTokenLifecycleConfig =
  lc_Clock :: "('w, time) state option"
  lc_Random :: "('w, bytes32 result) state option"
  lc_RecordIDs :: "('w, DestinationTokenRecordID result) state option"
  lc_Repository :: "'w lifecycleAPI option"
  lc_VerifierKeys :: "(GatewayAudienceID \<Rightarrow> DestinationVerifierKeyID \<Rightarrow> ('w, DestinationVerifierKey result) state) option"
  lc_ActiveVerifierKeyID :: DestinationVerifierKeyID
  lc_TokenLifetime :: duration
  lc_StagedCleanupDuration :: duration
  lc_RetiringOverlap :: duration

record 'w DestinationTokenLifecycleService =
  svc_clock :: "('w, time) state"
  svc_random :: "('w, bytes32 result) state"
  svc_recordIDs :: "('w, DestinationTokenRecordID result) state"
  svc_repository :: "'w lifecycleAPI"
  svc_keys :: "GatewayAudienceID \<Rightarrow> DestinationVerifierKeyID \<Rightarrow> ('w, DestinationVerifierKey result) state"
  svc_activeKeyID :: DestinationVerifierKeyID
  svc_tokenLifetime :: duration
  svc_cleanupDuration :: duration
  svc_overlapDuration :: duration

definition lifecycleDurationsOK :: "duration \<Rightarrow> duration \<Rightarrow> duration \<Rightarrow> bool" where
  "lifecycleDurationsOK lifetime cleanup overlap =
     (0 < lifetime \<and> lifetime \<le> MaximumDestinationTokenLifetime \<and>
      0 < cleanup \<and> cleanup \<le> MaximumStagedCleanupDuration \<and>
      0 < overlap \<and> overlap \<le> MaximumRetiringOverlapDuration \<and> overlap < lifetime)"

definition NewDestinationTokenLifecycleService ::
  "'w DestinationTokenLifecycleConfig \<Rightarrow> 'w DestinationTokenLifecycleService result" where
  "NewDestinationTokenLifecycleService config =
     (case (lc_Clock config, lc_Random config, lc_RecordIDs config, lc_Repository config, lc_VerifierKeys config) of
        (Some clock, Some random, Some recordIDs, Some repository, Some keys) \<Rightarrow>
          if lc_ActiveVerifierKeyID config = [] \<or>
             \<not> lifecycleDurationsOK (lc_TokenLifetime config) (lc_StagedCleanupDuration config) (lc_RetiringOverlap config)
          then Inl (stateErr ErrDestinationLifecycleInvalid)
          else (case NewDestinationVerifierKeyID (lc_ActiveVerifierKeyID config) of
              Inl _ \<Rightarrow> Inl (stateErr ErrDestinationLifecycleInvalid)
            | Inr parsedKeyID \<Rightarrow>
                if parsedKeyID \<noteq> lc_ActiveVerifierKeyID config then Inl (stateErr ErrDestinationLifecycleInvalid)
                else Inr \<lparr>svc_clock = clock, svc_random = random, svc_recordIDs = recordIDs,
                  svc_repository = repository, svc_keys = keys, svc_activeKeyID = parsedKeyID,
                  svc_tokenLifetime = lc_TokenLifetime config,
                  svc_cleanupDuration = lc_StagedCleanupDuration config,
                  svc_overlapDuration = lc_RetiringOverlap config\<rparr>)
      | _ \<Rightarrow> Inl (stateErr ErrDestinationLifecycleInvalid))"

subsection \<open>Classification of errors\<close>

definition classifyDestinationLifecycleError :: "go_error option \<Rightarrow> go_error option" where
  "classifyDestinationLifecycleError err =
     (case err of
        None \<Rightarrow> None
      | Some e \<Rightarrow>
          if lifecycleSingleCauseMatches e (Securitystate ErrDestinationLifecycleOutcomeUnknown)
          then Some (stateErr ErrDestinationLifecycleOutcomeUnknown)
          else if lifecycleSingleCauseMatches e (Context Canceled)
          then Some (stateErr ErrDestinationLifecycleCanceled)
          else if lifecycleSingleCauseMatches e (Context DeadlineExceeded)
          then Some (stateErr ErrDestinationLifecycleDeadline)
          else if lifecycleSingleCauseMatches e (Securitystate ErrDestinationLifecycleCanceled)
          then Some (stateErr ErrDestinationLifecycleCanceled)
          else if lifecycleSingleCauseMatches e (Securitystate ErrDestinationLifecycleDeadline)
          then Some (stateErr ErrDestinationLifecycleDeadline)
          else (case find (\<lambda>safe. lifecycleSingleCauseMatches e (Securitystate safe))
                  [ErrDestinationLifecycleInvalid, ErrDestinationLifecycleConflict,
                   ErrDestinationLifecycleReconciliation, ErrDestinationLifecycleUnavailable] of
              Some safe \<Rightarrow> Some (stateErr safe)
            | None \<Rightarrow> Some (stateErr ErrDestinationLifecycleOutcomeUnknown)))"

definition classifyDestinationLifecycleInspectionError :: "go_error \<Rightarrow> go_error" where
  "classifyDestinationLifecycleInspectionError e =
     (case find (\<lambda>safe. lifecycleSingleCauseMatches e (Securitystate safe))
        [ErrDestinationLifecycleCanceled, ErrDestinationLifecycleDeadline, ErrDestinationLifecycleInvalid,
         ErrDestinationLifecycleConflict, ErrDestinationLifecycleReconciliation, ErrDestinationLifecycleUnavailable] of
        Some safe \<Rightarrow> stateErr safe
      | None \<Rightarrow>
          if lifecycleSingleCauseMatches e (Context Canceled) then stateErr ErrDestinationLifecycleCanceled
          else if lifecycleSingleCauseMatches e (Context DeadlineExceeded) then stateErr ErrDestinationLifecycleDeadline
          else stateErr ErrDestinationLifecycleUnavailable)"

text \<open>\<^verbatim>\<open>lifecycleCancellation\<close>: an error is classified by itself, a nil error by two evaluations of
  \<^verbatim>\<open>ctx.Err()\<close>.\<close>

definition lifecycleCancellation ::
  "('w, go_error option) state \<Rightarrow> go_context \<Rightarrow> go_error option \<Rightarrow> ('w, go_error option) state" where
  "lifecycleCancellation ctxErr ctx err =
     (case err of
        Some e \<Rightarrow> State_Monad.return
          (if lifecycleSingleCauseMatches e (Context Canceled) then Some (stateErr ErrDestinationLifecycleCanceled)
           else if lifecycleSingleCauseMatches e (Context DeadlineExceeded)
           then Some (stateErr ErrDestinationLifecycleDeadline) else None)
      | None \<Rightarrow>
          if ctx = NilContext then State_Monad.return None
          else do {
            first \<leftarrow> ctxErr;
            if first = Some (contextErr Canceled)
            then State_Monad.return (Some (stateErr ErrDestinationLifecycleCanceled))
            else do {
              second \<leftarrow> ctxErr;
              State_Monad.return
                (if second = Some (contextErr DeadlineExceeded)
                 then Some (stateErr ErrDestinationLifecycleDeadline) else None) } })"

subsection \<open>The operations\<close>

definition operationInput ::
  "('w, go_error option) state \<Rightarrow> 'w DestinationTokenLifecycleService option \<Rightarrow> go_context \<Rightarrow> GatewayAudienceID \<Rightarrow>
   DestinationID \<Rightarrow> ('w, time result) state" where
  "operationInput ctxErr service ctx audience destination =
     (case service of
        None \<Rightarrow> State_Monad.return (Inl (stateErr ErrDestinationLifecycleInvalid))
      | Some svc \<Rightarrow>
          if ctx = NilContext \<or> audience = 0 \<or> destination = 0
          then State_Monad.return (Inl (stateErr ErrDestinationLifecycleInvalid))
          else do {
            cancellation \<leftarrow> lifecycleCancellation ctxErr ctx None;
            case cancellation of
              Some e \<Rightarrow> State_Monad.return (Inl e)
            | None \<Rightarrow> do {
                now \<leftarrow> svc_clock svc;
                State_Monad.return
                  (if IsZero now then Inl (stateErr ErrDestinationLifecycleInvalid) else Inr now) } })"

definition recordOperationInput ::
  "('w, go_error option) state \<Rightarrow> 'w DestinationTokenLifecycleService option \<Rightarrow> go_context \<Rightarrow> GatewayAudienceID \<Rightarrow>
   DestinationID \<Rightarrow> DestinationTokenRecordID \<Rightarrow> ('w, time result) state" where
  "recordOperationInput ctxErr service ctx audience destination recordID = do {
     input \<leftarrow> operationInput ctxErr service ctx audience destination;
     State_Monad.return (case input of
         Inl e \<Rightarrow> Inl e
       | Inr now \<Rightarrow> if recordID = 0 then Inl (stateErr ErrDestinationLifecycleInvalid) else Inr now) }"

definition pairOperationInput ::
  "('w, go_error option) state \<Rightarrow> 'w DestinationTokenLifecycleService option \<Rightarrow> go_context \<Rightarrow> GatewayAudienceID \<Rightarrow>
   DestinationID \<Rightarrow> DestinationTokenRecordID \<Rightarrow> DestinationTokenRecordID \<Rightarrow> ('w, time result) state" where
  "pairOperationInput ctxErr service ctx audience destination first second = do {
     input \<leftarrow> recordOperationInput ctxErr service ctx audience destination first;
     State_Monad.return (case input of
         Inl e \<Rightarrow> Inl e
       | Inr now \<Rightarrow>
           if second = 0 \<or> first = second then Inl (stateErr ErrDestinationLifecycleInvalid) else Inr now) }"

record CreatedStagedToken =
  ct_recordID :: DestinationTokenRecordID
  ct_token :: gostring

definition noStagedToken :: CreatedStagedToken where
  "noStagedToken = \<lparr>ct_recordID = 0, ct_token = []\<rparr>"

text \<open>The identity and the entropy drawn under the generation lock.\<close>

definition generate_material ::
  "'w DestinationTokenLifecycleService \<Rightarrow> ('w, DestinationTokenRecordID \<times> bytes32 \<times> go_error option) state" where
  "generate_material svc = do {
     drawn \<leftarrow> svc_recordIDs svc;
     case drawn of
       Inl e \<Rightarrow> State_Monad.return (0, 0, Some e)
     | Inr recordID \<Rightarrow>
         if recordID = 0 then State_Monad.return (0, 0, None)
         else do {
           entropy \<leftarrow> svc_random svc;
           State_Monad.return (case entropy of
               Inl e \<Rightarrow> (recordID, 0, Some e)
             | Inr bytes \<Rightarrow> (recordID, bytes, None)) } }"

definition stored_outcome :: "StagedTokenCandidate \<Rightarrow> gostring \<Rightarrow> go_error option \<Rightarrow> CreatedStagedToken \<times> go_error option" where
  "stored_outcome candidate encoded repositoryErr =
     (case classifyDestinationLifecycleError repositoryErr of
        None \<Rightarrow> (\<lparr>ct_recordID = sc_recordID candidate, ct_token = encoded\<rparr>, None)
      | Some classified \<Rightarrow>
          if classified = stateErr ErrDestinationLifecycleOutcomeUnknown
          then (\<lparr>ct_recordID = sc_recordID candidate, ct_token = []\<rparr>, Some classified)
          else (noStagedToken, Some classified))"

definition store_candidate ::
  "'w DestinationTokenLifecycleService \<Rightarrow> StagedTokenCandidate \<Rightarrow> DestinationTokenRecordID \<Rightarrow> time \<Rightarrow> bool \<Rightarrow>
   gostring \<Rightarrow> ('w, CreatedStagedToken \<times> go_error option) state" where
  "store_candidate svc candidate expectedActiveRecordID now rotation encoded =
     (if rotation
      then (case NewCreateRotationStagedTokenCommand candidate expectedActiveRecordID now of
          Inl _ \<Rightarrow> State_Monad.return (noStagedToken, Some (stateErr ErrDestinationLifecycleInvalid))
        | Inr command \<Rightarrow> do {
            repositoryErr \<leftarrow> api_CreateRotationStagedToken (svc_repository svc) command;
            State_Monad.return (stored_outcome candidate encoded repositoryErr) })
      else do {
        repositoryErr \<leftarrow> api_CreateStagedToken (svc_repository svc) candidate now;
        State_Monad.return (stored_outcome candidate encoded repositoryErr) })"

definition issue_token ::
  "('w, go_error option) state \<Rightarrow> 'w DestinationTokenLifecycleService \<Rightarrow> go_context \<Rightarrow> GatewayAudienceID \<Rightarrow> DestinationID \<Rightarrow>
   DestinationTokenRecordID \<Rightarrow> OpaqueDestinationToken \<Rightarrow> bool \<Rightarrow> time \<Rightarrow> DestinationTokenRecordID \<Rightarrow> bytes32 \<Rightarrow>
   ('w, CreatedStagedToken \<times> go_error option) state" where
  "issue_token ctxErr svc ctx audience destination expectedActiveRecordID currentToken rotation now recordID entropy =
     (let encoded = opaqueTokenPrefix @ base64_EncodeToString (be_bytes 32 entropy) in
      case ParseOpaqueDestinationToken encoded of
        Inl _ \<Rightarrow> State_Monad.return (noStagedToken, Some (stateErr ErrDestinationLifecycleUnavailable))
      | Inr rawToken \<Rightarrow>
          if rotation \<and> rawToken = currentToken
          then State_Monad.return (noStagedToken, Some (stateErr ErrDestinationLifecycleConflict))
          else do {
            keyResult \<leftarrow> svc_keys svc audience (svc_activeKeyID svc);
            cancellation \<leftarrow> lifecycleCancellation ctxErr ctx (case keyResult of Inl e \<Rightarrow> Some e | Inr _ \<Rightarrow> None);
            case (cancellation, keyResult) of
              (Some e, _) \<Rightarrow> State_Monad.return (noStagedToken, Some e)
            | (None, Inl _) \<Rightarrow> State_Monad.return (noStagedToken, Some (stateErr ErrDestinationLifecycleUnavailable))
            | (None, Inr key) \<Rightarrow>
                (case ComputeDestinationTokenVerifier audience rawToken key of
                   Inl _ \<Rightarrow> State_Monad.return (noStagedToken, Some (stateErr ErrDestinationLifecycleUnavailable))
                 | Inr verifier \<Rightarrow>
                     (case NewStagedTokenCandidate audience destination recordID verifier (svc_activeKeyID svc) now
                             (Add now (svc_tokenLifetime svc)) (Add now (svc_cleanupDuration svc)) of
                        Inl _ \<Rightarrow> State_Monad.return (noStagedToken, Some (stateErr ErrDestinationLifecycleInvalid))
                      | Inr candidate \<Rightarrow>
                          store_candidate svc candidate expectedActiveRecordID now rotation encoded)) })"

definition generate_token ::
  "('w, go_error option) state \<Rightarrow> 'w DestinationTokenLifecycleService \<Rightarrow> go_context \<Rightarrow> GatewayAudienceID \<Rightarrow> DestinationID \<Rightarrow>
   DestinationTokenRecordID \<Rightarrow> OpaqueDestinationToken \<Rightarrow> bool \<Rightarrow> time \<Rightarrow> ('w, CreatedStagedToken \<times> go_error option) state" where
  "generate_token ctxErr svc ctx audience destination expectedActiveRecordID currentToken rotation now = do {
     (recordID, entropy, recordErr) \<leftarrow> generate_material svc;
     cancellation \<leftarrow> lifecycleCancellation ctxErr ctx recordErr;
     case cancellation of
       Some e \<Rightarrow> State_Monad.return (noStagedToken, Some e)
     | None \<Rightarrow>
         if recordErr \<noteq> None \<or> recordID = 0
         then State_Monad.return (noStagedToken, Some (stateErr ErrDestinationLifecycleUnavailable))
         else issue_token ctxErr svc ctx audience destination expectedActiveRecordID currentToken rotation now
           recordID entropy }"

definition service_createStagedToken ::
  "('w, go_error option) state \<Rightarrow> 'w DestinationTokenLifecycleService option \<Rightarrow> go_context \<Rightarrow> GatewayAudienceID \<Rightarrow>
   DestinationID \<Rightarrow> DestinationTokenRecordID \<Rightarrow> OpaqueDestinationToken \<Rightarrow> bool \<Rightarrow>
   ('w, CreatedStagedToken \<times> go_error option) state" where
  "service_createStagedToken ctxErr service ctx audience destination expectedActiveRecordID currentToken rotation = do {
     input \<leftarrow> operationInput ctxErr service ctx audience destination;
     case (input, service) of
       (Inl e, _) \<Rightarrow> State_Monad.return (noStagedToken, Some e)
     | (Inr now, None) \<Rightarrow> State_Monad.return (noStagedToken, Some (stateErr ErrDestinationLifecycleInvalid))
     | (Inr now, Some svc) \<Rightarrow>
         generate_token ctxErr svc ctx audience destination expectedActiveRecordID currentToken rotation now }"

definition service_CreateStagedToken where
  "service_CreateStagedToken ctxErr service ctx audience destination =
     service_createStagedToken ctxErr service ctx audience destination 0 0 False"

definition service_CreateRotationStagedToken where
  "service_CreateRotationStagedToken ctxErr service ctx audience destination expectedActiveRecordID currentToken =
     (if expectedActiveRecordID = 0
      then State_Monad.return (noStagedToken, Some (stateErr ErrDestinationLifecycleInvalid))
      else service_createStagedToken ctxErr service ctx audience destination expectedActiveRecordID currentToken True)"

text \<open>A repository call of a service whose input was accepted; the input is never accepted for a nil
  service.\<close>

definition with_repository ::
  "'w DestinationTokenLifecycleService option \<Rightarrow> time result \<Rightarrow>
   ('w lifecycleAPI \<Rightarrow> time \<Rightarrow> ('w, go_error option) state) \<Rightarrow> ('w, go_error option) state" where
  "with_repository service input call =
     (case (input, service) of
        (Inr now, Some svc) \<Rightarrow> do {
          err \<leftarrow> call (svc_repository svc) now;
          State_Monad.return (classifyDestinationLifecycleError err) }
      | (Inl e, _) \<Rightarrow> State_Monad.return (Some e)
      | (Inr now, None) \<Rightarrow> State_Monad.return (Some (stateErr ErrDestinationLifecycleInvalid)))"

definition service_ActivateInitialToken where
  "service_ActivateInitialToken ctxErr service ctx audience destination staged = do {
     input \<leftarrow> recordOperationInput ctxErr service ctx audience destination staged;
     with_repository service input (\<lambda>api now. api_ActivateInitialToken api audience destination staged now) }"

definition service_AbortStagedToken where
  "service_AbortStagedToken ctxErr service ctx audience destination staged = do {
     input \<leftarrow> recordOperationInput ctxErr service ctx audience destination staged;
     with_repository service input (\<lambda>api now. api_AbortStagedToken api audience destination staged now) }"

definition service_ActivateRotation ::
  "('w, go_error option) state \<Rightarrow> 'w DestinationTokenLifecycleService option \<Rightarrow> go_context \<Rightarrow> GatewayAudienceID \<Rightarrow>
   DestinationID \<Rightarrow> DestinationTokenRecordID \<Rightarrow> DestinationTokenRecordID \<Rightarrow>
   ('w, DestinationTokenRotationActivationReceipt result) state" where
  "service_ActivateRotation ctxErr service ctx audience destination staged oldActive = do {
     input \<leftarrow> pairOperationInput ctxErr service ctx audience destination staged oldActive;
     case (input, service) of
       (Inl e, _) \<Rightarrow> State_Monad.return (Inl e)
     | (Inr now, None) \<Rightarrow> State_Monad.return (Inl (stateErr ErrDestinationLifecycleInvalid))
     | (Inr now, Some svc) \<Rightarrow>
         (let activatedAt = canonicalDestinationLifecycleTimestamp now;
              retirementDeadline = canonicalDestinationLifecycleTimestamp (Add now (svc_overlapDuration svc))
          in case NewDestinationTokenRotationActivationReceipt activatedAt retirementDeadline of
               Inl _ \<Rightarrow> State_Monad.return (Inl (stateErr ErrDestinationLifecycleInvalid))
             | Inr receipt \<Rightarrow> do {
                 err \<leftarrow> api_ActivateRotation (svc_repository svc)
                   \<lparr>ac_AudienceID = audience, ac_DestinationID = destination, ac_StagedRecordID = staged,
                    ac_OldActiveRecordID = oldActive, ac_Now = activatedAt, ac_OverlapDeadline = retirementDeadline\<rparr>;
                 State_Monad.return (case classifyDestinationLifecycleError err of
                     Some e \<Rightarrow> Inl e
                   | None \<Rightarrow> Inr receipt) }) }"

definition service_RollbackRotation where
  "service_RollbackRotation ctxErr service ctx audience destination newActive oldRetiring = do {
     input \<leftarrow> pairOperationInput ctxErr service ctx audience destination newActive oldRetiring;
     with_repository service input (\<lambda>api now. api_RollbackRotation api
       \<lparr>rb_AudienceID = audience, rb_DestinationID = destination, rb_NewActiveRecordID = newActive,
        rb_OldRetiringRecordID = oldRetiring, rb_Now = now\<rparr>) }"

definition service_FinalizeRotation where
  "service_FinalizeRotation ctxErr service ctx audience destination newActive oldRetiring reason = do {
     input \<leftarrow> pairOperationInput ctxErr service ctx audience destination newActive oldRetiring;
     with_repository service
       (case input of
          Inl e \<Rightarrow> Inl e
        | Inr now \<Rightarrow> if RotationCompletionReason_Valid reason then Inr now
            else Inl (stateErr ErrDestinationLifecycleInvalid))
       (\<lambda>api now. api_FinalizeRotation api
         \<lparr>fc_AudienceID = audience, fc_DestinationID = destination, fc_NewActiveRecordID = newActive,
          fc_OldRetiringRecordID = oldRetiring, fc_Reason = reason, fc_Now = now\<rparr>) }"

definition service_InspectLifecycleState ::
  "('w, go_error option) state \<Rightarrow> 'w DestinationTokenLifecycleService option \<Rightarrow> go_context \<Rightarrow> GatewayAudienceID \<Rightarrow>
   DestinationID \<Rightarrow> ('w, DestinationLifecycleSnapshot result) state" where
  "service_InspectLifecycleState ctxErr service ctx audience destination = do {
     input \<leftarrow> operationInput ctxErr service ctx audience destination;
     case (input, service) of
       (Inl e, _) \<Rightarrow> State_Monad.return (Inl e)
     | (Inr now, None) \<Rightarrow> State_Monad.return (Inl (stateErr ErrDestinationLifecycleInvalid))
     | (Inr now, Some svc) \<Rightarrow> do {
         inspected \<leftarrow> api_InspectLifecycleState (svc_repository svc) audience destination now;
         State_Monad.return (case inspected of
             Inl e \<Rightarrow> Inl (classifyDestinationLifecycleInspectionError e)
           | Inr snapshot \<Rightarrow>
               if sn_status snapshot = LifecycleStatusUndeclared \<or> sn_audienceID snapshot \<noteq> audience \<or> sn_destinationID snapshot \<noteq> destination
               then Inl (stateErr ErrDestinationLifecycleReconciliation) else Inr snapshot) } }"

subsection \<open>The contract of the repository\<close>

fun apiRun :: "'w lifecycleAPI \<Rightarrow> lifecycle_command \<Rightarrow> ('w, go_error option) state" where
  "apiRun api (CreateStaged c now) = api_CreateStagedToken api c now"
| "apiRun api (CreateRotationStaged c) = api_CreateRotationStagedToken api c"
| "apiRun api (ActivateInitial a d r now) = api_ActivateInitialToken api a d r now"
| "apiRun api (ActivateRotate c) = api_ActivateRotation api c"
| "apiRun api (AbortStaged a d r now) = api_AbortStagedToken api a d r now"
| "apiRun api (RollbackRotate c) = api_RollbackRotation api c"
| "apiRun api (FinalizeRotate c) = api_FinalizeRotation api c"

text \<open>An operation that leaves the tables alone.\<close>

definition quiet :: "('w \<Rightarrow> bool) \<Rightarrow> ('w \<Rightarrow> gateway_db) \<Rightarrow> ('w, 'a) state \<Rightarrow> bool" where
  "quiet ready tables p = (\<forall>w. ready w \<longrightarrow> after p w (\<lambda>_ w'. ready w' \<and> tables w' = tables w))"

definition quietService ::
  "('w \<Rightarrow> bool) \<Rightarrow> ('w \<Rightarrow> gateway_db) \<Rightarrow> ('w, go_error option) state \<Rightarrow> 'w DestinationTokenLifecycleService \<Rightarrow> bool" where
  "quietService ready tables ctxErr svc =
     (quiet ready tables ctxErr \<and> quiet ready tables (svc_clock svc) \<and> quiet ready tables (svc_random svc) \<and>
      quiet ready tables (svc_recordIDs svc) \<and> (\<forall>a k. quiet ready tables (svc_keys svc a k)))"

text \<open>What a caller of the service may conclude from its result.\<close>

definition serviceOutcome :: "'db \<Rightarrow> 'db option \<Rightarrow> go_error option \<Rightarrow> 'db \<Rightarrow> bool" where
  "serviceOutcome db step err db' =
     (case err of
        None \<Rightarrow> step = Some db'
      | Some e \<Rightarrow> e \<in> stateErr ` lifecycleKinds \<and>
          (db' = db \<or> e = stateErr ErrDestinationLifecycleOutcomeUnknown \<and> step = Some db'))"

lemma lifecycleKinds_members [simp]:
  "ErrDestinationLifecycleInvalid \<in> lifecycleKinds" "ErrDestinationLifecycleConflict \<in> lifecycleKinds"
  "ErrDestinationLifecycleReconciliation \<in> lifecycleKinds" "ErrDestinationLifecycleUnavailable \<in> lifecycleKinds"
  "ErrDestinationLifecycleCanceled \<in> lifecycleKinds" "ErrDestinationLifecycleDeadline \<in> lifecycleKinds"
  "ErrDestinationLifecycleOutcomeUnknown \<in> lifecycleKinds"
  by (simp_all add: lifecycleKinds_def)

lemma matches_safe:
  "lifecycleSingleCauseMatches (lifecycleRepositoryError kind operation) t \<longleftrightarrow> t = Securitystate kind"
  by (auto simp: lifecycleSingleCauseMatches_def safeError_def numeral_eq_Suc ambiguous_def nilInterface_error_def)

lemma classify_safe:
  "kind \<in> lifecycleKinds \<Longrightarrow>
     classifyDestinationLifecycleError (Some (lifecycleRepositoryError kind operation)) = Some (stateErr kind)"
  by (auto simp: classifyDestinationLifecycleError_def matches_safe lifecycleKinds_def)

lemma classify_outcome:
  "lifecycleOutcome db step err db' \<Longrightarrow> serviceOutcome db step (classifyDestinationLifecycleError err) db'"
  by (cases err)
    (auto simp: lifecycleOutcome_def serviceOutcome_def safeLifecycleError_def classify_safe outcomeUnknown_def
      classifyDestinationLifecycleError_def [of None])

lemma serviceOutcome_rejected:
  "kind \<in> lifecycleKinds \<Longrightarrow> serviceOutcome db step (Some (stateErr kind)) db"
  by (simp add: serviceOutcome_def)

locale lifecycle_contract =
  fixes api :: "'w lifecycleAPI" and tables :: "'w \<Rightarrow> gateway_db" and ready :: "'w \<Rightarrow> bool"
  assumes refines: "ready w \<Longrightarrow> after (apiRun api cmd) w (\<lambda>err w'.
      ready w' \<and> lifecycleOutcome (tables w) (commandStep cmd (tables w)) err (tables w'))"
    and inspects: "ready w \<Longrightarrow> after (api_InspectLifecycleState api audience destination now) w (\<lambda>r w'.
      ready w' \<and> tables w' = tables w \<and>
      (case r of Inl e \<Rightarrow> safeLifecycleError e
       | Inr sn \<Rightarrow> \<exists>st. lockedStateOf audience destination now (tables w) = Some st \<and> sn = ls_snapshot st))"
begin

lemma quiet_after:
  "quiet ready tables p \<Longrightarrow> ready w \<Longrightarrow> (\<And>x w'. ready w' \<Longrightarrow> tables w' = tables w \<Longrightarrow> Q x w') \<Longrightarrow> after p w Q"
  unfolding quiet_def by (blast intro: after_mono)

lemma cancellation_quiet:
  assumes "quiet ready tables ctxErr" "ready w"
  shows "after (lifecycleCancellation ctxErr ctx err) w (\<lambda>c w'. ready w' \<and> tables w' = tables w \<and>
    (\<forall>e. c = Some e \<longrightarrow> e \<in> stateErr ` lifecycleKinds))"
  unfolding lifecycleCancellation_def
  by (intro after_intro quiet_after [OF assms(1)]) (use assms(2) in auto)

lemma operationInput_after:
  assumes "quietService ready tables ctxErr svc" "ready w"
  shows "after (operationInput ctxErr (Some svc) ctx audience destination) w (\<lambda>r w'. ready w' \<and> tables w' = tables w \<and>
    (case r of Inl e \<Rightarrow> e \<in> stateErr ` lifecycleKinds | Inr now \<Rightarrow> now \<noteq> 0))"
  unfolding operationInput_def option.case
  by (intro after_intro after_mono [OF cancellation_quiet] quiet_after [of "svc_clock svc"])
    (use assms in \<open>auto simp: quietService_def IsZero_def\<close>)

lemma recordOperationInput_after:
  assumes "quietService ready tables ctxErr svc" "ready w"
  shows "after (recordOperationInput ctxErr (Some svc) ctx audience destination r) w (\<lambda>r w'. ready w' \<and> tables w' = tables w \<and>
    (case r of Inl e \<Rightarrow> e \<in> stateErr ` lifecycleKinds | Inr now \<Rightarrow> now \<noteq> 0))"
  unfolding recordOperationInput_def
  by (intro after_intro after_mono [OF operationInput_after [OF assms(1)]]) (use assms(2) in \<open>auto split: sum.splits\<close>)

lemma pairOperationInput_after:
  assumes "quietService ready tables ctxErr svc" "ready w"
  shows "after (pairOperationInput ctxErr (Some svc) ctx audience destination r1 r2) w (\<lambda>r w'. ready w' \<and> tables w' = tables w \<and>
    (case r of Inl e \<Rightarrow> e \<in> stateErr ` lifecycleKinds | Inr now \<Rightarrow> now \<noteq> 0))"
  unfolding pairOperationInput_def
  by (intro after_intro after_mono [OF recordOperationInput_after [OF assms(1)]]) (use assms(2) in \<open>auto split: sum.splits\<close>)

lemma with_repository_after:
  assumes "svc_repository svc = api" "ready w" "\<And>now. input = Inr now \<Longrightarrow> call api now = apiRun api (cmd now)"
    "\<And>e. input = Inl e \<Longrightarrow> e \<in> stateErr ` lifecycleKinds"
  shows "after (with_repository (Some svc) input call) w (\<lambda>err w'. ready w' \<and>
    (\<exists>now. serviceOutcome (tables w) (commandStep (cmd now) (tables w)) err (tables w')))"
proof (cases input)
  case (Inl e)
  with assms(2,4) show ?thesis by (auto simp: with_repository_def after_simps serviceOutcome_def)
next
  case (Inr now)
  have "after (call api now) w (\<lambda>err w'. ready w' \<and> lifecycleOutcome (tables w) (commandStep (cmd now) (tables w)) err (tables w'))"
    unfolding assms(3) [OF Inr] by (rule refines [OF assms(2)])
  with Inr assms(1) show ?thesis
    by (auto simp: with_repository_def after_simps intro: classify_outcome elim!: after_mono)
qed

end

subsection \<open>What the service does\<close>

text \<open>The candidate of an issued token: its verifier is the one of the token handed out, under the
  active key.\<close>

definition issuedAs ::
  "'w DestinationTokenLifecycleService \<Rightarrow> GatewayAudienceID \<Rightarrow> DestinationID \<Rightarrow> OpaqueDestinationToken \<Rightarrow> bool \<Rightarrow> gostring \<Rightarrow>
   StagedTokenCandidate \<Rightarrow> bool" where
  "issuedAs svc audience destination currentToken rotation encoded c =
     (\<exists>raw key. ParseOpaqueDestinationToken encoded = Inr raw \<and> (rotation \<longrightarrow> raw \<noteq> currentToken) \<and>
        ComputeDestinationTokenVerifier audience raw key = Inr (sc_verifier c) \<and>
        sc_verifierKeyID c = svc_activeKeyID svc \<and> sc_audienceID c = audience \<and> sc_destination c = destination \<and>
        sc_expiresAt c = sc_createdAt c + svc_tokenLifetime svc \<and>
        sc_stagedCleanupDeadline c = sc_createdAt c + svc_cleanupDuration svc)"

definition createCommand :: "bool \<Rightarrow> DestinationTokenRecordID \<Rightarrow> StagedTokenCandidate \<Rightarrow> lifecycle_command" where
  "createCommand rotation expected c =
     (if rotation then CreateRotationStaged \<lparr>cr_candidate = c, cr_expectedActiveRecordID = expected, cr_now = sc_createdAt c\<rparr>
      else CreateStaged c (sc_createdAt c))"

definition createPost ::
  "gateway_db \<Rightarrow> gateway_db \<Rightarrow> (gostring \<Rightarrow> StagedTokenCandidate \<Rightarrow> bool) \<Rightarrow> (StagedTokenCandidate \<Rightarrow> lifecycle_command) \<Rightarrow>
   CreatedStagedToken \<times> go_error option \<Rightarrow> bool" where
  "createPost db db' issued cmd outcome =
     (case outcome of (created, err) \<Rightarrow>
        (case err of
           None \<Rightarrow> \<exists>c. issued (ct_token created) c \<and> sc_recordID c = ct_recordID created \<and> commandStep (cmd c) db = Some db'
         | Some e \<Rightarrow> e \<in> stateErr ` lifecycleKinds \<and> ct_token created = [] \<and>
             (if e = stateErr ErrDestinationLifecycleOutcomeUnknown
              then db' = db \<or> (\<exists>c. sc_recordID c = ct_recordID created \<and> commandStep (cmd c) db = Some db')
              else db' = db \<and> created = noStagedToken)))"

context lifecycle_contract begin

lemma store_candidate_after:
  assumes "svc_repository svc = api" "ready w" "issued encoded c" "now = sc_createdAt c"
  shows "after (store_candidate svc c expected now rotation encoded) w (\<lambda>outcome w'. ready w' \<and>
    createPost (tables w) (tables w') issued (createCommand rotation expected) outcome)"
proof -
  have run: "after (apiRun api (createCommand rotation expected c)) w (\<lambda>err w'. ready w' \<and>
      serviceOutcome (tables w) (commandStep (createCommand rotation expected c) (tables w))
        (classifyDestinationLifecycleError err) (tables w'))"
    by (rule after_mono [OF refines [OF assms(2)]]) (auto intro: classify_outcome)
  have finish: "createPost (tables w) (tables w') issued (createCommand rotation expected) (stored_outcome c encoded err)"
    if "serviceOutcome (tables w) (commandStep (createCommand rotation expected c) (tables w))
        (classifyDestinationLifecycleError err) (tables w')" for err w'
    using that assms(3)
    by (cases "classifyDestinationLifecycleError err")
      (auto simp: serviceOutcome_def createPost_def noStagedToken_def stored_outcome_def)
  have stored: "after (State_Monad.bind (apiRun api (createCommand rotation expected c))
      (\<lambda>err. State_Monad.return (stored_outcome c encoded err))) w
      (\<lambda>outcome w'. ready w' \<and> createPost (tables w) (tables w') issued (createCommand rotation expected) outcome)"
    unfolding after_bind after_return by (rule after_mono [OF run]) (auto intro: finish)
  show ?thesis
  proof (cases "NewCreateRotationStagedTokenCommand c expected now")
    case (Inl e)
    with stored assms show ?thesis
      by (cases rotation) (simp_all add: store_candidate_def createCommand_def after_simps createPost_def noStagedToken_def)
  next
    case (Inr command)
    then have "command = \<lparr>cr_candidate = c, cr_expectedActiveRecordID = expected, cr_now = sc_createdAt c\<rparr>"
      using assms(4) by (auto simp: NewCreateRotationStagedTokenCommand_def split: if_splits sum.splits dest: revalidateCandidate_same)
    with stored Inr assms(1,4) show ?thesis
      by (cases rotation) (simp_all add: store_candidate_def createCommand_def)
  qed
qed

lemma createPost_rejected:
  "kind \<in> lifecycleKinds \<Longrightarrow> createPost db db issued cmd (noStagedToken, Some (stateErr kind))"
  by (simp add: createPost_def noStagedToken_def)

lemma createPost_canceled:
  "e \<in> stateErr ` lifecycleKinds \<Longrightarrow> createPost db db issued cmd (noStagedToken, Some e)"
  by (auto intro: createPost_rejected)

lemma issue_token_after:
  assumes "quietService ready tables ctxErr svc" "svc_repository svc = api" "ready w"
  shows "after (issue_token ctxErr svc ctx audience destination expected current rotation now recordID entropy) w
    (\<lambda>outcome w'. ready w' \<and> createPost (tables w) (tables w')
       (issuedAs svc audience destination current rotation) (createCommand rotation expected) outcome)"
  unfolding issue_token_def Let_def
  by (intro after_intro quiet_after [of "svc_keys svc audience (svc_activeKeyID svc)"]
      after_mono [OF cancellation_quiet] after_mono [OF store_candidate_after [OF assms(2)]];
      use assms in \<open>auto simp: quietService_def issuedAs_def NewStagedTokenCandidate_iff Add_def
        intro!: createPost_rejected createPost_canceled\<close>)

lemma generate_material_after:
  assumes "quietService ready tables ctxErr svc" "ready w"
  shows "after (generate_material svc) w (\<lambda>_ w'. ready w' \<and> tables w' = tables w)"
  unfolding generate_material_def
  by (intro after_intro quiet_after [of "svc_recordIDs svc"] quiet_after [of "svc_random svc"])
    (use assms in \<open>auto simp: quietService_def\<close>)

lemma generate_token_after:
  assumes "quietService ready tables ctxErr svc" "svc_repository svc = api" "ready w"
  shows "after (generate_token ctxErr svc ctx audience destination expected current rotation now) w
    (\<lambda>outcome w'. ready w' \<and> createPost (tables w) (tables w')
       (issuedAs svc audience destination current rotation) (createCommand rotation expected) outcome)"
  unfolding generate_token_def
  by (intro after_intro after_mono [OF generate_material_after [OF assms(1)]] after_mono [OF cancellation_quiet]
      after_mono [OF issue_token_after [OF assms(1,2)]];
      use assms in \<open>auto simp: quietService_def intro!: createPost_rejected createPost_canceled\<close>)

lemma createStagedToken_after:
  assumes "quietService ready tables ctxErr svc" "svc_repository svc = api" "ready w"
  shows "after (service_createStagedToken ctxErr (Some svc) ctx audience destination expected current rotation) w
    (\<lambda>outcome w'. ready w' \<and> createPost (tables w) (tables w')
       (issuedAs svc audience destination current rotation) (createCommand rotation expected) outcome)"
  unfolding service_createStagedToken_def prod.case option.case
  by (intro after_intro after_mono [OF operationInput_after [OF assms(1)]]
      after_mono [OF generate_token_after [OF assms(1,2)]];
      use assms in \<open>auto intro!: createPost_canceled\<close>)

lemma with_input_after:
  fixes f :: "time result \<Rightarrow> time result"
  assumes "after p w (\<lambda>r w'. ready w' \<and> tables w' = tables w \<and>
      (case r of Inl e \<Rightarrow> e \<in> stateErr ` lifecycleKinds | Inr now \<Rightarrow> now \<noteq> 0))"
    "svc_repository svc = api" "\<And>now. call api now = apiRun api (cmd now)"
    "\<And>r. (case r of Inl e \<Rightarrow> e \<in> stateErr ` lifecycleKinds | Inr now \<Rightarrow> now \<noteq> 0) \<Longrightarrow>
       (case f r of Inl e \<Rightarrow> e \<in> stateErr ` lifecycleKinds | Inr now \<Rightarrow> True)"
  shows "after (State_Monad.bind p (\<lambda>input. with_repository (Some svc) (f input) call)) w (\<lambda>err w'. ready w' \<and>
    (\<exists>now. serviceOutcome (tables w) (commandStep (cmd now) (tables w)) err (tables w')))"
  unfolding after_bind
proof (rule after_mono [OF assms(1)])
  fix r :: "time result" and w1
  assume r: "ready w1 \<and> tables w1 = tables w \<and> (case r of Inl e \<Rightarrow> e \<in> stateErr ` lifecycleKinds | Inr now \<Rightarrow> now \<noteq> 0)"
  then have "after (with_repository (Some svc) (f r) call) w1 (\<lambda>err w'. ready w' \<and>
      (\<exists>now. serviceOutcome (tables w1) (commandStep (cmd now) (tables w1)) err (tables w')))"
    using assms(2-4) by (intro with_repository_after) (auto dest: assms(4))
  with r show "after (with_repository (Some svc) (f r) call) w1 (\<lambda>err w'. ready w' \<and>
      (\<exists>now. serviceOutcome (tables w) (commandStep (cmd now) (tables w)) err (tables w')))" by simp
qed

lemma service_commands_after:
  assumes "quietService ready tables ctxErr svc" "svc_repository svc = api" "ready w"
  shows "after (service_ActivateInitialToken ctxErr (Some svc) ctx a d r) w (\<lambda>err w'. ready w' \<and>
      (\<exists>now. serviceOutcome (tables w) (commandStep (ActivateInitial a d r now) (tables w)) err (tables w')))"
    "after (service_AbortStagedToken ctxErr (Some svc) ctx a d r) w (\<lambda>err w'. ready w' \<and>
      (\<exists>now. serviceOutcome (tables w) (commandStep (AbortStaged a d r now) (tables w)) err (tables w')))"
    "after (service_RollbackRotation ctxErr (Some svc) ctx a d r1 r2) w (\<lambda>err w'. ready w' \<and>
      (\<exists>now. serviceOutcome (tables w) (commandStep (RollbackRotate \<lparr>rb_AudienceID = a, rb_DestinationID = d,
        rb_NewActiveRecordID = r1, rb_OldRetiringRecordID = r2, rb_Now = now\<rparr>) (tables w)) err (tables w')))"
    "after (service_FinalizeRotation ctxErr (Some svc) ctx a d r1 r2 reason) w (\<lambda>err w'. ready w' \<and>
      (\<exists>now. serviceOutcome (tables w) (commandStep (FinalizeRotate \<lparr>fc_AudienceID = a, fc_DestinationID = d,
        fc_NewActiveRecordID = r1, fc_OldRetiringRecordID = r2, fc_Reason = reason, fc_Now = now\<rparr>) (tables w)) err (tables w')))"
proof -
  note one = recordOperationInput_after [OF assms(1,3)] and two = pairOperationInput_after [OF assms(1,3)]
  show "after (service_ActivateInitialToken ctxErr (Some svc) ctx a d r) w (\<lambda>err w'. ready w' \<and>
      (\<exists>now. serviceOutcome (tables w) (commandStep (ActivateInitial a d r now) (tables w)) err (tables w')))"
    unfolding service_ActivateInitialToken_def
    by (rule with_input_after [OF one assms(2), where f = "\<lambda>r. r"]) (auto split: sum.splits)
  show "after (service_AbortStagedToken ctxErr (Some svc) ctx a d r) w (\<lambda>err w'. ready w' \<and>
      (\<exists>now. serviceOutcome (tables w) (commandStep (AbortStaged a d r now) (tables w)) err (tables w')))"
    unfolding service_AbortStagedToken_def
    by (rule with_input_after [OF one assms(2), where f = "\<lambda>r. r"]) (auto split: sum.splits)
  show "after (service_RollbackRotation ctxErr (Some svc) ctx a d r1 r2) w (\<lambda>err w'. ready w' \<and>
      (\<exists>now. serviceOutcome (tables w) (commandStep (RollbackRotate \<lparr>rb_AudienceID = a, rb_DestinationID = d,
        rb_NewActiveRecordID = r1, rb_OldRetiringRecordID = r2, rb_Now = now\<rparr>) (tables w)) err (tables w')))"
    unfolding service_RollbackRotation_def
    by (rule with_input_after [OF two assms(2), where f = "\<lambda>r. r"]) (auto split: sum.splits)
  show "after (service_FinalizeRotation ctxErr (Some svc) ctx a d r1 r2 reason) w (\<lambda>err w'. ready w' \<and>
      (\<exists>now. serviceOutcome (tables w) (commandStep (FinalizeRotate \<lparr>fc_AudienceID = a, fc_DestinationID = d,
        fc_NewActiveRecordID = r1, fc_OldRetiringRecordID = r2, fc_Reason = reason, fc_Now = now\<rparr>) (tables w)) err (tables w')))"
    unfolding service_FinalizeRotation_def
    by (rule with_input_after [OF two assms(2)]) (auto split: sum.splits)
qed

lemma service_ActivateRotation_after:
  assumes "quietService ready tables ctxErr svc" "svc_repository svc = api" "ready w"
  shows "after (service_ActivateRotation ctxErr (Some svc) ctx a d staged oldActive) w (\<lambda>r w'. ready w' \<and>
    (\<exists>now deadline. serviceOutcome (tables w) (commandStep (ActivateRotate \<lparr>ac_AudienceID = a, ac_DestinationID = d,
        ac_StagedRecordID = staged, ac_OldActiveRecordID = oldActive, ac_Now = now, ac_OverlapDeadline = deadline\<rparr>) (tables w))
        (case r of Inl e \<Rightarrow> Some e | Inr receipt \<Rightarrow> None) (tables w') \<and>
      (\<forall>receipt. r = Inr receipt \<longrightarrow> rr_activatedAt receipt = now \<and> rr_retirementDeadline receipt = deadline)))"
proof -
  let ?cmd = "\<lambda>now deadline. ActivateRotate \<lparr>ac_AudienceID = a, ac_DestinationID = d, ac_StagedRecordID = staged,
    ac_OldActiveRecordID = oldActive, ac_Now = now, ac_OverlapDeadline = deadline\<rparr>"
  have run: "after (api_ActivateRotation api \<lparr>ac_AudienceID = a, ac_DestinationID = d, ac_StagedRecordID = staged,
      ac_OldActiveRecordID = oldActive, ac_Now = now, ac_OverlapDeadline = deadline\<rparr>) w1
      (\<lambda>err w'. ready w' \<and> serviceOutcome (tables w) (commandStep (?cmd now deadline) (tables w))
        (classifyDestinationLifecycleError err) (tables w'))"
    if "ready w1" "tables w1 = tables w" for w1 now deadline
    using refines [OF that(1), of "?cmd now deadline"] that(2)
    by (auto intro: classify_outcome elim!: after_mono)
  have receipt: "NewDestinationTokenRotationActivationReceipt t u = Inr receipt \<Longrightarrow>
      rr_activatedAt receipt = t \<and> rr_retirementDeadline receipt = u" for t u receipt
    by (auto simp: NewDestinationTokenRotationActivationReceipt_def Let_def split: if_splits)
  show ?thesis
    unfolding service_ActivateRotation_def prod.case option.case assms(2) Let_def
    by (intro after_intro after_mono [OF pairOperationInput_after [OF assms(1)]] after_mono [OF run];
        use assms(3) in \<open>auto simp: serviceOutcome_def dest: receipt split: option.splits\<close>)
qed

lemma service_InspectLifecycleState_after:
  assumes "quietService ready tables ctxErr svc" "svc_repository svc = api" "ready w"
  shows "after (service_InspectLifecycleState ctxErr (Some svc) ctx a d) w (\<lambda>r w'. ready w' \<and> tables w' = tables w \<and>
    (case r of Inl e \<Rightarrow> e \<in> stateErr ` lifecycleKinds
     | Inr sn \<Rightarrow> \<exists>now st. lockedStateOf a d now (tables w) = Some st \<and> sn = ls_snapshot st))"
proof -
  have kind: "safeLifecycleError e \<Longrightarrow> classifyDestinationLifecycleInspectionError e \<in> stateErr ` lifecycleKinds" for e
    by (auto simp: safeLifecycleError_def classifyDestinationLifecycleInspectionError_def matches_safe
        split: option.splits dest: find_kind)
  show ?thesis
    unfolding service_InspectLifecycleState_def prod.case option.case assms(2)
    by (intro after_intro after_mono [OF operationInput_after [OF assms(1)]] after_mono [OF inspects];
        use assms(3) in \<open>auto intro: kind split: sum.splits\<close>)
qed

end

subsection \<open>The PostgreSQL repository fulfils the contract\<close>

definition repositoryAPI ::
  "(go_error \<Rightarrow> bool) \<Rightarrow> lifecycleRepository option \<Rightarrow> go_context \<Rightarrow> gateway_db session lifecycleAPI" where
  "repositoryAPI timeout repository ctx =
     \<lparr>api_CreateStagedToken = CreateStagedToken timeout repository ctx,
      api_CreateRotationStagedToken = CreateRotationStagedToken timeout repository ctx,
      api_ActivateInitialToken = ActivateInitialToken timeout repository ctx,
      api_ActivateRotation = ActivateRotation timeout repository ctx,
      api_AbortStagedToken = AbortStagedToken timeout repository ctx,
      api_RollbackRotation = RollbackRotation timeout repository ctx,
      api_FinalizeRotation = FinalizeRotation timeout repository ctx,
      api_InspectLifecycleState = InspectLifecycleState timeout repository ctx\<rparr>"

definition idle :: "'db session \<Rightarrow> bool" where
  "idle s = (driver_honest s \<and> s_tx s = None)"

interpretation pg: lifecycle_contract "repositoryAPI timeout repository ctx" s_db idle
  for timeout repository ctx
proof
  fix w :: "gateway_db session" and cmd
  assume "idle w"
  then have idle: "driver_honest w" "s_tx w = None" by (simp_all add: idle_def)
  have "apiRun (repositoryAPI timeout repository ctx) cmd = commandRun timeout repository ctx cmd"
    by (cases cmd) (simp_all add: repositoryAPI_def)
  with command_after [OF idle, of timeout repository ctx cmd] idle(1)
  show "after (apiRun (repositoryAPI timeout repository ctx) cmd) w (\<lambda>err w'.
      idle w' \<and> lifecycleOutcome (s_db w) (commandStep cmd (s_db w)) err (s_db w'))"
    by (auto simp: idle_def mutationPost_def driver_honest_def elim!: after_mono)
next
  fix w :: "gateway_db session" and audience destination now
  assume "idle w"
  then have idle: "driver_honest w" "s_tx w = None" by (simp_all add: idle_def)
  from inspect_lifecycle_after [OF idle(2), of timeout repository ctx audience destination now] idle(1)
  show "after (api_InspectLifecycleState (repositoryAPI timeout repository ctx) audience destination now) w (\<lambda>r w'.
      idle w' \<and> s_db w' = s_db w \<and>
      (case r of Inl e \<Rightarrow> safeLifecycleError e
       | Inr sn \<Rightarrow> \<exists>st. lockedStateOf audience destination now (s_db w) = Some st \<and> sn = ls_snapshot st))"
    by (auto simp: repositoryAPI_def idle_def inspectionPost_def driver_honest_def elim!: after_mono)
qed

subsection \<open>A concrete service\<close>

definition sampleService :: "gateway_db session DestinationTokenLifecycleService" where
  "sampleService = \<lparr>svc_clock = State_Monad.return 5000, svc_random = State_Monad.return (Inr 11),
     svc_recordIDs = State_Monad.return (Inr 3),
     svc_repository = repositoryAPI (\<lambda>_. False) (NewDestinationTokenLifecycleRepository False) CallContext,
     svc_keys = (\<lambda>audience keyID. State_Monad.return (Inr (replicate 32 7))), svc_activeKeyID = str ''k'',
     svc_tokenLifetime = 85000, svc_cleanupDuration = 45000, svc_overlapDuration = 20000\<rparr>"

lemma sample_service:
  "quietService idle s_db (State_Monad.return None) sampleService"
  "svc_repository sampleService = repositoryAPI (\<lambda>_. False) (NewDestinationTokenLifecycleRepository False) CallContext"
  "idle (sampleSession [] sampleDb)" "idle (sampleSession [] stagedDb)"
  by (simp_all add: quietService_def quiet_def sampleService_def after_simps idle_def driver_honest_def sampleSession_def)





end
