(* ===== verification/Destination_Resolver.thy ===== *)
theory Destination_Resolver
  imports Lifecycle_Service
begin

section \<open>The resolver of opaque destination tokens\<close>

text \<open>
  \<^verbatim>\<open>internal/postgres/destination_resolver.go\<close>: a raw token is turned into one verifier per configured
  key, each verifier is looked up in the token table, and the one match that parses and is usable
  gives the destination. A query outside a transaction runs on the committed tables. The key
  source is a parameter that may use the session.
\<close>

subsection \<open>The query\<close>

record destinationVerifierCandidate =
  vc_keyID :: DestinationVerifierKeyID
  vc_verifier :: TokenVerifier

record destinationTokenRecord =
  dt_count :: nat
  dt_recordText :: gostring
  dt_audienceText :: gostring
  dt_destinationText :: gostring
  dt_verifierBytes :: "byte list"
  dt_keyIDText :: gostring
  dt_stateText :: gostring
  dt_createdAt :: Timestamptz
  dt_activatedAt :: Timestamptz
  dt_retirementStartedAt :: Timestamptz
  dt_revokedAt :: Timestamptz
  dt_expiresAt :: Timestamptz
  dt_stagedCleanupDeadline :: Timestamptz
  dt_retirementDeadline :: Timestamptz
  dt_stateChangedAt :: Timestamptz
  dt_destinationRecordText :: "gostring option"
  dt_destinationAudienceText :: "gostring option"
  dt_destinationStateText :: "gostring option"
  dt_destinationCreatedAt :: Timestamptz
  dt_destinationStateChangedAt :: Timestamptz

text \<open>The row of the join as it is scanned: \<open>None\<close> is the missing side of the left join.\<close>

definition scanDestinationToken :: "nat \<Rightarrow> token_row \<times> destination_row option \<Rightarrow> destinationTokenRecord" where
  "scanDestinationToken rowCount joined =
     (case joined of (token, destination) \<Rightarrow>
        \<lparr>dt_count = rowCount, dt_recordText = formatUUID (tr_record_id token),
         dt_audienceText = formatUUID (tr_gateway_audience_id token),
         dt_destinationText = formatUUID (tr_destination_id token),
         dt_verifierBytes = tr_token_verifier token, dt_keyIDText = tr_verifier_key_id token,
         dt_stateText = tr_token_state token,
         dt_createdAt = scanTimestamptz (Some (tr_created_at token)),
         dt_activatedAt = scanTimestamptz (tr_activated_at token),
         dt_retirementStartedAt = scanTimestamptz (tr_retirement_started_at token),
         dt_revokedAt = scanTimestamptz (tr_revoked_at token),
         dt_expiresAt = scanTimestamptz (Some (tr_expires_at token)),
         dt_stagedCleanupDeadline = scanTimestamptz (Some (tr_staged_cleanup_deadline token)),
         dt_retirementDeadline = scanTimestamptz (tr_retirement_overlap_deadline token),
         dt_stateChangedAt = scanTimestamptz (Some (tr_state_changed_at token)),
         dt_destinationRecordText = map_option (\<lambda>d. formatUUID (dr_destination_id d)) destination,
         dt_destinationAudienceText = map_option (\<lambda>d. formatUUID (dr_gateway_audience_id d)) destination,
         dt_destinationStateText = map_option dr_destination_state destination,
         dt_destinationCreatedAt = scanTimestamptz (map_option dr_created_at destination),
         dt_destinationStateChangedAt = scanTimestamptz (map_option dr_state_changed_at destination)\<rparr>)"

definition joinDestination :: "destination_row list \<Rightarrow> token_row \<Rightarrow> (token_row \<times> destination_row option) list" where
  "joinDestination destinations token =
     (case filter (\<lambda>d. dr_destination_id d = tr_destination_id token) destinations of
        [] \<Rightarrow> [(token, None)]
      | joined \<Rightarrow> map (\<lambda>d. (token, Some d)) joined)"

definition selectDestinationTokenSQL ::
  "GatewayAudienceID \<Rightarrow> DestinationVerifierKeyID \<Rightarrow> byte list \<Rightarrow> gateway_db \<Rightarrow> destinationTokenRecord option" where
  "selectDestinationTokenSQL audience keyID verifier db =
     (let rows = concat (map (joinDestination (db_destinations db))
        (filter (\<lambda>t. tr_gateway_audience_id t = audience \<and> tr_verifier_key_id t = keyID \<and> tr_token_verifier t = verifier)
          (db_tokens db)))
      in case rows of
           [] \<Rightarrow> None
         | row # _ \<Rightarrow> Some (scanDestinationToken (length rows) row))"

subsection \<open>Parsing the record\<close>

text \<open>\<^verbatim>\<open>resolverIntegrity\<close> stands for the error every rejection of a record returns; the constructor's own
  errors pass unchanged.\<close>

abbreviation resolverIntegrity :: "'a result" where
  "resolverIntegrity \<equiv> Inl (postgresErr ErrDestinationResolverIntegrity)"

definition tokenOfRecord ::
  "destinationTokenRecord \<Rightarrow> GatewayAudienceID \<Rightarrow> DestinationTokenRecordID \<Rightarrow> TokenVerifier \<Rightarrow> DestinationVerifierKeyID \<Rightarrow>
   Destination \<Rightarrow> DestinationTokenSpec result" where
  "tokenOfRecord record audience recordID storedVerifier storedKeyID destination =
     (case (destinationTokenState (dt_stateText record), optionalFiniteTime (dt_activatedAt record),
            optionalFiniteTime (dt_retirementStartedAt record), optionalFiniteTime (dt_revokedAt record),
            optionalFiniteTime (dt_retirementDeadline record)) of
        (Inr st, Inr activatedAt, Inr retirementStartedAt, Inr revokedAt, Inr retirementDeadline) \<Rightarrow>
          NewDestinationToken
            \<lparr>ts_AudienceID = audience, ts_Destination = destination, ts_RecordID = recordID,
             ts_Verifier = storedVerifier, ts_VerifierKeyID = storedKeyID, ts_State = st,
             ts_CreatedAt = tz_Time (dt_createdAt record), ts_ActivatedAt = activatedAt,
             ts_RetirementStartedAt = retirementStartedAt, ts_RevokedAt = revokedAt,
             ts_ExpiresAt = tz_Time (dt_expiresAt record),
             ts_StagedCleanupDeadline = tz_Time (dt_stagedCleanupDeadline record),
             ts_RetirementDeadline = retirementDeadline,
             ts_StateChangedAt = tz_Time (dt_stateChangedAt record)\<rparr>
      | _ \<Rightarrow> resolverIntegrity)"

definition destinationOfRecord ::
  "destinationTokenRecord \<Rightarrow> gostring \<Rightarrow> GatewayAudienceID \<Rightarrow> DestinationID \<Rightarrow> Destination result" where
  "destinationOfRecord record stateText destinationAudience destinationRecordID =
     (case destinationState stateText of
        Inl _ \<Rightarrow> resolverIntegrity
      | Inr st \<Rightarrow>
          (case NewDestination destinationAudience destinationRecordID st (tz_Time (dt_destinationCreatedAt record))
                  (tz_Time (dt_destinationStateChangedAt record)) of
             Inl _ \<Rightarrow> resolverIntegrity
           | Inr destination \<Rightarrow> Inr destination))"

definition destinationTokenRecord_token ::
  "GatewayAudienceID \<Rightarrow> destinationVerifierCandidate \<Rightarrow> destinationTokenRecord \<Rightarrow> DestinationTokenSpec result" where
  "destinationTokenRecord_token expectedAudience candidate record =
     (case (dt_destinationRecordText record, dt_destinationAudienceText record, dt_destinationStateText record) of
        (Some destinationRecordText, Some destinationAudienceText, Some destinationStateText) \<Rightarrow>
          if dt_count record \<noteq> 1 \<or> \<not> finiteTimestamp (dt_createdAt record) \<or> \<not> finiteTimestamp (dt_expiresAt record) \<or>
             \<not> finiteTimestamp (dt_stagedCleanupDeadline record) \<or> \<not> finiteTimestamp (dt_stateChangedAt record) \<or>
             \<not> finiteTimestamp (dt_destinationCreatedAt record) \<or> \<not> finiteTimestamp (dt_destinationStateChangedAt record)
          then resolverIntegrity
          else (case (parseUUID (dt_recordText record) False, parseUUID (dt_audienceText record) False,
                  parseUUID (dt_destinationText record) False, NewTokenVerifier (dt_verifierBytes record),
                  NewDestinationVerifierKeyID (dt_keyIDText record), parseUUID destinationRecordText False,
                  parseUUID destinationAudienceText False) of
              (Inr recordID, Inr audience, Inr destinationID, Inr storedVerifier, Inr storedKeyID,
               Inr destinationRecordID, Inr destinationAudience) \<Rightarrow>
                if audience \<noteq> expectedAudience \<or> destinationID \<noteq> destinationRecordID \<or>
                   destinationAudience \<noteq> audience \<or> storedKeyID \<noteq> vc_keyID candidate
                then resolverIntegrity
                else if tv_bytes storedVerifier \<noteq> tv_bytes (vc_verifier candidate) then resolverIntegrity
                else (case destinationOfRecord record destinationStateText destinationAudience destinationRecordID of
                        Inl e \<Rightarrow> Inl e
                      | Inr destination \<Rightarrow> tokenOfRecord record audience recordID storedVerifier storedKeyID destination)
            | _ \<Rightarrow> resolverIntegrity)
      | _ \<Rightarrow> resolverIntegrity)"

subsection \<open>The resolver\<close>

type_synonym verifierKeySource =
  "GatewayAudienceID \<Rightarrow> DestinationVerifierKeyID \<Rightarrow> (gateway_db session, DestinationVerifierKey result) state"

record OpaqueDestinationResolver =
  or_acquire :: "(gateway_db session, bool \<times> go_error option) state option"
  or_keySource :: "verifierKeySource option"
  or_keyIDs :: "DestinationVerifierKeyID list"

text \<open>The loop that copies the configured key identities: each is valid and different from the earlier ones.\<close>

fun configuredKeyIDs :: "DestinationVerifierKeyID list \<Rightarrow> DestinationVerifierKeyID list \<Rightarrow> DestinationVerifierKeyID list option" where
  "configuredKeyIDs configured [] = Some configured"
| "configuredKeyIDs configured (keyID # rest) =
     (case NewDestinationVerifierKeyID keyID of
        Inl _ \<Rightarrow> None
      | Inr parsed \<Rightarrow>
          if parsed \<noteq> keyID then None
          else if keyID \<in> set configured then None
          else configuredKeyIDs (configured @ [keyID]) rest)"

definition newOpaqueDestinationResolver ::
  "(gateway_db session, bool \<times> go_error option) state option \<Rightarrow> verifierKeySource option \<Rightarrow>
   DestinationVerifierKeyID list \<Rightarrow> OpaqueDestinationResolver result" where
  "newOpaqueDestinationResolver acquire keySource keyIDs =
     (if acquire = None \<or> keySource = None \<or> length keyIDs < 1 \<or> length keyIDs > 2
      then Inl (safeError (postgresErr ErrDestinationResolverIntegrity) ''destination resolver configuration'')
      else (case configuredKeyIDs [] keyIDs of
              None \<Rightarrow> Inl (safeError (postgresErr ErrDestinationResolverIntegrity) ''destination resolver configuration'')
            | Some configured \<Rightarrow>
                Inr \<lparr>or_acquire = acquire, or_keySource = keySource, or_keyIDs = configured\<rparr>))"

text \<open>The acquisition over a pool.\<close>

definition resolver_acquire :: "('db session, bool \<times> go_error option) state" where
  "resolver_acquire = do {
     (connection, err) \<leftarrow> pool_Acquire;
     case err of
       Some e \<Rightarrow> do {
         (if connection then connection_Destroy else State_Monad.return ());
         State_Monad.return (False, Some e) }
     | None \<Rightarrow>
         if \<not> connection
         then State_Monad.return (False, Some (postgresErr ErrDestinationResolverUnavailable))
         else State_Monad.return (True, None) }"

definition NewOpaqueDestinationResolver ::
  "bool \<Rightarrow> verifierKeySource option \<Rightarrow> DestinationVerifierKeyID list \<Rightarrow> OpaqueDestinationResolver result" where
  "NewOpaqueDestinationResolver nilPool keySource keyIDs =
     (if nilPool
      then Inl (safeError (postgresErr ErrDestinationResolverIntegrity) ''destination resolver configuration'')
      else newOpaqueDestinationResolver (Some resolver_acquire) keySource keyIDs)"

text \<open>\<^verbatim>\<open>destinationResolverContextSentinel\<close>: an error is classified by itself, a nil error by two evaluations
  of \<^verbatim>\<open>ctx.Err()\<close>.\<close>

definition destinationResolverContextSentinel :: "go_error option \<Rightarrow> ('db session, go_error option) state" where
  "destinationResolverContextSentinel err =
     (case err of
        Some e \<Rightarrow> State_Monad.return
          (if destinationResolverSingleCauseMatches e (Context Canceled) then Some (contextErr Canceled)
           else if destinationResolverSingleCauseMatches e (Context DeadlineExceeded)
           then Some (contextErr DeadlineExceeded) else None)
      | None \<Rightarrow> do {
          first \<leftarrow> ctx_Err;
          if first = Some (contextErr Canceled) then State_Monad.return (Some (contextErr Canceled))
          else do {
            second \<leftarrow> ctx_Err;
            State_Monad.return
              (if second = Some (contextErr DeadlineExceeded) then Some (contextErr DeadlineExceeded) else None) } })"

fun verifier_candidates ::
  "verifierKeySource \<Rightarrow> GatewayAudienceID \<Rightarrow> OpaqueDestinationToken \<Rightarrow> DestinationVerifierKeyID list \<Rightarrow>
   destinationVerifierCandidate list \<Rightarrow> bool \<Rightarrow>
   (gateway_db session, (destinationVerifierCandidate list \<times> bool) result) state" where
  "verifier_candidates keySource audience rawToken [] candidates unavailable =
     State_Monad.return (Inr (candidates, unavailable))"
| "verifier_candidates keySource audience rawToken (keyID # rest) candidates unavailable = do {
     fetched \<leftarrow> keySource audience keyID;
     cancellation \<leftarrow> destinationResolverContextSentinel (case fetched of Inl e \<Rightarrow> Some e | Inr _ \<Rightarrow> None);
     case cancellation of
       Some c \<Rightarrow> State_Monad.return (Inl (safeError c ''destination verifier key''))
     | None \<Rightarrow>
         (case fetched of
            Inl _ \<Rightarrow> verifier_candidates keySource audience rawToken rest candidates True
          | Inr key \<Rightarrow>
              if length key < sha256_Size then verifier_candidates keySource audience rawToken rest candidates True
              else (case ComputeDestinationTokenVerifier audience rawToken key of
                      Inl _ \<Rightarrow> verifier_candidates keySource audience rawToken rest candidates True
                    | Inr verifier \<Rightarrow> verifier_candidates keySource audience rawToken rest
                        (candidates @ [\<lparr>vc_keyID = keyID, vc_verifier = verifier\<rparr>]) unavailable)) }"

definition verifierCandidates ::
  "verifierKeySource \<Rightarrow> DestinationVerifierKeyID list \<Rightarrow> GatewayAudienceID \<Rightarrow> OpaqueDestinationToken \<Rightarrow>
   (gateway_db session, destinationVerifierCandidate list result) state" where
  "verifierCandidates keySource keyIDs audience rawToken = do {
     collected \<leftarrow> verifier_candidates keySource audience rawToken keyIDs [] False;
     State_Monad.return (case collected of
         Inl e \<Rightarrow> Inl e
       | Inr (candidates, unavailable) \<Rightarrow>
           if unavailable \<or> length candidates \<noteq> length keyIDs
           then Inl (safeError (postgresErr ErrDestinationResolverUnavailable) ''destination verifier key'')
           else Inr candidates) }"

text \<open>\<^verbatim>\<open>finish\<close>.\<close>

definition finish_connection :: "bool \<Rightarrow> ('db session, unit) state" where
  "finish_connection destroy = (if destroy then connection_Destroy else connection_Release)"

definition lookup_failed :: "bool \<Rightarrow> go_error \<Rightarrow> ('db session, 'a result) state" where
  "lookup_failed destroy kind = do {
     finish_connection destroy;
     State_Monad.return (Inl (safeError kind ''destination token lookup query'')) }"

text \<open>The loop over the candidates, from an acquired connection to its release.\<close>

fun lookup_candidates ::
  "(go_error \<Rightarrow> bool) \<Rightarrow> GatewayAudienceID \<Rightarrow> destinationVerifierCandidate list \<Rightarrow> DestinationTokenSpec list \<Rightarrow> bool \<Rightarrow>
   (gateway_db session, (DestinationTokenSpec list \<times> bool) result) state" where
  "lookup_candidates timeout audience [] matches integrityFailure = do {
     cancellation \<leftarrow> destinationResolverContextSentinel None;
     case cancellation of
       Some c \<Rightarrow> lookup_failed True c
     | None \<Rightarrow> do {
         finish_connection False;
         State_Monad.return (Inr (matches, integrityFailure)) } }"
| "lookup_candidates timeout audience (candidate # rest) matches integrityFailure = do {
     cancellation \<leftarrow> destinationResolverContextSentinel None;
     case cancellation of
       Some c \<Rightarrow> lookup_failed True c
     | None \<Rightarrow> do {
         row \<leftarrow> tx_QueryRow (selectDestinationTokenSQL audience (vc_keyID candidate)
           (be_bytes 32 (tv_bytes (vc_verifier candidate))));
         case row of
           None \<Rightarrow> lookup_failed True (postgresErr ErrDestinationResolverUnavailable)
         | Some scanned \<Rightarrow> do {
             cancellation \<leftarrow> destinationResolverContextSentinel (case scanned of Inl e \<Rightarrow> Some e | Inr _ \<Rightarrow> None);
             case cancellation of
               Some c \<Rightarrow> lookup_failed True c
             | None \<Rightarrow>
                 (case scanned of
                    Inl e \<Rightarrow>
                      if e = Sentinel (Pgx ErrNoRows)
                      then lookup_candidates timeout audience rest matches integrityFailure
                      else lookup_failed (isConnectionInterruption timeout (Some e))
                        (postgresErr ErrDestinationResolverUnavailable)
                  | Inr record \<Rightarrow>
                      (case destinationTokenRecord_token audience candidate record of
                         Inl _ \<Rightarrow> lookup_candidates timeout audience rest matches True
                       | Inr token \<Rightarrow> lookup_candidates timeout audience rest (matches @ [token]) integrityFailure)) } } }"

definition lookup_matches ::
  "(go_error \<Rightarrow> bool) \<Rightarrow> (gateway_db session, bool \<times> go_error option) state \<Rightarrow> GatewayAudienceID \<Rightarrow>
   destinationVerifierCandidate list \<Rightarrow> (gateway_db session, DestinationTokenSpec list result) state" where
  "lookup_matches timeout acquire audience candidates = do {
     (connection, err) \<leftarrow> acquire;
     case err of
       Some e \<Rightarrow> do {
         (if connection then connection_Destroy else State_Monad.return ());
         cancellation \<leftarrow> destinationResolverContextSentinel (Some e);
         State_Monad.return (Inl (safeError
           (case cancellation of Some c \<Rightarrow> c | None \<Rightarrow> postgresErr ErrDestinationResolverUnavailable)
           ''destination token lookup connection'')) }
     | None \<Rightarrow>
         if \<not> connection
         then State_Monad.return
           (Inl (safeError (postgresErr ErrDestinationResolverUnavailable) ''destination token lookup connection''))
         else do {
           looked \<leftarrow> lookup_candidates timeout audience candidates [] False;
           State_Monad.return (case looked of
               Inl e \<Rightarrow> Inl e
             | Inr (matches, integrityFailure) \<Rightarrow>
                 if integrityFailure \<or> length matches > 1
                 then Inl (safeError (postgresErr ErrDestinationResolverIntegrity) ''destination token lookup record'')
                 else Inr matches) } }"

definition matchingDestinationTokens ::
  "(go_error \<Rightarrow> bool) \<Rightarrow> (gateway_db session, bool \<times> go_error option) state \<Rightarrow> verifierKeySource \<Rightarrow>
   DestinationVerifierKeyID list \<Rightarrow> GatewayAudienceID \<Rightarrow> OpaqueDestinationToken \<Rightarrow>
   (gateway_db session, DestinationTokenSpec list result) state" where
  "matchingDestinationTokens timeout acquire keySource keyIDs audience rawToken = do {
     collected \<leftarrow> verifierCandidates keySource keyIDs audience rawToken;
     case collected of
       Inl e \<Rightarrow> State_Monad.return (Inl e)
     | Inr candidates \<Rightarrow> lookup_matches timeout acquire audience candidates }"

text \<open>The dependencies of a resolver pointer that is usable: all fields set and one or two keys.\<close>

definition resolverParts ::
  "OpaqueDestinationResolver option \<Rightarrow>
   ((gateway_db session, bool \<times> go_error option) state \<times> verifierKeySource \<times> DestinationVerifierKeyID list) option" where
  "resolverParts resolver =
     (case resolver of
        None \<Rightarrow> None
      | Some rs \<Rightarrow>
          (case (or_acquire rs, or_keySource rs) of
             (Some acquire, Some keySource) \<Rightarrow>
               if length (or_keyIDs rs) < 1 \<or> length (or_keyIDs rs) > 2 then None
               else Some (acquire, keySource, or_keyIDs rs)
           | _ \<Rightarrow> None))"

definition Resolve ::
  "(go_error \<Rightarrow> bool) \<Rightarrow> OpaqueDestinationResolver option \<Rightarrow> go_context \<Rightarrow> GatewayAudienceID \<Rightarrow>
   OpaqueDestinationToken \<Rightarrow> time \<Rightarrow> (gateway_db session, DestinationID result) state" where
  "Resolve timeout resolver ctx expectedAudience rawToken now =
     (let invalid = Inl (safeError (postgresErr ErrDestinationResolverIntegrity) ''destination resolution input'') in
      case resolverParts resolver of
        None \<Rightarrow> State_Monad.return invalid
      | Some (acquire, keySource, keyIDs) \<Rightarrow>
          if ctx = NilContext \<or> expectedAudience = 0 \<or> IsZero now then State_Monad.return invalid
          else if parseUUID (formatUUID expectedAudience) False \<noteq> Inr expectedAudience then State_Monad.return invalid
          else do {
            cancellation \<leftarrow> destinationResolverContextSentinel None;
            case cancellation of
              Some c \<Rightarrow> State_Monad.return (Inl (safeError c ''destination resolution canceled''))
            | None \<Rightarrow> do {
                found \<leftarrow> matchingDestinationTokens timeout acquire keySource keyIDs expectedAudience rawToken;
                State_Monad.return (case found of
                    Inl e \<Rightarrow> Inl e
                  | Inr [] \<Rightarrow> Inl (stateErr ErrDestinationNotFound)
                  | Inr (match # _) \<Rightarrow>
                      if \<not> DestinationToken_UsableAt match now then Inl (stateErr ErrDestinationNotFound)
                      else Inr (de_id (ts_Destination match))) } })"

datatype DestinationTokenRotationTokenIdentity =
    DestinationTokenRotationTokenNew
  | DestinationTokenRotationTokenOld
  | DestinationTokenRotationTokenNeither
  | DestinationTokenRotationTokenUndeclared

definition rotationIdentity ::
  "GatewayAudienceID \<Rightarrow> DestinationID \<Rightarrow> DestinationTokenRecordID \<Rightarrow> DestinationTokenRecordID \<Rightarrow>
   DestinationTokenSpec list \<Rightarrow> DestinationTokenRotationTokenIdentity" where
  "rotationIdentity expectedAudience expectedDestination newActiveRecordID oldRetiringRecordID matches =
     (case matches of
        [] \<Rightarrow> DestinationTokenRotationTokenNeither
      | match # _ \<Rightarrow>
          if ts_AudienceID match \<noteq> expectedAudience \<or> de_id (ts_Destination match) \<noteq> expectedDestination
          then DestinationTokenRotationTokenNeither
          else if ts_RecordID match = newActiveRecordID then DestinationTokenRotationTokenNew
          else if ts_RecordID match = oldRetiringRecordID then DestinationTokenRotationTokenOld
          else DestinationTokenRotationTokenNeither)"

definition IdentifyRotationToken ::
  "(go_error \<Rightarrow> bool) \<Rightarrow> OpaqueDestinationResolver option \<Rightarrow> go_context \<Rightarrow> GatewayAudienceID \<Rightarrow> DestinationID \<Rightarrow>
   OpaqueDestinationToken \<Rightarrow> DestinationTokenRecordID \<Rightarrow> DestinationTokenRecordID \<Rightarrow> time \<Rightarrow>
   (gateway_db session, DestinationTokenRotationTokenIdentity result) state" where
  "IdentifyRotationToken timeout resolver ctx expectedAudience expectedDestination rawToken newActiveRecordID
     oldRetiringRecordID now =
     (let invalid = Inl (safeError (postgresErr ErrDestinationResolverIntegrity) ''rotation token identification input'') in
      case resolverParts resolver of
        None \<Rightarrow> State_Monad.return invalid
      | Some (acquire, keySource, keyIDs) \<Rightarrow>
          if ctx = NilContext \<or> expectedAudience = 0 \<or> expectedDestination = 0 \<or> newActiveRecordID = 0 \<or>
             oldRetiringRecordID = 0 \<or> newActiveRecordID = oldRetiringRecordID \<or> IsZero now
          then State_Monad.return invalid
          else do {
            cancellation \<leftarrow> destinationResolverContextSentinel None;
            case cancellation of
              Some c \<Rightarrow> State_Monad.return (Inl (safeError c ''rotation token identification canceled''))
            | None \<Rightarrow> do {
                found \<leftarrow> matchingDestinationTokens timeout acquire keySource keyIDs expectedAudience rawToken;
                State_Monad.return (case found of
                    Inl e \<Rightarrow> Inl e
                  | Inr matches \<Rightarrow> Inr (rotationIdentity expectedAudience expectedDestination newActiveRecordID
                      oldRetiringRecordID matches)) } })"

subsection \<open>What a parsed record is\<close>

definition destinationRowParses :: "destination_row \<Rightarrow> Destination \<Rightarrow> bool" where
  "destinationRowParses row d =
     (finiteStamp (dr_created_at row) \<and> finiteStamp (dr_state_changed_at row) \<and>
      (\<exists>st. destinationState (dr_destination_state row) = Inr st \<and>
         NewDestination (dr_gateway_audience_id row) (dr_destination_id row) st (stampTime (dr_created_at row))
           (stampTime (dr_state_changed_at row)) = Inr d))"

definition tokenMatches ::
  "GatewayAudienceID \<Rightarrow> destinationVerifierCandidate \<Rightarrow> token_row \<Rightarrow> destination_row \<Rightarrow> DestinationTokenSpec \<Rightarrow> bool" where
  "tokenMatches audience candidate r row t =
     (\<exists>d. destinationRowParses row d \<and> rowShapeOK r \<and> tr_gateway_audience_id r = audience \<and>
        tr_destination_id r = dr_destination_id row \<and> dr_gateway_audience_id row = audience \<and>
        tr_verifier_key_id r = vc_keyID candidate \<and>
        (of_be_bytes (tr_token_verifier r) :: bytes32) = tv_bytes (vc_verifier candidate) \<and>
        tokenSpecOK (specOf d r) \<and> t = specOf d r)"

lemma destinationOfRecord_iff:
  "destinationOfRecord (scanDestinationToken n (r, Some row)) (dr_destination_state row) (dr_gateway_audience_id row)
     (dr_destination_id row) = Inr d \<longleftrightarrow>
   (\<exists>st. destinationState (dr_destination_state row) = Inr st \<and>
      NewDestination (dr_gateway_audience_id row) (dr_destination_id row) st (stampTime (dr_created_at row))
        (stampTime (dr_state_changed_at row)) = Inr d)"
  by (cases "destinationState (dr_destination_state row)")
    (auto simp: destinationOfRecord_def scanDestinationToken_def tz_Time_scan split: sum.splits)

lemma tokenOfRecord_iff:
  assumes "length (tr_token_verifier r) = 32" "de_id d = tr_destination_id r"
  shows "tokenOfRecord (scanDestinationToken n (r, x)) (tr_gateway_audience_id r) (tr_record_id r)
      \<lparr>tv_bytes = of_be_bytes (tr_token_verifier r), tv_present = True\<rparr> (tr_verifier_key_id r) d = Inr t \<longleftrightarrow>
    optionStampOK (tr_activated_at r) \<and> optionStampOK (tr_retirement_started_at r) \<and>
    optionStampOK (tr_revoked_at r) \<and> optionStampOK (tr_retirement_overlap_deadline r) \<and>
    tokenSpecOK (specOf d r) \<and> t = specOf d r"
proof (cases "destinationTokenState (tr_token_state r)")
  case (Inl e)
  then have "ts_State (specOf d r) = DestinationTokenStateUndeclared" by (simp add: specOf_def stateOfText_def)
  then have "\<not> tokenSpecOK (specOf d r)" by (auto simp: tokenSpecOK_def)
  with Inl show ?thesis by (simp add: tokenOfRecord_def scanDestinationToken_def)
next
  case (Inr st)
  then have st: "stateOfText (tr_token_state r) = st" by (simp add: stateOfText_def)
  show ?thesis
    unfolding NewDestinationToken_iff [symmetric]
    by (simp add: Inr st tokenOfRecord_def scanDestinationToken_def specOf_def row_parse_simps split del: if_split)
qed

lemma record_parts:
  assumes "length (tr_token_verifier r) = 32" "tr_destination_id r = dr_destination_id row"
  shows "(\<exists>d. destinationOfRecord (scanDestinationToken n (r, Some row)) (dr_destination_state row)
        (dr_gateway_audience_id row) (dr_destination_id row) = Inr d \<and>
      tokenOfRecord (scanDestinationToken n (r, Some row)) (tr_gateway_audience_id r) (tr_record_id r)
        \<lparr>tv_bytes = of_be_bytes (tr_token_verifier r), tv_present = True\<rparr> (tr_verifier_key_id r) d = Inr t) \<longleftrightarrow>
    (\<exists>d. (\<exists>st. destinationState (dr_destination_state row) = Inr st \<and>
        NewDestination (dr_gateway_audience_id row) (dr_destination_id row) st (stampTime (dr_created_at row))
          (stampTime (dr_state_changed_at row)) = Inr d) \<and>
      optionStampOK (tr_activated_at r) \<and> optionStampOK (tr_retirement_started_at r) \<and>
      optionStampOK (tr_revoked_at r) \<and> optionStampOK (tr_retirement_overlap_deadline r) \<and>
      tokenSpecOK (specOf d r) \<and> t = specOf d r)"
proof (intro ex_cong1 conj_cong destinationOfRecord_iff)
  fix d assume "\<exists>st. destinationState (dr_destination_state row) = Inr st \<and>
    NewDestination (dr_gateway_audience_id row) (dr_destination_id row) st (stampTime (dr_created_at row))
      (stampTime (dr_state_changed_at row)) = Inr d"
  then have "de_id d = tr_destination_id r" using assms(2) by (auto simp: NewDestination_iff)
  then show "tokenOfRecord (scanDestinationToken n (r, Some row)) (tr_gateway_audience_id r) (tr_record_id r)
      \<lparr>tv_bytes = of_be_bytes (tr_token_verifier r), tv_present = True\<rparr> (tr_verifier_key_id r) d = Inr t \<longleftrightarrow>
    optionStampOK (tr_activated_at r) \<and> optionStampOK (tr_retirement_started_at r) \<and>
      optionStampOK (tr_revoked_at r) \<and> optionStampOK (tr_retirement_overlap_deadline r) \<and>
      tokenSpecOK (specOf d r) \<and> t = specOf d r"
    by (rule tokenOfRecord_iff [OF assms(1)])
qed

lemma tokenSpecOK_ids: "tokenSpecOK (specOf d r) \<Longrightarrow> tr_record_id r \<noteq> 0 \<and> tr_gateway_audience_id r \<noteq> 0"
  by (auto simp: tokenSpecOK_def specOf_def)

lemma record_token_iff:
  "destinationTokenRecord_token audience candidate (scanDestinationToken n (r, x)) = Inr t \<longleftrightarrow>
     n = 1 \<and> (\<exists>row. x = Some row \<and> tokenMatches audience candidate r row t)"
proof (cases x)
  case None
  then show ?thesis by (simp add: destinationTokenRecord_token_def scanDestinationToken_def)
next
  case (Some row)
  let ?rec = "scanDestinationToken n (r, Some row)"
  let ?v = "\<lparr>tv_bytes = of_be_bytes (tr_token_verifier r), tv_present = True\<rparr>"
  have "destinationTokenRecord_token audience candidate ?rec = Inr t \<longleftrightarrow>
      n = 1 \<and> finiteStamp (tr_created_at r) \<and> finiteStamp (tr_expires_at r) \<and> finiteStamp (tr_staged_cleanup_deadline r) \<and>
      finiteStamp (tr_state_changed_at r) \<and> finiteStamp (dr_created_at row) \<and> finiteStamp (dr_state_changed_at row) \<and>
      tr_record_id r \<noteq> 0 \<and> tr_gateway_audience_id r \<noteq> 0 \<and> tr_destination_id r \<noteq> 0 \<and>
      length (tr_token_verifier r) = 32 \<and> validKeyID (tr_verifier_key_id r) \<and>
      tr_gateway_audience_id r = audience \<and> tr_destination_id r = dr_destination_id row \<and>
      dr_gateway_audience_id row = tr_gateway_audience_id r \<and> tr_verifier_key_id r = vc_keyID candidate \<and>
      tv_bytes ?v = tv_bytes (vc_verifier candidate) \<and>
      (\<exists>d. destinationOfRecord ?rec (dr_destination_state row) (dr_gateway_audience_id row) (dr_destination_id row) = Inr d \<and>
         tokenOfRecord ?rec (tr_gateway_audience_id r) (tr_record_id r) ?v (tr_verifier_key_id r) d = Inr t)"
    unfolding destinationTokenRecord_token_def scanDestinationToken_def
    by (simp add: row_parse_simps split del: if_split split: sum.splits) (auto split: if_splits sum.splits)
  also have "\<dots> \<longleftrightarrow> n = 1 \<and> tokenMatches audience candidate r row t"
  proof (cases "length (tr_token_verifier r) = 32 \<and> tr_destination_id r = dr_destination_id row")
    case True
    then show ?thesis
      unfolding record_parts [OF conjunct1 [OF True] conjunct2 [OF True]]
      by (auto simp: tokenMatches_def destinationRowParses_def rowShapeOK_def dest: tokenSpecOK_ids)
        (auto simp: NewDestination_iff)
  qed (auto simp: tokenMatches_def rowShapeOK_def)
  finally show ?thesis by (simp add: Some)
qed

subsection \<open>What a lookup returns\<close>

definition storedMatch ::
  "gateway_db \<Rightarrow> GatewayAudienceID \<Rightarrow> destinationVerifierCandidate \<Rightarrow> DestinationTokenSpec \<Rightarrow> bool" where
  "storedMatch db audience candidate t =
     (\<exists>r\<in>set (db_tokens db). \<exists>row\<in>set (db_destinations db). tokenMatches audience candidate r row t)"

lemma joinDestination_Some:
  assumes "(t, Some row) \<in> set (joinDestination destinations token)"
  shows "t = token \<and> row \<in> set destinations"
proof -
  have "set (filter (\<lambda>d. dr_destination_id d = tr_destination_id token) destinations) \<subseteq> set destinations" by auto
  then show ?thesis
    using assms
    by (cases "filter (\<lambda>d. dr_destination_id d = tr_destination_id token) destinations")
      (auto simp: joinDestination_def)
qed

lemma select_storedMatch:
  assumes "selectDestinationTokenSQL audience keyID verifier db = Some record"
    "destinationTokenRecord_token audience candidate record = Inr t"
  shows "storedMatch db audience candidate t"
proof -
  obtain x rest where rows: "concat (map (joinDestination (db_destinations db))
      (filter (\<lambda>t. tr_gateway_audience_id t = audience \<and> tr_verifier_key_id t = keyID \<and> tr_token_verifier t = verifier)
        (db_tokens db))) = x # rest" and rec: "record = scanDestinationToken (length (x # rest)) x"
    using assms(1) by (auto simp: selectDestinationTokenSQL_def Let_def split: list.splits)
  obtain r d where x: "x = (r, d)" by force
  from assms(2) obtain row where row: "d = Some row" "tokenMatches audience candidate r row t"
    by (auto simp: rec x record_token_iff)
  have "(r, Some row) \<in> set (x # rest)" by (simp add: x row(1))
  then obtain token where "token \<in> set (db_tokens db)" "(r, Some row) \<in> set (joinDestination (db_destinations db) token)"
    unfolding rows [symmetric] by auto
  with row(2) show ?thesis by (auto simp: storedMatch_def dest!: joinDestination_Some)
qed

text \<open>The errors the resolver reports: fixed kinds, never an error of the driver or of the key source.\<close>

definition resolverKinds :: "go_error set" where
  "resolverKinds = {postgresErr ErrDestinationResolverUnavailable, postgresErr ErrDestinationResolverIntegrity,
     contextErr Canceled, contextErr DeadlineExceeded}"

definition resolverError :: "go_error \<Rightarrow> bool" where
  "resolverError e = (\<exists>kind\<in>resolverKinds. \<exists>operation. e = safeError kind operation)"

lemma resolverErrorI [intro]: "kind \<in> resolverKinds \<Longrightarrow> resolverError (safeError kind operation)"
  by (auto simp: resolverError_def)

lemma resolverKinds_members [simp]:
  "postgresErr ErrDestinationResolverUnavailable \<in> resolverKinds" "postgresErr ErrDestinationResolverIntegrity \<in> resolverKinds"
  "contextErr Canceled \<in> resolverKinds" "contextErr DeadlineExceeded \<in> resolverKinds"
  by (simp_all add: resolverKinds_def)

text \<open>The end of a lookup: the tables are as they were, and the connection was released or destroyed.\<close>

definition lookupPost ::
  "gateway_db session \<Rightarrow> ('a \<Rightarrow> bool) \<Rightarrow> 'a result \<Rightarrow> gateway_db session \<Rightarrow> bool" where
  "lookupPost s P r s' =
     (s_db s' = s_db s \<and> s_tx s' = None \<and> set (s_script s') \<subseteq> set (s_script s) \<and>
      (\<exists>ev\<in>{Released, Destroyed}. s_log s' = s_log s @ [ev]) \<and>
      (case r of Inl e \<Rightarrow> resolverError e | Inr v \<Rightarrow> P v))"

lemma lookupPost_same: "same_data s s1 \<Longrightarrow> lookupPost s1 P r s' \<Longrightarrow> lookupPost s P r s'"
  by (auto simp: lookupPost_def same_data_def)

lemma contextSentinel_after:
  assumes "\<And>c s'. same_data s s' \<Longrightarrow> (\<And>k. c = Some k \<Longrightarrow> k \<in> resolverKinds) \<Longrightarrow> Q c s'"
  shows "after (destinationResolverContextSentinel err) s Q"
  unfolding destinationResolverContextSentinel_def
  by (intro after_intro ctx_Err_after; rule assms; auto intro: same_data_trans split: if_splits)

lemma lookup_failed_after: "s_tx s = None \<Longrightarrow> kind \<in> resolverKinds \<Longrightarrow> after (lookup_failed destroy kind) s (lookupPost s P)"
  unfolding lookup_failed_def finish_connection_def
  by (intro after_intro connection_end_after) (auto simp: lookupPost_def session_frame)

lemma lookup_candidates_after:
  assumes "s_tx s = None" "\<forall>t\<in>set matches. \<exists>c\<in>set seen. storedMatch (s_db s) audience c t"
  shows "after (lookup_candidates timeout audience candidates matches flag) s
    (lookupPost s (\<lambda>(ms, f). \<forall>t\<in>set ms. \<exists>c\<in>set (seen @ candidates). storedMatch (s_db s) audience c t))"
  using assms
proof (induction candidates arbitrary: s matches flag seen)
  case Nil
  then show ?case
    by (auto simp: finish_connection_def lookupPost_def session_frame
        intro!: after_intro contextSentinel_after lookup_failed_after [THEN after_mono] connection_end_after; blast)
next
  case (Cons candidate candidates)
  let ?P = "\<lambda>(ms, f). \<forall>t\<in>set ms. \<exists>c\<in>set (seen @ candidate # candidates). storedMatch (s_db s) audience c t"
  have again: "after (lookup_candidates timeout audience candidates ms flag) s1 (lookupPost s ?P)"
    if same: "same_data s s1" and ms: "\<forall>t\<in>set ms. \<exists>c\<in>set (seen @ [candidate]). storedMatch (s_db s) audience c t" for s1 ms flag
  proof (rule after_mono [OF Cons.IH [of s1 ms "seen @ [candidate]" flag]])
    show "s_tx s1 = None" using same Cons.prems(1) by (simp add: same_data_def)
    show "\<forall>t\<in>set ms. \<exists>c\<in>set (seen @ [candidate]). storedMatch (s_db s1) audience c t"
      using ms same by (simp add: same_data_def)
    show "lookupPost s ?P r s'"
      if "lookupPost s1 (\<lambda>(ms, f). \<forall>t\<in>set ms. \<exists>c\<in>set ((seen @ [candidate]) @ candidates). storedMatch (s_db s1) audience c t) r s'"
      for r s'
      using lookupPost_same [OF same that] same by (simp add: same_data_def)
  qed
  have failed: "after (lookup_failed destroy kind) s1 (lookupPost s ?P)"
    if "same_data s s1" "kind \<in> resolverKinds" for s1 destroy kind
    using that Cons.prems(1) lookupPost_same [OF that(1)]
    by (intro after_mono [OF lookup_failed_after]) (auto simp: same_data_def)
  have old: "\<forall>t\<in>set matches. \<exists>c\<in>set (seen @ [candidate]). storedMatch (s_db s) audience c t"
    using Cons.prems(2) by auto
  have new: "\<forall>t\<in>set (matches @ [token]). \<exists>c\<in>set (seen @ [candidate]). storedMatch (s_db s) audience c t"
    if "selectDestinationTokenSQL audience k v (tx_view s1) = Some rec" "same_data s s1"
      "destinationTokenRecord_token audience candidate rec = Inr token" for k v s1 rec token
    using old select_storedMatch [OF that(1,3)] that(2) Cons.prems(1) by (auto simp: session_frame)
  show ?case
    unfolding lookup_candidates.simps
    by (intro after_intro contextSentinel_after tx_QueryRow_after again failed old new;
        (assumption | rule resolverKinds_members | blast intro: same_data_trans)?)
qed

subsection \<open>What the resolver promises\<close>

text \<open>The key source reads a keyring and leaves the session alone.\<close>

definition keysFrom ::
  "verifierKeySource \<Rightarrow> (GatewayAudienceID \<Rightarrow> DestinationVerifierKeyID \<Rightarrow> DestinationVerifierKey option) \<Rightarrow> bool" where
  "keysFrom keySource keyring =
     (\<forall>a k s. after (keySource a k) s (\<lambda>r s'. same_data s s' \<and> (\<forall>key. r = Inr key \<longrightarrow> keyring a k = Some key)))"

definition verifierUnder ::
  "(GatewayAudienceID \<Rightarrow> DestinationVerifierKeyID \<Rightarrow> DestinationVerifierKey option) \<Rightarrow> GatewayAudienceID \<Rightarrow>
   OpaqueDestinationToken \<Rightarrow> destinationVerifierCandidate \<Rightarrow> bool" where
  "verifierUnder keyring audience rawToken c =
     (\<exists>key. keyring audience (vc_keyID c) = Some key \<and>
        ComputeDestinationTokenVerifier audience rawToken key = Inr (vc_verifier c))"

lemma verifier_candidates_after:
  assumes "keysFrom keySource keyring" "set keyIDs \<subseteq> K"
    "\<forall>c\<in>set candidates. verifierUnder keyring audience rawToken c \<and> vc_keyID c \<in> K"
  shows "after (verifier_candidates keySource audience rawToken keyIDs candidates flag) s (\<lambda>r s'. same_data s s' \<and>
    (case r of Inl e \<Rightarrow> resolverError e
     | Inr (cs, f) \<Rightarrow> \<forall>c\<in>set cs. verifierUnder keyring audience rawToken c \<and> vc_keyID c \<in> K))"
  using assms(2,3)
proof (induction keyIDs arbitrary: candidates flag s)
  case Nil
  then show ?case by (simp add: after_simps)
next
  case (Cons keyID keyIDs)
  let ?Q = "\<lambda>s r s'. same_data s s' \<and> (case r of Inl e \<Rightarrow> resolverError e
    | Inr (cs, f) \<Rightarrow> \<forall>c\<in>set cs. verifierUnder keyring audience rawToken c \<and> vc_keyID c \<in> K)"
  have again: "after (verifier_candidates keySource audience rawToken keyIDs cs f) s1 (?Q s)"
    if "same_data s s1" "\<forall>c\<in>set cs. verifierUnder keyring audience rawToken c \<and> vc_keyID c \<in> K" for s1 cs f
  proof (rule after_mono [OF Cons.IH [OF _ that(2)]])
    show "set keyIDs \<subseteq> K" using Cons.prems(1) by simp
    show "?Q s r s'" if "?Q s1 r s'" for r s'
      using same_data_trans [OF \<open>same_data s s1\<close> conjunct1 [OF that]] conjunct2 [OF that] by (rule conjI)
  qed
  have key: "after (keySource audience keyID) s Q"
    if "\<And>r s'. same_data s s' \<Longrightarrow> (\<And>key. r = Inr key \<Longrightarrow> keyring audience keyID = Some key) \<Longrightarrow> Q r s'" for Q
  proof (rule after_mono [of _ _ "\<lambda>r s'. same_data s s' \<and> (\<forall>key. r = Inr key \<longrightarrow> keyring audience keyID = Some key)"])
    show "after (keySource audience keyID) s (\<lambda>r s'. same_data s s' \<and> (\<forall>key. r = Inr key \<longrightarrow> keyring audience keyID = Some key))"
      using assms(1) by (simp add: keysFrom_def)
  qed (use that in blast)
  show ?case
    unfolding verifier_candidates.simps
    by (intro after_intro contextSentinel_after key again; (erule (1) same_data_trans)?)
      (use Cons.prems in \<open>auto simp: verifierUnder_def dest: same_data_trans\<close>)
qed

lemma acquire_resolver_after:
  assumes "\<And>c e s'. moved s (s_db s) (s_tx s) (if c then [Acquired] else []) s' \<or>
      \<not> c \<and> moved s (s_db s) (s_tx s) [Acquired, Destroyed] s' \<Longrightarrow> (c \<longleftrightarrow> e = None) \<Longrightarrow> Q (c, e) s'"
  shows "after resolver_acquire s Q"
  unfolding resolver_acquire_def
  by (intro after_intro pool_Acquire_after connection_end_after; rule assms;
      auto simp: session_frame split: if_splits)

text \<open>The end of a resolver call.\<close>

definition resolverPost ::
  "gateway_db session \<Rightarrow> (go_error \<Rightarrow> bool) \<Rightarrow> ('a \<Rightarrow> bool) \<Rightarrow> 'a result \<Rightarrow> gateway_db session \<Rightarrow> bool" where
  "resolverPost s E P r s' =
     (s_db s' = s_db s \<and> s_tx s' = None \<and> set (s_script s') \<subseteq> set (s_script s) \<and>
      connectionSettled (s_log s) (s_log s') \<and> (case r of Inl e \<Rightarrow> resolverError e \<or> E e | Inr v \<Rightarrow> P v))"

definition matched ::
  "gateway_db \<Rightarrow> (GatewayAudienceID \<Rightarrow> DestinationVerifierKeyID \<Rightarrow> DestinationVerifierKey option) \<Rightarrow>
   DestinationVerifierKeyID list \<Rightarrow> GatewayAudienceID \<Rightarrow> OpaqueDestinationToken \<Rightarrow> DestinationTokenSpec \<Rightarrow> bool" where
  "matched db keyring keyIDs audience rawToken t =
     (\<exists>c. vc_keyID c \<in> set keyIDs \<and> verifierUnder keyring audience rawToken c \<and> storedMatch db audience c t)"

lemma lookup_matches_after:
  assumes "s_tx s = None"
  shows "after (lookup_matches timeout resolver_acquire audience candidates) s
    (resolverPost s (\<lambda>e. False) (\<lambda>ms. \<forall>t\<in>set ms. \<exists>c\<in>set candidates. storedMatch (s_db s) audience c t))"
proof -
  have lookup: "after (lookup_candidates timeout audience candidates [] False) s1
      (lookupPost s1 (\<lambda>(ms, f). \<forall>t\<in>set ms. \<exists>c\<in>set candidates. storedMatch (s_db s) audience c t))"
    if "moved s (s_db s) (s_tx s) [Acquired] s1" for s1
    using lookup_candidates_after [of s1 "[]" "[]"] that assms by (simp add: moved_def)
  show ?thesis
    unfolding lookup_matches_def
    by (intro after_intro acquire_resolver_after contextSentinel_after connection_end_after after_mono [OF lookup];
        use assms in \<open>auto simp: session_frame resolverPost_def lookupPost_def connectionSettled_def split: sum.splits option.splits\<close>)
qed

lemma verifierCandidates_after:
  assumes "keysFrom keySource keyring"
  shows "after (verifierCandidates keySource keyIDs audience rawToken) s (\<lambda>r s'. same_data s s' \<and>
    (case r of Inl e \<Rightarrow> resolverError e
     | Inr cs \<Rightarrow> \<forall>c\<in>set cs. verifierUnder keyring audience rawToken c \<and> vc_keyID c \<in> set keyIDs))"
  unfolding verifierCandidates_def
  by (intro after_intro after_mono [OF verifier_candidates_after [OF assms subset_refl]])
    (auto split: sum.splits)

lemma matchingDestinationTokens_after:
  assumes "keysFrom keySource keyring" "s_tx s = None"
  shows "after (matchingDestinationTokens timeout resolver_acquire keySource keyIDs audience rawToken) s
    (resolverPost s (\<lambda>e. False) (\<lambda>ms. \<forall>t\<in>set ms. matched (s_db s) keyring keyIDs audience rawToken t))"
  unfolding matchingDestinationTokens_def
proof (intro after_intro after_mono [OF verifierCandidates_after [OF assms(1)]])
  fix r s1 e assume "same_data s s1 \<and> (case r of Inl e \<Rightarrow> resolverError e
      | Inr cs \<Rightarrow> \<forall>c\<in>set cs. verifierUnder keyring audience rawToken c \<and> vc_keyID c \<in> set keyIDs)" "r = Inl e"
  then show "resolverPost s (\<lambda>e. False) (\<lambda>ms. \<forall>t\<in>set ms. matched (s_db s) keyring keyIDs audience rawToken t) (Inl e) s1"
    using assms(2) by (simp add: resolverPost_def same_data_def connectionSettled_def)
next
  fix r s1 cs assume r: "same_data s s1 \<and> (case r of Inl e \<Rightarrow> resolverError e
      | Inr cs \<Rightarrow> \<forall>c\<in>set cs. verifierUnder keyring audience rawToken c \<and> vc_keyID c \<in> set keyIDs)" "r = Inr cs"
  then have cs: "\<forall>c\<in>set cs. verifierUnder keyring audience rawToken c \<and> vc_keyID c \<in> set keyIDs" by simp
  show "after (lookup_matches timeout resolver_acquire audience cs) s1
      (resolverPost s (\<lambda>e. False) (\<lambda>ms. \<forall>t\<in>set ms. matched (s_db s) keyring keyIDs audience rawToken t))"
  proof (rule after_mono [OF lookup_matches_after])
    show "s_tx s1 = None" using r(1) assms(2) by (simp add: same_data_def)
    show "resolverPost s (\<lambda>e. False) (\<lambda>ms. \<forall>t\<in>set ms. matched (s_db s) keyring keyIDs audience rawToken t) x s'"
      if "resolverPost s1 (\<lambda>e. False) (\<lambda>ms. \<forall>t\<in>set ms. \<exists>c\<in>set cs. storedMatch (s_db s1) audience c t) x s'" for x s'
      using that r(1) cs unfolding resolverPost_def same_data_def matched_def by (cases x) (auto, blast)
  qed
qed

lemma configuredKeyIDs_same: "configuredKeyIDs seen keyIDs = Some ids \<Longrightarrow> ids = seen @ keyIDs"
  by (induction keyIDs arbitrary: seen) (fastforce split: sum.splits if_splits)+

lemma resolver_parts:
  assumes "NewOpaqueDestinationResolver nilPool (Some keySource) keyIDs = Inr resolver"
  shows "resolverParts (Some resolver) = Some (resolver_acquire, keySource, keyIDs)"
  using assms
  by (auto simp: NewOpaqueDestinationResolver_def newOpaqueDestinationResolver_def resolverParts_def
      dest!: configuredKeyIDs_same split: if_splits option.splits)

lemma resolve_after:
  assumes "NewOpaqueDestinationResolver nilPool (Some keySource) keyIDs = Inr resolver" "keysFrom keySource keyring"
    "s_tx s = None"
  shows "after (Resolve timeout (Some resolver) ctx audience rawToken now) s
    (resolverPost s (\<lambda>e. e = stateErr ErrDestinationNotFound) (\<lambda>d. \<exists>t. matched (s_db s) keyring keyIDs audience rawToken t \<and>
       DestinationToken_UsableAt t now \<and> d = de_id (ts_Destination t)))"
  unfolding Resolve_def resolver_parts [OF assms(1)] Let_def option.case prod.case
  by (intro after_intro contextSentinel_after after_mono [OF matchingDestinationTokens_after [OF assms(2)]];
      use assms(3) in \<open>auto simp: resolverPost_def same_data_def connectionSettled_def split: list.splits sum.splits\<close>)

lemma identify_after:
  assumes "NewOpaqueDestinationResolver nilPool (Some keySource) keyIDs = Inr resolver" "keysFrom keySource keyring"
    "s_tx s = None"
  shows "after (IdentifyRotationToken timeout (Some resolver) ctx audience destination rawToken newID oldID now) s
    (resolverPost s (\<lambda>e. False) (\<lambda>i. i = DestinationTokenRotationTokenNeither \<or>
       (\<exists>t. matched (s_db s) keyring keyIDs audience rawToken t \<and> de_id (ts_Destination t) = destination \<and>
          (i = DestinationTokenRotationTokenNew \<and> ts_RecordID t = newID \<or>
           i = DestinationTokenRotationTokenOld \<and> ts_RecordID t = oldID))))"
  unfolding IdentifyRotationToken_def resolver_parts [OF assms(1)] Let_def option.case prod.case
  by (intro after_intro contextSentinel_after after_mono [OF matchingDestinationTokens_after [OF assms(2)]];
      use assms(3) in \<open>auto simp: resolverPost_def same_data_def connectionSettled_def rotationIdentity_def
        split: list.splits sum.splits if_splits\<close>)

subsection \<open>A driver that answers\<close>

text \<open>The keys a source delivers on a calm session.\<close>

definition keysDeliver ::
  "verifierKeySource \<Rightarrow> (GatewayAudienceID \<Rightarrow> DestinationVerifierKeyID \<Rightarrow> DestinationVerifierKey option) \<Rightarrow> bool" where
  "keysDeliver keySource keyring =
     (\<forall>a k key s. keyring a k = Some key \<longrightarrow> calm s \<longrightarrow> run_state (keySource a k) s = (Inr key, s))"

text \<open>The candidates of a token under configured keys that are all available.\<close>

definition candidatesOf ::
  "(GatewayAudienceID \<Rightarrow> DestinationVerifierKeyID \<Rightarrow> DestinationVerifierKey option) \<Rightarrow> DestinationVerifierKeyID list \<Rightarrow>
   GatewayAudienceID \<Rightarrow> OpaqueDestinationToken \<Rightarrow> destinationVerifierCandidate list" where
  "candidatesOf keyring keyIDs audience rawToken =
     map (\<lambda>k. \<lparr>vc_keyID = k, vc_verifier = \<lparr>tv_bytes = of_be_bytes (hmac_sha256 (the (keyring audience k))
        (verifierMessage audience rawToken)), tv_present = True\<rparr>\<rparr>) keyIDs"

definition keysAvailable ::
  "(GatewayAudienceID \<Rightarrow> DestinationVerifierKeyID \<Rightarrow> DestinationVerifierKey option) \<Rightarrow> DestinationVerifierKeyID list \<Rightarrow>
   GatewayAudienceID \<Rightarrow> bool" where
  "keysAvailable keyring keyIDs audience =
     (\<forall>k\<in>set keyIDs. \<exists>key. keyring audience k = Some key \<and> sha256_Size \<le> length key)"

lemma calm_sentinel: "calm s \<Longrightarrow> after (destinationResolverContextSentinel None) s Q = Q None s"
  by (simp add: destinationResolverContextSentinel_def after_simps calm_ctx_Err)

lemma no_rows_sentinel:
  "after (destinationResolverContextSentinel (Some (Sentinel (Pgx ErrNoRows)))) s Q = Q None s"
proof -
  have "\<not> destinationResolverSingleCauseMatches (Sentinel (Pgx ErrNoRows)) (Context Canceled)"
    "\<not> destinationResolverSingleCauseMatches (Sentinel (Pgx ErrNoRows)) (Context DeadlineExceeded)"
    by code_simp+
  then show ?thesis by (simp add: destinationResolverContextSentinel_def after_simps)
qed

lemma compute_available:
  "audience \<noteq> 0 \<Longrightarrow> sha256_Size \<le> length key \<Longrightarrow> ComputeDestinationTokenVerifier audience rawToken key =
     Inr \<lparr>tv_bytes = of_be_bytes (hmac_sha256 key (verifierMessage audience rawToken)), tv_present = True\<rparr>"
  by (auto simp: ComputeDestinationTokenVerifier_def NewTokenVerifier_def sha256_Size_def)

lemma candidates_calm:
  assumes "keysDeliver keySource keyring" "calm s" "keysAvailable keyring keyIDs audience" "audience \<noteq> 0"
  shows "after (verifier_candidates keySource audience rawToken keyIDs cs flag) s Q =
    Q (Inr (cs @ candidatesOf keyring keyIDs audience rawToken, flag)) s"
  using assms(3)
proof (induction keyIDs arbitrary: cs)
  case (Cons k keyIDs)
  then obtain key where key: "keyring audience k = Some key" "sha256_Size \<le> length key"
    by (auto simp: keysAvailable_def)
  have run: "after (keySource audience k) s R = R (Inr key) s" for R
    using assms(1,2) key(1) by (simp add: keysDeliver_def after_def)
  have "\<not> length key < sha256_Size" using key(2) by simp
  with Cons show ?case
    by (simp add: after_simps run calm_sentinel [OF assms(2)] key compute_available [OF assms(4) key(2)]
        candidatesOf_def keysAvailable_def)
qed (simp add: after_simps candidatesOf_def)

text \<open>The lookup of one candidate and what all lookups give.\<close>

definition candidateLookup ::
  "gateway_db \<Rightarrow> GatewayAudienceID \<Rightarrow> destinationVerifierCandidate \<Rightarrow> DestinationTokenSpec result option" where
  "candidateLookup db audience c =
     map_option (destinationTokenRecord_token audience c)
       (selectDestinationTokenSQL audience (vc_keyID c) (be_bytes 32 (tv_bytes (vc_verifier c))) db)"

definition resolution ::
  "gateway_db \<Rightarrow> GatewayAudienceID \<Rightarrow> destinationVerifierCandidate list \<Rightarrow> DestinationTokenSpec list result" where
  "resolution db audience cs =
     (let found = List.map_filter (candidateLookup db audience) cs in
      if (\<exists>e. Inl e \<in> set found) \<or> length found > 1
      then Inl (safeError (postgresErr ErrDestinationResolverIntegrity) ''destination token lookup record'')
      else Inr (map projr found))"

lemma lookup_calm:
  assumes "calm s" "s_tx s = None"
  shows "after (lookup_candidates timeout audience cs ms flag) s Q =
    Q (Inr (ms @ map projr (filter (\<lambda>r. \<not> isl r) (List.map_filter (candidateLookup (s_db s) audience) cs)),
        flag \<or> list_ex isl (List.map_filter (candidateLookup (s_db s) audience) cs)))
      (s\<lparr>s_log := s_log s @ [Released]\<rparr>)"
proof (induction cs arbitrary: ms flag)
  case Nil
  show ?case
    by (simp add: after_simps calm_sentinel [OF assms(1)] finish_connection_def connection_Release_def record_event_def
        List.map_filter_simps)
next
  case (Cons c cs)
  have view: "tx_view s = s_db s" using assms(2) by (simp add: tx_view_def)
  show ?case
    by (simp add: after_simps calm_sentinel [OF assms(1)] calm_after [OF assms(1)] no_rows_sentinel view Cons.IH
        candidateLookup_def List.map_filter_simps split: option.splits sum.splits)
qed

lemma filter_projr: "list_ex isl xs = (\<exists>e. Inl e \<in> set xs)"
  by (induction xs) (auto simp: isl_def)

lemma matching_calm:
  assumes "keysDeliver keySource keyring" "calm s" "s_tx s = None" "keysAvailable keyring keyIDs audience" "audience \<noteq> 0"
  shows "after (matchingDestinationTokens timeout resolver_acquire keySource keyIDs audience rawToken) s Q =
    Q (resolution (s_db s) audience (candidatesOf keyring keyIDs audience rawToken))
      (s\<lparr>s_log := s_log s @ [Acquired, Released]\<rparr>)"
proof -
  let ?cs = "candidatesOf keyring keyIDs audience rawToken"
  let ?found = "List.map_filter (candidateLookup (s_db s) audience) ?cs"
  have cs: "length ?cs = length keyIDs" by (simp add: candidatesOf_def)
  have clean: "filter (\<lambda>r. \<not> isl r) xs = xs" if "\<nexists>e. Inl e \<in> set xs" for xs :: "DestinationTokenSpec result list"
    using that by (induction xs) (auto simp: isl_def)
  have "(case Inr (map projr (filter (\<lambda>r. \<not> isl r) ?found), list_ex isl ?found) of
      Inl e \<Rightarrow> Inl e
    | Inr (matches, integrityFailure) \<Rightarrow>
        if integrityFailure \<or> length matches > 1
        then Inl (safeError (postgresErr ErrDestinationResolverIntegrity) ''destination token lookup record'')
        else Inr matches) = resolution (s_db s) audience ?cs"
    by (cases "\<exists>e. Inl e \<in> set ?found") (simp_all add: resolution_def Let_def filter_projr clean)
  then show ?thesis
    using assms(2,3)
    by (simp add: matchingDestinationTokens_def verifierCandidates_def lookup_matches_def resolver_acquire_def after_simps
        candidates_calm [OF assms(1,2,4,5)] cs calm_after lookup_calm)
qed

end
