(* ===== verification/Resolver_Guarantees.thy ===== *)
theory Resolver_Guarantees
  imports Destination_Resolver
begin

section \<open>What resolving a token guarantees\<close>

text \<open>
  The properties of \<^verbatim>\<open>OpaqueDestinationResolver\<close> over the tables that the lifecycle operations maintain:
  what a resolved token is, that the unique index on verifiers makes the lookup find the one row of a
  token, and that both tokens of a rotation resolve during the overlap.
\<close>

subsection \<open>The unique index on verifiers\<close>

definition verifierColumns :: "token_row \<Rightarrow> GatewayAudienceID \<times> DestinationVerifierKeyID \<times> byte list" where
  "verifierColumns r = (tr_gateway_audience_id r, tr_verifier_key_id r, tr_token_verifier r)"

definition verifiersDistinct :: "gateway_db \<Rightarrow> bool" where
  "verifiersDistinct db = distinct (map verifierColumns (db_tokens db))"

lemma verifierColumns_marks [simp]:
  "verifierColumns (markActive now r) = verifierColumns r" "verifierColumns (markRetiring now dl r) = verifierColumns r"
  "verifierColumns (markRevoked now r) = verifierColumns r" "verifierColumns (markRestored now r) = verifierColumns r"
  by (simp_all add: verifierColumns_def mark_simps)

lemma update_verifiers:
  assumes "stepOne (updateTokens P f) db = Some db'" "\<And>r. verifierColumns (f r) = verifierColumns r" "verifiersDistinct db"
  shows "verifiersDistinct db'"
proof -
  from update_step [OF assms(1)] obtain xs r ys where
    "db_tokens db = xs @ r # ys" "db' = db\<lparr>db_tokens := xs @ f r # ys\<rparr>" by metis
  with assms(2,3) show ?thesis by (simp add: verifiersDistinct_def)
qed

lemma insert_verifiers:
  assumes "stepOne (insertStatement c) db = Some db'" "verifiersDistinct db"
  shows "verifiersDistinct db'"
proof -
  note ins = insert_step [OF assms(1)]
  let ?r = "candidateRow c"
  have "\<not> repeated (\<lambda>x. tr_gateway_audience_id x = tr_gateway_audience_id ?r \<and>
      tr_verifier_key_id x = tr_verifier_key_id ?r \<and> tr_token_verifier x = tr_token_verifier ?r) (db_tokens db @ [?r])"
    using ins(3) by (auto simp: uniqueViolation_def split: if_splits)
  then have "verifierColumns ?r \<notin> verifierColumns ` set (db_tokens db)"
    by (auto simp: repeated_def verifierColumns_def filter_empty_conv)
  with assms(2) show ?thesis by (simp add: verifiersDistinct_def ins(1))
qed

lemma statement_verifiers:
  assumes "st \<in> set (commandStatements cmd sn)" "stepOne st db = Some db'" "verifiersDistinct db"
  shows "verifiersDistinct db'"
  using assms
  by (cases cmd)
    (auto simp: activateInitialLifecycleTokenSQL_def retireLifecycleTokenSQL_def activateRotationLifecycleTokenSQL_def
      revokeStagedLifecycleTokenSQL_def revokeActiveLifecycleTokenSQL_def restoreRetiringLifecycleTokenSQL_def
      revokeRetiringLifecycleTokenSQL_def intro: insert_verifiers elim!: update_verifiers)

lemma stepAll_verifiers:
  "(\<And>st db db'. st \<in> set sts \<Longrightarrow> stepOne st db = Some db' \<Longrightarrow> verifiersDistinct db \<Longrightarrow> verifiersDistinct db') \<Longrightarrow>
   stepAll sts db = Some db' \<Longrightarrow> verifiersDistinct db \<Longrightarrow> verifiersDistinct db'"
  by (induction sts arbitrary: db) (auto split: option.splits)

lemma command_verifiers:
  assumes "commandStep cmd db = Some db'" "verifiersDistinct db"
  shows "verifiersDistinct db'"
proof (rule command_unfold [OF assms(1)])
  fix d
  assume "stepAll (commandStatements cmd (ls_snapshot (stateAt d (commandDestination cmd) db (commandNow cmd)))) db = Some db'"
  from stepAll_verifiers [OF statement_verifiers this assms(2)] show ?thesis .
qed

lemma runCommands_verifiers: "verifiersDistinct db \<Longrightarrow> verifiersDistinct (runCommands cmds db)"
  unfolding runCommands_def
  by (induction cmds arbitrary: db) (auto simp: runCommand_def intro: command_verifiers split: option.splits)

subsection \<open>The row of a token\<close>

text \<open>The key of the destination table.\<close>

definition destinationsDistinct :: "gateway_db \<Rightarrow> bool" where
  "destinationsDistinct db = distinct (map dr_destination_id (db_destinations db))"

text \<open>The verifier of a token under a key of the keyring.\<close>

definition verifierBytes ::
  "(GatewayAudienceID \<Rightarrow> DestinationVerifierKeyID \<Rightarrow> DestinationVerifierKey option) \<Rightarrow> GatewayAudienceID \<Rightarrow>
   OpaqueDestinationToken \<Rightarrow> DestinationVerifierKeyID \<Rightarrow> byte list" where
  "verifierBytes keyring audience rawToken k = hmac_sha256 (the (keyring audience k)) (verifierMessage audience rawToken)"

text \<open>The row of a token: no row of the table carries the verifier of the token under a configured key
  but \<open>r\<close>.\<close>

definition tokenRow ::
  "gateway_db \<Rightarrow> (GatewayAudienceID \<Rightarrow> DestinationVerifierKeyID \<Rightarrow> DestinationVerifierKey option) \<Rightarrow>
   DestinationVerifierKeyID list \<Rightarrow> GatewayAudienceID \<Rightarrow> OpaqueDestinationToken \<Rightarrow> token_row \<Rightarrow> bool" where
  "tokenRow db keyring keyIDs audience rawToken r =
     (r \<in> set (db_tokens db) \<and> tr_gateway_audience_id r = audience \<and> tr_verifier_key_id r \<in> set keyIDs \<and>
      tr_token_verifier r = verifierBytes keyring audience rawToken (tr_verifier_key_id r) \<and>
      (\<forall>x\<in>set (db_tokens db). tr_gateway_audience_id x = audience \<longrightarrow> tr_verifier_key_id x \<in> set keyIDs \<longrightarrow>
         tr_token_verifier x = verifierBytes keyring audience rawToken (tr_verifier_key_id x) \<longrightarrow> x = r))"

lemma length_verifierBytes: "length (verifierBytes keyring audience rawToken k) = 32"
  by (simp add: verifierBytes_def)

lemma distinct_filter_one:
  assumes "distinct (map g xs)" "x \<in> set xs"
  shows "filter (\<lambda>y. g y = g x) xs = [x]"
  using assms by (induction xs) (auto simp: filter_empty_conv, metis image_eqI)

lemma lookup_row:
  assumes "verifiersDistinct db" "destinationsDistinct db" "tokenRow db keyring keyIDs audience rawToken r"
    "row \<in> set (db_destinations db)" "dr_destination_id row = tr_destination_id r" "k \<in> set keyIDs"
    "c = \<lparr>vc_keyID = k, vc_verifier = \<lparr>tv_bytes = of_be_bytes (verifierBytes keyring audience rawToken k), tv_present = True\<rparr>\<rparr>"
  shows "candidateLookup db audience c = (if tr_verifier_key_id r = k
    then Some (destinationTokenRecord_token audience c (scanDestinationToken 1 (r, Some row))) else None)"
proof -
  let ?P = "\<lambda>t. tr_gateway_audience_id t = audience \<and> tr_verifier_key_id t = k \<and>
    tr_token_verifier t = verifierBytes keyring audience rawToken k"
  have be: "be_bytes 32 (of_be_bytes (verifierBytes keyring audience rawToken k) :: bytes32) = verifierBytes keyring audience rawToken k"
    by (simp add: be_bytes_of_be_bytes length_verifierBytes)
  have "filter ?P (db_tokens db) = (if tr_verifier_key_id r = k then [r] else [])"
  proof (cases "tr_verifier_key_id r = k")
    case True
    with assms(3) have "verifierColumns r = (audience, k, verifierBytes keyring audience rawToken k)"
      by (simp add: tokenRow_def verifierColumns_def)
    then have "?P t \<longleftrightarrow> verifierColumns t = verifierColumns r" for t by (simp add: verifierColumns_def)
    with distinct_filter_one [of verifierColumns "db_tokens db" r] assms(1,3) True show ?thesis
      by (simp add: verifiersDistinct_def tokenRow_def)
  next
    case False
    with assms(3,6) show ?thesis by (auto simp: tokenRow_def filter_empty_conv)
  qed
  moreover have "joinDestination (db_destinations db) r = [(r, Some row)]"
    using distinct_filter_one [of dr_destination_id "db_destinations db" row] assms(2,4,5)
    by (simp add: destinationsDistinct_def joinDestination_def)
  ultimately show ?thesis
    by (simp add: candidateLookup_def selectDestinationTokenSQL_def Let_def assms(7) be)
qed

lemma map_filter_one:
  assumes "distinct ks" "k \<in> set ks" "\<And>x. x \<in> set ks \<Longrightarrow> f (g x) = (if x = k then Some y else None)"
  shows "List.map_filter f (map g ks) = [y]"
  using assms
proof (induction ks)
  case (Cons a ks)
  show ?case
  proof (cases "a = k")
    case True
    with Cons.prems have "List.map_filter f (map g ks) = []"
      by (auto simp: List.map_filter_def filter_empty_conv)
    with True Cons.prems show ?thesis by (simp add: List.map_filter_simps)
  next
    case False
    with Cons show ?thesis by (simp add: List.map_filter_simps)
  qed
qed simp

lemma configuredKeyIDs_distinct:
  "configuredKeyIDs seen keyIDs = Some ids \<Longrightarrow> distinct seen \<Longrightarrow> distinct ids"
  by (induction keyIDs arbitrary: seen) (auto split: sum.splits if_splits)

text \<open>A destination row that the lifecycle operations load is one the resolver parses.\<close>

lemma readable_row:
  assumes "readableDestination audience destination t0 db d"
  obtains row where "row \<in> set (db_destinations db)" "dr_destination_id row = destination"
    "dr_gateway_audience_id row = audience" "destinationRowParses row d"
proof -
  from assms obtain row where "selectLifecycleDestination destination db = Some row"
    "lifecycleDestinationRecord_destination audience destination t0 (scanDestination row) = Inr d"
    by (auto simp: readableDestination_def)
  then show thesis
    by (intro that [of row])
      (auto simp: selectLifecycleDestination_def destination_iff destinationRowParses_def find_Some_iff)
qed

lemma resolution_row:
  assumes "verifiersDistinct db" "destinationsDistinct db" "tokenRow db keyring keyIDs audience rawToken r"
    "distinct keyIDs" "readableDestination audience (tr_destination_id r) t0 db d" "rowParses audience d r"
  shows "resolution db audience (candidatesOf keyring keyIDs audience rawToken) = Inr [specOf d r]"
proof -
  from readable_row [OF assms(5)] obtain row where row: "row \<in> set (db_destinations db)"
    "dr_destination_id row = tr_destination_id r" "dr_gateway_audience_id row = audience" "destinationRowParses row d"
    by metis
  let ?c = "\<lambda>k. \<lparr>vc_keyID = k, vc_verifier =
    \<lparr>tv_bytes = of_be_bytes (verifierBytes keyring audience rawToken k), tv_present = True\<rparr>\<rparr>"
  let ?k = "tr_verifier_key_id r"
  have r: "?k \<in> set keyIDs" "tr_gateway_audience_id r = audience"
    "tr_token_verifier r = verifierBytes keyring audience rawToken ?k"
    using assms(3) by (simp_all add: tokenRow_def)
  have "tokenMatches audience (?c ?k) r row (specOf d r)"
    using assms(6) row r by (auto simp: tokenMatches_def rowParses_def token_iff)
  then have "candidateLookup db audience (?c k) = (if k = ?k then Some (Inr (specOf d r)) else None)" if "k \<in> set keyIDs" for k
    using lookup_row [OF assms(1-3) row(1,2) that refl] by (auto simp: record_token_iff)
  from map_filter_one [OF assms(4) r(1), where g = ?c, OF this]
  show ?thesis by (simp add: resolution_def candidatesOf_def verifierBytes_def)
qed

text \<open>What the tables say of a destination that was resolved.\<close>

definition servedBy ::
  "gateway_db \<Rightarrow> (GatewayAudienceID \<Rightarrow> DestinationVerifierKeyID \<Rightarrow> DestinationVerifierKey option) \<Rightarrow>
   DestinationVerifierKeyID list \<Rightarrow> GatewayAudienceID \<Rightarrow> OpaqueDestinationToken \<Rightarrow> time \<Rightarrow> DestinationID \<Rightarrow> token_row \<Rightarrow> bool" where
  "servedBy db keyring keyIDs audience rawToken now destination x =
     (x \<in> set (db_tokens db) \<and> tr_destination_id x = destination \<and> tr_gateway_audience_id x = audience \<and>
      tr_verifier_key_id x \<in> set keyIDs \<and>
      (\<exists>key. keyring audience (tr_verifier_key_id x) = Some key \<and>
         tr_token_verifier x = hmac_sha256 key (verifierMessage audience rawToken)) \<and>
      (tr_token_state x = str ''active'' \<or>
       tr_token_state x = str ''retiring'' \<and> now < optionTime (tr_retirement_overlap_deadline x)) \<and>
      optionTime (tr_activated_at x) \<le> now \<and> now < stampTime (tr_expires_at x) \<and>
      (\<exists>row\<in>set (db_destinations db). dr_destination_id row = destination \<and> dr_gateway_audience_id row = audience \<and>
         dr_destination_state row = str ''enabled''))"

lemma stateOfText_active: "stateOfText x = DestinationTokenActive \<longleftrightarrow> x = str ''active''"
  "stateOfText x = DestinationTokenRetiring \<longleftrightarrow> x = str ''retiring''"
  by (auto simp: stateOfText_def destinationTokenState_def)

lemma compute_bytes:
  "ComputeDestinationTokenVerifier audience rawToken key = Inr v \<Longrightarrow>
     v = \<lparr>tv_bytes = of_be_bytes (hmac_sha256 key (verifierMessage audience rawToken)), tv_present = True\<rparr>"
  by (auto simp: ComputeDestinationTokenVerifier_def NewTokenVerifier_def split: if_splits)

lemma of_be_bytes_eq:
  assumes "length xs = 32" "length ys = 32" "(of_be_bytes xs :: bytes32) = of_be_bytes ys"
  shows "xs = ys"
  using arg_cong [OF assms(3), of "be_bytes 32"] by (simp add: be_bytes_of_be_bytes assms(1,2))

lemma matched_served:
  assumes "matched db keyring keyIDs audience rawToken t" "DestinationToken_UsableAt t now"
  shows "\<exists>x. servedBy db keyring keyIDs audience rawToken now (de_id (ts_Destination t)) x"
proof -
  from assms(1) obtain c :: destinationVerifierCandidate and r row d key where c: "vc_keyID c \<in> set keyIDs" "keyring audience (vc_keyID c) = Some key"
      "ComputeDestinationTokenVerifier audience rawToken key = Inr (vc_verifier c)"
    and rows: "r \<in> set (db_tokens db)" "row \<in> set (db_destinations db)"
    and m: "destinationRowParses row d" "rowShapeOK r" "tr_gateway_audience_id r = audience"
      "tr_destination_id r = dr_destination_id row" "dr_gateway_audience_id row = audience"
      "tr_verifier_key_id r = vc_keyID c" "(of_be_bytes (tr_token_verifier r) :: bytes32) = tv_bytes (vc_verifier c)"
      "t = specOf d r"
    unfolding matched_def verifierUnder_def storedMatch_def tokenMatches_def
    by blast
  have "tr_token_verifier r = hmac_sha256 key (verifierMessage audience rawToken)"
    using m(2,7) compute_bytes [OF c(3)] by (intro of_be_bytes_eq) (simp_all add: rowShapeOK_def)
  moreover have d: "de_id d = tr_destination_id r" "destinationState (dr_destination_state row) = Inr (de_state d)"
    using m(1,4) by (auto simp: destinationRowParses_def NewDestination_iff)
  moreover have "de_state d = DestinationEnabled" "tr_token_state r = str ''active'' \<or> tr_token_state r = str ''retiring''"
    "optionTime (tr_activated_at r) \<le> now" "now < stampTime (tr_expires_at r)"
    "tr_token_state r = str ''retiring'' \<longrightarrow> now < optionTime (tr_retirement_overlap_deadline r)"
    using assms(2)
    by (auto simp: m(8) DestinationToken_UsableAt_def specOf_def Destination_Enabled_def stateOfText_active Before_def
        split: if_splits)
  moreover have "dr_destination_state row = str ''enabled''"
    using calculation(3) \<open>de_state d = DestinationEnabled\<close> by (auto simp: destinationState_def split: if_splits)
  ultimately have "servedBy db keyring keyIDs audience rawToken now (de_id (ts_Destination t)) r"
    using rows c m(3-6) by (auto simp: servedBy_def m(8) specOf_def)
  then show ?thesis by blast
qed

text \<open>C26. The resolver is a read: whatever the driver, the context and the key source do, the tables are
  unchanged and an acquired connection is released or destroyed exactly once. A destination is
  returned only for an enabled destination of the audience that has a token row which is active, or
  retiring before its deadline, inside its activation and expiry times, and whose stored verifier is
  the keyed hash of the presented token for this audience under one of the configured keys. Every
  failure is one of the fixed errors.\<close>

theorem resolved_token_is_live:
  assumes "NewOpaqueDestinationResolver nilPool (Some keySource) keyIDs = Inr resolver" "keysFrom keySource keyring"
    "s_tx s = None" "run_state (Resolve timeout (Some resolver) ctx audience rawToken now) s = (r, s')"
  shows "s_db s' = s_db s \<and> s_tx s' = None \<and> connectionSettled (s_log s) (s_log s') \<and>
    (case r of
       Inr destination \<Rightarrow> \<exists>x. servedBy (s_db s) keyring keyIDs audience rawToken now destination x
     | Inl e \<Rightarrow> resolverError e \<or> e = stateErr ErrDestinationNotFound)"
  using afterD [OF resolve_after [OF assms(1-3)] assms(4)] matched_served
  by (auto simp: resolverPost_def split: sum.splits)

subsection \<open>Both tokens of a rotation\<close>

text \<open>A resolver over a pool with its keys at hand, and a session in which nothing fails.\<close>

definition servingResolver ::
  "OpaqueDestinationResolver \<Rightarrow> (GatewayAudienceID \<Rightarrow> DestinationVerifierKeyID \<Rightarrow> DestinationVerifierKey option) \<Rightarrow>
   DestinationVerifierKeyID list \<Rightarrow> GatewayAudienceID \<Rightarrow> bool" where
  "servingResolver resolver keyring keyIDs audience =
     (\<exists>keySource. NewOpaqueDestinationResolver False (Some keySource) keyIDs = Inr resolver \<and>
        keysDeliver keySource keyring \<and> keysAvailable keyring keyIDs audience)"

lemma configured_self: "configuredKeyIDs [] keyIDs = Some ids \<Longrightarrow> distinct keyIDs"
  using configuredKeyIDs_distinct [of "[]" keyIDs ids] configuredKeyIDs_same [of "[]" keyIDs ids] by simp

lemma serving_distinct: "servingResolver resolver keyring keyIDs audience \<Longrightarrow> distinct keyIDs"
  by (auto simp: servingResolver_def NewOpaqueDestinationResolver_def newOpaqueDestinationResolver_def
      dest: configured_self split: if_splits option.splits)

lemma resolve_row:
  assumes "servingResolver resolver keyring keyIDs audience" "calm s" "s_tx s = None" "ctx \<noteq> NilContext" "now \<noteq> 0"
    "verifiersDistinct (s_db s)" "destinationsDistinct (s_db s)" "tokenRow (s_db s) keyring keyIDs audience rawToken x"
    "readableDestination audience (tr_destination_id x) t0 (s_db s) d" "rowParses audience d x"
  shows "run_state (Resolve timeout (Some resolver) ctx audience rawToken now) s =
    (if DestinationToken_UsableAt (specOf d x) now then Inr (tr_destination_id x) else Inl (stateErr ErrDestinationNotFound),
     s\<lparr>s_log := s_log s @ [Acquired, Released]\<rparr>)"
proof -
  from assms(1) obtain keySource where rs: "NewOpaqueDestinationResolver False (Some keySource) keyIDs = Inr resolver"
    "keysDeliver keySource keyring" "keysAvailable keyring keyIDs audience" by (auto simp: servingResolver_def)
  have audience: "audience \<noteq> 0" "de_id d = tr_destination_id x" using readableDestination_facts [OF assms(9)] by auto
  have one: "resolution (s_db s) audience (candidatesOf keyring keyIDs audience rawToken) = Inr [specOf d x]"
    by (rule resolution_row [OF assms(6,7,8) serving_distinct [OF assms(1)] assms(9,10)])
  have "after (Resolve timeout (Some resolver) ctx audience rawToken now) s (\<lambda>r s'.
      (r, s') = (if DestinationToken_UsableAt (specOf d x) now then Inr (tr_destination_id x)
        else Inl (stateErr ErrDestinationNotFound), s\<lparr>s_log := s_log s @ [Acquired, Released]\<rparr>))"
    using assms(2-5) audience
    by (simp add: Resolve_def resolver_parts [OF rs(1)] Let_def after_simps IsZero_def parseUUID_formatUUID
        calm_sentinel matching_calm [OF rs(2) assms(2,3) rs(3)] one) (simp add: specOf_def)
  then show ?thesis by (auto simp: after_def split: prod.splits)
qed

text \<open>The rows a rotation leaves, by record.\<close>

lemma rotation_rows:
  assumes "commandStep (ActivateRotate c) db = Some db'" "x \<in> set (liveRows (ac_DestinationID c) db')"
  shows "tr_record_id x = ac_StagedRecordID c \<Longrightarrow> tr_token_state x = str ''active'' \<and>
      tr_activated_at x = Some (timestampArgument (ac_Now c))"
    "tr_record_id x = ac_OldActiveRecordID c \<Longrightarrow> tr_token_state x = str ''retiring'' \<and>
      tr_retirement_started_at x = Some (timestampArgument (ac_Now c)) \<and>
      tr_retirement_overlap_deadline x = Some (timestampArgument (ac_OverlapDeadline c))"
proof -
  have "ac_StagedRecordID c \<noteq> ac_OldActiveRecordID c" using command_unfold [OF assms(1)] by force
  moreover obtain s a where rows: "rowIn s (str ''staged'') (ac_StagedRecordID c)" "rowIn a (str ''active'') (ac_OldActiveRecordID c)"
    "mset (liveRows (ac_DestinationID c) db') =
       {#markActive (ac_Now c) s, markRetiring (ac_Now c) (ac_OverlapDeadline c) a#}"
    using command_rows [OF assms(1)] by (auto simp: commandPost_def)
  moreover from mset_members(2) [OF rows(3) assms(2)]
  have "x = markActive (ac_Now c) s \<or> x = markRetiring (ac_Now c) (ac_OverlapDeadline c) a" .
  ultimately show "tr_record_id x = ac_StagedRecordID c \<Longrightarrow> tr_token_state x = str ''active'' \<and>
      tr_activated_at x = Some (timestampArgument (ac_Now c))"
    "tr_record_id x = ac_OldActiveRecordID c \<Longrightarrow> tr_token_state x = str ''retiring'' \<and>
      tr_retirement_started_at x = Some (timestampArgument (ac_Now c)) \<and>
      tr_retirement_overlap_deadline x = Some (timestampArgument (ac_OverlapDeadline c))"
    by (auto simp: rowIn_def mark_simps)
qed

lemma retiring_history:
  assumes "rowParses audience d x" "tr_token_state x = str ''retiring''"
  shows "optionTime (tr_activated_at x) \<le> optionTime (tr_retirement_started_at x)"
proof -
  have spec: "tokenSpecOK (specOf d x)" using assms(1) by (simp add: rowParses_def)
  have "ts_State (specOf d x) = DestinationTokenRetiring" by (simp add: specOf_def assms(2))
  with spec have "ts_RetirementStartedAt (specOf d x) \<noteq> 0" by (simp add: tokenSpecOK_def)
  with spec have "ts_ActivatedAt (specOf d x) \<le> ts_RetirementStartedAt (specOf d x)"
    by (simp add: tokenSpecOK_def historyOK_def)
  then show ?thesis by (simp add: specOf_def)
qed

lemma usable_active:
  assumes "Destination_Enabled d" "tr_token_state x = str ''active''" "optionTime (tr_activated_at x) \<le> now"
  shows "DestinationToken_UsableAt (specOf d x) now \<longleftrightarrow> now < stampTime (tr_expires_at x)"
  using assms by (simp add: DestinationToken_UsableAt_def specOf_def Before_def)

lemma usable_retiring:
  assumes "Destination_Enabled d" "tr_token_state x = str ''retiring''" "optionTime (tr_activated_at x) \<le> now"
  shows "DestinationToken_UsableAt (specOf d x) now \<longleftrightarrow>
    now < stampTime (tr_expires_at x) \<and> now < optionTime (tr_retirement_overlap_deadline x)"
  using assms by (simp add: DestinationToken_UsableAt_def specOf_def Before_def)

lemma readable_enabled:
  assumes "readableDestination audience destination t0 db d" "selectLifecycleDestination destination db = Some row"
    "dr_destination_state row = str ''enabled''"
  shows "Destination_Enabled d"
  using assms
  by (auto simp: readableDestination_def destination_iff NewDestination_iff destinationState_def Destination_Enabled_def)

text \<open>The row of a token of the destination after a rotation, as the resolver sees it.\<close>

definition rotatedToken ::
  "(GatewayAudienceID \<Rightarrow> DestinationVerifierKeyID \<Rightarrow> DestinationVerifierKey option) \<Rightarrow> DestinationVerifierKeyID list \<Rightarrow>
   ActivateRotationCommand \<Rightarrow> gateway_db \<Rightarrow> OpaqueDestinationToken \<Rightarrow> token_row \<Rightarrow> bool" where
  "rotatedToken keyring keyIDs c db rawToken x =
     (tokenRow db keyring keyIDs (ac_AudienceID c) rawToken x \<and> x \<in> set (liveRows (ac_DestinationID c) db))"

lemma rotated_resolves:
  assumes serving: "servingResolver resolver keyring keyIDs (ac_AudienceID c)" "calm s" "s_tx s = None" "ctx \<noteq> NilContext"
    and step: "commandStep (ActivateRotate c) db = Some (s_db s)" "commandFit (ActivateRotate c)"
    and tables: "verifiersDistinct db" "destinationsDistinct db"
    and enabled: "selectLifecycleDestination (ac_DestinationID c) db = Some row" "dr_destination_state row = str ''enabled''"
    and x: "rotatedToken keyring keyIDs c (s_db s) rawToken x" and now: "ac_Now c \<le> now"
  obtains d where "Destination_Enabled d" "rowParses (ac_AudienceID c) d x"
    "run_state (Resolve timeout (Some resolver) ctx (ac_AudienceID c) rawToken now) s =
      (if DestinationToken_UsableAt (specOf d x) now then Inr (ac_DestinationID c) else Inl (stateErr ErrDestinationNotFound),
       s\<lparr>s_log := s_log s @ [Acquired, Released]\<rparr>)"
proof -
  obtain d where d: "readableDestination (ac_AudienceID c) (ac_DestinationID c) (ac_Now c) db d"
    "readableRows (ac_AudienceID c) d (liveRows (ac_DestinationID c) db)"
    using command_unfold [OF step(1)] by force
  note readable = step_readable [OF step d]
  have dest: "tr_destination_id x = ac_DestinationID c"
    using x by (simp add: rotatedToken_def liveRows_def liveRow_def)
  have parses: "rowParses (ac_AudienceID c) d x" using readable_old [OF readable(2)] x by (simp add: rotatedToken_def)
  have fit: "now \<noteq> 0" using step(2) now by (simp add: commandFit_def)
  have distinct: "destinationsDistinct (s_db s)"
    using tables(2) command_rows [OF step(1)] by (simp add: commandPost_def stepFrame_def destinationsDistinct_def)
  have "readableDestination (ac_AudienceID c) (tr_destination_id x) (ac_Now c) (s_db s) d"
    using readable(1) by (simp add: dest)
  note run = resolve_row [OF serving fit command_verifiers [OF step(1) tables(1)] distinct _ this parses, of rawToken timeout]
  show thesis
    using that [OF readable_enabled [OF d(1) enabled] parses] run x dest by (simp add: rotatedToken_def)
qed

text \<open>C27. A rotation never interrupts deliveries: from the moment it is activated the new token of the
  destination resolves to it until it expires, and the old token until it expires or the overlap
  deadline, cut to the microseconds the table stores, has passed; afterwards it is not found. The
  tables are only required to hold one row for the token under the configured keys.\<close>

theorem rotation_overlap_resolves:
  assumes "servingResolver resolver keyring keyIDs (ac_AudienceID c)" "calm s" "s_tx s = None" "ctx \<noteq> NilContext"
    "commandStep (ActivateRotate c) db = Some (s_db s)" "commandFit (ActivateRotate c)"
    "verifiersDistinct db" "destinationsDistinct db"
    "selectLifecycleDestination (ac_DestinationID c) db = Some row" "dr_destination_state row = str ''enabled''"
    "rotatedToken keyring keyIDs c (s_db s) rawToken x" "ac_Now c \<le> now"
  shows "(tr_record_id x = ac_StagedRecordID c \<longrightarrow>
      fst (run_state (Resolve timeout (Some resolver) ctx (ac_AudienceID c) rawToken now) s) =
        (if now < stampTime (tr_expires_at x) then Inr (ac_DestinationID c) else Inl (stateErr ErrDestinationNotFound))) \<and>
    (tr_record_id x = ac_OldActiveRecordID c \<longrightarrow>
      fst (run_state (Resolve timeout (Some resolver) ctx (ac_AudienceID c) rawToken now) s) =
        (if now < stampTime (tr_expires_at x) \<and> now < ac_OverlapDeadline c div 1000 * 1000
         then Inr (ac_DestinationID c) else Inl (stateErr ErrDestinationNotFound)))"
proof (rule rotated_resolves [OF assms, of timeout])
  fix d assume d: "Destination_Enabled d" "rowParses (ac_AudienceID c) d x"
    and run: "run_state (Resolve timeout (Some resolver) ctx (ac_AudienceID c) rawToken now) s =
      (if DestinationToken_UsableAt (specOf d x) now then Inr (ac_DestinationID c) else Inl (stateErr ErrDestinationNotFound),
       s\<lparr>s_log := s_log s @ [Acquired, Released]\<rparr>)"
  have trunc: "ac_Now c div 1000 * 1000 \<le> now"
    using assms(12) div_mult_mod_eq [of "ac_Now c" 1000] pos_mod_sign [of 1000 "ac_Now c"] by linarith
  have x: "x \<in> set (liveRows (ac_DestinationID c) (s_db s))" using assms(11) by (simp add: rotatedToken_def)
  note rows = rotation_rows [OF assms(5) x]
  show ?thesis
  proof (intro conjI impI)
    assume "tr_record_id x = ac_StagedRecordID c"
    from rows(1) [OF this] trunc have "tr_token_state x = str ''active''" "optionTime (tr_activated_at x) \<le> now"
      by (simp_all add: optionTime_def timestampArgument_def)
    from usable_active [OF d(1) this]
    show "fst (run_state (Resolve timeout (Some resolver) ctx (ac_AudienceID c) rawToken now) s) =
        (if now < stampTime (tr_expires_at x) then Inr (ac_DestinationID c) else Inl (stateErr ErrDestinationNotFound))"
      by (simp add: run)
  next
    assume "tr_record_id x = ac_OldActiveRecordID c"
    from rows(2) [OF this] trunc have st: "tr_token_state x = str ''retiring''"
      and "optionTime (tr_retirement_started_at x) \<le> now"
      and deadline: "optionTime (tr_retirement_overlap_deadline x) = ac_OverlapDeadline c div 1000 * 1000"
      by (simp_all add: optionTime_def timestampArgument_def)
    then have "optionTime (tr_activated_at x) \<le> now" using retiring_history [OF d(2) st] by simp
    from usable_retiring [OF d(1) st this]
    show "fst (run_state (Resolve timeout (Some resolver) ctx (ac_AudienceID c) rawToken now) s) =
        (if now < stampTime (tr_expires_at x) \<and> now < ac_OverlapDeadline c div 1000 * 1000
         then Inr (ac_DestinationID c) else Inl (stateErr ErrDestinationNotFound))"
      by (simp add: run deadline)
  qed
qed

subsection \<open>A concrete rotation\<close>

text \<open>Two tokens of the sample destination under two keys; their verifiers are the hashes of the tokens 7 and 8.\<close>

definition sampleKeyring :: "GatewayAudienceID \<Rightarrow> DestinationVerifierKeyID \<Rightarrow> DestinationVerifierKey option" where
  "sampleKeyring audience k = Some (replicate 32 1)"

definition sampleHash :: "OpaqueDestinationToken \<Rightarrow> bytes32" where
  "sampleHash t = of_be_bytes (hmac_sha256 (replicate 32 1) (verifierMessage 1 t))"

definition oldRow :: "bytes32 \<Rightarrow> token_row" where
  "oldRow v = markActive 6000 (candidateRow (sampleCandidate\<lparr>sc_verifier := \<lparr>tv_bytes = v, tv_present = True\<rparr>\<rparr>))"

definition newRow :: "bytes32 \<Rightarrow> token_row" where
  "newRow v = candidateRow (sampleCandidate\<lparr>sc_verifier := \<lparr>tv_bytes = v, tv_present = True\<rparr>,
     sc_recordID := 4, sc_verifierKeyID := str ''j''\<rparr>)"

definition rotationDb :: "token_row list \<Rightarrow> gateway_db" where
  "rotationDb rows = sampleDb\<lparr>db_tokens := rows\<rparr>"

definition sampleRotate :: ActivateRotationCommand where
  "sampleRotate = \<lparr>ac_AudienceID = 1, ac_DestinationID = 2, ac_StagedRecordID = 4, ac_OldActiveRecordID = 3,
     ac_Now = 8000, ac_OverlapDeadline = 60000\<rparr>"

lemma sample_rows_parse:
  "rowParses 1 sampleDestination (oldRow v)" "rowParses 1 sampleDestination (newRow v)"
proof -
  have "validKeyID (str ''k'')" "validKeyID (str ''j'')" by code_simp+
  then show "rowParses 1 sampleDestination (oldRow v)" "rowParses 1 sampleDestination (newRow v)"
    by (simp_all add: rowParses_def oldRow_def newRow_def candidateRow_def sampleCandidate_def markActive_def
        rowShapeOK_def optionStampOK_def timestampArgument_def tokenSpecOK_def specOf_def historyOK_def optionTime_def
        sampleDestination_def lifetime_defs duration_defs) (simp_all add: str_def)
qed

lemma sample_row_fields:
  "tr_token_state (oldRow v) = str ''active''" "tr_token_state (newRow v) = str ''staged''"
  "tr_record_id (oldRow v) = 3" "tr_record_id (newRow v) = 4"
  "tr_destination_id (oldRow v) = 2" "tr_destination_id (newRow v) = 2"
  "tr_verifier_key_id (oldRow v) = str ''k''" "tr_verifier_key_id (newRow v) = str ''j''"
  "tr_token_verifier (oldRow v) = be_bytes 32 v" "tr_token_verifier (newRow v) = be_bytes 32 v"
  "tr_gateway_audience_id (oldRow v) = 1" "tr_gateway_audience_id (newRow v) = 1"
  "tr_state_changed_at (oldRow v) = Stamp 6" "tr_state_changed_at (newRow v) = Stamp 5"
  "tr_expires_at (oldRow v) = Stamp 90" "tr_expires_at (newRow v) = Stamp 90"
  by (simp_all add: oldRow_def newRow_def candidateRow_def sampleCandidate_def markActive_def timestampArgument_def)

lemma sample_rotation_readable:
  "liveRows 2 (rotationDb [newRow w, oldRow v]) = [newRow w, oldRow v]"
  "readableRows 1 sampleDestination [newRow w, oldRow v]"
proof -
  show "liveRows 2 (rotationDb [newRow w, oldRow v]) = [newRow w, oldRow v]"
    by (simp add: rotationDb_def liveRows_def liveRow_def sample_row_fields)
  show "readableRows 1 sampleDestination [newRow w, oldRow v]"
    by (rule readable_staged_active) (simp_all add: sample_rows_parse sample_row_fields, simp add: sampleDestination_def)
qed

lemma sample_rotation_checks:
  "checksPass (markRetiring 8000 60000 (oldRow v))" "checksPass (markActive 8000 (newRow v))"
  by (simp_all add: checksPass_def tokenChecks_def oldRow_def newRow_def candidateRow_def sampleCandidate_def mark_simps
      timestampArgument_def stamp_le_def interval_hours_def) (simp_all add: str_def)

lemma sample_rotation_guard:
  fixes v w
  defines "st \<equiv> stateAt sampleDestination 2 (rotationDb [newRow w, oldRow v]) 8000"
  shows "commandGuard (ActivateRotate sampleRotate) st = None"
    "lv_stateChangedAt (sn_active (ls_snapshot st)) = 6000" "lv_stateChangedAt (sn_staged (ls_snapshot st)) = 5000"
  unfolding st_def by code_simp+

lemma rowViolationI:
  assumes "checksPass r" "uniqueViolation ts r = None"
    "\<exists>d\<in>set (db_destinations db). dr_gateway_audience_id d = tr_gateway_audience_id r \<and> dr_destination_id d = tr_destination_id r"
  shows "rowViolation db ts r = None"
proof -
  have "filter (\<lambda>(name, ok). \<not> ok) (tokenChecks r) = []"
    using assms(1) by (auto simp: checksPass_def filter_empty_conv)
  with assms(2,3) show ?thesis by (simp add: rowViolation_def)
qed

lemma sample_unique:
  "uniqueViolation [newRow w, markRetiring 8000 60000 (oldRow v)] (markRetiring 8000 60000 (oldRow v)) = None"
  "uniqueViolation [markActive 8000 (newRow w), markRetiring 8000 60000 (oldRow v)] (markActive 8000 (newRow w)) = None"
proof -
  have "str ''k'' \<noteq> str ''j''" "str ''j'' \<noteq> str ''k''" by code_simp+
  then show "uniqueViolation [newRow w, markRetiring 8000 60000 (oldRow v)] (markRetiring 8000 60000 (oldRow v)) = None"
    "uniqueViolation [markActive 8000 (newRow w), markRetiring 8000 60000 (oldRow v)] (markActive 8000 (newRow w)) = None"
    by (simp_all add: uniqueViolation_def repeated_def liveIndex_def mark_simps sample_row_fields)
qed

lemma sample_steps:
  "stepOne (retireLifecycleTokenSQL 1 2 3 6000 8000 60000) (rotationDb [newRow w, oldRow v]) =
     Some (rotationDb [newRow w, markRetiring 8000 60000 (oldRow v)])"
  "stepOne (activateRotationLifecycleTokenSQL 1 2 4 5000 8000) (rotationDb [newRow w, markRetiring 8000 60000 (oldRow v)]) =
     Some (rotationDb [markActive 8000 (newRow w), markRetiring 8000 60000 (oldRow v)])"
proof -
  have fields: "tr_gateway_audience_id (markRetiring 8000 60000 (oldRow v)) = 1"
    "tr_gateway_audience_id (markActive 8000 (newRow w)) = 1" by (simp_all add: mark_simps sample_row_fields)
  have fine: "rowViolation (rotationDb rows) [newRow w, markRetiring 8000 60000 (oldRow v)] (markRetiring 8000 60000 (oldRow v)) = None"
    "rowViolation (rotationDb rows) [markActive 8000 (newRow w), markRetiring 8000 60000 (oldRow v)]
       (markActive 8000 (newRow w)) = None" for rows
    by (intro rowViolationI sample_rotation_checks sample_unique;
        simp add: fields sample_row_fields rotationDb_def sampleDb_def)+
  show "stepOne (retireLifecycleTokenSQL 1 2 3 6000 8000 60000) (rotationDb [newRow w, oldRow v]) =
     Some (rotationDb [newRow w, markRetiring 8000 60000 (oldRow v)])"
    using fine(1) [of "[newRow w, oldRow v]"]
    by (simp add: stepOne_def retireLifecycleTokenSQL_def updateTokens_def writeTokens_def lifecycleTarget_def
        sample_row_fields timestampArgument_def rotationDb_def)
  show "stepOne (activateRotationLifecycleTokenSQL 1 2 4 5000 8000) (rotationDb [newRow w, markRetiring 8000 60000 (oldRow v)]) =
     Some (rotationDb [markActive 8000 (newRow w), markRetiring 8000 60000 (oldRow v)])"
    using fine(2) [of "[newRow w, markRetiring 8000 60000 (oldRow v)]"]
    by (simp add: stepOne_def activateRotationLifecycleTokenSQL_def updateTokens_def writeTokens_def lifecycleTarget_def
        sample_row_fields timestampArgument_def rotationDb_def)
qed

lemma sample_rotated:
  "commandStep (ActivateRotate sampleRotate) (rotationDb [newRow w, oldRow v]) =
     Some (rotationDb [markActive 8000 (newRow w), markRetiring 8000 60000 (oldRow v)])"
proof -
  let ?db = "rotationDb [newRow w, oldRow v]"
  have "lockedStateOf 1 2 8000 ?db = Some (stateAt sampleDestination 2 ?db 8000)"
    unfolding lockedStateOf_iff
    using sample_destination [of 8000 ?db] sample_rotation_readable [of w v]
    by (simp add: stateAt_def rotationDb_def exI [of _ sampleDestination])
  moreover have "commandInputOK (ActivateRotate sampleRotate)"
    by (simp add: sampleRotate_def time_defs Sub_def MaximumRetiringOverlapDuration_def duration_defs minDuration_def maxDuration_def)
  ultimately show ?thesis
    using sample_rotation_guard [of w v] sample_steps [of w v]
    by (simp add: commandStep_def commandEffect_def sampleRotate_def)
qed

definition sampleKeySource :: verifierKeySource where
  "sampleKeySource audience k = State_Monad.return (Inr (replicate 32 1))"

definition sampleResolver :: "DestinationVerifierKeyID \<Rightarrow> OpaqueDestinationResolver" where
  "sampleResolver k = \<lparr>or_acquire = Some resolver_acquire, or_keySource = Some sampleKeySource, or_keyIDs = [k]\<rparr>"

lemma sample_resolver:
  "NewOpaqueDestinationResolver False (Some sampleKeySource) [str ''k''] = Inr (sampleResolver (str ''k''))"
  "NewOpaqueDestinationResolver False (Some sampleKeySource) [str ''j''] = Inr (sampleResolver (str ''j''))"
  "keysFrom sampleKeySource sampleKeyring" "keysDeliver sampleKeySource sampleKeyring" "keysAvailable sampleKeyring keyIDs audience"
proof -
  have "NewDestinationVerifierKeyID (str ''k'') = Inr (str ''k'')" "NewDestinationVerifierKeyID (str ''j'') = Inr (str ''j'')"
    by code_simp+
  then show "NewOpaqueDestinationResolver False (Some sampleKeySource) [str ''k''] = Inr (sampleResolver (str ''k''))"
    "NewOpaqueDestinationResolver False (Some sampleKeySource) [str ''j''] = Inr (sampleResolver (str ''j''))"
    by (simp_all add: NewOpaqueDestinationResolver_def newOpaqueDestinationResolver_def sampleResolver_def)
qed (simp_all add: keysFrom_def keysDeliver_def keysAvailable_def sampleKeySource_def sampleKeyring_def after_simps
    sha256_Size_def go_run)

lemma sample_serving:
  "servingResolver (sampleResolver (str ''k'')) sampleKeyring [str ''k''] audience"
  "servingResolver (sampleResolver (str ''j'')) sampleKeyring [str ''j''] audience"
  using sample_resolver by (auto simp: servingResolver_def)

definition rotatedDb :: gateway_db where
  "rotatedDb = rotationDb [markActive 8000 (newRow (sampleHash 8)), markRetiring 8000 60000 (oldRow (sampleHash 7))]"

lemma sample_rotated_tokens:
  "rotatedToken sampleKeyring [str ''j''] sampleRotate rotatedDb 8 (markActive 8000 (newRow (sampleHash 8)))"
  "rotatedToken sampleKeyring [str ''k''] sampleRotate rotatedDb 7 (markRetiring 8000 60000 (oldRow (sampleHash 7)))"
proof -
  have keys: "str ''k'' \<noteq> str ''j''" "str ''j'' \<noteq> str ''k''" by code_simp+
  have hash: "be_bytes 32 (sampleHash t) = verifierBytes sampleKeyring 1 t k" for t k
    by (simp add: sampleHash_def verifierBytes_def sampleKeyring_def be_bytes_of_be_bytes)
  have columns: "tr_verifier_key_id (markActive 8000 (newRow w)) = str ''j''" "tr_verifier_key_id (markRetiring 8000 60000 (oldRow w)) = str ''k''"
    "tr_token_verifier (markActive 8000 (newRow w)) = be_bytes 32 w"
    "tr_token_verifier (markRetiring 8000 60000 (oldRow w)) = be_bytes 32 w"
    "tr_gateway_audience_id (markActive 8000 (newRow w)) = 1" "tr_gateway_audience_id (markRetiring 8000 60000 (oldRow w)) = 1" for w
    by (simp_all add: mark_simps sample_row_fields)
  show "rotatedToken sampleKeyring [str ''j''] sampleRotate rotatedDb 8 (markActive 8000 (newRow (sampleHash 8)))"
    "rotatedToken sampleKeyring [str ''k''] sampleRotate rotatedDb 7 (markRetiring 8000 60000 (oldRow (sampleHash 7)))"
    by (simp_all add: rotatedToken_def tokenRow_def sampleRotate_def rotatedDb_def rotationDb_def liveRows_def liveRow_def
        columns sample_row_fields keys hash)
qed

theorem resolved_token_is_live_witness:
  "\<exists>r s'. run_state (Resolve (\<lambda>_. False) (Some (sampleResolver (str ''k''))) CallContext 1 7 50000)
       (sampleSession [Answered, Lost (Leaf 0 True)] rotatedDb) = (r, s') \<and>
     s_db s' = rotatedDb \<and> s_tx s' = None \<and> connectionSettled [] (s_log s') \<and>
     (case r of
        Inr destination \<Rightarrow> \<exists>x. servedBy rotatedDb sampleKeyring [str ''k''] 1 7 50000 destination x
      | Inl e \<Rightarrow> resolverError e \<or> e = stateErr ErrDestinationNotFound)"
proof -
  let ?s = "sampleSession [Answered, Lost (Leaf 0 True)] rotatedDb"
  have s: "s_db ?s = rotatedDb" "s_tx ?s = None" "s_log ?s = []" by (simp_all add: sampleSession_def)
  obtain r s' where run: "run_state (Resolve (\<lambda>_. False) (Some (sampleResolver (str ''k''))) CallContext 1 7 50000) ?s = (r, s')"
    by force
  from resolved_token_is_live [OF sample_resolver(1,3) s(2) run] run show ?thesis unfolding s by blast
qed

theorem rotation_overlap_resolves_witness:
  "fst (run_state (Resolve (\<lambda>_. False) (Some (sampleResolver (str ''j''))) CallContext 1 8 50000) (sampleSession [] rotatedDb)) = Inr 2 \<and>
   fst (run_state (Resolve (\<lambda>_. False) (Some (sampleResolver (str ''k''))) CallContext 1 7 50000) (sampleSession [] rotatedDb)) = Inr 2 \<and>
   fst (run_state (Resolve (\<lambda>_. False) (Some (sampleResolver (str ''k''))) CallContext 1 7 60000) (sampleSession [] rotatedDb)) =
     Inl (stateErr ErrDestinationNotFound)"
proof -
  let ?db = "rotationDb [newRow (sampleHash 8), oldRow (sampleHash 7)]" and ?s = "sampleSession [] rotatedDb"
  have keys: "str ''k'' \<noteq> str ''j''" by code_simp
  have s: "calm ?s" "s_tx ?s = None" "s_db ?s = rotatedDb"
    by (simp_all add: sampleSession_def calm_def answering_def)
  have step: "commandStep (ActivateRotate sampleRotate) ?db = Some (s_db ?s)" "commandFit (ActivateRotate sampleRotate)"
    unfolding s(3) by (simp add: rotatedDb_def sample_rotated) (simp add: commandFit_def sampleRotate_def)
  have tables: "verifiersDistinct ?db" "destinationsDistinct ?db"
    "selectLifecycleDestination (ac_DestinationID sampleRotate) ?db = Some (hd (db_destinations sampleDb))"
    "dr_destination_state (hd (db_destinations sampleDb)) = str ''enabled''"
    using keys
    by (simp_all add: verifiersDistinct_def destinationsDistinct_def rotationDb_def verifierColumns_def sample_row_fields
        sampleDb_def selectLifecycleDestination_def sampleRotate_def)
  have times: "ac_Now sampleRotate \<le> 50000" "ac_Now sampleRotate \<le> 60000" by (simp_all add: sampleRotate_def)
  have x: "rotatedToken sampleKeyring [str ''j''] sampleRotate (s_db ?s) 8 (markActive 8000 (newRow (sampleHash 8)))"
    "rotatedToken sampleKeyring [str ''k''] sampleRotate (s_db ?s) 7 (markRetiring 8000 60000 (oldRow (sampleHash 7)))"
    using sample_rotated_tokens by (simp_all add: s)
  note resolves = rotation_overlap_resolves [OF _ s(1,2) _ step tables, of _ _ _ CallContext, simplified]
  show ?thesis
    using resolves [OF sample_serving(2) x(1) times(1)] resolves [OF sample_serving(1) x(2) times(1)]
      resolves [OF sample_serving(1) x(2) times(2)]
    by (simp add: sampleRotate_def mark_simps sample_row_fields)
qed

end
