(* ===== verification/Rotation_Participant.thy ===== *)
theory Rotation_Participant
  imports Resolver_Guarantees
begin

section \<open>The rotation participant\<close>

text \<open>
  \<^verbatim>\<open>internal/securitystate/destination_rotation_participant.go\<close>: a caller that keeps a token outside the gateway begins
  a rotation, learns the new token once, and later observes, rolls back or finalizes the attempt by its handle. The
  service is a record of its dependencies over a world \<open>'w\<close>; the operations of the lifecycle take the context they are
  called with, because a staged token is aborted under a context of its own.
\<close>

subsection \<open>Values\<close>

definition MaximumDestinationTokenRotationCompensationDuration :: duration where
  "MaximumDestinationTokenRotationCompensationDuration = 30 * Second"

definition TokenIdentity_Valid :: "DestinationTokenRotationTokenIdentity \<Rightarrow> bool" where
  "TokenIdentity_Valid identity =
     (identity = DestinationTokenRotationTokenNew \<or> identity = DestinationTokenRotationTokenOld \<or>
      identity = DestinationTokenRotationTokenNeither)"

datatype DestinationTokenRotationStatus =
    DestinationTokenRotationActiveWithRetiring
  | DestinationTokenRotationRolledBack
  | DestinationTokenRotationCompleted
  | DestinationTokenRotationStatusUndeclared

definition RotationStatus_Valid :: "DestinationTokenRotationStatus \<Rightarrow> bool" where
  "RotationStatus_Valid status =
     (status = DestinationTokenRotationActiveWithRetiring \<or> status = DestinationTokenRotationRolledBack \<or>
      status = DestinationTokenRotationCompleted)"

definition validRotationBinding :: "GatewayAudienceID \<Rightarrow> DestinationID \<Rightarrow> bool" where
  "validRotationBinding audience destination =
     (if audience = 0 \<or> destination = 0 then False
      else parseUUID (formatUUID audience) False = Inr audience \<and> parseUUID (formatUUID destination) False = Inr destination)"

record DestinationTokenRotationRequest =
  rreq_audienceID :: GatewayAudienceID
  rreq_destination :: DestinationID
  rreq_currentToken :: OpaqueDestinationToken

definition NewDestinationTokenRotationRequest ::
  "GatewayAudienceID \<Rightarrow> DestinationID \<Rightarrow> OpaqueDestinationToken \<Rightarrow> DestinationTokenRotationRequest result" where
  "NewDestinationTokenRotationRequest audience destination currentToken =
     (if \<not> validRotationBinding audience destination then Inl (stateErr ErrDestinationTokenRotationInvalid)
      else Inr \<lparr>rreq_audienceID = audience, rreq_destination = destination, rreq_currentToken = currentToken\<rparr>)"

record DestinationTokenRotationHandle =
  rh_audienceID :: GatewayAudienceID
  rh_destination :: DestinationID
  rh_newActiveRecordID :: DestinationTokenRecordID
  rh_oldRetiringRecordID :: DestinationTokenRecordID

definition zeroHandle :: DestinationTokenRotationHandle where
  "zeroHandle = \<lparr>rh_audienceID = 0, rh_destination = 0, rh_newActiveRecordID = 0, rh_oldRetiringRecordID = 0\<rparr>"

definition validRotationHandle :: "DestinationTokenRotationHandle \<Rightarrow> bool" where
  "validRotationHandle handle =
     (if \<not> validRotationBinding (rh_audienceID handle) (rh_destination handle) \<or> rh_newActiveRecordID handle = 0 \<or>
         rh_oldRetiringRecordID handle = 0 \<or> rh_newActiveRecordID handle = rh_oldRetiringRecordID handle
      then False
      else parseUUID (formatUUID (rh_newActiveRecordID handle)) False = Inr (rh_newActiveRecordID handle) \<and>
        parseUUID (formatUUID (rh_oldRetiringRecordID handle)) False = Inr (rh_oldRetiringRecordID handle))"

definition NewDestinationTokenRotationHandle ::
  "GatewayAudienceID \<Rightarrow> DestinationID \<Rightarrow> DestinationTokenRecordID \<Rightarrow> DestinationTokenRecordID \<Rightarrow>
   DestinationTokenRotationHandle result" where
  "NewDestinationTokenRotationHandle audience destination newActiveRecordID oldRetiringRecordID =
     (let handle = \<lparr>rh_audienceID = audience, rh_destination = destination, rh_newActiveRecordID = newActiveRecordID,
            rh_oldRetiringRecordID = oldRetiringRecordID\<rparr>
      in if \<not> validRotationHandle handle then Inl (stateErr ErrDestinationTokenRotationInvalid) else Inr handle)"

text \<open>A one-time token is its encoded text, empty for the zero value.\<close>

record DestinationTokenRotationAttempt =
  rt_handle :: DestinationTokenRotationHandle
  rt_newToken :: gostring
  rt_activatedAt :: time
  rt_retirementDeadline :: time

definition noAttempt :: DestinationTokenRotationAttempt where
  "noAttempt = \<lparr>rt_handle = zeroHandle, rt_newToken = [], rt_activatedAt = 0, rt_retirementDeadline = 0\<rparr>"

definition rotationReconciliationAttempt ::
  "DestinationTokenRotationRequest \<Rightarrow> DestinationTokenRecordID \<Rightarrow> DestinationTokenRecordID \<Rightarrow> DestinationTokenRotationAttempt" where
  "rotationReconciliationAttempt request newActiveRecordID oldRetiringRecordID =
     noAttempt\<lparr>rt_handle := \<lparr>rh_audienceID = rreq_audienceID request, rh_destination = rreq_destination request,
       rh_newActiveRecordID = newActiveRecordID, rh_oldRetiringRecordID = oldRetiringRecordID\<rparr>\<rparr>"

definition validRotationAttempt :: "DestinationTokenRotationAttempt \<Rightarrow> bool \<Rightarrow> bool" where
  "validRotationAttempt v confirmed =
     (if \<not> validRotationHandle (rt_handle v) then False
      else if confirmed
      then rt_newToken v \<noteq> [] \<and> RotationActivationReceipt_valid
        \<lparr>rr_activatedAt = rt_activatedAt v, rr_retirementDeadline = rt_retirementDeadline v\<rparr>
      else rt_newToken v = [] \<and> IsZero (rt_activatedAt v) \<and> IsZero (rt_retirementDeadline v))"

record DestinationTokenRotationObservation =
  ob_status :: DestinationTokenRotationStatus
  ob_tokenIdentity :: DestinationTokenRotationTokenIdentity
  ob_observedAt :: time
  ob_retirementDeadline :: time

definition validRotationObservation :: "DestinationTokenRotationObservation \<Rightarrow> bool \<Rightarrow> bool" where
  "validRotationObservation v requireIdentity =
     (if requireIdentity \<and> \<not> TokenIdentity_Valid (ob_tokenIdentity v) then False
      else (case ob_status v of
              DestinationTokenRotationActiveWithRetiring \<Rightarrow> \<not> IsZero (ob_observedAt v) \<and> \<not> IsZero (ob_retirementDeadline v)
            | DestinationTokenRotationRolledBack \<Rightarrow> IsZero (ob_observedAt v) \<and> IsZero (ob_retirementDeadline v)
            | DestinationTokenRotationCompleted \<Rightarrow> IsZero (ob_observedAt v) \<and> IsZero (ob_retirementDeadline v)
            | DestinationTokenRotationStatusUndeclared \<Rightarrow> False))"

subsection \<open>Classification of errors\<close>

definition rotationErrors :: "(securitystate_sentinel \<times> securitystate_sentinel) list" where
  "rotationErrors =
     [(ErrDestinationLifecycleCanceled, ErrDestinationTokenRotationCanceled),
      (ErrDestinationLifecycleDeadline, ErrDestinationTokenRotationDeadline),
      (ErrDestinationLifecycleInvalid, ErrDestinationTokenRotationInvalid),
      (ErrDestinationLifecycleConflict, ErrDestinationTokenRotationConflict),
      (ErrDestinationLifecycleReconciliation, ErrDestinationTokenRotationReconciliation),
      (ErrDestinationLifecycleUnavailable, ErrDestinationTokenRotationUnavailable)]"

text \<open>The rotation error, whether the error is known, and whether it leaves the outcome open.\<close>

definition classifyRotationLifecycleError :: "go_error option \<Rightarrow> go_error option \<times> bool \<times> bool" where
  "classifyRotationLifecycleError err =
     (case err of
        None \<Rightarrow> (None, True, False)
      | Some e \<Rightarrow>
          if rotationSingleCauseMatches e (Securitystate ErrDestinationLifecycleOutcomeUnknown)
          then (Some (stateErr ErrDestinationTokenRotationOutcomeUnknown), True, True)
          else (case find (\<lambda>(lifecycle, rotation). rotationSingleCauseMatches e (Securitystate lifecycle)) rotationErrors of
                  Some (lifecycle, rotation) \<Rightarrow> (Some (stateErr rotation), True, False)
                | None \<Rightarrow> (None, False, False)))"

definition classifyRotationResolverError :: "go_error \<Rightarrow> go_error" where
  "classifyRotationResolverError err =
     (if rotationSingleCauseMatches err (Context Canceled) then stateErr ErrDestinationTokenRotationCanceled
      else if rotationSingleCauseMatches err (Context DeadlineExceeded) then stateErr ErrDestinationTokenRotationDeadline
      else if rotationSingleCauseMatches err (Securitystate ErrDestinationNotFound) then stateErr ErrDestinationTokenRotationConflict
      else stateErr ErrDestinationTokenRotationUnavailable)"

definition classifyRotationPreMutationLifecycleError :: "go_error \<Rightarrow> go_error" where
  "classifyRotationPreMutationLifecycleError err =
     (case classifyRotationLifecycleError (Some err) of
        (Some result, True, _) \<Rightarrow> result
      | _ \<Rightarrow> stateErr ErrDestinationTokenRotationUnavailable)"

definition classifyRotationCreateError :: "go_error \<Rightarrow> go_error" where
  "classifyRotationCreateError err =
     (case classifyRotationLifecycleError (Some err) of
        (Some result, True, False) \<Rightarrow> result
      | _ \<Rightarrow> stateErr ErrDestinationTokenRotationReconciliation)"

text \<open>The error and whether the activation definitely did not commit.\<close>

definition classifyRotationActivationError :: "go_error \<Rightarrow> go_error \<times> bool" where
  "classifyRotationActivationError err =
     (case classifyRotationLifecycleError (Some err) of
        (Some result, True, False) \<Rightarrow> (result, True)
      | _ \<Rightarrow> (stateErr ErrDestinationTokenRotationReconciliation, False))"

definition classifyRotationMutationError :: "go_error option \<Rightarrow> go_error option" where
  "classifyRotationMutationError err =
     (case err of
        None \<Rightarrow> None
      | Some e \<Rightarrow>
          (case classifyRotationLifecycleError err of
             (Some result, True, False) \<Rightarrow> Some result
           | _ \<Rightarrow> Some (stateErr ErrDestinationTokenRotationOutcomeUnknown)))"

subsection \<open>Histories of an attempt\<close>

definition viewsEqual :: "LifecycleTokenView \<Rightarrow> LifecycleTokenView \<Rightarrow> bool" where
  "viewsEqual a b =
     (lv_recordID a = lv_recordID b \<and> lv_state a = lv_state b \<and> lv_createdAt a = lv_createdAt b \<and>
      lv_expiresAt a = lv_expiresAt b \<and> lv_stagedCleanupDeadline a = lv_stagedCleanupDeadline b \<and>
      lv_activatedAt a = lv_activatedAt b \<and> lv_retirementStartedAt a = lv_retirementStartedAt b \<and>
      lv_retirementDeadline a = lv_retirementDeadline b \<and> lv_revokedAt a = lv_revokedAt b \<and>
      lv_stateChangedAt a = lv_stateChangedAt b)"

definition validActivatedRotationHistory :: "LifecycleTokenView \<Rightarrow> LifecycleTokenView \<Rightarrow> bool" where
  "validActivatedRotationHistory newToken oldToken =
     (\<not> Before (lv_createdAt newToken) (lv_activatedAt oldToken) \<and> \<not> Before (lv_activatedAt newToken) (lv_activatedAt oldToken) \<and>
      Before (lv_activatedAt newToken) (lv_stagedCleanupDeadline newToken))"

definition exactRolledBackAttempt :: "LifecycleTokenView \<Rightarrow> LifecycleTokenView \<Rightarrow> time \<Rightarrow> bool" where
  "exactRolledBackAttempt newToken oldToken now =
     (if lv_state newToken \<noteq> DestinationTokenRevoked \<or> lv_state oldToken \<noteq> DestinationTokenActive \<or>
         IsZero (lv_revokedAt newToken) \<or> lv_revokedAt newToken \<noteq> lv_stateChangedAt newToken \<or>
         IsZero (lv_createdAt newToken) \<or> After (lv_createdAt newToken) (lv_revokedAt newToken) \<or>
         After (lv_revokedAt newToken) now \<or>
         \<not> IsZero (lv_retirementStartedAt newToken) \<or> \<not> IsZero (lv_retirementDeadline newToken) \<or>
         \<not> IsZero (lv_retirementStartedAt oldToken) \<or> \<not> IsZero (lv_retirementDeadline oldToken) \<or>
         \<not> IsZero (lv_revokedAt oldToken) \<or> IsZero (lv_activatedAt oldToken) \<or>
         After (lv_activatedAt oldToken) (lv_stateChangedAt oldToken) \<or> After (lv_stateChangedAt oldToken) now
      then False
      else if IsZero (lv_activatedAt newToken) then \<not> Before (lv_createdAt newToken) (lv_stateChangedAt oldToken)
      else (let rollbackDuration = Sub (lv_revokedAt newToken) (lv_activatedAt newToken) in
        validActivatedRotationHistory newToken oldToken \<and> 0 \<le> rollbackDuration \<and>
        rollbackDuration < MaximumRetiringOverlapDuration \<and> Before (lv_revokedAt newToken) (lv_expiresAt newToken) \<and>
        lv_revokedAt newToken = lv_stateChangedAt oldToken))"

definition exactCompletedAttempt :: "LifecycleTokenView \<Rightarrow> LifecycleTokenView \<Rightarrow> time \<Rightarrow> bool" where
  "exactCompletedAttempt newToken oldToken now =
     (lv_state newToken = DestinationTokenActive \<and> lv_state oldToken = DestinationTokenRevoked \<and>
      validActivatedRotationHistory newToken oldToken \<and>
      \<not> IsZero (lv_revokedAt oldToken) \<and> lv_revokedAt oldToken = lv_stateChangedAt oldToken \<and>
      \<not> IsZero (lv_activatedAt oldToken) \<and> \<not> IsZero (lv_retirementStartedAt oldToken) \<and>
      \<not> IsZero (lv_retirementDeadline oldToken) \<and>
      \<not> After (lv_activatedAt oldToken) (lv_retirementStartedAt oldToken) \<and>
      \<not> Before (lv_revokedAt oldToken) (lv_retirementDeadline oldToken) \<and>
      Before (lv_retirementDeadline oldToken) (lv_expiresAt newToken) \<and>
      Before (lv_retirementDeadline oldToken) (lv_expiresAt oldToken) \<and>
      lv_activatedAt newToken = lv_stateChangedAt newToken \<and>
      lv_activatedAt newToken = lv_retirementStartedAt oldToken \<and>
      Before (lv_retirementStartedAt oldToken) (lv_retirementDeadline oldToken) \<and>
      \<not> After (lv_revokedAt oldToken) now)"

definition validRotationPairViews :: "LifecycleTokenView \<Rightarrow> LifecycleTokenView \<Rightarrow> time \<Rightarrow> bool" where
  "validRotationPairViews active retiring now =
     (lv_state active = DestinationTokenActive \<and> lv_state retiring = DestinationTokenRetiring \<and>
      validActivatedRotationHistory active retiring \<and>
      \<not> IsZero (lv_activatedAt active) \<and> \<not> IsZero (lv_activatedAt retiring) \<and> \<not> IsZero (lv_retirementStartedAt retiring) \<and>
      Before now (lv_expiresAt active) \<and> \<not> After (lv_activatedAt active) now \<and>
      \<not> After (lv_stateChangedAt active) now \<and> \<not> After (lv_activatedAt retiring) now \<and>
      \<not> After (lv_retirementStartedAt retiring) now \<and> \<not> After (lv_stateChangedAt retiring) now \<and>
      lv_activatedAt active = lv_stateChangedAt active \<and> lv_activatedAt active = lv_retirementStartedAt retiring \<and>
      lv_retirementStartedAt retiring = lv_stateChangedAt retiring \<and> \<not> IsZero (lv_retirementDeadline retiring) \<and>
      Before (lv_retirementDeadline retiring) (lv_expiresAt active) \<and>
      Before (lv_retirementDeadline retiring) (lv_expiresAt retiring))"

text \<open>An accessor such as \<^verbatim>\<open>Staged()\<close> returns the view and its flag; without the flag the view is the zero value.\<close>

definition classifyRotationSnapshot ::
  "DestinationTokenRotationAttemptSnapshot \<Rightarrow> DestinationTokenRotationHandle \<Rightarrow> time \<Rightarrow> DestinationTokenRotationObservation result" where
  "classifyRotationSnapshot attempt handle now =
     (let snapshot = ra_lifecycle attempt; newToken = ra_newToken attempt; oldToken = ra_oldToken attempt;
          reconciliation = Inl (stateErr ErrDestinationTokenRotationReconciliation);
          staged = sn_staged snapshot; hasStaged = sn_hasStaged snapshot;
          active = sn_active snapshot; hasActive = sn_hasActive snapshot;
          retiring = sn_retiring snapshot; hasRetiring = sn_hasRetiring snapshot;
          seen = (\<lambda>status at deadline. \<lparr>ob_status = status, ob_tokenIdentity = DestinationTokenRotationTokenUndeclared,
            ob_observedAt = at, ob_retirementDeadline = deadline\<rparr>) in
      if sn_audienceID snapshot \<noteq> rh_audienceID handle \<or> sn_destinationID snapshot \<noteq> rh_destination handle \<or>
         \<not> sn_destinationEnabled snapshot
      then reconciliation
      else if lv_recordID newToken \<noteq> rh_newActiveRecordID handle \<or> lv_recordID oldToken \<noteq> rh_oldRetiringRecordID handle
      then reconciliation
      else if hasActive \<and> hasRetiring \<and> \<not> hasStaged \<and> lv_recordID active = rh_newActiveRecordID handle \<and>
         lv_recordID retiring = rh_oldRetiringRecordID handle \<and> viewsEqual active newToken \<and> viewsEqual retiring oldToken \<and>
         validRotationPairViews active retiring now \<and>
         (sn_status snapshot = LifecycleActiveWithRetiring \<or>
          sn_status snapshot = LifecycleReconciliationRequired \<and> \<not> Before now (lv_retirementDeadline retiring))
      then Inr (seen DestinationTokenRotationActiveWithRetiring now (lv_retirementDeadline retiring))
      else if sn_status snapshot = LifecycleActiveWithStaged \<and> hasActive \<and> hasStaged \<and> \<not> hasRetiring \<and>
         lv_recordID staged = rh_newActiveRecordID handle \<and> lv_recordID active = rh_oldRetiringRecordID handle \<and>
         viewsEqual staged newToken \<and> viewsEqual active oldToken
      then reconciliation
      else if sn_status snapshot = LifecycleActive \<and> hasActive \<and> \<not> hasStaged \<and> \<not> hasRetiring \<and>
         lv_state active = DestinationTokenActive \<and> Before now (lv_expiresAt active) \<and>
         \<not> After (lv_activatedAt active) now \<and> \<not> After (lv_stateChangedAt active) now \<and>
         lv_recordID active = rh_oldRetiringRecordID handle \<and> viewsEqual active oldToken \<and>
         exactRolledBackAttempt newToken oldToken now
      then Inr (seen DestinationTokenRotationRolledBack 0 0)
      else if sn_status snapshot = LifecycleActive \<and> hasActive \<and> \<not> hasStaged \<and> \<not> hasRetiring \<and>
         lv_state active = DestinationTokenActive \<and> Before now (lv_expiresAt active) \<and>
         \<not> After (lv_activatedAt active) now \<and> \<not> After (lv_stateChangedAt active) now \<and>
         lv_recordID active \<noteq> rh_oldRetiringRecordID handle \<and>
         lv_recordID active = rh_newActiveRecordID handle \<and> viewsEqual active newToken \<and>
         exactCompletedAttempt newToken oldToken now
      then Inr (seen DestinationTokenRotationCompleted 0 0)
      else if sn_status snapshot = LifecycleReconciliationRequired then reconciliation
      else Inl (stateErr ErrDestinationTokenRotationConflict))"

definition rotationBeginActive ::
  "DestinationLifecycleSnapshot \<Rightarrow> GatewayAudienceID \<Rightarrow> DestinationID \<Rightarrow> LifecycleTokenView result" where
  "rotationBeginActive snapshot audience destination =
     (if sn_audienceID snapshot \<noteq> audience \<or> sn_destinationID snapshot \<noteq> destination \<or> \<not> sn_destinationEnabled snapshot
      then Inl (stateErr ErrDestinationTokenRotationReconciliation)
      else if sn_status snapshot = LifecycleReconciliationRequired
      then Inl (stateErr ErrDestinationTokenRotationReconciliation)
      else if sn_status snapshot \<noteq> LifecycleActive \<or> \<not> sn_hasActive snapshot \<or> sn_hasStaged snapshot \<or>
         sn_hasRetiring snapshot \<or> lv_state (sn_active snapshot) \<noteq> DestinationTokenActive \<or> lv_recordID (sn_active snapshot) = 0
      then Inl (stateErr ErrDestinationTokenRotationConflict)
      else Inr (sn_active snapshot))"

subsection \<open>The service\<close>

text \<open>The contexts the lifecycle is called with: the caller's, and the one of a compensation, which is not canceled
  with the caller's and carries a deadline of its own. \<open>ctxErr c\<close> is one evaluation of \<^verbatim>\<open>Err()\<close> of the context \<open>c\<close>.\<close>

datatype rotation_context = CallerContext go_context | CompensationContext go_context duration

definition rotationCompensationContext :: "go_context \<Rightarrow> duration \<Rightarrow> rotation_context" where
  "rotationCompensationContext parent limit = CompensationContext parent limit"

record 'w rotationLifecycle =
  rl_CreateRotationStagedToken :: "rotation_context \<Rightarrow> GatewayAudienceID \<Rightarrow> DestinationID \<Rightarrow> DestinationTokenRecordID \<Rightarrow>
    OpaqueDestinationToken \<Rightarrow> ('w, CreatedStagedToken \<times> go_error option) state"
  rl_ActivateRotation :: "rotation_context \<Rightarrow> GatewayAudienceID \<Rightarrow> DestinationID \<Rightarrow> DestinationTokenRecordID \<Rightarrow>
    DestinationTokenRecordID \<Rightarrow> ('w, DestinationTokenRotationActivationReceipt result) state"
  rl_AbortStagedToken :: "rotation_context \<Rightarrow> GatewayAudienceID \<Rightarrow> DestinationID \<Rightarrow> DestinationTokenRecordID \<Rightarrow>
    ('w, go_error option) state"
  rl_RollbackRotation :: "rotation_context \<Rightarrow> GatewayAudienceID \<Rightarrow> DestinationID \<Rightarrow> DestinationTokenRecordID \<Rightarrow>
    DestinationTokenRecordID \<Rightarrow> ('w, go_error option) state"
  rl_FinalizeRotation :: "rotation_context \<Rightarrow> GatewayAudienceID \<Rightarrow> DestinationID \<Rightarrow> DestinationTokenRecordID \<Rightarrow>
    DestinationTokenRecordID \<Rightarrow> RotationCompletionReason \<Rightarrow> ('w, go_error option) state"
  rl_InspectLifecycleState :: "rotation_context \<Rightarrow> GatewayAudienceID \<Rightarrow> DestinationID \<Rightarrow>
    ('w, DestinationLifecycleSnapshot result) state"

type_synonym 'w rotationResolver =
  "go_context \<Rightarrow> GatewayAudienceID \<Rightarrow> OpaqueDestinationToken \<Rightarrow> time \<Rightarrow> ('w, DestinationID result) state"

type_synonym 'w rotationIdentifier =
  "go_context \<Rightarrow> GatewayAudienceID \<Rightarrow> DestinationID \<Rightarrow> OpaqueDestinationToken \<Rightarrow> DestinationTokenRecordID \<Rightarrow>
   DestinationTokenRecordID \<Rightarrow> time \<Rightarrow> ('w, DestinationTokenRotationTokenIdentity result) state"

type_synonym 'w rotationInspector =
  "go_context \<Rightarrow> GatewayAudienceID \<Rightarrow> DestinationID \<Rightarrow> DestinationTokenRecordID \<Rightarrow> DestinationTokenRecordID \<Rightarrow> time \<Rightarrow>
   ('w, DestinationTokenRotationAttemptSnapshot result) state"

record 'w DestinationTokenRotationParticipantConfig =
  rc_Clock :: "('w, time) state option"
  rc_Resolver :: "'w rotationResolver option"
  rc_Identifier :: "'w rotationIdentifier option"
  rc_AttemptInspector :: "'w rotationInspector option"
  rc_Lifecycle :: "'w rotationLifecycle option"
  rc_CompensationTimeout :: duration

record 'w DestinationTokenRotationParticipantService =
  rp_clock :: "('w, time) state"
  rp_resolver :: "'w rotationResolver"
  rp_identifier :: "'w rotationIdentifier"
  rp_attemptInspector :: "'w rotationInspector"
  rp_lifecycle :: "'w rotationLifecycle"
  rp_compensationTimeout :: duration

definition NewDestinationTokenRotationParticipantService ::
  "'w DestinationTokenRotationParticipantConfig \<Rightarrow> 'w DestinationTokenRotationParticipantService result" where
  "NewDestinationTokenRotationParticipantService config =
     (case (rc_Clock config, rc_Resolver config, rc_Identifier config, rc_Lifecycle config, rc_AttemptInspector config) of
        (Some clock, Some resolver, Some identifier, Some lifecycle, Some attemptInspector) \<Rightarrow>
          if rc_CompensationTimeout config \<le> 0 \<or>
             rc_CompensationTimeout config > MaximumDestinationTokenRotationCompensationDuration
          then Inl (stateErr ErrDestinationTokenRotationInvalid)
          else Inr \<lparr>rp_clock = clock, rp_resolver = resolver, rp_identifier = identifier,
            rp_attemptInspector = attemptInspector, rp_lifecycle = lifecycle,
            rp_compensationTimeout = rc_CompensationTimeout config\<rparr>
      | _ \<Rightarrow> Inl (stateErr ErrDestinationTokenRotationInvalid))"

text \<open>\<^verbatim>\<open>ctx.Err()\<close> is evaluated twice, so a context that ends in between is seen by the second evaluation.\<close>

definition rotationContextError ::
  "(rotation_context \<Rightarrow> ('w, go_error option) state) \<Rightarrow> go_context \<Rightarrow> ('w, go_error option) state" where
  "rotationContextError ctxErr ctx =
     (if ctx = NilContext then State_Monad.return None
      else do {
        first \<leftarrow> ctxErr (CallerContext ctx);
        if (case first of None \<Rightarrow> False | Some e \<Rightarrow> errors_Is e (Context Canceled))
        then State_Monad.return (Some (stateErr ErrDestinationTokenRotationCanceled))
        else do {
          second \<leftarrow> ctxErr (CallerContext ctx);
          State_Monad.return
            (if (case second of None \<Rightarrow> False | Some e \<Rightarrow> errors_Is e (Context DeadlineExceeded))
             then Some (stateErr ErrDestinationTokenRotationDeadline) else None) } })"

definition beginInput ::
  "(rotation_context \<Rightarrow> ('w, go_error option) state) \<Rightarrow> 'w DestinationTokenRotationParticipantService option \<Rightarrow> go_context \<Rightarrow>
   DestinationTokenRotationRequest \<Rightarrow> ('w, time result) state" where
  "beginInput ctxErr service ctx request =
     (case service of
        None \<Rightarrow> State_Monad.return (Inl (stateErr ErrDestinationTokenRotationInvalid))
      | Some svc \<Rightarrow>
          if ctx = NilContext \<or> rp_compensationTimeout svc \<le> 0 \<or>
             rp_compensationTimeout svc > MaximumDestinationTokenRotationCompensationDuration \<or>
             \<not> validRotationBinding (rreq_audienceID request) (rreq_destination request)
          then State_Monad.return (Inl (stateErr ErrDestinationTokenRotationInvalid))
          else do {
            cancellation \<leftarrow> rotationContextError ctxErr ctx;
            case cancellation of
              Some e \<Rightarrow> State_Monad.return (Inl e)
            | None \<Rightarrow> do {
                now \<leftarrow> rp_clock svc;
                State_Monad.return
                  (if IsZero now then Inl (stateErr ErrDestinationTokenRotationInvalid) else Inr now) } })"

definition operationNow ::
  "(rotation_context \<Rightarrow> ('w, go_error option) state) \<Rightarrow> 'w DestinationTokenRotationParticipantService option \<Rightarrow> go_context \<Rightarrow>
   DestinationTokenRotationHandle \<Rightarrow> ('w, time result) state" where
  "operationNow ctxErr service ctx handle =
     (case service of
        None \<Rightarrow> State_Monad.return (Inl (stateErr ErrDestinationTokenRotationInvalid))
      | Some svc \<Rightarrow>
          if ctx = NilContext \<or> rp_compensationTimeout svc \<le> 0 \<or>
             rp_compensationTimeout svc > MaximumDestinationTokenRotationCompensationDuration \<or> \<not> validRotationHandle handle
          then State_Monad.return (Inl (stateErr ErrDestinationTokenRotationInvalid))
          else do {
            cancellation \<leftarrow> rotationContextError ctxErr ctx;
            case cancellation of
              Some e \<Rightarrow> State_Monad.return (Inl e)
            | None \<Rightarrow> do {
                now \<leftarrow> rp_clock svc;
                State_Monad.return
                  (if IsZero now then Inl (stateErr ErrDestinationTokenRotationInvalid) else Inr now) } })"

definition abortCreatedStaged ::
  "'w DestinationTokenRotationParticipantService \<Rightarrow> go_context \<Rightarrow> DestinationTokenRotationRequest \<Rightarrow>
   DestinationTokenRecordID \<Rightarrow> ('w, go_error option) state" where
  "abortCreatedStaged svc ctx request recordID =
     rl_AbortStagedToken (rp_lifecycle svc) (rotationCompensationContext ctx (rp_compensationTimeout svc))
       (rreq_audienceID request) (rreq_destination request) recordID"

definition cloneOneTimeDestinationToken :: "gostring \<Rightarrow> gostring" where
  "cloneOneTimeDestinationToken token = (if token = [] then [] else token)"

text \<open>The three places that abort the staged token and report the given error once it is gone.\<close>

definition abort_and_report ::
  "'w DestinationTokenRotationParticipantService \<Rightarrow> go_context \<Rightarrow> DestinationTokenRotationRequest \<Rightarrow>
   DestinationTokenRecordID \<Rightarrow> DestinationTokenRecordID \<Rightarrow> go_error \<Rightarrow>
   ('w, DestinationTokenRotationAttempt \<times> go_error option) state" where
  "abort_and_report svc ctx request new old e = do {
     aborted \<leftarrow> abortCreatedStaged svc ctx request new;
     State_Monad.return
       (if aborted \<noteq> None
        then (rotationReconciliationAttempt request new old, Some (stateErr ErrDestinationTokenRotationReconciliation))
        else (noAttempt, Some e)) }"

text \<open>\<^verbatim>\<open>BeginRotation\<close> from the activation on.\<close>

definition begin_activate ::
  "(rotation_context \<Rightarrow> ('w, go_error option) state) \<Rightarrow> 'w DestinationTokenRotationParticipantService \<Rightarrow> go_context \<Rightarrow>
   DestinationTokenRotationRequest \<Rightarrow> DestinationTokenRotationHandle \<Rightarrow> CreatedStagedToken \<Rightarrow> LifecycleTokenView \<Rightarrow>
   ('w, DestinationTokenRotationAttempt \<times> go_error option) state" where
  "begin_activate ctxErr svc ctx request handle created oldActive =
     (let new = ct_recordID created; old = lv_recordID oldActive;
          reconcile = (rotationReconciliationAttempt request new old, Some (stateErr ErrDestinationTokenRotationReconciliation)) in
      do {
        activation \<leftarrow> rl_ActivateRotation (rp_lifecycle svc) (CallerContext ctx) (rreq_audienceID request)
          (rreq_destination request) new old;
        case activation of
          Inl activateErr \<Rightarrow>
            (case classifyRotationActivationError activateErr of (safeErr, definitelyNotCommitted) \<Rightarrow>
               if \<not> definitelyNotCommitted then State_Monad.return reconcile
               else abort_and_report svc ctx request new old safeErr)
        | Inr receipt \<Rightarrow>
            if \<not> RotationActivationReceipt_valid receipt then State_Monad.return reconcile
            else do {
              confirmedAt \<leftarrow> rp_clock svc;
              if \<not> RotationActivationReceipt_validAt receipt confirmedAt then State_Monad.return reconcile
              else do {
                cancellation \<leftarrow> rotationContextError ctxErr ctx;
                State_Monad.return
                  (if cancellation \<noteq> None then reconcile
                   else let attempt = \<lparr>rt_handle = handle, rt_newToken = cloneOneTimeDestinationToken (ct_token created),
                          rt_activatedAt = rr_activatedAt receipt, rt_retirementDeadline = rr_retirementDeadline receipt\<rparr>
                        in if \<not> validRotationAttempt attempt True then reconcile else (attempt, None)) } } })"

text \<open>\<^verbatim>\<open>BeginRotation\<close> from the staged token on.\<close>

definition begin_create ::
  "(rotation_context \<Rightarrow> ('w, go_error option) state) \<Rightarrow> 'w DestinationTokenRotationParticipantService \<Rightarrow> go_context \<Rightarrow>
   DestinationTokenRotationRequest \<Rightarrow> LifecycleTokenView \<Rightarrow>
   ('w, DestinationTokenRotationAttempt \<times> go_error option) state" where
  "begin_create ctxErr svc ctx request oldActive = do {
     (created, createErr) \<leftarrow> rl_CreateRotationStagedToken (rp_lifecycle svc) (CallerContext ctx) (rreq_audienceID request)
       (rreq_destination request) (lv_recordID oldActive) (rreq_currentToken request);
     let new = ct_recordID created; old = lv_recordID oldActive;
         handle = \<lparr>rh_audienceID = rreq_audienceID request, rh_destination = rreq_destination request,
           rh_newActiveRecordID = new, rh_oldRetiringRecordID = old\<rparr>;
         reconciliation = stateErr ErrDestinationTokenRotationReconciliation in
     case createErr of
       Some e \<Rightarrow>
         (let classified = classifyRotationCreateError e; attempt = rotationReconciliationAttempt request new old in
          State_Monad.return
            (if classified = reconciliation \<and> validRotationHandle (rt_handle attempt) then (attempt, Some classified)
             else (noAttempt, Some classified)))
     | None \<Rightarrow>
         if new = 0 then State_Monad.return (noAttempt, Some reconciliation)
         else if \<not> validRotationHandle handle then State_Monad.return (noAttempt, Some reconciliation)
         else if ct_token created = []
         then abort_and_report svc ctx request new old (stateErr ErrDestinationTokenRotationUnavailable)
         else do {
           cancellation \<leftarrow> rotationContextError ctxErr ctx;
           case cancellation of
             Some e \<Rightarrow> abort_and_report svc ctx request new old e
           | None \<Rightarrow> begin_activate ctxErr svc ctx request handle created oldActive } }"

definition BeginRotation ::
  "(rotation_context \<Rightarrow> ('w, go_error option) state) \<Rightarrow> 'w DestinationTokenRotationParticipantService option \<Rightarrow> go_context \<Rightarrow>
   DestinationTokenRotationRequest \<Rightarrow> ('w, DestinationTokenRotationAttempt \<times> go_error option) state" where
  "BeginRotation ctxErr service ctx request = do {
     input \<leftarrow> beginInput ctxErr service ctx request;
     case (input, service) of
       (Inl e, _) \<Rightarrow> State_Monad.return (noAttempt, Some e)
     | (Inr now, None) \<Rightarrow> State_Monad.return (noAttempt, Some (stateErr ErrDestinationTokenRotationInvalid))
     | (Inr now, Some svc) \<Rightarrow> do {
         resolved \<leftarrow> rp_resolver svc ctx (rreq_audienceID request) (rreq_currentToken request) now;
         case resolved of
           Inl resolveErr \<Rightarrow> State_Monad.return (noAttempt, Some (classifyRotationResolverError resolveErr))
         | Inr destination \<Rightarrow> do {
             cancellation \<leftarrow> rotationContextError ctxErr ctx;
             case cancellation of
               Some e \<Rightarrow> State_Monad.return (noAttempt, Some e)
             | None \<Rightarrow>
                 if destination \<noteq> rreq_destination request
                 then State_Monad.return (noAttempt, Some (stateErr ErrDestinationTokenRotationConflict))
                 else do {
                   snapshot \<leftarrow> rl_InspectLifecycleState (rp_lifecycle svc) (CallerContext ctx) (rreq_audienceID request)
                     (rreq_destination request);
                   case snapshot of
                     Inl inspectErr \<Rightarrow>
                       State_Monad.return (noAttempt, Some (classifyRotationPreMutationLifecycleError inspectErr))
                   | Inr sn \<Rightarrow> do {
                       cancellation \<leftarrow> rotationContextError ctxErr ctx;
                       case cancellation of
                         Some e \<Rightarrow> State_Monad.return (noAttempt, Some e)
                       | None \<Rightarrow>
                           (case rotationBeginActive sn (rreq_audienceID request) (rreq_destination request) of
                              Inl e \<Rightarrow> State_Monad.return (noAttempt, Some e)
                            | Inr oldActive \<Rightarrow> begin_create ctxErr svc ctx request oldActive) } } } } }"

definition inspectRotation ::
  "(rotation_context \<Rightarrow> ('w, go_error option) state) \<Rightarrow> 'w DestinationTokenRotationParticipantService \<Rightarrow> go_context \<Rightarrow>
   DestinationTokenRotationHandle \<Rightarrow> time \<Rightarrow> ('w, DestinationTokenRotationObservation result) state" where
  "inspectRotation ctxErr svc ctx handle now = do {
     snapshot \<leftarrow> rp_attemptInspector svc ctx (rh_audienceID handle) (rh_destination handle)
       (rh_newActiveRecordID handle) (rh_oldRetiringRecordID handle) now;
     case snapshot of
       Inl _ \<Rightarrow> State_Monad.return (Inl (stateErr ErrDestinationTokenRotationReconciliation))
     | Inr attempt \<Rightarrow> do {
         cancellation \<leftarrow> rotationContextError ctxErr ctx;
         State_Monad.return (case cancellation of
             Some e \<Rightarrow> Inl e
           | None \<Rightarrow> classifyRotationSnapshot attempt handle now) } }"

text \<open>\<^verbatim>\<open>RollbackRotation\<close> and \<^verbatim>\<open>FinalizeRotation\<close> share their course: \<open>permitted\<close> is the comparison with the retirement
  deadline and \<open>mutate\<close> the call of the lifecycle.\<close>

definition settle_rotation ::
  "(rotation_context \<Rightarrow> ('w, go_error option) state) \<Rightarrow> 'w DestinationTokenRotationParticipantService option \<Rightarrow> go_context \<Rightarrow>
   DestinationTokenRotationHandle \<Rightarrow> (time \<Rightarrow> time \<Rightarrow> bool) \<Rightarrow>
   ('w DestinationTokenRotationParticipantService \<Rightarrow> ('w, go_error option) state) \<Rightarrow> ('w, go_error option) state" where
  "settle_rotation ctxErr service ctx handle permitted mutate = do {
     input \<leftarrow> operationNow ctxErr service ctx handle;
     case (input, service) of
       (Inl e, _) \<Rightarrow> State_Monad.return (Some e)
     | (Inr now, None) \<Rightarrow> State_Monad.return (Some (stateErr ErrDestinationTokenRotationInvalid))
     | (Inr now, Some svc) \<Rightarrow> do {
         inspection \<leftarrow> inspectRotation ctxErr svc ctx handle now;
         case inspection of
           Inl e \<Rightarrow> State_Monad.return (Some e)
         | Inr ob \<Rightarrow>
             if ob_status ob \<noteq> DestinationTokenRotationActiveWithRetiring \<or> \<not> permitted now (ob_retirementDeadline ob)
             then State_Monad.return (Some (stateErr ErrDestinationTokenRotationConflict))
             else do {
               cancellation \<leftarrow> rotationContextError ctxErr ctx;
               case cancellation of
                 Some e \<Rightarrow> State_Monad.return (Some e)
               | None \<Rightarrow> do {
                   err \<leftarrow> mutate svc;
                   State_Monad.return (classifyRotationMutationError err) } } } }"

definition participant_RollbackRotation where
  "participant_RollbackRotation ctxErr service ctx handle =
     settle_rotation ctxErr service ctx handle (\<lambda>now deadline. Before now deadline)
       (\<lambda>svc. rl_RollbackRotation (rp_lifecycle svc) (CallerContext ctx) (rh_audienceID handle) (rh_destination handle)
          (rh_newActiveRecordID handle) (rh_oldRetiringRecordID handle))"

definition participant_FinalizeRotation where
  "participant_FinalizeRotation ctxErr service ctx handle =
     settle_rotation ctxErr service ctx handle (\<lambda>now deadline. \<not> Before now deadline)
       (\<lambda>svc. rl_FinalizeRotation (rp_lifecycle svc) (CallerContext ctx) (rh_audienceID handle) (rh_destination handle)
          (rh_newActiveRecordID handle) (rh_oldRetiringRecordID handle) RotationDeadlineElapsed)"

definition ObserveRotation ::
  "(rotation_context \<Rightarrow> ('w, go_error option) state) \<Rightarrow> 'w DestinationTokenRotationParticipantService option \<Rightarrow> go_context \<Rightarrow>
   DestinationTokenRotationHandle \<Rightarrow> OpaqueDestinationToken \<Rightarrow> ('w, DestinationTokenRotationObservation result) state" where
  "ObserveRotation ctxErr service ctx handle token = do {
     input \<leftarrow> operationNow ctxErr service ctx handle;
     case (input, service) of
       (Inl e, _) \<Rightarrow> State_Monad.return (Inl e)
     | (Inr now, None) \<Rightarrow> State_Monad.return (Inl (stateErr ErrDestinationTokenRotationInvalid))
     | (Inr now, Some svc) \<Rightarrow> do {
         identified \<leftarrow> rp_identifier svc ctx (rh_audienceID handle) (rh_destination handle) token
           (rh_newActiveRecordID handle) (rh_oldRetiringRecordID handle) now;
         case identified of
           Inl _ \<Rightarrow> State_Monad.return (Inl (stateErr ErrDestinationTokenRotationReconciliation))
         | Inr identity \<Rightarrow>
             if \<not> TokenIdentity_Valid identity
             then State_Monad.return (Inl (stateErr ErrDestinationTokenRotationReconciliation))
             else do {
               cancellation \<leftarrow> rotationContextError ctxErr ctx;
               case cancellation of
                 Some e \<Rightarrow> State_Monad.return (Inl e)
               | None \<Rightarrow> do {
                   inspected \<leftarrow> inspectRotation ctxErr svc ctx handle now;
                   State_Monad.return (case inspected of
                       Inl _ \<Rightarrow> Inl (stateErr ErrDestinationTokenRotationReconciliation)
                     | Inr inspection \<Rightarrow>
                         (let observation = inspection\<lparr>ob_tokenIdentity := identity\<rparr> in
                          if \<not> validRotationObservation observation True
                          then Inl (stateErr ErrDestinationTokenRotationReconciliation)
                          else Inr observation)) } } } }"

end
