(* ===== verification/Rotation_Guarantees.thy ===== *)
theory Rotation_Guarantees
  imports Rotation_Participant
begin

section \<open>What the rotation participant guarantees\<close>

text \<open>
  The participant relies on a contract, the locale \<open>rotation_contract\<close>: its clock and its contexts leave the tables
  alone, its resolver, identifier and inspector are reads, and every operation of the lifecycle either takes its step,
  leaves the tables alone, or says that it does not know. The outcome of a rotation is proved from the contract, and
  the contract is proved of the resolver, the attempt inspection and the lifecycle service over the PostgreSQL
  repository.
\<close>

subsection \<open>Errors\<close>

definition rotationKinds :: "securitystate_sentinel set" where
  "rotationKinds = {ErrDestinationTokenRotationInvalid, ErrDestinationTokenRotationConflict,
     ErrDestinationTokenRotationUnavailable, ErrDestinationTokenRotationOutcomeUnknown,
     ErrDestinationTokenRotationReconciliation, ErrDestinationTokenRotationCanceled, ErrDestinationTokenRotationDeadline}"

lemma rotationKinds_members [simp]:
  "ErrDestinationTokenRotationInvalid \<in> rotationKinds" "ErrDestinationTokenRotationConflict \<in> rotationKinds"
  "ErrDestinationTokenRotationUnavailable \<in> rotationKinds" "ErrDestinationTokenRotationOutcomeUnknown \<in> rotationKinds"
  "ErrDestinationTokenRotationReconciliation \<in> rotationKinds" "ErrDestinationTokenRotationCanceled \<in> rotationKinds"
  "ErrDestinationTokenRotationDeadline \<in> rotationKinds"
  by (simp_all add: rotationKinds_def)

lemma matches_kind: "rotationSingleCauseMatches (stateErr kind) t \<longleftrightarrow> t = Securitystate kind"
  by (auto simp: rotationSingleCauseMatches_def single_cause_64)

lemma classify_lifecycle_kind:
  assumes "kind \<in> lifecycleKinds"
  obtains k where "k \<in> rotationKinds - {ErrDestinationTokenRotationOutcomeUnknown}" "kind \<noteq> ErrDestinationLifecycleOutcomeUnknown"
      "classifyRotationLifecycleError (Some (stateErr kind)) = (Some (stateErr k), True, False)"
    | "kind = ErrDestinationLifecycleOutcomeUnknown"
      "classifyRotationLifecycleError (Some (stateErr kind)) =
        (Some (stateErr ErrDestinationTokenRotationOutcomeUnknown), True, True)"
  using assms unfolding lifecycleKinds_def
  by (auto simp: classifyRotationLifecycleError_def matches_kind rotationErrors_def)

lemma classify_create:
  "kind \<in> lifecycleKinds \<Longrightarrow> classifyRotationCreateError (stateErr kind) \<in> stateErr ` rotationKinds"
  by (erule classify_lifecycle_kind) (auto simp: classifyRotationCreateError_def)

lemma classify_create_unknown:
  "classifyRotationCreateError (stateErr ErrDestinationLifecycleOutcomeUnknown) =
     stateErr ErrDestinationTokenRotationReconciliation"
  by (simp add: classifyRotationCreateError_def classifyRotationLifecycleError_def matches_kind)

lemma classify_activation:
  assumes "kind \<in> lifecycleKinds" "classifyRotationActivationError (stateErr kind) = (e, definite)"
  shows "e \<in> stateErr ` rotationKinds \<and> definite = (kind \<noteq> ErrDestinationLifecycleOutcomeUnknown)"
  by (rule classify_lifecycle_kind [OF assms(1)]) (use assms(2) in \<open>auto simp: classifyRotationActivationError_def\<close>)

lemma classify_before_mutation:
  "kind \<in> lifecycleKinds \<Longrightarrow> classifyRotationPreMutationLifecycleError (stateErr kind) \<in> stateErr ` rotationKinds"
  by (erule classify_lifecycle_kind) (auto simp: classifyRotationPreMutationLifecycleError_def)

lemma classify_resolver: "classifyRotationResolverError e \<in> stateErr ` rotationKinds"
  by (simp add: classifyRotationResolverError_def)

lemma begin_active_error: "rotationBeginActive sn a d = Inl e \<Longrightarrow> e \<in> stateErr ` rotationKinds"
  by (auto simp: rotationBeginActive_def split: if_splits)

lemma if_member: "(c \<Longrightarrow> x \<in> S) \<Longrightarrow> y \<in> S \<Longrightarrow> (if c then x else y) \<in> S"
  by simp

lemma snapshot_error:
  assumes "classifyRotationSnapshot ra h now = Inl e"
  shows "e \<in> stateErr ` (rotationKinds - {ErrDestinationTokenRotationOutcomeUnknown})"
proof -
  have "classifyRotationSnapshot ra h now \<in>
      Inl ` stateErr ` (rotationKinds - {ErrDestinationTokenRotationOutcomeUnknown}) \<union> range Inr"
    unfolding classifyRotationSnapshot_def Let_def by (intro if_member) simp_all
  with assms show ?thesis by auto
qed

text \<open>What a caller may conclude from the error of a settling operation.\<close>

definition settleOutcome :: "'db \<Rightarrow> 'db option \<Rightarrow> go_error option \<Rightarrow> 'db \<Rightarrow> bool" where
  "settleOutcome db step err db' =
     (case err of
        None \<Rightarrow> step = Some db'
      | Some e \<Rightarrow> e \<in> stateErr ` rotationKinds \<and>
          (db' = db \<or> e = stateErr ErrDestinationTokenRotationOutcomeUnknown \<and> step = Some db'))"

lemma classify_mutation:
  assumes "serviceOutcome db step err db'"
  shows "settleOutcome db step (classifyRotationMutationError err) db'"
proof (cases err)
  case None
  with assms show ?thesis by (simp add: serviceOutcome_def settleOutcome_def classifyRotationMutationError_def)
next
  case (Some e)
  with assms obtain kind where kind: "kind \<in> lifecycleKinds" "e = stateErr kind"
    and db: "db' = db \<or> kind = ErrDestinationLifecycleOutcomeUnknown \<and> step = Some db'"
    by (auto simp: serviceOutcome_def)
  show ?thesis unfolding Some kind(2)
    by (rule classify_lifecycle_kind [OF kind(1)])
      (use db in \<open>auto simp: settleOutcome_def classifyRotationMutationError_def\<close>)
qed

subsection \<open>The contract\<close>

definition rotateCommand ::
  "GatewayAudienceID \<Rightarrow> DestinationID \<Rightarrow> DestinationTokenRecordID \<Rightarrow> DestinationTokenRecordID \<Rightarrow> time \<Rightarrow> time \<Rightarrow> lifecycle_command" where
  "rotateCommand a d new old now deadline = ActivateRotate \<lparr>ac_AudienceID = a, ac_DestinationID = d, ac_StagedRecordID = new,
     ac_OldActiveRecordID = old, ac_Now = now, ac_OverlapDeadline = deadline\<rparr>"

definition rollbackCommand ::
  "GatewayAudienceID \<Rightarrow> DestinationID \<Rightarrow> DestinationTokenRecordID \<Rightarrow> DestinationTokenRecordID \<Rightarrow> time \<Rightarrow> lifecycle_command" where
  "rollbackCommand a d new old now = RollbackRotate \<lparr>rb_AudienceID = a, rb_DestinationID = d, rb_NewActiveRecordID = new,
     rb_OldRetiringRecordID = old, rb_Now = now\<rparr>"

definition finalizeCommand ::
  "GatewayAudienceID \<Rightarrow> DestinationID \<Rightarrow> DestinationTokenRecordID \<Rightarrow> DestinationTokenRecordID \<Rightarrow> time \<Rightarrow> lifecycle_command" where
  "finalizeCommand a d new old now = FinalizeRotate \<lparr>fc_AudienceID = a, fc_DestinationID = d, fc_NewActiveRecordID = new,
     fc_OldRetiringRecordID = old, fc_Reason = RotationDeadlineElapsed, fc_Now = now\<rparr>"

locale rotation_contract =
  fixes svc :: "'w DestinationTokenRotationParticipantService"
    and ctxErr :: "rotation_context \<Rightarrow> ('w, go_error option) state"
    and tables :: "'w \<Rightarrow> gateway_db" and ready :: "'w \<Rightarrow> bool"
    and issued :: "GatewayAudienceID \<Rightarrow> DestinationID \<Rightarrow> OpaqueDestinationToken \<Rightarrow> gostring \<Rightarrow> StagedTokenCandidate \<Rightarrow> bool"
    and resolves :: "gateway_db \<Rightarrow> GatewayAudienceID \<Rightarrow> OpaqueDestinationToken \<Rightarrow> time \<Rightarrow> DestinationID \<Rightarrow> bool"
    and identifies :: "gateway_db \<Rightarrow> GatewayAudienceID \<Rightarrow> DestinationID \<Rightarrow> OpaqueDestinationToken \<Rightarrow> DestinationTokenRecordID \<Rightarrow>
      DestinationTokenRecordID \<Rightarrow> DestinationTokenRotationTokenIdentity \<Rightarrow> bool"
  assumes polls: "ready w \<Longrightarrow> after (ctxErr c) w (\<lambda>_ w'. ready w' \<and> tables w' = tables w)"
    and clock: "ready w \<Longrightarrow> after (rp_clock svc) w (\<lambda>_ w'. ready w' \<and> tables w' = tables w)"
    and resolution_read: "ready w \<Longrightarrow> after (rp_resolver svc ctx a t now) w (\<lambda>r w'. ready w' \<and> tables w' = tables w \<and>
      (\<forall>d. r = Inr d \<longrightarrow> resolves (tables w) a t now d))"
    and identification: "ready w \<Longrightarrow> after (rp_identifier svc ctx a d t new old now) w (\<lambda>r w'. ready w' \<and> tables w' = tables w \<and>
      (\<forall>i. r = Inr i \<longrightarrow> identifies (tables w) a d t new old i))"
    and attempt_read: "ready w \<Longrightarrow> after (rp_attemptInspector svc ctx a d new old now) w (\<lambda>r w'. ready w' \<and> tables w' = tables w \<and>
      (\<forall>ra. r = Inr ra \<longrightarrow> attemptIn a d new old now (tables w) ra))"
    and lifecycle_read: "ready w \<Longrightarrow> after (rl_InspectLifecycleState (rp_lifecycle svc) c a d) w (\<lambda>r w'. ready w' \<and> tables w' = tables w \<and>
      (case r of Inl e \<Rightarrow> e \<in> stateErr ` lifecycleKinds
       | Inr sn \<Rightarrow> \<exists>now st. lockedStateOf a d now (tables w) = Some st \<and> sn = ls_snapshot st))"
    and create: "ready w \<Longrightarrow> after (rl_CreateRotationStagedToken (rp_lifecycle svc) c a d old current) w (\<lambda>outcome w'. ready w' \<and>
      createPost (tables w) (tables w') (issued a d current) (createCommand True old) outcome)"
    and activate: "ready w \<Longrightarrow> after (rl_ActivateRotation (rp_lifecycle svc) c a d new old) w (\<lambda>r w'. ready w' \<and>
      (\<exists>now deadline. serviceOutcome (tables w) (commandStep (rotateCommand a d new old now deadline) (tables w))
        (case r of Inl e \<Rightarrow> Some e | Inr receipt \<Rightarrow> None) (tables w') \<and>
      (\<forall>receipt. r = Inr receipt \<longrightarrow> rr_activatedAt receipt = now \<and> rr_retirementDeadline receipt = deadline)))"
    and abort: "ready w \<Longrightarrow> after (rl_AbortStagedToken (rp_lifecycle svc) c a d new) w (\<lambda>err w'. ready w' \<and>
      (\<exists>now. serviceOutcome (tables w) (commandStep (AbortStaged a d new now) (tables w)) err (tables w')))"
    and rollback: "ready w \<Longrightarrow> after (rl_RollbackRotation (rp_lifecycle svc) c a d new old) w (\<lambda>err w'. ready w' \<and>
      (\<exists>now. serviceOutcome (tables w) (commandStep (rollbackCommand a d new old now) (tables w)) err (tables w')))"
    and finalize: "ready w \<Longrightarrow> after (rl_FinalizeRotation (rp_lifecycle svc) c a d new old RotationDeadlineElapsed) w (\<lambda>err w'. ready w' \<and>
      (\<exists>now. serviceOutcome (tables w) (commandStep (finalizeCommand a d new old now) (tables w)) err (tables w')))"

subsection \<open>The outcome of a rotation\<close>

definition handleOf ::
  "DestinationTokenRotationRequest \<Rightarrow> DestinationTokenRecordID \<Rightarrow> DestinationTokenRecordID \<Rightarrow> DestinationTokenRotationHandle" where
  "handleOf request new old = \<lparr>rh_audienceID = rreq_audienceID request, rh_destination = rreq_destination request,
     rh_newActiveRecordID = new, rh_oldRetiringRecordID = old\<rparr>"

text \<open>The tables after a staged token: it is still there, it was aborted, or it was activated.\<close>

definition stagedThen ::
  "DestinationTokenRotationRequest \<Rightarrow> DestinationTokenRecordID \<Rightarrow> DestinationTokenRecordID \<Rightarrow> gateway_db \<Rightarrow> gateway_db \<Rightarrow> bool" where
  "stagedThen request new old db1 db' =
     (db' = db1 \<or> (\<exists>now. commandStep (AbortStaged (rreq_audienceID request) (rreq_destination request) new now) db1 = Some db') \<or>
      (\<exists>now deadline. commandStep (rotateCommand (rreq_audienceID request) (rreq_destination request) new old now deadline) db1 =
         Some db'))"

definition beginPost ::
  "(gostring \<Rightarrow> StagedTokenCandidate \<Rightarrow> bool) \<Rightarrow> DestinationTokenRotationRequest \<Rightarrow> DestinationTokenRecordID \<Rightarrow> gateway_db \<Rightarrow> gateway_db \<Rightarrow>
   DestinationTokenRotationAttempt \<times> go_error option \<Rightarrow> bool" where
  "beginPost issued request old db db' outcome =
     (case outcome of (attempt, err) \<Rightarrow>
        (case err of
           None \<Rightarrow> \<exists>c db1. issued (rt_newToken attempt) c \<and> commandStep (createCommand True old c) db = Some db1 \<and>
             commandStep (rotateCommand (rreq_audienceID request) (rreq_destination request) (sc_recordID c) old
               (rt_activatedAt attempt) (rt_retirementDeadline attempt)) db1 = Some db' \<and>
             rt_handle attempt = handleOf request (sc_recordID c) old \<and> validRotationAttempt attempt True
         | Some e \<Rightarrow> e \<in> stateErr ` rotationKinds \<and> rt_newToken attempt = [] \<and>
             (db' = db \<or>
              (\<exists>c db1. commandStep (createCommand True old c) db = Some db1 \<and>
                 (attempt = noAttempt \<and>
                    (\<exists>now. commandStep (AbortStaged (rreq_audienceID request) (rreq_destination request) (sc_recordID c) now) db1 =
                       Some db') \<or>
                  e = stateErr ErrDestinationTokenRotationReconciliation \<and> rt_handle attempt = handleOf request (sc_recordID c) old \<and>
                    stagedThen request (sc_recordID c) old db1 db')))))"

text \<open>A rotation begins only from a current token that resolves to the destination and from the active token of the
  lifecycle snapshot.\<close>

definition beginOutcome ::
  "(gateway_db \<Rightarrow> GatewayAudienceID \<Rightarrow> OpaqueDestinationToken \<Rightarrow> time \<Rightarrow> DestinationID \<Rightarrow> bool) \<Rightarrow>
   (gostring \<Rightarrow> StagedTokenCandidate \<Rightarrow> bool) \<Rightarrow> DestinationTokenRotationRequest \<Rightarrow> gateway_db \<Rightarrow> gateway_db \<Rightarrow>
   DestinationTokenRotationAttempt \<times> go_error option \<Rightarrow> bool" where
  "beginOutcome resolves issued request db db' outcome =
     (\<exists>old. beginPost issued request old db db' outcome \<and>
        (db' \<noteq> db \<or> snd outcome = None \<longrightarrow>
          (\<exists>now. resolves db (rreq_audienceID request) (rreq_currentToken request) now (rreq_destination request)) \<and>
          (\<exists>now st view. lockedStateOf (rreq_audienceID request) (rreq_destination request) now db = Some st \<and>
             rotationBeginActive (ls_snapshot st) (rreq_audienceID request) (rreq_destination request) = Inr view \<and>
             old = lv_recordID view)))"

lemma begin_refused:
  "e \<in> stateErr ` rotationKinds \<Longrightarrow> beginOutcome resolves issued request db db (noAttempt, Some e)"
  by (auto simp: beginOutcome_def beginPost_def noAttempt_def)

lemma begin_done:
  "beginPost issued request (lv_recordID view) db db' outcome \<Longrightarrow>
   resolves db (rreq_audienceID request) (rreq_currentToken request) now (rreq_destination request) \<Longrightarrow>
   lockedStateOf (rreq_audienceID request) (rreq_destination request) later db = Some st \<Longrightarrow>
   rotationBeginActive (ls_snapshot st) (rreq_audienceID request) (rreq_destination request) = Inr view \<Longrightarrow>
   beginOutcome resolves issued request db db' outcome"
  unfolding beginOutcome_def by blast

text \<open>An operation that settles an attempt acts only on an attempt it saw active with its retiring token.\<close>

definition settledFrom :: "DestinationTokenRotationHandle \<Rightarrow> (time \<Rightarrow> time \<Rightarrow> bool) \<Rightarrow> gateway_db \<Rightarrow> bool" where
  "settledFrom h permitted db =
     (\<exists>now ra ob. attemptIn (rh_audienceID h) (rh_destination h) (rh_newActiveRecordID h) (rh_oldRetiringRecordID h) now db ra \<and>
        classifyRotationSnapshot ra h now = Inr ob \<and> ob_status ob = DestinationTokenRotationActiveWithRetiring \<and>
        permitted now (ob_retirementDeadline ob))"

lemma create_step_ids:
  assumes "commandStep (createCommand True old c) db = Some db1"
  shows "sc_recordID c \<noteq> 0" "old \<noteq> 0" "sc_recordID c \<noteq> old"
  using assms
  by (auto simp: commandStep_def createCommand_def revalidateCandidate_def NewStagedTokenCandidate_iff split: if_splits)

lemma handle_valid:
  assumes "commandStep (createCommand True old c) db = Some db1" "validRotationBinding a d"
  shows "validRotationHandle \<lparr>rh_audienceID = a, rh_destination = d, rh_newActiveRecordID = sc_recordID c, rh_oldRetiringRecordID = old\<rparr>"
  using assms(2) create_step_ids [OF assms(1)] by (simp add: validRotationHandle_def parseUUID_formatUUID)

lemma reconciliation_attempt [simp]:
  "rt_handle (rotationReconciliationAttempt request new old) = handleOf request new old"
  "rt_newToken (rotationReconciliationAttempt request new old) = []" "rt_newToken noAttempt = []"
  by (simp_all add: rotationReconciliationAttempt_def noAttempt_def handleOf_def)

context rotation_contract begin

lemma context_error_after:
  assumes "ready w"
  shows "after (rotationContextError ctxErr ctx) w (\<lambda>c w'. ready w' \<and> tables w' = tables w \<and>
    (\<forall>e. c = Some e \<longrightarrow> e \<in> stateErr ` (rotationKinds - {ErrDestinationTokenRotationOutcomeUnknown})))"
  unfolding rotationContextError_def
  by (intro after_intro after_mono [OF polls]; use assms in \<open>auto simp: rotationKinds_def\<close>)

lemma beginInput_after:
  assumes "ready w"
  shows "after (beginInput ctxErr (Some svc) ctx request) w (\<lambda>r w'. ready w' \<and> tables w' = tables w \<and>
    (case r of Inl e \<Rightarrow> e \<in> stateErr ` rotationKinds
     | Inr now \<Rightarrow> validRotationBinding (rreq_audienceID request) (rreq_destination request)))"
  unfolding beginInput_def option.case
  by (intro after_intro after_mono [OF context_error_after] after_mono [OF clock]; use assms in auto)

lemma operationNow_after:
  assumes "ready w"
  shows "after (operationNow ctxErr (Some svc) ctx handle) w (\<lambda>r w'. ready w' \<and> tables w' = tables w \<and>
    (case r of Inl e \<Rightarrow> e \<in> stateErr ` (rotationKinds - {ErrDestinationTokenRotationOutcomeUnknown})
     | Inr now \<Rightarrow> validRotationHandle handle))"
  unfolding operationNow_def option.case
  by (intro after_intro after_mono [OF context_error_after] after_mono [OF clock]; use assms in \<open>auto simp: rotationKinds_def\<close>)

lemma abort_and_report_after:
  assumes "ready w" "commandStep (createCommand True old c) db = Some (tables w)" "e \<in> stateErr ` rotationKinds"
  shows "after (abort_and_report svc ctx request (sc_recordID c) old e) w (\<lambda>outcome w'. ready w' \<and>
    beginPost issued' request old db (tables w') outcome)"
  unfolding abort_and_report_def abortCreatedStaged_def
  by (intro after_intro after_mono [OF abort];
      use assms in \<open>auto simp: beginPost_def serviceOutcome_def stagedThen_def split: option.splits\<close>)

lemma begin_activate_after:
  assumes "ready w" "commandStep (createCommand True old c) db = Some (tables w)" "issued' (ct_token created) c"
    "ct_recordID created = sc_recordID c" "lv_recordID view = old" "ct_token created \<noteq> []"
  shows "after (begin_activate ctxErr svc ctx request (handleOf request (sc_recordID c) old) created view) w
    (\<lambda>outcome w'. ready w' \<and> beginPost issued' request old db (tables w') outcome)"
proof -
  have aborted: "after (abort_and_report svc ctx request (sc_recordID c) old e) w1
      (\<lambda>outcome w'. ready w' \<and> beginPost issued' request old db (tables w') outcome)"
    if "ready w1" "serviceOutcome (tables w) step (Some f) (tables w1)"
      "classifyRotationActivationError f = (e, True)" for w1 e f step
  proof -
    from that(2) obtain kind where kind: "kind \<in> lifecycleKinds" "f = stateErr kind" by (auto simp: serviceOutcome_def)
    with classify_activation [OF kind(1)] that(3)
    have "e \<in> stateErr ` rotationKinds" "kind \<noteq> ErrDestinationLifecycleOutcomeUnknown" by auto
    with that kind assms(2) show ?thesis
      by (intro abort_and_report_after) (auto simp: serviceOutcome_def)
  qed
  have open_outcome: "beginPost issued' request old db db' (rotationReconciliationAttempt request (sc_recordID c) old,
      Some (stateErr ErrDestinationTokenRotationReconciliation))"
    if "serviceOutcome (tables w) (commandStep (rotateCommand (rreq_audienceID request) (rreq_destination request)
      (sc_recordID c) old now deadline) (tables w)) err db'" for err db' now deadline
    using that assms(2) by (auto simp: beginPost_def serviceOutcome_def stagedThen_def split: option.splits)
  have confirmed: "beginPost issued' request old db db' (\<lparr>rt_handle = handleOf request (sc_recordID c) old,
      rt_newToken = cloneOneTimeDestinationToken (ct_token created), rt_activatedAt = now, rt_retirementDeadline = deadline\<rparr>, None)"
    if "serviceOutcome (tables w) (commandStep (rotateCommand (rreq_audienceID request) (rreq_destination request)
      (sc_recordID c) old now deadline) (tables w)) None db'"
      "validRotationAttempt \<lparr>rt_handle = handleOf request (sc_recordID c) old,
        rt_newToken = cloneOneTimeDestinationToken (ct_token created), rt_activatedAt = now, rt_retirementDeadline = deadline\<rparr> True"
    for db' now deadline
    using that assms(2,3,6) by (auto simp: beginPost_def serviceOutcome_def cloneOneTimeDestinationToken_def)
  show ?thesis
    unfolding begin_activate_def Let_def assms(4,5)
    by (intro after_intro after_mono [OF activate [OF assms(1)]] after_mono [OF clock] after_mono [OF context_error_after])
      (auto intro: aborted open_outcome confirmed)
qed

lemma create_failed:
  assumes "createPost db db' issued' (createCommand True old) (created, Some e)"
    "validRotationBinding (rreq_audienceID request) (rreq_destination request)"
  shows "beginPost issued' request old db db'
    (if classifyRotationCreateError e = stateErr ErrDestinationTokenRotationReconciliation \<and>
        validRotationHandle (handleOf request (ct_recordID created) old)
     then (rotationReconciliationAttempt request (ct_recordID created) old, Some (classifyRotationCreateError e))
     else (noAttempt, Some (classifyRotationCreateError e)))"
proof -
  from assms(1) obtain kind where kind: "kind \<in> lifecycleKinds" "e = stateErr kind" by (auto simp: createPost_def)
  have known: "classifyRotationCreateError e \<in> stateErr ` rotationKinds" unfolding kind(2) by (rule classify_create [OF kind(1)])
  show ?thesis
  proof (cases "db' = db")
    case True
    with known show ?thesis by (simp add: beginPost_def)
  next
    case False
    with assms(1) kind obtain c where c: "kind = ErrDestinationLifecycleOutcomeUnknown" "sc_recordID c = ct_recordID created"
      "commandStep (createCommand True old c) db = Some db'"
      by (auto simp: createPost_def split: if_splits)
    have post: "beginPost issued' request old db db' (rotationReconciliationAttempt request (ct_recordID created) old,
        Some (stateErr ErrDestinationTokenRotationReconciliation))"
      unfolding beginPost_def prod.case option.case using c(2,3)
      by (auto simp: stagedThen_def intro!: exI [of _ c] exI [of _ db'])
    from handle_valid [OF c(3) assms(2)] have "validRotationHandle (handleOf request (ct_recordID created) old)"
      unfolding handleOf_def c(2) .
    with post c(1) kind(2) show ?thesis by (simp add: classify_create_unknown)
  qed
qed

lemma begin_staged_after:
  assumes "ready w1" "issued' (ct_token created) c" "ct_recordID created = sc_recordID c"
    "commandStep (createCommand True (lv_recordID view) c) db = Some (tables w1)"
    "validRotationBinding (rreq_audienceID request) (rreq_destination request)"
  shows "after
    (if ct_recordID created = 0
     then State_Monad.return (noAttempt, Some (stateErr ErrDestinationTokenRotationReconciliation))
     else if \<not> validRotationHandle (handleOf request (ct_recordID created) (lv_recordID view))
     then State_Monad.return (noAttempt, Some (stateErr ErrDestinationTokenRotationReconciliation))
     else if ct_token created = []
     then abort_and_report svc ctx request (ct_recordID created) (lv_recordID view)
       (stateErr ErrDestinationTokenRotationUnavailable)
     else State_Monad.bind (rotationContextError ctxErr ctx) (\<lambda>cancellation.
       case cancellation of
         Some e \<Rightarrow> abort_and_report svc ctx request (ct_recordID created) (lv_recordID view) e
       | None \<Rightarrow> begin_activate ctxErr svc ctx request (handleOf request (ct_recordID created) (lv_recordID view))
           created view)) w1
    (\<lambda>outcome w'. ready w' \<and> beginPost issued' request (lv_recordID view) db (tables w') outcome)"
proof -
  have ids: "ct_recordID created \<noteq> 0" "validRotationHandle (handleOf request (ct_recordID created) (lv_recordID view))"
    using create_step_ids [OF assms(4)] handle_valid [OF assms(4,5)] assms(3) by (simp_all add: handleOf_def)
  have aborted: "after (abort_and_report svc ctx request (ct_recordID created) (lv_recordID view) e) w2
      (\<lambda>outcome w'. ready w' \<and> beginPost issued' request (lv_recordID view) db (tables w') outcome)"
    if "ready w2" "tables w2 = tables w1" "e \<in> stateErr ` rotationKinds" for w2 e
    unfolding assms(3) using assms(4) that by (intro abort_and_report_after) simp_all
  have activated: "after (begin_activate ctxErr svc ctx request (handleOf request (ct_recordID created) (lv_recordID view)) created view) w2
      (\<lambda>outcome w'. ready w' \<and> beginPost issued' request (lv_recordID view) db (tables w') outcome)"
    if "ready w2" "tables w2 = tables w1" "ct_token created \<noteq> []" for w2
    unfolding assms(3) using assms that by (intro begin_activate_after) simp_all
  from assms(1) ids show ?thesis
    by (intro after_intro after_mono [OF context_error_after]) (auto intro: aborted activated)
qed

lemma begin_create_after:
  assumes "ready w" "validRotationBinding (rreq_audienceID request) (rreq_destination request)"
  shows "after (begin_create ctxErr svc ctx request view) w (\<lambda>outcome w'. ready w' \<and>
    beginPost (issued (rreq_audienceID request) (rreq_destination request) (rreq_currentToken request)) request
      (lv_recordID view) (tables w) (tables w') outcome)"
  unfolding begin_create_def Let_def after_bind handleOf_def [symmetric] reconciliation_attempt(1)
proof (rule after_mono [OF create [OF assms(1)]], goal_cases)
  case (1 outcome w1)
  let ?issued = "issued (rreq_audienceID request) (rreq_destination request) (rreq_currentToken request)"
  obtain created err where outcome: "outcome = (created, err)" by (cases outcome)
  show ?case
  proof (cases err)
    case None
    with 1 outcome obtain c where "?issued (ct_token created) c" "ct_recordID created = sc_recordID c"
      "commandStep (createCommand True (lv_recordID view) c) (tables w) = Some (tables w1)"
      by (auto simp: createPost_def)
    then show ?thesis unfolding outcome None prod.case option.case
      using begin_staged_after [where issued' = ?issued] assms(2) 1 by blast
  next
    case (Some e)
    with create_failed [of "tables w" "tables w1" ?issued "lv_recordID view" created e, OF _ assms(2)] 1 outcome show ?thesis
      by (simp add: after_return)
  qed
qed

lemma begin_rotation_after:
  assumes "ready w"
  shows "after (BeginRotation ctxErr (Some svc) ctx request) w (\<lambda>outcome w'. ready w' \<and>
    beginOutcome resolves (issued (rreq_audienceID request) (rreq_destination request) (rreq_currentToken request)) request
      (tables w) (tables w') outcome)"
  unfolding BeginRotation_def prod.case option.case
  by (intro after_intro after_mono [OF beginInput_after [OF assms]] after_mono [OF resolution_read]
      after_mono [OF context_error_after] after_mono [OF lifecycle_read] after_mono [OF begin_create_after];
      use assms in \<open>auto intro!: begin_refused classify_before_mutation simp: classify_resolver
        intro: begin_done dest: begin_active_error\<close>)

lemma inspect_rotation_after:
  assumes "ready w"
  shows "after (inspectRotation ctxErr svc ctx h now) w (\<lambda>r w'. ready w' \<and> tables w' = tables w \<and>
    (case r of Inl e \<Rightarrow> e \<in> stateErr ` (rotationKinds - {ErrDestinationTokenRotationOutcomeUnknown})
     | Inr ob \<Rightarrow> \<exists>ra. attemptIn (rh_audienceID h) (rh_destination h) (rh_newActiveRecordID h) (rh_oldRetiringRecordID h) now
         (tables w) ra \<and> classifyRotationSnapshot ra h now = Inr ob))"
  unfolding inspectRotation_def
  by (intro after_intro after_mono [OF attempt_read] after_mono [OF context_error_after];
      use assms in \<open>auto split: option.splits sum.splits dest: snapshot_error\<close>)

lemma settle_after:
  assumes "ready w" "\<And>w. ready w \<Longrightarrow> after (mutate svc) w (\<lambda>err w'. ready w' \<and>
      (\<exists>now. serviceOutcome (tables w) (commandStep (cmd now) (tables w)) err (tables w')))"
  shows "after (settle_rotation ctxErr (Some svc) ctx h permitted mutate) w (\<lambda>err w'. ready w' \<and>
    (\<exists>now. settleOutcome (tables w) (commandStep (cmd now) (tables w)) err (tables w')) \<and>
    (tables w' \<noteq> tables w \<or> err = None \<longrightarrow> settledFrom h permitted (tables w)))"
proof -
  have refused: "\<exists>now. settleOutcome db (commandStep (cmd now) db) (Some e) db" if "e \<in> stateErr ` rotationKinds" for e db
    using that by (auto simp: settleOutcome_def)
  have conflict: "stateErr ErrDestinationTokenRotationConflict \<in> stateErr ` rotationKinds" by simp
  show ?thesis
    unfolding settle_rotation_def prod.case option.case
    by (intro after_intro after_mono [OF operationNow_after [OF assms(1)]] after_mono [OF inspect_rotation_after]
        after_mono [OF context_error_after] after_mono [OF assms(2)];
        use assms(1) conflict in \<open>auto intro: refused [OF conflict] refused classify_mutation simp: settledFrom_def\<close>)
qed

lemma observe_after:
  assumes "ready w"
  shows "after (ObserveRotation ctxErr (Some svc) ctx h token) w (\<lambda>r w'. ready w' \<and> tables w' = tables w \<and>
    (case r of Inl e \<Rightarrow> e \<in> stateErr ` rotationKinds
     | Inr ob \<Rightarrow> validRotationObservation ob True \<and>
         identifies (tables w) (rh_audienceID h) (rh_destination h) token (rh_newActiveRecordID h) (rh_oldRetiringRecordID h)
           (ob_tokenIdentity ob) \<and>
         (\<exists>now ra ob'. attemptIn (rh_audienceID h) (rh_destination h) (rh_newActiveRecordID h) (rh_oldRetiringRecordID h) now
            (tables w) ra \<and> classifyRotationSnapshot ra h now = Inr ob' \<and>
            ob = ob'\<lparr>ob_tokenIdentity := ob_tokenIdentity ob\<rparr>)))"
  unfolding ObserveRotation_def prod.case option.case
  by (intro after_intro after_mono [OF operationNow_after [OF assms]] after_mono [OF identification]
      after_mono [OF inspect_rotation_after] after_mono [OF context_error_after];
      use assms in \<open>auto simp: Let_def split: sum.splits\<close>)

end

subsection \<open>The participant over the PostgreSQL components\<close>

fun goContext :: "rotation_context \<Rightarrow> go_context" where
  "goContext (CallerContext ctx) = ctx"
| "goContext (CompensationContext parent limit) = CallContext"

definition lifecycleOf ::
  "(rotation_context \<Rightarrow> ('w, go_error option) state) \<Rightarrow> 'w DestinationTokenLifecycleService option \<Rightarrow> 'w rotationLifecycle" where
  "lifecycleOf ctxErr service =
     \<lparr>rl_CreateRotationStagedToken = (\<lambda>c. service_CreateRotationStagedToken (ctxErr c) service (goContext c)),
      rl_ActivateRotation = (\<lambda>c. service_ActivateRotation (ctxErr c) service (goContext c)),
      rl_AbortStagedToken = (\<lambda>c. service_AbortStagedToken (ctxErr c) service (goContext c)),
      rl_RollbackRotation = (\<lambda>c. service_RollbackRotation (ctxErr c) service (goContext c)),
      rl_FinalizeRotation = (\<lambda>c. service_FinalizeRotation (ctxErr c) service (goContext c)),
      rl_InspectLifecycleState = (\<lambda>c. service_InspectLifecycleState (ctxErr c) service (goContext c))\<rparr>"

definition pgParticipant where
  "pgParticipant timeout repository resolver clock ctxErr lifecycle limit =
     \<lparr>rp_clock = clock, rp_resolver = Resolve timeout (Some resolver),
      rp_identifier = IdentifyRotationToken timeout (Some resolver),
      rp_attemptInspector = InspectRotationAttempt timeout repository,
      rp_lifecycle = lifecycleOf ctxErr (Some lifecycle), rp_compensationTimeout = limit\<rparr>"

definition tokenResolves ::
  "(GatewayAudienceID \<Rightarrow> DestinationVerifierKeyID \<Rightarrow> DestinationVerifierKey option) \<Rightarrow> DestinationVerifierKeyID list \<Rightarrow>
   gateway_db \<Rightarrow> GatewayAudienceID \<Rightarrow> OpaqueDestinationToken \<Rightarrow> time \<Rightarrow> DestinationID \<Rightarrow> bool" where
  "tokenResolves keyring keyIDs db a token now d =
     (\<exists>t. matched db keyring keyIDs a token t \<and> DestinationToken_UsableAt t now \<and> d = de_id (ts_Destination t))"

definition tokenIdentified ::
  "(GatewayAudienceID \<Rightarrow> DestinationVerifierKeyID \<Rightarrow> DestinationVerifierKey option) \<Rightarrow> DestinationVerifierKeyID list \<Rightarrow>
   gateway_db \<Rightarrow> GatewayAudienceID \<Rightarrow> DestinationID \<Rightarrow> OpaqueDestinationToken \<Rightarrow> DestinationTokenRecordID \<Rightarrow>
   DestinationTokenRecordID \<Rightarrow> DestinationTokenRotationTokenIdentity \<Rightarrow> bool" where
  "tokenIdentified keyring keyIDs db a d token new old i =
     (i = DestinationTokenRotationTokenNeither \<or>
      (\<exists>t. matched db keyring keyIDs a token t \<and> de_id (ts_Destination t) = d \<and>
         (i = DestinationTokenRotationTokenNew \<and> ts_RecordID t = new \<or>
          i = DestinationTokenRotationTokenOld \<and> ts_RecordID t = old)))"

text \<open>A session on which the participant can be used: no transaction is open, the resolver was constructed over the keys
  of the keyring, the lifecycle service stores into the repository, and clocks, contexts and secrets do not touch the
  tables.\<close>

definition participantReady where
  "participantReady keyring keyIDs resolver clock ctxErr lifecycle s =
     (idle s \<and> quiet idle s_db clock \<and> (\<forall>c. quietService idle s_db (ctxErr c) lifecycle) \<and>
      (\<exists>timeout repository ctx. svc_repository lifecycle = repositoryAPI timeout repository ctx) \<and>
      (\<exists>nilPool keySource. NewOpaqueDestinationResolver nilPool (Some keySource) keyIDs = Inr resolver \<and>
         keysFrom keySource keyring))"

lemma participantReady_parts:
  assumes "participantReady keyring keyIDs resolver clock ctxErr lifecycle s"
  obtains timeout repository ctx nilPool keySource where
    "idle s" "quiet idle s_db clock" "\<And>c. quietService idle s_db (ctxErr c) lifecycle"
    "svc_repository lifecycle = repositoryAPI timeout repository ctx"
    "NewOpaqueDestinationResolver nilPool (Some keySource) keyIDs = Inr resolver" "keysFrom keySource keyring"
  using assms unfolding participantReady_def by blast

lemma participantReady_idle:
  "participantReady keyring keyIDs resolver clock ctxErr lifecycle s \<Longrightarrow> idle s' \<Longrightarrow>
   participantReady keyring keyIDs resolver clock ctxErr lifecycle s'"
  by (simp add: participantReady_def)

lemma resolver_idle:
  "idle s \<Longrightarrow> resolverPost s E P r s' \<Longrightarrow> idle s' \<and> s_db s' = s_db s \<and> (\<forall>v. r = Inr v \<longrightarrow> P v)"
  by (auto simp: resolverPost_def idle_def driver_honest_def)

lemma inspection_idle:
  "idle s \<Longrightarrow> inspectionPost s P r s' \<Longrightarrow> idle s' \<and> s_db s' = s_db s \<and> (\<forall>v. r = Inr v \<longrightarrow> P v)"
  by (auto simp: inspectionPost_def idle_def driver_honest_def)

interpretation pgr: rotation_contract "pgParticipant timeout repository resolver clock ctxErr lifecycle limit" ctxErr s_db
    "participantReady keyring keyIDs resolver clock ctxErr lifecycle" "\<lambda>a d current. issuedAs lifecycle a d current True"
    "tokenResolves keyring keyIDs" "tokenIdentified keyring keyIDs"
  for timeout repository resolver clock ctxErr lifecycle limit keyring keyIDs
proof (unfold_locales, goal_cases)
  case (1 w c)
  from 1 have "idle w" "quietService idle s_db (ctxErr c) lifecycle" by (auto elim: participantReady_parts)
  then have "after (ctxErr c) w (\<lambda>_ w'. idle w' \<and> s_db w' = s_db w)" by (auto simp: quietService_def quiet_def)
  then show ?case by (auto elim!: after_mono intro: participantReady_idle [OF 1])
next
  case (2 w)
  then show ?case
    by (rule participantReady_parts)
      (use 2 in \<open>auto simp: pgParticipant_def quiet_def elim!: after_mono intro: participantReady_idle\<close>)
next
  case (3 w ctx a t now)
  from 3 obtain nilPool keySource where r: "idle w" "NewOpaqueDestinationResolver nilPool (Some keySource) keyIDs = Inr resolver"
    "keysFrom keySource keyring" by (rule participantReady_parts)
  have "after (Resolve timeout (Some resolver) ctx a t now) w (resolverPost w (\<lambda>e. e = stateErr ErrDestinationNotFound)
      (tokenResolves keyring keyIDs (s_db w) a t now))"
    unfolding tokenResolves_def [abs_def] using r by (intro resolve_after) (auto simp: idle_def)
  then show ?case
    by (auto simp: pgParticipant_def dest: resolver_idle [OF r(1)] intro: participantReady_idle [OF 3] elim!: after_mono)
next
  case (4 w ctx a d t new old now)
  from 4 obtain nilPool keySource where r: "idle w" "NewOpaqueDestinationResolver nilPool (Some keySource) keyIDs = Inr resolver"
    "keysFrom keySource keyring" by (rule participantReady_parts)
  have "after (IdentifyRotationToken timeout (Some resolver) ctx a d t new old now) w (resolverPost w (\<lambda>e. False)
      (tokenIdentified keyring keyIDs (s_db w) a d t new old))"
    unfolding tokenIdentified_def [abs_def] using r by (intro identify_after) (auto simp: idle_def)
  then show ?case
    by (auto simp: pgParticipant_def dest: resolver_idle [OF r(1)] intro: participantReady_idle [OF 4] elim!: after_mono)
next
  case (5 w ctx a d new old now)
  from 5 have r: "idle w" by (rule participantReady_parts)
  from inspect_attempt_after [of w timeout repository ctx a d new old now] r show ?case
    by (auto simp: pgParticipant_def idle_def dest: inspection_idle [OF r] intro: participantReady_idle [OF 5] elim!: after_mono)
next
  case (6 w c a d)
  then show ?case
    by (rule participantReady_parts)
      (auto simp: pgParticipant_def lifecycleOf_def intro: participantReady_idle [OF 6]
        intro!: after_mono [OF pg.service_InspectLifecycleState_after])
next
  case (7 w c a d old current)
  then show ?case
    by (rule participantReady_parts)
      (auto simp: pgParticipant_def lifecycleOf_def service_CreateRotationStagedToken_def after_return pg.createPost_rejected
        intro: participantReady_idle [OF 7] 7 intro!: after_mono [OF pg.createStagedToken_after])
next
  case (8 w c a d new old)
  then show ?case
    by (rule participantReady_parts)
      (auto simp: pgParticipant_def lifecycleOf_def rotateCommand_def intro: participantReady_idle [OF 8]
        intro!: after_mono [OF pg.service_ActivateRotation_after])
next
  case (9 w c a d new)
  then show ?case
    by (rule participantReady_parts)
      (auto simp: pgParticipant_def lifecycleOf_def intro: participantReady_idle [OF 9]
        intro!: after_mono [OF pg.service_commands_after(2)])
next
  case (10 w c a d new old)
  then show ?case
    by (rule participantReady_parts)
      (auto simp: pgParticipant_def lifecycleOf_def rollbackCommand_def intro: participantReady_idle [OF 10]
        intro!: after_mono [OF pg.service_commands_after(3)])
next
  case (11 w c a d new old)
  then show ?case
    by (rule participantReady_parts)
      (auto simp: pgParticipant_def lifecycleOf_def finalizeCommand_def intro: participantReady_idle [OF 11]
        intro!: after_mono [OF pg.service_commands_after(4)])
qed

subsection \<open>The guarantees\<close>

text \<open>What an observation says of the two stored rows.\<close>

definition observedRows :: "DestinationTokenRotationObservation \<Rightarrow> token_row \<Rightarrow> token_row \<Rightarrow> bool" where
  "observedRows ob new old =
     (case ob_status ob of
        DestinationTokenRotationActiveWithRetiring \<Rightarrow>
          stateOfText (tr_token_state new) = DestinationTokenActive \<and> stateOfText (tr_token_state old) = DestinationTokenRetiring \<and>
          ob_retirementDeadline ob = optionTime (tr_retirement_overlap_deadline old)
      | DestinationTokenRotationRolledBack \<Rightarrow>
          stateOfText (tr_token_state new) = DestinationTokenRevoked \<and> stateOfText (tr_token_state old) = DestinationTokenActive
      | DestinationTokenRotationCompleted \<Rightarrow>
          stateOfText (tr_token_state new) = DestinationTokenActive \<and> stateOfText (tr_token_state old) = DestinationTokenRevoked
      | DestinationTokenRotationStatusUndeclared \<Rightarrow> False)"

lemma history_states:
  "viewsEqual v v' \<Longrightarrow> lv_state v = lv_state v' \<and> lv_retirementDeadline v = lv_retirementDeadline v'"
  "validRotationPairViews v v' now \<Longrightarrow> lv_state v = DestinationTokenActive \<and> lv_state v' = DestinationTokenRetiring"
  "exactRolledBackAttempt v v' now \<Longrightarrow> lv_state v = DestinationTokenRevoked \<and> lv_state v' = DestinationTokenActive"
  "exactCompletedAttempt v v' now \<Longrightarrow> lv_state v = DestinationTokenActive \<and> lv_state v' = DestinationTokenRevoked"
     apply (simp add: viewsEqual_def)
    apply (simp add: validRotationPairViews_def)
   apply (unfold exactRolledBackAttempt_def, meson)
  apply (simp add: exactCompletedAttempt_def)
  done

lemma classified_views:
  assumes "classifyRotationSnapshot ra h now = Inr ob"
  shows "ob_status ob = DestinationTokenRotationActiveWithRetiring \<and> lv_state (ra_newToken ra) = DestinationTokenActive \<and>
      lv_state (ra_oldToken ra) = DestinationTokenRetiring \<and> ob_retirementDeadline ob = lv_retirementDeadline (ra_oldToken ra) \<or>
    ob_status ob = DestinationTokenRotationRolledBack \<and> lv_state (ra_newToken ra) = DestinationTokenRevoked \<and>
      lv_state (ra_oldToken ra) = DestinationTokenActive \<or>
    ob_status ob = DestinationTokenRotationCompleted \<and> lv_state (ra_newToken ra) = DestinationTokenActive \<and>
      lv_state (ra_oldToken ra) = DestinationTokenRevoked" (is "?P ob")
proof -
  have "classifyRotationSnapshot ra h now \<in> range Inl \<union> Inr ` {ob. ?P ob}"
    unfolding classifyRotationSnapshot_def Let_def
    by (intro if_member) (auto dest!: history_states)
  with assms show ?thesis by auto
qed

lemma attempt_rows:
  assumes "attemptIn a d newID oldID now db ra" "classifyRotationSnapshot ra h now = Inr ob"
  shows "\<exists>new old. new \<in> set (db_tokens db) \<and> tr_record_id new = newID \<and> old \<in> set (db_tokens db) \<and> tr_record_id old = oldID \<and>
    observedRows (ob\<lparr>ob_tokenIdentity := i\<rparr>) new old"
proof -
  from assms(1) obtain st :: lifecycleLockedState and n old where rows: "n \<in> set (db_tokens db)" "tr_record_id n = newID" "old \<in> set (db_tokens db)"
      "tr_record_id old = oldID"
    and ra: "NewDestinationTokenRotationAttemptSnapshot (ls_snapshot st) (specOf (ls_destination st) n)
      (specOf (ls_destination st) old) newID oldID now = Inr ra"
    unfolding attemptIn_def by blast
  from ra have "ra_newToken ra = lifecycleTokenView (specOf (ls_destination st) n)"
      "ra_oldToken ra = lifecycleTokenView (specOf (ls_destination st) old)"
    by (auto simp: NewDestinationTokenRotationAttemptSnapshot_def split: if_splits)
  with classified_views [OF assms(2)] have "observedRows (ob\<lparr>ob_tokenIdentity := i\<rparr>) n old"
    by (auto simp: observedRows_def lifecycleTokenView_def specOf_def)
  with rows show ?thesis by blast
qed

text \<open>C28. Beginning a rotation. On success the current token resolved to the destination, the record replaced was the one
  active token of the destination, a token was staged with the verifier of exactly the token handed out and then
  activated in its place, with the times and the handle that are returned. On every error no token is returned, and the
  tables are as before, or the staged token was aborted again, or the error demands reconciliation and the handle names
  the two records; a caller is never left with a change that it cannot name.\<close>

theorem begun_rotation_is_accounted:
  assumes "participantReady keyring keyIDs resolver clock ctxErr lifecycle s"
  shows "after (BeginRotation ctxErr (Some (pgParticipant timeout repository resolver clock ctxErr lifecycle limit)) ctx request) s
    (\<lambda>outcome s'. beginOutcome (tokenResolves keyring keyIDs)
      (issuedAs lifecycle (rreq_audienceID request) (rreq_destination request) (rreq_currentToken request) True)
      request (s_db s) (s_db s') outcome)"
  by (rule after_mono [OF pgr.begin_rotation_after [OF assms]]) blast



subsection \<open>A concrete participant\<close>

abbreviation sampleParticipant :: "gateway_db session DestinationTokenRotationParticipantService" where
  "sampleParticipant \<equiv> pgParticipant (\<lambda>_. False) (NewDestinationTokenLifecycleRepository False) (sampleResolver (str ''k''))
     (State_Monad.return 9000) (\<lambda>_. State_Monad.return None) sampleService Second"

definition sampleHandle :: DestinationTokenRotationHandle where
  "sampleHandle = \<lparr>rh_audienceID = 1, rh_destination = 2, rh_newActiveRecordID = 4, rh_oldRetiringRecordID = 3\<rparr>"

definition sampleRotationRequest :: DestinationTokenRotationRequest where
  "sampleRotationRequest = \<lparr>rreq_audienceID = 1, rreq_destination = 2, rreq_currentToken = 7\<rparr>"

lemma sample_participant:
  assumes "Lost (Sentinel (Pgx ErrTxCommitRollback)) \<notin> set script"
  shows "participantReady sampleKeyring [str ''k''] (sampleResolver (str ''k'')) (State_Monad.return 9000)
    (\<lambda>_. State_Monad.return None) sampleService (sampleSession script db)"
proof -
  have "idle (sampleSession script db)" using assms by (simp add: idle_def driver_honest_def sampleSession_def)
  moreover have "quiet idle s_db (State_Monad.return 9000)" by (simp add: quiet_def after_simps)
  ultimately show ?thesis
    unfolding participantReady_def using sample_service(1,2) sample_resolver(1,3) by blast
qed

lemma sample_participant_fields:
  "s_db (sampleSession script db) = db" "rh_audienceID sampleHandle = 1" "rh_destination sampleHandle = 2"
  "rh_newActiveRecordID sampleHandle = 4" "rh_oldRetiringRecordID sampleHandle = 3"
  "rreq_audienceID sampleRotationRequest = 1" "rreq_destination sampleRotationRequest = 2"
  "rreq_currentToken sampleRotationRequest = 7"
  by (simp_all add: sampleSession_def sampleHandle_def sampleRotationRequest_def)

theorem begun_rotation_is_accounted_witness:
  "after (BeginRotation (\<lambda>_. State_Monad.return None) (Some sampleParticipant) CallContext sampleRotationRequest)
     (sampleSession [Answered, Lost (Leaf 0 True)] (rotationDb [oldRow (sampleHash 7)]))
     (\<lambda>outcome s'. beginOutcome (tokenResolves sampleKeyring [str ''k'']) (issuedAs sampleService 1 2 7 True)
        sampleRotationRequest (rotationDb [oldRow (sampleHash 7)]) (s_db s') outcome)"
  using begun_rotation_is_accounted [OF sample_participant [of "[Answered, Lost (Leaf 0 True)]"], of _ _ _ CallContext sampleRotationRequest]
  unfolding sample_participant_fields by simp



end
