(* ===== verification/Authentication_State.thy ===== *)
theory Authentication_State
  imports Destination_Resolver
begin

section \<open>The authentication tables and their repository\<close>

text \<open>
  \<^verbatim>\<open>internal/postgres/authentication_state.go\<close> over the tables of
  \<^verbatim>\<open>internal/postgres/migrations/000002_security_state_v1.sql\<close>: the bound audience, the credential with its slot and
  principal, the principal, and the reservation of replay nonces. Every query runs outside a transaction, on the
  committed tables; the reservation is one \<^verbatim>\<open>insert\<close> that commits by itself.
\<close>

subsection \<open>Tables\<close>

record realm_row =
  rm_singleton_key :: bool
  rm_gateway_audience_id :: bytes16

record principal_row =
  pp_core_principal_id :: bytes16
  pp_gateway_audience_id :: bytes16
  pp_enabled :: bool
  pp_gateway_intake_v1_authorized :: bool
  pp_created_at :: timestamptz
  pp_state_changed_at :: timestamptz

record slot_row =
  so_credential_slot_id :: bytes16
  so_gateway_audience_id :: bytes16
  so_core_principal_id :: bytes16
  so_created_at :: timestamptz

record credential_row =
  cd_credential_record_id :: bytes16
  cd_credential_id :: bytes16
  cd_credential_slot_id :: bytes16
  cd_gateway_audience_id :: bytes16
  cd_core_principal_id :: bytes16
  cd_credential_state :: gostring
  cd_not_before :: timestamptz
  cd_expires_at :: timestamptz
  cd_activated_at :: "timestamptz option"
  cd_retirement_started_at :: "timestamptz option"
  cd_retirement_overlap_deadline :: "timestamptz option"
  cd_revoked_at :: "timestamptz option"
  cd_created_at :: timestamptz
  cd_state_changed_at :: timestamptz

record replay_row =
  rr_credential_record_id :: bytes16
  rr_nonce_bytes :: "byte list"
  rr_reserved_at :: timestamptz
  rr_expires_at :: timestamptz

record auth_db =
  au_realm :: "realm_row list"
  au_principals :: "principal_row list"
  au_slots :: "slot_row list"
  au_credentials :: "credential_row list"
  au_replay :: "replay_row list"

text \<open>The \<^verbatim>\<open>CHECK\<close> constraints of the reservation table, by name.\<close>

definition replayChecks :: "replay_row \<Rightarrow> (string \<times> bool) list" where
  "replayChecks r =
    [(''authentication_replay_reservations_nonce_size'', length (rr_nonce_bytes r) = 16),
     (''authentication_replay_reservations_retention'',
        rr_expires_at r = stamp_add (rr_reserved_at r) (5 * 60 * 1000000))]"

subsection \<open>Statements\<close>

definition selectBoundAudienceSQL :: "auth_db \<Rightarrow> (nat \<times> gostring \<times> bool) option" where
  "selectBoundAudienceSQL db =
     (let texts = map (\<lambda>r. formatUUID (rm_gateway_audience_id r)) (au_realm db) in
      Some (length (au_realm db), if texts = [] then [] else Min (set texts),
        au_realm db \<noteq> [] \<and> list_all rm_singleton_key (au_realm db)))"

type_synonym credential_join = "credential_row \<times> slot_row option \<times> principal_row option"

definition leftJoin :: "('b \<Rightarrow> bool) \<Rightarrow> 'b list \<Rightarrow> 'b option list" where
  "leftJoin on rows = (case filter on rows of [] \<Rightarrow> [None] | joined \<Rightarrow> map Some joined)"

text \<open>The number of rows, whether the audience of the first is the expected one, and the first row.\<close>

definition selectCredentialSQL ::
  "GatewayAudienceID \<Rightarrow> CredentialID \<Rightarrow> auth_db \<Rightarrow> (nat \<times> bool \<times> credential_join) option" where
  "selectCredentialSQL audience publicID db =
     (let rows = concat (map (\<lambda>c. concat (map (\<lambda>slot.
            map (\<lambda>core. (c, slot, core))
              (leftJoin (\<lambda>p. pp_core_principal_id p = cd_core_principal_id c) (au_principals db)))
            (leftJoin (\<lambda>x. so_credential_slot_id x = cd_credential_slot_id c) (au_slots db))))
          (filter (\<lambda>c. cd_credential_id c = publicID) (au_credentials db)))
      in case rows of
           [] \<Rightarrow> None
         | row # _ \<Rightarrow> Some (length rows, cd_gateway_audience_id (fst row) = audience, row))"

definition selectPrincipalSQL ::
  "GatewayAudienceID \<Rightarrow> CorePrincipalID \<Rightarrow> auth_db \<Rightarrow> (nat \<times> principal_row) option" where
  "selectPrincipalSQL audience principalID db =
     (let rows = filter (\<lambda>p. pp_gateway_audience_id p = audience \<and> pp_core_principal_id p = principalID) (au_principals db)
      in case rows of [] \<Rightarrow> None | row # _ \<Rightarrow> Some (length rows, row))"

definition insertReplayReservationSQL ::
  "CredentialRecordID \<Rightarrow> byte list \<Rightarrow> time \<Rightarrow> time \<Rightarrow> auth_db \<Rightarrow> go_error + (bool option \<times> auth_db)" where
  "insertReplayReservationSQL recordID nonceBytes now expiresAt db =
     (let row = \<lparr>rr_credential_record_id = recordID, rr_nonce_bytes = nonceBytes,
            rr_reserved_at = timestampArgument now, rr_expires_at = timestampArgument expiresAt\<rparr>
      in case filter (\<lambda>(name, ok). \<not> ok) (replayChecks row) of
           (name, _) # _ \<Rightarrow> Inl (PgError (str ''23514'') (str name))
         | [] \<Rightarrow>
             if \<exists>r\<in>set (au_replay db). rr_credential_record_id r = recordID \<and> rr_nonce_bytes r = nonceBytes
             then Inr (None, db)
             else if \<nexists>c. c \<in> set (au_credentials db) \<and> cd_credential_record_id c = recordID
             then Inl (PgError (str ''23503'') (str ''authentication_replay_reservations_credential_fk''))
             else Inr (Some True, db\<lparr>au_replay := au_replay db @ [row]\<rparr>))"

text \<open>\<^verbatim>\<open>connection.QueryRow(...).Scan(...)\<close> of a statement that changes rows outside a transaction: what takes effect is
  committed. \<open>None\<close> is a nil row object.\<close>

definition conn_QueryRow_returning ::
  "('db \<Rightarrow> go_error + ('row option \<times> 'db)) \<Rightarrow> ('db session, 'row result option) state" where
  "conn_QueryRow_returning statement = do {
     a \<leftarrow> next_answer;
     s \<leftarrow> State_Monad.get;
     case a of
       Refused e \<Rightarrow> State_Monad.return (Some (Inl e))
     | NilObject \<Rightarrow> State_Monad.return None
     | _ \<Rightarrow>
        (case statement (s_db s) of
           Inl e \<Rightarrow> State_Monad.return (Some (Inl e))
         | Inr (row, d) \<Rightarrow> do {
             State_Monad.set (s\<lparr>s_db := d\<rparr>);
             State_Monad.return (Some (case a of
                 Lost e \<Rightarrow> Inl e
               | _ \<Rightarrow> (case row of None \<Rightarrow> Inl (Sentinel (Pgx ErrNoRows)) | Some r \<Rightarrow> Inr r))) }) }"

subsection \<open>Scanning\<close>

text \<open>The driver refuses to scan an infinite timestamp into a \<^verbatim>\<open>time.Time\<close>.\<close>

definition scanError :: go_error where
  "scanError = Wrapped False (Leaf 0 False)"

fun scanTime :: "timestamptz \<Rightarrow> time option" where
  "scanTime (Stamp us) = Some (us * 1000)"
| "scanTime _ = None"

record credentialRecord =
  cr_count :: nat
  cr_audienceMatches :: bool
  cr_recordText :: gostring
  cr_publicText :: gostring
  cr_credentialSlotText :: gostring
  cr_credentialAudienceText :: gostring
  cr_credentialPrincipalText :: gostring
  cr_stateText :: gostring
  cr_notBefore :: time
  cr_expiresAt :: time
  cr_activatedAt :: Timestamptz
  cr_retirementStartedAt :: Timestamptz
  cr_retirementDeadline :: Timestamptz
  cr_revokedAt :: Timestamptz
  cr_createdAt :: time
  cr_stateChangedAt :: time
  cr_slotText :: "gostring option"
  cr_slotAudienceText :: "gostring option"
  cr_slotPrincipalText :: "gostring option"
  cr_slotCreatedAt :: Timestamptz
  cr_principalText :: "gostring option"
  cr_principalAudienceText :: "gostring option"
  cr_principalEnabled :: "bool option"
  cr_principalIntakeAuthorized :: "bool option"
  cr_principalCreatedAt :: Timestamptz
  cr_principalStateChangedAt :: Timestamptz

definition scanCredential :: "nat \<times> bool \<times> credential_join \<Rightarrow> credentialRecord result" where
  "scanCredential row =
     (case row of (rowCount, matches, c, slot, core) \<Rightarrow>
        (case (scanTime (cd_not_before c), scanTime (cd_expires_at c), scanTime (cd_created_at c), scanTime (cd_state_changed_at c)) of
           (Some notBefore, Some expiresAt, Some createdAt, Some stateChangedAt) \<Rightarrow>
             Inr \<lparr>cr_count = rowCount, cr_audienceMatches = matches,
               cr_recordText = formatUUID (cd_credential_record_id c), cr_publicText = formatUUID (cd_credential_id c),
               cr_credentialSlotText = formatUUID (cd_credential_slot_id c),
               cr_credentialAudienceText = formatUUID (cd_gateway_audience_id c),
               cr_credentialPrincipalText = formatUUID (cd_core_principal_id c),
               cr_stateText = cd_credential_state c, cr_notBefore = notBefore, cr_expiresAt = expiresAt,
               cr_activatedAt = scanTimestamptz (cd_activated_at c),
               cr_retirementStartedAt = scanTimestamptz (cd_retirement_started_at c),
               cr_retirementDeadline = scanTimestamptz (cd_retirement_overlap_deadline c),
               cr_revokedAt = scanTimestamptz (cd_revoked_at c), cr_createdAt = createdAt, cr_stateChangedAt = stateChangedAt,
               cr_slotText = map_option (\<lambda>x. formatUUID (so_credential_slot_id x)) slot,
               cr_slotAudienceText = map_option (\<lambda>x. formatUUID (so_gateway_audience_id x)) slot,
               cr_slotPrincipalText = map_option (\<lambda>x. formatUUID (so_core_principal_id x)) slot,
               cr_slotCreatedAt = scanTimestamptz (map_option so_created_at slot),
               cr_principalText = map_option (\<lambda>p. formatUUID (pp_core_principal_id p)) core,
               cr_principalAudienceText = map_option (\<lambda>p. formatUUID (pp_gateway_audience_id p)) core,
               cr_principalEnabled = map_option pp_enabled core,
               cr_principalIntakeAuthorized = map_option pp_gateway_intake_v1_authorized core,
               cr_principalCreatedAt = scanTimestamptz (map_option pp_created_at core),
               cr_principalStateChangedAt = scanTimestamptz (map_option pp_state_changed_at core)\<rparr>
         | _ \<Rightarrow> Inl scanError))"

definition credentialState :: "gostring \<Rightarrow> CredentialState result" where
  "credentialState v =
     (if v = str ''disabled'' then Inr CredentialDisabled
      else if v = str ''active'' then Inr CredentialActive
      else if v = str ''retiring'' then Inr CredentialRetiring
      else if v = str ''revoked'' then Inr CredentialRevoked
      else Inl (postgresErr ErrAuthenticationStateIntegrity))"

subsection \<open>Parsing the credential record\<close>

abbreviation authenticationIntegrity :: "'a result" where
  "authenticationIntegrity \<equiv> Inl (postgresErr ErrAuthenticationStateIntegrity)"

definition credentialOfRecord ::
  "credentialRecord \<Rightarrow> CredentialRecordID \<Rightarrow> CredentialID \<Rightarrow> GatewayAudienceID \<Rightarrow> Principal \<Rightarrow> CredentialSlot \<Rightarrow>
   CredentialSpec result" where
  "credentialOfRecord record recordID publicID credentialAudience core slot =
     (case (credentialState (cr_stateText record), optionalFiniteTime (cr_activatedAt record),
            optionalFiniteTime (cr_retirementStartedAt record), optionalFiniteTime (cr_retirementDeadline record),
            optionalFiniteTime (cr_revokedAt record)) of
        (Inr st, Inr activatedAt, Inr retirementStartedAt, Inr retirementDeadline, Inr revokedAt) \<Rightarrow>
          NewCredential
            \<lparr>cs_AudienceID = credentialAudience, cs_Principal = core, cs_Slot = slot, cs_RecordID = recordID,
             cs_PublicID = publicID, cs_State = st, cs_NotBefore = cr_notBefore record,
             cs_ExpiresAt = cr_expiresAt record, cs_ActivatedAt = activatedAt,
             cs_RetirementStartedAt = retirementStartedAt, cs_RetirementDeadline = retirementDeadline,
             cs_RevokedAt = revokedAt, cs_CreatedAt = cr_createdAt record, cs_StateChangedAt = cr_stateChangedAt record\<rparr>
      | _ \<Rightarrow> authenticationIntegrity)"

definition ownersOfRecord ::
  "credentialRecord \<Rightarrow> GatewayAudienceID \<Rightarrow> CorePrincipalID \<Rightarrow> bool \<Rightarrow> bool \<Rightarrow> GatewayAudienceID \<Rightarrow> CredentialSlotID \<Rightarrow>
   (Principal \<times> CredentialSlot) result" where
  "ownersOfRecord record principalAudience principalID enabled intakeAuthorized slotAudience slotID =
     (case NewPrincipal principalAudience principalID enabled intakeAuthorized
             (tz_Time (cr_principalCreatedAt record)) (tz_Time (cr_principalStateChangedAt record)) of
        Inl _ \<Rightarrow> authenticationIntegrity
      | Inr core \<Rightarrow>
          (case NewCredentialSlot slotAudience core slotID (tz_Time (cr_slotCreatedAt record)) of
             Inl _ \<Rightarrow> authenticationIntegrity
           | Inr slot \<Rightarrow> Inr (core, slot)))"

definition credentialRecord_credential ::
  "GatewayAudienceID \<Rightarrow> CredentialID \<Rightarrow> credentialRecord \<Rightarrow> CredentialSpec result" where
  "credentialRecord_credential expectedAudience expectedPublicID record =
     (case (cr_slotText record, cr_slotAudienceText record, cr_slotPrincipalText record, cr_principalText record,
            cr_principalAudienceText record, cr_principalEnabled record, cr_principalIntakeAuthorized record) of
        (Some slotText, Some slotAudienceText, Some slotPrincipalText, Some principalText, Some principalAudienceText,
         Some enabled, Some intakeAuthorized) \<Rightarrow>
          if cr_count record \<noteq> 1 \<or> \<not> cr_audienceMatches record \<or> \<not> finiteTimestamp (cr_slotCreatedAt record) \<or>
             \<not> finiteTimestamp (cr_principalCreatedAt record) \<or> \<not> finiteTimestamp (cr_principalStateChangedAt record)
          then authenticationIntegrity
          else (case (parseUUID (cr_recordText record) False, parseUUID (cr_publicText record) True,
                  parseUUID (cr_credentialSlotText record) False, parseUUID (cr_credentialAudienceText record) False,
                  parseUUID (cr_credentialPrincipalText record) False, parseUUID slotText False,
                  parseUUID slotAudienceText False, parseUUID slotPrincipalText False, parseUUID principalText False,
                  parseUUID principalAudienceText False) of
              (Inr recordID, Inr publicID, Inr credentialSlotID, Inr credentialAudience, Inr credentialPrincipalID,
               Inr slotID, Inr slotAudience, Inr slotPrincipalID, Inr principalID, Inr principalAudience) \<Rightarrow>
                if publicID \<noteq> expectedPublicID \<or> credentialAudience \<noteq> expectedAudience \<or> credentialSlotID \<noteq> slotID \<or>
                   credentialPrincipalID \<noteq> slotPrincipalID \<or> credentialPrincipalID \<noteq> principalID \<or>
                   slotAudience \<noteq> credentialAudience \<or> principalAudience \<noteq> credentialAudience
                then authenticationIntegrity
                else (case ownersOfRecord record principalAudience principalID enabled intakeAuthorized slotAudience slotID of
                        Inl e \<Rightarrow> Inl e
                      | Inr (core, slot) \<Rightarrow> credentialOfRecord record recordID publicID credentialAudience core slot)
            | _ \<Rightarrow> authenticationIntegrity)
      | _ \<Rightarrow> authenticationIntegrity)"

subsection \<open>The repository\<close>

record AuthenticationStateRepository =
  as_acquire :: "(auth_db session, bool \<times> go_error option) state option"

definition authentication_acquire :: "('db session, bool \<times> go_error option) state" where
  "authentication_acquire = do {
     (connection, err) \<leftarrow> pool_Acquire;
     case err of
       Some e \<Rightarrow> do {
         (if connection then connection_Destroy else State_Monad.return ());
         State_Monad.return (False, Some e) }
     | None \<Rightarrow>
         if \<not> connection
         then State_Monad.return (False, Some (postgresErr ErrAuthenticationStateUnavailable))
         else State_Monad.return (True, None) }"

definition NewAuthenticationStateRepository :: "bool \<Rightarrow> AuthenticationStateRepository" where
  "NewAuthenticationStateRepository nilPool =
     \<lparr>as_acquire = (if nilPool then None else Some authentication_acquire)\<rparr>"

text \<open>\<^verbatim>\<open>contextSentinel\<close> for a context that is not nil: the error decides first, then one evaluation of \<^verbatim>\<open>ctx.Err()\<close>
  for each of the two sentinels.\<close>

definition contextSentinel :: "go_error option \<Rightarrow> ('db session, go_error option) state" where
  "contextSentinel err =
     (if errors_Is_opt err (Context Canceled) then State_Monad.return (Some (contextErr Canceled))
      else do {
        first \<leftarrow> ctx_Err;
        if errors_Is_opt first (Context Canceled) then State_Monad.return (Some (contextErr Canceled))
        else if errors_Is_opt err (Context DeadlineExceeded) then State_Monad.return (Some (contextErr DeadlineExceeded))
        else do {
          second \<leftarrow> ctx_Err;
          State_Monad.return
            (if errors_Is_opt second (Context DeadlineExceeded) then Some (contextErr DeadlineExceeded) else None) } })"

definition repositoryReadError :: "go_error \<Rightarrow> string \<Rightarrow> ('db session, go_error) state" where
  "repositoryReadError err operation = do {
     cancellation \<leftarrow> contextSentinel (Some err);
     State_Monad.return (safeError
       (case cancellation of Some c \<Rightarrow> c | None \<Rightarrow> postgresErr ErrAuthenticationStateUnavailable) operation) }"

text \<open>\<^verbatim>\<open>readConnection\<close>: nil error with an acquired connection, or the error.\<close>

definition readConnection ::
  "AuthenticationStateRepository option \<Rightarrow> go_context \<Rightarrow> string \<Rightarrow> (auth_db session, go_error option) state" where
  "readConnection repository ctx operation =
     (case (case repository of None \<Rightarrow> None | Some r \<Rightarrow> as_acquire r) of
        None \<Rightarrow> State_Monad.return (Some (safeError (postgresErr ErrAuthenticationStateUnavailable) operation))
      | Some acquire \<Rightarrow>
          if ctx = NilContext
          then State_Monad.return (Some (safeError (postgresErr ErrAuthenticationStateUnavailable) operation))
          else do {
            cancellation \<leftarrow> contextSentinel None;
            case cancellation of
              Some c \<Rightarrow> State_Monad.return (Some (safeError c operation))
            | None \<Rightarrow> do {
                (connection, err) \<leftarrow> acquire;
                case err of
                  Some e \<Rightarrow> do {
                    (if connection then connection_Destroy else State_Monad.return ());
                    cancellation \<leftarrow> contextSentinel (Some e);
                    State_Monad.return (Some (safeError
                      (case cancellation of Some c \<Rightarrow> c | None \<Rightarrow> postgresErr ErrAuthenticationStateUnavailable) operation)) }
                | None \<Rightarrow>
                    if \<not> connection
                    then State_Monad.return (Some (safeError (postgresErr ErrAuthenticationStateUnavailable) operation))
                    else State_Monad.return None } })"

definition audienceOfRow :: "nat \<times> gostring \<times> bool \<Rightarrow> GatewayAudienceID result" where
  "audienceOfRow row =
     (case row of (rowCount, audienceText, singleton) \<Rightarrow>
        if rowCount \<noteq> 1 \<or> \<not> singleton then Inl (stateErr ErrAudienceUnavailable)
        else (case parseUUID audienceText False of
                Inl _ \<Rightarrow> Inl (stateErr ErrAudienceUnavailable)
              | Inr audience \<Rightarrow>
                  if audience = 0 \<or> formatUUID audience \<noteq> audienceText then Inl (stateErr ErrAudienceUnavailable)
                  else Inr audience))"

definition BoundAudience ::
  "(go_error \<Rightarrow> bool) \<Rightarrow> AuthenticationStateRepository option \<Rightarrow> go_context \<Rightarrow>
   (auth_db session, GatewayAudienceID result) state" where
  "BoundAudience timeout repository ctx = do {
     connectErr \<leftarrow> readConnection repository ctx ''security realm connection'';
     case connectErr of
       Some e \<Rightarrow> State_Monad.return (Inl e)
     | None \<Rightarrow> do {
         row \<leftarrow> tx_QueryRow selectBoundAudienceSQL;
         case row of
           None \<Rightarrow> do {
             finish_connection True;
             State_Monad.return (Inl (safeError (postgresErr ErrAuthenticationStateUnavailable) ''security realm query'')) }
         | Some (Inl err) \<Rightarrow> do {
             finish_connection (isConnectionInterruption timeout (Some err));
             failure \<leftarrow> repositoryReadError err ''security realm query'';
             State_Monad.return (Inl failure) }
         | Some (Inr scanned) \<Rightarrow> do {
             finish_connection False;
             State_Monad.return (audienceOfRow scanned) } } }"

definition credentialOfRow ::
  "GatewayAudienceID \<Rightarrow> CredentialID \<Rightarrow> credentialRecord \<Rightarrow> CredentialSpec result" where
  "credentialOfRow expectedAudience expectedPublicID record =
     (case credentialRecord_credential expectedAudience expectedPublicID record of
        Inl _ \<Rightarrow> Inl (safeError (postgresErr ErrAuthenticationStateIntegrity) ''authentication credential record'')
      | Inr credential \<Rightarrow> Inr credential)"

text \<open>From the scan of the credential row on.\<close>

definition credential_scanned ::
  "(go_error \<Rightarrow> bool) \<Rightarrow> GatewayAudienceID \<Rightarrow> CredentialID \<Rightarrow> credentialRecord result \<Rightarrow>
   (auth_db session, CredentialSpec result) state" where
  "credential_scanned timeout expectedAudience expectedPublicID scanned = do {
     let err = (case scanned of Inl e \<Rightarrow> Some e | Inr _ \<Rightarrow> None);
     cancellation \<leftarrow> contextSentinel err;
     case cancellation of
       Some c \<Rightarrow> do {
         finish_connection (isConnectionInterruption timeout err);
         State_Monad.return (Inl (safeError c ''authentication credential query'')) }
     | None \<Rightarrow>
         (case scanned of
            Inl e \<Rightarrow>
              if e = Sentinel (Pgx ErrNoRows)
              then do {
                finish_connection False;
                State_Monad.return (Inl (stateErr ErrCredentialNotFound)) }
              else do {
                finish_connection (isConnectionInterruption timeout (Some e));
                failure \<leftarrow> repositoryReadError e ''authentication credential query'';
                State_Monad.return (Inl failure) }
          | Inr record \<Rightarrow> do {
              finish_connection False;
              State_Monad.return (credentialOfRow expectedAudience expectedPublicID record) }) }"

definition repository_Credential ::
  "(go_error \<Rightarrow> bool) \<Rightarrow> AuthenticationStateRepository option \<Rightarrow> go_context \<Rightarrow> GatewayAudienceID \<Rightarrow> CredentialID \<Rightarrow>
   (auth_db session, CredentialSpec result) state" where
  "repository_Credential timeout repository ctx expectedAudience expectedPublicID =
     (if expectedAudience = 0 \<or> expectedPublicID = 0 \<or> parseUUID (formatUUID expectedPublicID) True \<noteq> Inr expectedPublicID
      then State_Monad.return (Inl (safeError (postgresErr ErrAuthenticationStateIntegrity) ''authentication credential input''))
      else do {
        connectErr \<leftarrow> readConnection repository ctx ''authentication credential connection'';
        case connectErr of
          Some e \<Rightarrow> State_Monad.return (Inl e)
        | None \<Rightarrow> do {
            row \<leftarrow> tx_QueryRow (selectCredentialSQL expectedAudience expectedPublicID);
            case row of
              None \<Rightarrow> do {
                finish_connection True;
                State_Monad.return
                  (Inl (safeError (postgresErr ErrAuthenticationStateUnavailable) ''authentication credential query'')) }
            | Some scan \<Rightarrow> credential_scanned timeout expectedAudience expectedPublicID
                (case scan of Inl e \<Rightarrow> Inl e | Inr r \<Rightarrow> scanCredential r) } })"

text \<open>The variables \<^verbatim>\<open>Principal\<close> scans into.\<close>

record principalScan =
  ps_count :: nat
  ps_principalText :: gostring
  ps_audienceText :: gostring
  ps_enabled :: bool
  ps_intakeAuthorized :: bool
  ps_createdAt :: time
  ps_stateChangedAt :: time

definition scanPrincipal :: "nat \<times> principal_row \<Rightarrow> principalScan result" where
  "scanPrincipal row =
     (case row of (rowCount, p) \<Rightarrow>
        (case (scanTime (pp_created_at p), scanTime (pp_state_changed_at p)) of
           (Some createdAt, Some stateChangedAt) \<Rightarrow>
             Inr \<lparr>ps_count = rowCount, ps_principalText = formatUUID (pp_core_principal_id p),
               ps_audienceText = formatUUID (pp_gateway_audience_id p), ps_enabled = pp_enabled p,
               ps_intakeAuthorized = pp_gateway_intake_v1_authorized p, ps_createdAt = createdAt,
               ps_stateChangedAt = stateChangedAt\<rparr>
         | _ \<Rightarrow> Inl scanError))"

definition principalOfScan :: "GatewayAudienceID \<Rightarrow> CorePrincipalID \<Rightarrow> principalScan \<Rightarrow> Principal result" where
  "principalOfScan expectedAudience expectedPrincipalID row =
     (let integrity = Inl (safeError (postgresErr ErrAuthenticationStateIntegrity) ''core principal record'') in
      case (parseUUID (ps_principalText row) False, parseUUID (ps_audienceText row) False) of
        (Inr principalID, Inr audience) \<Rightarrow>
          if ps_count row \<noteq> 1 \<or> principalID \<noteq> expectedPrincipalID \<or> audience \<noteq> expectedAudience then integrity
          else (case NewPrincipal audience principalID (ps_enabled row) (ps_intakeAuthorized row) (ps_createdAt row)
                       (ps_stateChangedAt row) of
                  Inl _ \<Rightarrow> integrity
                | Inr core \<Rightarrow> Inr core)
      | _ \<Rightarrow> integrity)"

definition principal_failed ::
  "(go_error \<Rightarrow> bool) \<Rightarrow> go_error \<Rightarrow> (auth_db session, Principal result) state" where
  "principal_failed timeout err = do {
     cancellation \<leftarrow> contextSentinel (Some err);
     case cancellation of
       Some c \<Rightarrow> do {
         finish_connection (isConnectionInterruption timeout (Some err));
         State_Monad.return (Inl (safeError c ''core principal query'')) }
     | None \<Rightarrow> do {
         finish_connection (isConnectionInterruption timeout (Some err));
         if err = Sentinel (Pgx ErrNoRows)
         then State_Monad.return (Inl (safeError (postgresErr ErrAuthenticationStateIntegrity) ''core principal record''))
         else do {
           failure \<leftarrow> repositoryReadError err ''core principal query'';
           State_Monad.return (Inl failure) } } }"

definition repository_Principal ::
  "(go_error \<Rightarrow> bool) \<Rightarrow> AuthenticationStateRepository option \<Rightarrow> go_context \<Rightarrow> GatewayAudienceID \<Rightarrow> CorePrincipalID \<Rightarrow>
   (auth_db session, Principal result) state" where
  "repository_Principal timeout repository ctx expectedAudience expectedPrincipalID =
     (if expectedAudience = 0 \<or> expectedPrincipalID = 0
      then State_Monad.return (Inl (safeError (postgresErr ErrAuthenticationStateIntegrity) ''core principal input''))
      else do {
        connectErr \<leftarrow> readConnection repository ctx ''core principal connection'';
        case connectErr of
          Some e \<Rightarrow> State_Monad.return (Inl e)
        | None \<Rightarrow> do {
            row \<leftarrow> tx_QueryRow (selectPrincipalSQL expectedAudience expectedPrincipalID);
            case row of
              None \<Rightarrow> do {
                finish_connection True;
                State_Monad.return (Inl (safeError (postgresErr ErrAuthenticationStateUnavailable) ''core principal query'')) }
            | Some scan \<Rightarrow>
                (case (case scan of Inl e \<Rightarrow> Inl e | Inr r \<Rightarrow> scanPrincipal r) of
                   Inl err \<Rightarrow> principal_failed timeout err
                 | Inr scanned \<Rightarrow> do {
                     finish_connection False;
                     State_Monad.return (principalOfScan expectedAudience expectedPrincipalID scanned) }) } })"

subsection \<open>Reserving a nonce\<close>

datatype ReplayReservationDisposition = ReplayReserved | ReplayDuplicate | ReplayDispositionUndeclared

definition replayReservationLifetime :: duration where
  "replayReservationLifetime = 5 * Minute"

definition newReplayOutcomeUnknownError :: "go_error option \<Rightarrow> go_error" where
  "newReplayOutcomeUnknownError cancellation =
     ReplayOutcomeUnknownError
       (case cancellation of
          Some (Sentinel s) \<Rightarrow> if s = Context Canceled \<or> s = Context DeadlineExceeded then Some s else None
        | _ \<Rightarrow> None)"

definition reserve_failed ::
  "(go_error \<Rightarrow> bool) \<Rightarrow> go_error option \<Rightarrow> (auth_db session, ReplayReservationDisposition result) state" where
  "reserve_failed timeout err =
     (if err = Some (Sentinel (Pgx ErrNoRows))
      then do { connection_Release; State_Monad.return (Inr ReplayDuplicate) }
      else if (case err of None \<Rightarrow> False | Some e \<Rightarrow> singleCausePostgresError e)
      then do { connection_Release; State_Monad.return (Inl (stateErr ErrReplayUnavailable)) }
      else do {
        connection_Destroy;
        State_Monad.return (Inl (newReplayOutcomeUnknownError None)) })"

text \<open>From the scan of the returned row on: \<^verbatim>\<open>err == nil && inserted\<close>, the interruptions, then the other errors.\<close>

definition reserve_scanned ::
  "(go_error \<Rightarrow> bool) \<Rightarrow> bool result \<Rightarrow> (auth_db session, ReplayReservationDisposition result) state" where
  "reserve_scanned timeout scanned =
     (if scanned = Inr True then do { connection_Release; State_Monad.return (Inr ReplayReserved) }
      else do {
        let err = (case scanned of Inl e \<Rightarrow> Some e | Inr _ \<Rightarrow> None);
        interrupted \<leftarrow> (if isConnectionInterruption timeout err then State_Monad.return True
          else do { cancellation \<leftarrow> contextSentinel err; State_Monad.return (cancellation \<noteq> None) });
        if interrupted
        then do {
          connection_Destroy;
          cancellation \<leftarrow> contextSentinel err;
          State_Monad.return (Inl (newReplayOutcomeUnknownError cancellation)) }
        else reserve_failed timeout err })"

definition reserve_acquired ::
  "(go_error \<Rightarrow> bool) \<Rightarrow> CredentialRecordID \<Rightarrow> ReplayNonce \<Rightarrow> time \<Rightarrow> time \<Rightarrow>
   (auth_db session, ReplayReservationDisposition result) state" where
  "reserve_acquired timeout recordID nonce now expiresAt = do {
     row \<leftarrow> conn_QueryRow_returning (insertReplayReservationSQL recordID (be_bytes 16 nonce) now expiresAt);
     case row of
       None \<Rightarrow> do {
         connection_Destroy;
         State_Monad.return (Inl (newReplayOutcomeUnknownError None)) }
     | Some scanned \<Rightarrow> reserve_scanned timeout scanned }"

definition reserve_connect ::
  "(go_error \<Rightarrow> bool) \<Rightarrow> (auth_db session, bool \<times> go_error option) state \<Rightarrow> CredentialRecordID \<Rightarrow> ReplayNonce \<Rightarrow> time \<Rightarrow>
   time \<Rightarrow> (auth_db session, ReplayReservationDisposition result) state" where
  "reserve_connect timeout acquire recordID nonce now expiresAt = do {
     (connection, err) \<leftarrow> acquire;
     case err of
       Some e \<Rightarrow> do {
         (if connection then connection_Destroy else State_Monad.return ());
         cancellation \<leftarrow> contextSentinel (Some e);
         State_Monad.return (Inl (case cancellation of
             Some c \<Rightarrow> safeError c ''replay reservation connection''
           | None \<Rightarrow> stateErr ErrReplayUnavailable)) }
     | None \<Rightarrow>
         if \<not> connection then State_Monad.return (Inl (stateErr ErrReplayUnavailable))
         else reserve_acquired timeout recordID nonce now expiresAt }"

definition repository_Reserve ::
  "(go_error \<Rightarrow> bool) \<Rightarrow> AuthenticationStateRepository option \<Rightarrow> go_context \<Rightarrow> CredentialRecordID \<Rightarrow> ReplayNonce \<Rightarrow> time \<Rightarrow>
   (auth_db session, ReplayReservationDisposition result) state" where
  "repository_Reserve timeout repository ctx recordID nonce now =
     (case (case repository of None \<Rightarrow> None | Some r \<Rightarrow> as_acquire r) of
        None \<Rightarrow> State_Monad.return (Inl (stateErr ErrReplayUnavailable))
      | Some acquire \<Rightarrow>
          if ctx = NilContext \<or> recordID = 0 \<or> IsZero now then State_Monad.return (Inl (stateErr ErrReplayUnavailable))
          else do {
            cancellation \<leftarrow> contextSentinel None;
            case cancellation of
              Some c \<Rightarrow> State_Monad.return (Inl (safeError c ''replay reservation canceled''))
            | None \<Rightarrow>
                (let expiresAt = Add now replayReservationLifetime in
                 if \<not> After expiresAt now then State_Monad.return (Inl (stateErr ErrReplayUnavailable))
                 else reserve_connect timeout acquire recordID nonce now expiresAt) })"

subsection \<open>What the reads return\<close>

text \<open>A call that leaves the tables alone, settles its connection, and returns values that satisfy \<open>P\<close>.\<close>

definition readPost :: "'db session \<Rightarrow> ('a \<Rightarrow> bool) \<Rightarrow> 'a result \<Rightarrow> 'db session \<Rightarrow> bool" where
  "readPost s P r s' =
     (s_db s' = s_db s \<and> s_tx s' = s_tx s \<and> set (s_script s') \<subseteq> set (s_script s) \<and>
      connectionSettled (s_log s) (s_log s') \<and> (\<forall>v. r = Inr v \<longrightarrow> P v))"

lemma contextSentinel_frame:
  assumes "\<And>c s'. same_data s s' \<Longrightarrow> (\<And>k. c = Some k \<Longrightarrow> k \<in> {contextErr Canceled, contextErr DeadlineExceeded}) \<Longrightarrow> Q c s'"
  shows "after (contextSentinel err) s Q"
  unfolding contextSentinel_def
  by (intro after_intro ctx_Err_after; rule assms; auto intro: same_data_trans split: if_splits)

lemma authentication_acquire_after:
  assumes "\<And>c e s'. moved s (s_db s) (s_tx s) (if c then [Acquired] else []) s' \<or>
      \<not> c \<and> moved s (s_db s) (s_tx s) [Acquired, Destroyed] s' \<Longrightarrow> (c \<longleftrightarrow> e = None) \<Longrightarrow> Q (c, e) s'"
  shows "after authentication_acquire s Q"
  unfolding authentication_acquire_def
  by (intro after_intro pool_Acquire_after connection_end_after; rule assms;
      auto simp: session_frame split: if_splits)

definition connected :: "'db session \<Rightarrow> 'db session \<Rightarrow> bool" where
  "connected s s' = moved s (s_db s) (s_tx s) [Acquired] s'"

text \<open>The acquisition of a repository over a pool.\<close>

definition repositoryAcquire :: "AuthenticationStateRepository option \<Rightarrow> (auth_db session, bool \<times> go_error option) state option" where
  "repositoryAcquire repository = (case repository of None \<Rightarrow> None | Some r \<Rightarrow> as_acquire r)"

lemma repositoryAcquire_pool:
  "repositoryAcquire (Some (NewAuthenticationStateRepository nilPool)) =
     (if nilPool then None else Some authentication_acquire)"
  by (simp add: repositoryAcquire_def NewAuthenticationStateRepository_def)

lemma readConnection_after:
  assumes "repository = Some (NewAuthenticationStateRepository nilPool)"
    "\<And>e s'. readPost s (\<lambda>_. False) (Inl e :: unit result) s' \<Longrightarrow> Q (Some e) s'"
    "\<And>s'. connected s s' \<Longrightarrow> Q None s'"
  shows "after (readConnection repository ctx operation) s Q"
proof -
  have stay: "Q (Some e) s'" if "same_data s s' \<or> (\<exists>s1. moved s (s_db s) (s_tx s) [Acquired, Destroyed] s1 \<and> same_data s1 s') " for e s'
    using that by (intro assms(2)) (auto simp: readPost_def session_frame connectionSettled_def)
  show ?thesis
  proof (cases nilPool)
    case True
    then show ?thesis
      unfolding readConnection_def repositoryAcquire_def [symmetric] assms(1) repositoryAcquire_pool
      by (simp add: after_simps stay)
  next
    case False
    then have acquire: "repositoryAcquire repository = Some authentication_acquire" by (simp add: assms(1) repositoryAcquire_pool)
    show ?thesis
      unfolding readConnection_def repositoryAcquire_def [symmetric] acquire option.case
      by (intro after_intro contextSentinel_frame authentication_acquire_after connection_end_after;
          (rule stay | rule assms(3)); auto simp: session_frame connected_def split: if_splits; blast)
  qed
qed

end
