(* ===== verification/Authentication_Store.thy ===== *)
theory Authentication_Store
  imports Authentication_State
begin

section \<open>What the authentication repository guarantees\<close>

text \<open>
  The reads and the reservation of \<^verbatim>\<open>internal/postgres/authentication_state.go\<close> for every behaviour of the driver and
  of the context: a read that succeeds returns what the tables hold, a reservation that succeeds stored a nonce that
  was not stored before, and no failure is mistaken for either.
\<close>

subsection \<open>Lookups in the tables\<close>

text \<open>What each read returns when the driver answers.\<close>

definition audienceLookup :: "auth_db \<Rightarrow> GatewayAudienceID result" where
  "audienceLookup db =
     (case selectBoundAudienceSQL db of
        None \<Rightarrow> Inl (safeError (postgresErr ErrAuthenticationStateUnavailable) ''security realm query'')
      | Some row \<Rightarrow> audienceOfRow row)"

definition credentialLookup :: "auth_db \<Rightarrow> GatewayAudienceID \<Rightarrow> CredentialID \<Rightarrow> CredentialSpec result" where
  "credentialLookup db audience publicID =
     (case selectCredentialSQL audience publicID db of
        None \<Rightarrow> Inl (stateErr ErrCredentialNotFound)
      | Some row \<Rightarrow>
          (case scanCredential row of
             Inl _ \<Rightarrow> Inl (safeError (postgresErr ErrAuthenticationStateUnavailable) ''authentication credential query'')
           | Inr record \<Rightarrow> credentialOfRow audience publicID record))"

definition principalLookup :: "auth_db \<Rightarrow> GatewayAudienceID \<Rightarrow> CorePrincipalID \<Rightarrow> Principal result" where
  "principalLookup db audience principalID =
     (case selectPrincipalSQL audience principalID db of
        None \<Rightarrow> Inl (safeError (postgresErr ErrAuthenticationStateIntegrity) ''core principal record'')
      | Some row \<Rightarrow>
          (case scanPrincipal row of
             Inl _ \<Rightarrow> Inl (safeError (postgresErr ErrAuthenticationStateUnavailable) ''core principal query'')
           | Inr scanned \<Rightarrow> principalOfScan audience principalID scanned))"

lemma finish_connection_after:
  "(\<And>ev s'. moved s (s_db s) (s_tx s) [ev] s' \<Longrightarrow> ev \<in> {Released, Destroyed} \<Longrightarrow> Q () s') \<Longrightarrow> after (finish_connection destroy) s Q"
  unfolding finish_connection_def by (intro after_intro connection_end_after) auto

lemma repositoryReadError_after:
  "(\<And>e s'. same_data s s' \<Longrightarrow> Q e s') \<Longrightarrow> after (repositoryReadError err operation) s Q"
  unfolding repositoryReadError_def by (intro after_intro contextSentinel_frame) auto

lemmas read_after = tx_QueryRow_after finish_connection_after repositoryReadError_after contextSentinel_frame

lemma BoundAudience_after:
  assumes "repository = Some (NewAuthenticationStateRepository nilPool)" "s_tx s = None"
  shows "after (BoundAudience timeout repository ctx) s (readPost s (\<lambda>a. audienceLookup (s_db s) = Inr a))"
  unfolding BoundAudience_def
  by (intro after_intro readConnection_after [OF assms(1)] read_after;
      use assms(2) in \<open>auto simp: readPost_def connected_def session_frame connectionSettled_def audienceLookup_def\<close>)

lemma credential_scanned_after:
  assumes "connected s0 s" "\<And>record. scanned = Inr record \<Longrightarrow> P (credentialOfRow audience publicID record)"
  shows "after (credential_scanned timeout audience publicID scanned) s (readPost s0 (\<lambda>c. P (Inr c)))"
  unfolding credential_scanned_def
  by (intro after_intro read_after;
      use assms in \<open>auto simp: readPost_def connected_def session_frame connectionSettled_def\<close>)

lemma Credential_after:
  assumes "repository = Some (NewAuthenticationStateRepository nilPool)" "s_tx s = None"
  shows "after (repository_Credential timeout repository ctx audience publicID) s
    (readPost s (\<lambda>c. audience \<noteq> 0 \<and> publicID \<noteq> 0 \<and> credentialLookup (s_db s) audience publicID = Inr c))"
  unfolding repository_Credential_def
  by (intro after_intro readConnection_after [OF assms(1)] read_after credential_scanned_after)
    (use assms(2) in \<open>auto simp: readPost_def connected_def session_frame connectionSettled_def credentialLookup_def split: sum.splits\<close>)

lemma Principal_after:
  assumes "repository = Some (NewAuthenticationStateRepository nilPool)" "s_tx s = None"
  shows "after (repository_Principal timeout repository ctx audience principalID) s
    (readPost s (\<lambda>p. principalLookup (s_db s) audience principalID = Inr p))"
  unfolding repository_Principal_def principal_failed_def
  by (intro after_intro readConnection_after [OF assms(1)] read_after)
    (use assms(2) in \<open>auto simp: readPost_def connected_def session_frame connectionSettled_def principalLookup_def split: sum.splits\<close>)

subsection \<open>What a value read says of the tables\<close>

text \<open>The row of a credential and of its principal, field by field.\<close>

definition storedCredential :: "auth_db \<Rightarrow> CredentialSpec \<Rightarrow> bool" where
  "storedCredential db c =
     (\<exists>row\<in>set (au_credentials db).
        cd_credential_id row = cs_PublicID c \<and> cd_credential_record_id row = cs_RecordID c \<and>
        cd_gateway_audience_id row = cs_AudienceID c \<and> cd_core_principal_id row = pr_id (cs_Principal c) \<and>
        cd_credential_slot_id row = sl_id (cs_Slot c) \<and>
        credentialState (cd_credential_state row) = Inr (cs_State c) \<and>
        scanTime (cd_not_before row) = Some (cs_NotBefore c) \<and> scanTime (cd_expires_at row) = Some (cs_ExpiresAt c) \<and>
        optionalFiniteTime (scanTimestamptz (cd_activated_at row)) = Inr (cs_ActivatedAt c) \<and>
        optionalFiniteTime (scanTimestamptz (cd_retirement_overlap_deadline row)) = Inr (cs_RetirementDeadline c))"

definition storedPrincipal :: "auth_db \<Rightarrow> Principal \<Rightarrow> bool" where
  "storedPrincipal db p =
     (\<exists>row\<in>set (au_principals db).
        pp_core_principal_id row = pr_id p \<and> pp_gateway_audience_id row = pr_audienceID p \<and>
        pp_enabled row = pr_enabled p \<and> pp_gateway_intake_v1_authorized row = pr_intakeAuthorized p)"

lemma parse_text: "parseUUID (formatUUID x) r = Inr y \<Longrightarrow> y = x \<and> x \<noteq> 0"
  using parseUUID_success(1,2) [of "formatUUID x" r y] by (metis formatUUID_inject)

lemma audienceLookup_iff:
  "audienceLookup db = Inr a \<longleftrightarrow> (\<exists>r. au_realm db = [r] \<and> rm_singleton_key r \<and> rm_gateway_audience_id r = a \<and> a \<noteq> 0)"
proof -
  show ?thesis
    by (cases "au_realm db"; cases "tl (au_realm db)"; cases "rm_gateway_audience_id (hd (au_realm db)) = 0")
      (auto simp: audienceLookup_def selectBoundAudienceSQL_def audienceOfRow_def parseUUID_formatUUID
        dest!: parse_text split: sum.splits if_splits)
qed

lemma selectCredential_row:
  assumes "selectCredentialSQL audience publicID db = Some (n, m, c, slot, core)"
  shows "c \<in> set (au_credentials db) \<and> cd_credential_id c = publicID"
proof -
  let ?rows = "concat (map (\<lambda>c. concat (map (\<lambda>slot. map (\<lambda>core. (c, slot, core))
          (leftJoin (\<lambda>p. pp_core_principal_id p = cd_core_principal_id c) (au_principals db)))
        (leftJoin (\<lambda>x. so_credential_slot_id x = cd_credential_slot_id c) (au_slots db))))
      (filter (\<lambda>c. cd_credential_id c = publicID) (au_credentials db)))"
  from assms obtain rest where rows: "?rows = (c, slot, core) # rest"
    unfolding selectCredentialSQL_def Let_def by (cases ?rows) auto
  have "(c, slot, core) \<in> set ?rows" unfolding rows by simp
  then show ?thesis by auto
qed

lemma credentialOfRecord_fields:
  assumes "credentialOfRecord record recordID publicID audience core slot = Inr c"
  shows "cs_AudienceID c = audience \<and> cs_Principal c = core \<and> cs_Slot c = slot \<and> cs_RecordID c = recordID \<and>
    cs_PublicID c = publicID \<and> credentialState (cr_stateText record) = Inr (cs_State c) \<and>
    cs_NotBefore c = cr_notBefore record \<and> cs_ExpiresAt c = cr_expiresAt record \<and>
    optionalFiniteTime (cr_activatedAt record) = Inr (cs_ActivatedAt c) \<and>
    optionalFiniteTime (cr_retirementDeadline record) = Inr (cs_RetirementDeadline c)"
  using assms by (auto simp: credentialOfRecord_def NewCredential_def split: sum.splits if_splits option.splits)

lemma ownersOfRecord_fields:
  assumes "ownersOfRecord record pa p en au sa sid = Inr (core, slot)"
  shows "pr_id core = p \<and> pr_audienceID core = pa \<and> sl_id slot = sid \<and> sid \<noteq> 0"
  using assms by (auto simp: ownersOfRecord_def NewPrincipal_def NewCredentialSlot_def split: sum.splits if_splits)

lemma credentialLookup_stored:
  assumes "credentialLookup db audience publicID = Inr c"
  shows "storedCredential db c" "cs_AudienceID c = audience" "cs_PublicID c = publicID" "cs_RecordID c \<noteq> 0"
    "pr_id (cs_Principal c) \<noteq> 0" "sl_id (cs_Slot c) \<noteq> 0"
proof -
  obtain n m r slot core rec where row: "selectCredentialSQL audience publicID db = Some (n, m, r, slot, core)"
    and scan: "scanCredential (n, m, r, slot, core) = Inr rec"
    and parsed: "credentialRecord_credential audience publicID rec = Inr c"
    using assms by (auto simp: credentialLookup_def credentialOfRow_def split: option.splits sum.splits)
  have texts: "cr_recordText rec = formatUUID (cd_credential_record_id r)" "cr_publicText rec = formatUUID (cd_credential_id r)"
      "cr_credentialSlotText rec = formatUUID (cd_credential_slot_id r)"
      "cr_credentialAudienceText rec = formatUUID (cd_gateway_audience_id r)"
      "cr_credentialPrincipalText rec = formatUUID (cd_core_principal_id r)" "cr_stateText rec = cd_credential_state r"
    and times: "scanTime (cd_not_before r) = Some (cr_notBefore rec)" "scanTime (cd_expires_at r) = Some (cr_expiresAt rec)"
      "cr_activatedAt rec = scanTimestamptz (cd_activated_at r)"
      "cr_retirementDeadline rec = scanTimestamptz (cd_retirement_overlap_deadline r)"
    using scan by (auto simp: scanCredential_def split: option.splits)
  obtain sl pl en au where
    ids: "parseUUID (cr_recordText rec) False = Inr (cd_credential_record_id r)"
      "parseUUID (cr_credentialPrincipalText rec) False = Inr (cd_core_principal_id r)"
      "cd_gateway_audience_id r = audience"
    and owners: "ownersOfRecord rec audience (cd_core_principal_id r) en au audience (cd_credential_slot_id r) = Inr (pl, sl)"
    and built: "credentialOfRecord rec (cd_credential_record_id r) publicID audience pl sl = Inr c"
    using parsed selectCredential_row [OF row] unfolding credentialRecord_credential_def
    by (auto simp: texts split: option.splits if_splits sum.splits prod.splits dest!: parse_text)
  show "storedCredential db c" "cs_AudienceID c = audience" "cs_PublicID c = publicID" "cs_RecordID c \<noteq> 0"
    "pr_id (cs_Principal c) \<noteq> 0" "sl_id (cs_Slot c) \<noteq> 0"
    using credentialOfRecord_fields [OF built] ownersOfRecord_fields [OF owners] ids selectCredential_row [OF row]
    by (auto simp: storedCredential_def texts times dest!: parse_text)
qed

lemma principalLookup_stored:
  assumes "principalLookup db audience principalID = Inr p"
  shows "storedPrincipal db p" "pr_id p = principalID" "pr_audienceID p = audience"
proof -
  obtain n row q where row: "selectPrincipalSQL audience principalID db = Some (n, row)"
    and scan: "scanPrincipal (n, row) = Inr q" and parsed: "principalOfScan audience principalID q = Inr p"
    using assms by (auto simp: principalLookup_def split: option.splits sum.splits)
  let ?rows = "filter (\<lambda>p. pp_gateway_audience_id p = audience \<and> pp_core_principal_id p = principalID) (au_principals db)"
  from row obtain rest where "?rows = row # rest"
    unfolding selectPrincipalSQL_def Let_def by (cases ?rows) auto
  then have "row \<in> set ?rows" by simp
  then show "storedPrincipal db p" "pr_id p = principalID" "pr_audienceID p = audience"
    using scan parsed
    by (auto simp: scanPrincipal_def principalOfScan_def NewPrincipal_def storedPrincipal_def Let_def dest!: parse_text
        split: option.splits sum.splits if_splits)
qed

subsection \<open>Reservations\<close>

definition reserved :: "auth_db \<Rightarrow> CredentialRecordID \<Rightarrow> ReplayNonce \<Rightarrow> bool" where
  "reserved db recordID nonce =
     (\<exists>r\<in>set (au_replay db). rr_credential_record_id r = recordID \<and> rr_nonce_bytes r = be_bytes 16 nonce)"

definition reservationRow :: "CredentialRecordID \<Rightarrow> ReplayNonce \<Rightarrow> time \<Rightarrow> replay_row" where
  "reservationRow recordID nonce now =
     \<lparr>rr_credential_record_id = recordID, rr_nonce_bytes = be_bytes 16 nonce,
      rr_reserved_at = timestampArgument now, rr_expires_at = timestampArgument (Add now replayReservationLifetime)\<rparr>"

definition addReservation :: "CredentialRecordID \<Rightarrow> ReplayNonce \<Rightarrow> time \<Rightarrow> auth_db \<Rightarrow> auth_db" where
  "addReservation recordID nonce now db = db\<lparr>au_replay := au_replay db @ [reservationRow recordID nonce now]\<rparr>"

text \<open>The documented meaning of the driver's errors: \<^verbatim>\<open>pgx.ErrNoRows\<close> is not the error of a statement that took effect,
  and neither is an error of the server, unless it tells of a connection that is going away.\<close>

definition replay_honest :: "(go_error \<Rightarrow> bool) \<Rightarrow> 'db session \<Rightarrow> bool" where
  "replay_honest timeout s =
     (no_rows_honest s \<and>
      (\<forall>e. Lost e \<in> set (s_script s) \<longrightarrow> singleCausePostgresError e \<longrightarrow> isConnectionInterruption timeout (Some e)))"

definition reservePost ::
  "CredentialRecordID \<Rightarrow> ReplayNonce \<Rightarrow> time \<Rightarrow> auth_db session \<Rightarrow> ReplayReservationDisposition result \<Rightarrow> auth_db session \<Rightarrow> bool" where
  "reservePost recordID nonce now s r s' =
     (s_tx s' = s_tx s \<and> set (s_script s') \<subseteq> set (s_script s) \<and> connectionSettled (s_log s) (s_log s') \<and>
      (case r of
         Inr ReplayReserved \<Rightarrow> \<not> reserved (s_db s) recordID nonce \<and> s_db s' = addReservation recordID nonce now (s_db s)
       | Inr d \<Rightarrow> d = ReplayDuplicate \<and> s_db s' = s_db s
       | Inl e \<Rightarrow> s_db s' = s_db s \<or>
           (\<exists>c. e = ReplayOutcomeUnknownError c) \<and> \<not> reserved (s_db s) recordID nonce \<and>
           s_db s' = addReservation recordID nonce now (s_db s)))"

lemma conn_QueryRow_returning_after:
  assumes "\<And>r d s'. moved s d (s_tx s) [] s' \<Longrightarrow>
    (\<And>row. r = Some (Inr row) \<Longrightarrow> statement (s_db s) = Inr (Some row, d)) \<Longrightarrow>
    d = s_db s \<or> (\<exists>row. statement (s_db s) = Inr (row, d) \<and> (\<forall>e. r = Some (Inl e) \<longrightarrow> row = None \<or> Lost e \<in> set (s_script s))) \<Longrightarrow>
    Q r s'"
  shows "after (conn_QueryRow_returning statement) s Q"
  unfolding conn_QueryRow_returning_def after_bind after_get
proof (rule next_answer_after)
  fix a s' assume same: "same_data s s'" and a: "a \<in> insert Answered (set (s_script s))"
  have stay: "Q r s'" if "\<nexists>row. r = Some (Inr row)" for r
    using same that by (intro assms [of "s_db s"]) (auto simp: session_frame)
  have "Q (Some (case a of Lost e \<Rightarrow> Inl e | _ \<Rightarrow> (case row of None \<Rightarrow> Inl (Sentinel (Pgx ErrNoRows)) | Some r \<Rightarrow> Inr r)))
      (s'\<lparr>s_db := d\<rparr>)"
    if "statement (s_db s') = Inr (row, d)" for row d
    using same a that
    by (intro assms [of d]) (auto simp: session_frame split: driver_answer.splits option.splits)
  with stay show "after (case a of
       Refused e \<Rightarrow> State_Monad.return (Some (Inl e))
     | NilObject \<Rightarrow> State_Monad.return None
     | _ \<Rightarrow>
        (case statement (s_db s') of
           Inl e \<Rightarrow> State_Monad.return (Some (Inl e))
         | Inr (row, d) \<Rightarrow> do {
             State_Monad.set (s'\<lparr>s_db := d\<rparr>);
             State_Monad.return (Some (case a of
                 Lost e \<Rightarrow> Inl e
               | _ \<Rightarrow> (case row of None \<Rightarrow> Inl (Sentinel (Pgx ErrNoRows)) | Some r \<Rightarrow> Inr r))) })) s' Q"
    by (auto simp: after_simps split: driver_answer.splits sum.splits prod.splits)
qed

lemma insertReplay_cases:
  assumes "insertReplayReservationSQL recordID (be_bytes 16 nonce) now (Add now replayReservationLifetime) db = Inr (row, d)"
  shows "row = None \<and> d = db \<and> reserved db recordID nonce \<or>
    row = Some True \<and> \<not> reserved db recordID nonce \<and> d = addReservation recordID nonce now db"
  using assms
  by (auto simp: insertReplayReservationSQL_def Let_def reserved_def addReservation_def reservationRow_def
      split: list.splits if_splits)

text \<open>From the answer of the insert on: \<open>d\<close> is the database it left.\<close>

lemma reserve_scanned_after:
  assumes "moved s0 d (s_tx s0) [Acquired] s" "replay_honest timeout s0"
    "\<And>row. scanned = Inr row \<Longrightarrow> row \<and> \<not> reserved (s_db s0) recordID nonce \<and> d = addReservation recordID nonce now (s_db s0)"
    "d = s_db s0 \<or> \<not> reserved (s_db s0) recordID nonce \<and> d = addReservation recordID nonce now (s_db s0) \<and>
       (\<forall>e. scanned = Inl e \<longrightarrow> Lost e \<in> set (s_script s0))"
  shows "after (reserve_scanned timeout scanned) s (reservePost recordID nonce now s0)"
proof (cases scanned)
  case (Inr row)
  then show ?thesis
    using assms(1,3) unfolding reserve_scanned_def
    by (intro after_intro connection_end_after) (auto simp: reservePost_def session_frame connectionSettled_def)
next
  case (Inl e)
  have unknown: "s_db s0 = d \<or> \<not> reserved (s_db s0) recordID nonce \<and> d = addReservation recordID nonce now (s_db s0)"
    using assms(4) by auto
  have definite: "d = s_db s0" if "e = Sentinel (Pgx ErrNoRows) \<or> singleCausePostgresError e \<and> \<not> isConnectionInterruption timeout (Some e)"
    using that assms(2,4) by (auto simp: Inl replay_honest_def no_rows_honest_def)
  show ?thesis
    unfolding Inl reserve_scanned_def reserve_failed_def newReplayOutcomeUnknownError_def
    by (intro after_intro connection_end_after contextSentinel_frame;
        use assms(1) unknown definite in \<open>auto simp: reservePost_def session_frame connectionSettled_def; blast\<close>)
qed

lemma reserve_acquired_after:
  assumes "connected s0 s" "replay_honest timeout s0"
  shows "after (reserve_acquired timeout recordID nonce now (Add now replayReservationLifetime)) s
    (reservePost recordID nonce now s0)"
proof -
  let ?insert = "insertReplayReservationSQL recordID (be_bytes 16 nonce) now (Add now replayReservationLifetime)"
  have db: "s_db s = s_db s0" "s_tx s = s_tx s0" using assms(1) by (simp_all add: connected_def moved_def)
  show ?thesis
    unfolding reserve_acquired_def after_bind
  proof (rule conn_QueryRow_returning_after)
    fix r d s1 assume m: "moved s d (s_tx s) [] s1"
      and got: "\<And>row. r = Some (Inr row) \<Longrightarrow> ?insert (s_db s) = Inr (Some row, d)"
      and eff: "d = s_db s \<or> (\<exists>row. ?insert (s_db s) = Inr (row, d) \<and> (\<forall>e. r = Some (Inl e) \<longrightarrow> row = None \<or> Lost e \<in> set (s_script s)))"
    have m1: "moved s0 d (s_tx s0) [Acquired] s1" using m assms(1) by (auto simp: connected_def session_frame)
    have eff': "d = s_db s0 \<or> \<not> reserved (s_db s0) recordID nonce \<and> d = addReservation recordID nonce now (s_db s0) \<and>
       (\<forall>e. r = Some (Inl e) \<longrightarrow> Lost e \<in> set (s_script s0))"
      using eff assms(1) by (auto simp: db connected_def moved_def dest!: insertReplay_cases)
    show "after (case r of
         None \<Rightarrow> do { connection_Destroy; State_Monad.return (Inl (newReplayOutcomeUnknownError None)) }
       | Some scanned \<Rightarrow> reserve_scanned timeout scanned) s1 (reservePost recordID nonce now s0)"
    proof (cases r)
      case None
      then show ?thesis
        using m1 eff' unfolding None option.case newReplayOutcomeUnknownError_def
        by (intro after_intro connection_end_after) (auto simp: reservePost_def session_frame connectionSettled_def)
    next
      case (Some scanned)
      show ?thesis
        unfolding Some option.case
        by (rule reserve_scanned_after [OF m1 assms(2)]) (use got eff' in \<open>auto simp: Some db dest!: insertReplay_cases\<close>)
    qed
  qed
qed

lemma Reserve_after:
  assumes "repository = Some (NewAuthenticationStateRepository nilPool)" "replay_honest timeout s"
  shows "after (repository_Reserve timeout repository ctx recordID nonce now) s (reservePost recordID nonce now s)"
proof (cases nilPool)
  case True
  then show ?thesis
    unfolding repository_Reserve_def repositoryAcquire_def [symmetric] assms(1) repositoryAcquire_pool
    by (simp add: after_simps reservePost_def connectionSettled_def)
next
  case False
  then have acquire: "repositoryAcquire repository = Some authentication_acquire" by (simp add: assms(1) repositoryAcquire_pool)
  show ?thesis
    unfolding repository_Reserve_def repositoryAcquire_def [symmetric] acquire option.case reserve_connect_def
    by (intro after_intro contextSentinel_frame authentication_acquire_after connection_end_after)
      (auto simp: reservePost_def session_frame connectionSettled_def connected_def intro!: reserve_acquired_after assms(2))
qed

subsection \<open>When nothing fails\<close>

definition connectionUsed :: "'db session \<Rightarrow> 'db session" where
  "connectionUsed s = s\<lparr>s_log := s_log s @ [Acquired, Released]\<rparr>"

lemma connectionUsed_fields [simp]:
  "s_db (connectionUsed s) = s_db s" "s_tx (connectionUsed s) = s_tx s" "calm (connectionUsed s) = calm s"
  by (simp_all add: connectionUsed_def)

lemma contextSentinel_calm: "calm s \<Longrightarrow> after (contextSentinel None) s Q = Q None s"
  by (simp add: contextSentinel_def after_simps calm_ctx_Err errors_Is_opt_def)

lemma contextSentinel_no_rows: "calm s \<Longrightarrow> after (contextSentinel (Some (Sentinel (Pgx ErrNoRows)))) s Q = Q None s"
  by (simp add: contextSentinel_def after_simps calm_ctx_Err errors_Is_opt_def)

lemma readConnection_calm:
  assumes "calm s" "ctx \<noteq> NilContext"
  shows "after (readConnection (Some (NewAuthenticationStateRepository False)) ctx operation) s Q =
    Q None (s\<lparr>s_log := s_log s @ [Acquired]\<rparr>)"
  using assms
  by (simp add: readConnection_def NewAuthenticationStateRepository_def authentication_acquire_def after_simps
      contextSentinel_calm calm_after)

lemmas calm_read = readConnection_calm contextSentinel_calm contextSentinel_no_rows calm_after finish_connection_def
  connection_Release_def record_event_def connectionUsed_def tx_view_def

lemma BoundAudience_calm:
  assumes "calm s" "s_tx s = None" "ctx \<noteq> NilContext"
  shows "after (BoundAudience timeout (Some (NewAuthenticationStateRepository False)) ctx) s Q =
    Q (audienceLookup (s_db s)) (connectionUsed s)"
  using assms
  by (simp add: BoundAudience_def after_simps calm_read audienceLookup_def selectBoundAudienceSQL_def)

lemma Credential_calm:
  assumes "calm s" "s_tx s = None" "ctx \<noteq> NilContext" "audience \<noteq> 0" "publicID \<noteq> 0" "versionFour publicID"
    "credentialLookup (s_db s) audience publicID = Inr c"
  shows "after (repository_Credential timeout (Some (NewAuthenticationStateRepository False)) ctx audience publicID) s Q =
    Q (Inr c) (connectionUsed s)"
proof -
  obtain row rec where "selectCredentialSQL audience publicID (s_db s) = Some row" "scanCredential row = Inr rec"
      "credentialOfRow audience publicID rec = Inr c"
    using assms(7) by (auto simp: credentialLookup_def split: option.splits sum.splits)
  moreover have "parseUUID (formatUUID publicID) True = Inr publicID"
    using assms(5,6) by (simp add: parseUUID_def formatUUID_layout hex_roundtrip of_be_bytes_be_bytes versionFour_def)
  ultimately show ?thesis
    using assms(1-5) by (simp add: repository_Credential_def credential_scanned_def after_simps calm_read)
qed

lemma Principal_calm:
  assumes "calm s" "s_tx s = None" "ctx \<noteq> NilContext" "audience \<noteq> 0" "principalID \<noteq> 0"
    "principalLookup (s_db s) audience principalID = Inr p"
  shows "after (repository_Principal timeout (Some (NewAuthenticationStateRepository False)) ctx audience principalID) s Q =
    Q (Inr p) (connectionUsed s)"
  using assms
  by (auto simp: repository_Principal_def principalLookup_def after_simps calm_read split: option.splits sum.splits)

lemma replayChecks_hold: "list_all snd (replayChecks (reservationRow recordID nonce now))"
proof -
  have "(now + 300000000000) div 1000 = now div 1000 + 300000000" by simp
  then show ?thesis
    by (simp add: replayChecks_def reservationRow_def timestampArgument_def Add_def replayReservationLifetime_def
        Minute_def Second_def)
qed

text \<open>A nonce is reserved by the first request that uses it and reported as a duplicate afterwards.\<close>

lemma Reserve_calm:
  assumes "calm s" "ctx \<noteq> NilContext" "recordID \<noteq> 0" "\<not> IsZero now"
    "\<exists>c\<in>set (au_credentials (s_db s)). cd_credential_record_id c = recordID"
    "\<not> timeout (Sentinel (Pgx ErrNoRows))"
  shows "after (repository_Reserve timeout (Some (NewAuthenticationStateRepository False)) ctx recordID nonce now) s Q =
    (if reserved (s_db s) recordID nonce then Q (Inr ReplayDuplicate) (connectionUsed s)
     else Q (Inr ReplayReserved) (connectionUsed (s\<lparr>s_db := addReservation recordID nonce now (s_db s)\<rparr>)))"
proof -
  let ?insert = "insertReplayReservationSQL recordID (be_bytes 16 nonce) now (Add now replayReservationLifetime)"
  have checks: "filter (\<lambda>(name, ok). \<not> ok) (replayChecks (reservationRow recordID nonce now)) = []"
    using replayChecks_hold [of recordID nonce now] by (fastforce simp: filter_empty_conv list_all_iff)
  have stmt: "?insert (s_db s) = (if reserved (s_db s) recordID nonce then Inr (None, s_db s)
      else Inr (Some True, addReservation recordID nonce now (s_db s)))"
    using assms(5) checks
    by (auto simp: insertReplayReservationSQL_def Let_def reserved_def addReservation_def reservationRow_def)
  have quiet: "\<not> isConnectionInterruption timeout (Some (Sentinel (Pgx ErrNoRows)))"
    using assms(6) by (simp add: isConnectionInterruption_def)
  have "After (Add now replayReservationLifetime) now"
    by (simp add: After_def Add_def replayReservationLifetime_def Minute_def Second_def)
  then show ?thesis
    using assms(1-4) quiet
    by (simp add: repository_Reserve_def reserve_connect_def reserve_acquired_def reserve_scanned_def reserve_failed_def
        conn_QueryRow_returning_def NewAuthenticationStateRepository_def authentication_acquire_def after_simps calm_read
        calm_answer stmt Let_def)
qed

end
