(* ===== verification/Authentication_Request.thy ===== *)
theory Authentication_Request
  imports Authentication_Store
begin

section \<open>The signed request\<close>

text \<open>
  \<^verbatim>\<open>internal/authentication/request.go\<close> and the parsing and signing half of \<^verbatim>\<open>internal/authentication/service.go\<close>:
  the request as the transport hands it over, its parsed form, the bytes that are signed and their keyed hash.
  The lemmas show that a parsed request is determined by the bytes it signs.
\<close>

subsection \<open>Strings and numbers\<close>

text \<open>The UTF-8 encodings of the runes of \<^verbatim>\<open>unicode.IsSpace\<close>. Such an encoding at either end of a string is what
  \<^verbatim>\<open>strings.TrimSpace\<close> removes, so a string differs from its trimmed form exactly when it has one.\<close>

definition spaceEncodings :: "byte list list" where
  "spaceEncodings =
     [[9], [10], [11], [12], [13], [32], [0xC2, 0x85], [0xC2, 0xA0], [0xE1, 0x9A, 0x80],
      [0xE2, 0x80, 0x80], [0xE2, 0x80, 0x81], [0xE2, 0x80, 0x82], [0xE2, 0x80, 0x83], [0xE2, 0x80, 0x84],
      [0xE2, 0x80, 0x85], [0xE2, 0x80, 0x86], [0xE2, 0x80, 0x87], [0xE2, 0x80, 0x88], [0xE2, 0x80, 0x89],
      [0xE2, 0x80, 0x8A], [0xE2, 0x80, 0xA8], [0xE2, 0x80, 0xA9], [0xE2, 0x80, 0xAF], [0xE2, 0x81, 0x9F],
      [0xE3, 0x80, 0x80]]"

definition changedByTrimSpace :: "gostring \<Rightarrow> bool" where
  "changedByTrimSpace v = list_ex (\<lambda>e. HasPrefix v e \<or> HasPrefix (rev v) (rev e)) spaceEncodings"

definition digit :: "byte \<Rightarrow> bool" where
  "digit b = (0x30 \<le> b \<and> b \<le> 0x39)"

fun decimal_value :: "gostring \<Rightarrow> nat \<Rightarrow> nat" where
  "decimal_value [] n = n"
| "decimal_value (b # bs) n = decimal_value bs (10 * n + unat (b - 0x30))"

text \<open>\<^verbatim>\<open>strconv.ParseUint(value, 10, 64)\<close> of a non-empty string of digits: \<open>None\<close> when the value is out of range.\<close>

definition ParseUint :: "gostring \<Rightarrow> 64 word option" where
  "ParseUint v = (let n = decimal_value v 0 in if n < 2 ^ 64 then Some (word_of_nat n) else None)"

fun strings_Join :: "gostring list \<Rightarrow> gostring \<Rightarrow> gostring" where
  "strings_Join [] separator = []"
| "strings_Join [v] separator = v"
| "strings_Join (v # vs) separator = v @ separator @ strings_Join vs separator"

subsection \<open>Requests\<close>

record Request =
  rq_method :: gostring
  rq_path :: gostring
  rq_deliveryIdentity :: gostring
  rq_authorizationValues :: "gostring list"
  rq_timestampValues :: "gostring list"
  rq_nonceValues :: "gostring list"
  rq_rawBody :: "byte list"

definition NewRequest ::
  "gostring \<Rightarrow> gostring \<Rightarrow> gostring \<Rightarrow> gostring list \<Rightarrow> gostring list \<Rightarrow> gostring list \<Rightarrow> byte list \<Rightarrow> Request" where
  "NewRequest httpMethod path deliveryIdentity authorizationValues timestampValues nonceValues rawBody =
     \<lparr>rq_method = httpMethod, rq_path = path, rq_deliveryIdentity = deliveryIdentity,
      rq_authorizationValues = authorizationValues, rq_timestampValues = timestampValues,
      rq_nonceValues = nonceValues, rq_rawBody = rawBody\<rparr>"

record Result =
  rs_corePrincipalID :: CorePrincipalID

definition authenticationScheme :: gostring where "authenticationScheme = str ''MSOnCall-HMAC-SHA256''"
definition authorizationCredential :: gostring where "authorizationCredential = str '' Credential=''"
definition authorizationSignature :: gostring where "authorizationSignature = str '', Signature=''"
definition canonicalPathPrefix :: gostring where "canonicalPathPrefix = str ''/v1/goalert/contact-method/''"
definition canonicalSigningDomain :: gostring where "canonicalSigningDomain = str ''MS_ONCALL_GATEWAY_REQUEST_V1''"
definition maximumTimestampDifference :: "64 word" where "maximumTimestampDifference = 60"

record parsedRequest =
  pq_path :: gostring
  pq_deliveryIdentity :: gostring
  pq_credentialID :: CredentialID
  pq_signature :: bytes32
  pq_timestampText :: gostring
  pq_timestamp :: "64 word"
  pq_nonceText :: gostring
  pq_nonce :: ReplayNonce
  pq_rawBody :: "byte list"

definition validCanonicalPath :: "gostring \<Rightarrow> bool" where
  "validCanonicalPath path =
     (HasPrefix path canonicalPathPrefix \<and>
      \<not> isl (ParseOpaqueDestinationToken (drop (length canonicalPathPrefix) path)))"

definition exactlyOne :: "gostring list \<Rightarrow> gostring option" where
  "exactlyOne values =
     (case values of
        [v] \<Rightarrow> if v = [] \<or> changedByTrimSpace v \<or> list_ex (\<lambda>b. b = 0x0d \<or> b = 0x0a) v then None else Some v
      | _ \<Rightarrow> None)"

definition parseSignature :: "gostring \<Rightarrow> bytes32 option" where
  "parseSignature signatureText =
     (if length signatureText \<noteq> 43 \<or> strings_Contains signatureText (str ''='') then None
      else (case base64_DecodeString signatureText of
              None \<Rightarrow> None
            | Some decoded \<Rightarrow>
                if length decoded \<noteq> sha256_Size \<or> base64_EncodeToString decoded \<noteq> signatureText then None
                else Some (of_be_bytes decoded)))"

definition parseAuthorization :: "gostring \<Rightarrow> (CredentialID \<times> bytes32) option" where
  "parseAuthorization v =
     (let prefix = authenticationScheme @ authorizationCredential in
      if \<not> HasPrefix v prefix then None
      else (let remainder = drop (length prefix) v in
        case strings_Index remainder authorizationSignature of
          None \<Rightarrow> None
        | Some separatorIndex \<Rightarrow>
            (let signatureText = drop (separatorIndex + length authorizationSignature) remainder;
                 credentialText = take separatorIndex remainder in
             if separatorIndex = 0 \<or> strings_Index signatureText authorizationSignature \<noteq> None then None
             else (case parseUUID credentialText True of
                     Inl _ \<Rightarrow> None
                   | Inr credentialID \<Rightarrow>
                       if formatUUID credentialID \<noteq> credentialText then None
                       else map_option (Pair credentialID) (parseSignature signatureText)))))"

definition parseTimestamp :: "gostring \<Rightarrow> 64 word option" where
  "parseTimestamp v =
     (if v = [] \<or> length v > 1 \<and> hd v = 0x30 then None
      else if \<not> list_all digit v then None
      else ParseUint v)"

definition parseHeaders :: "Request \<Rightarrow> parsedRequest result" where
  "parseHeaders request =
     (let failed = Inl (authenticationErr ErrAuthenticationFailed) in
      case exactlyOne (rq_authorizationValues request) of
        None \<Rightarrow> failed
      | Some authorization \<Rightarrow>
      (case exactlyOne (rq_timestampValues request) of
        None \<Rightarrow> failed
      | Some timestampText \<Rightarrow>
      (case exactlyOne (rq_nonceValues request) of
        None \<Rightarrow> failed
      | Some nonceText \<Rightarrow>
      (case parseAuthorization authorization of
        None \<Rightarrow> failed
      | Some (credentialID, signature) \<Rightarrow>
      (case parseTimestamp timestampText of
        None \<Rightarrow> failed
      | Some timestamp \<Rightarrow>
      (case ParseReplayNonce nonceText of
        Inl _ \<Rightarrow> failed
      | Inr nonce \<Rightarrow>
          Inr \<lparr>pq_path = rq_path request, pq_deliveryIdentity = rq_deliveryIdentity request,
            pq_credentialID = credentialID, pq_signature = signature, pq_timestampText = timestampText,
            pq_timestamp = timestamp, pq_nonceText = nonceText, pq_nonce = nonce,
            pq_rawBody = rq_rawBody request\<rparr>))))))"

definition parseRequest :: "Request \<Rightarrow> parsedRequest result" where
  "parseRequest request =
     (if rq_method request \<noteq> str ''POST'' \<or> \<not> validCanonicalPath (rq_path request)
      then Inl (authenticationErr ErrRequestInvalid)
      else (case durable_parseUUID (rq_deliveryIdentity request) of
              Inl _ \<Rightarrow> Inl (authenticationErr ErrRequestInvalid)
            | Inr deliveryIdentity \<Rightarrow>
                if formatUUID deliveryIdentity \<noteq> rq_deliveryIdentity request
                then Inl (authenticationErr ErrRequestInvalid)
                else parseHeaders request))"

subsection \<open>Signing\<close>

definition signingInput :: "gostring \<Rightarrow> parsedRequest \<Rightarrow> gostring" where
  "signingInput audience request =
     strings_Join [canonicalSigningDomain, audience, str ''POST'', pq_path request,
       formatUUID (pq_credentialID request), pq_deliveryIdentity request, pq_timestampText request,
       pq_nonceText request, hex_EncodeToString (sha256_Sum (pq_rawBody request))] [0x0a]"

definition requestMAC :: "gostring \<Rightarrow> parsedRequest \<Rightarrow> bytes32 \<Rightarrow> bytes32" where
  "requestMAC audience request secret =
     of_be_bytes (hmac_sha256 (be_bytes 32 secret) (signingInput audience request))"

definition timestampWithinWindow :: "64 word \<Rightarrow> 64 word \<Rightarrow> bool" where
  "timestampWithinWindow now stamp =
     (if now < stamp then stamp - now \<le> maximumTimestampDifference
      else now - stamp \<le> maximumTimestampDifference)"

subsection \<open>What is parsed\<close>

text \<open>Differences of unsigned times do not wrap: the guards make the window symmetric around the clock.\<close>

lemma timestampWithinWindow_iff:
  "timestampWithinWindow now stamp \<longleftrightarrow> \<bar>uint now - uint stamp\<bar> \<le> 60"
  using uint_sub_lem [of stamp now] uint_sub_lem [of now stamp]
  by (auto simp: timestampWithinWindow_def maximumTimestampDifference_def word_less_def word_le_def abs_if)

definition newlineFree :: "gostring \<Rightarrow> bool" where
  "newlineFree v = (0x0a \<notin> set v)"

lemma split_at_first:
  "x \<notin> set v \<Longrightarrow> x \<notin> set w \<Longrightarrow> v @ x # a = w @ x # b \<Longrightarrow> v = w \<and> a = b"
proof (induction v arbitrary: w)
  case (Cons c v)
  then show ?case by (cases w) auto
qed (auto simp: Cons_eq_append_conv)

lemma strings_Join_inject:
  assumes "length vs = length ws" "list_all newlineFree vs" "list_all newlineFree ws"
    "strings_Join vs [0x0a] = strings_Join ws [0x0a]"
  shows "vs = ws"
  using assms
proof (induction vs arbitrary: ws)
  case (Cons v vs)
  then obtain w ws' where ws: "ws = w # ws'" by (cases ws) auto
  show ?case
  proof (cases vs)
    case Nil
    with Cons.prems show ?thesis by (cases ws') (auto simp: ws)
  next
    case (Cons v' vs')
    then obtain w' ws'' where ws': "ws' = w' # ws''" using Cons.prems(1) by (cases ws') (auto simp: ws)
    have eq: "v @ 0x0a # strings_Join vs [0x0a] = w @ 0x0a # strings_Join ws' [0x0a]"
      using Cons.prems(4) by (simp add: Cons ws ws')
    have free: "0x0a \<notin> set v" "0x0a \<notin> set w" using Cons.prems(2,3) by (simp_all add: newlineFree_def ws)
    from eq free have "v = w \<and> strings_Join vs [0x0a] = strings_Join ws' [0x0a]"
      by (intro split_at_first)
    with Cons.IH [of ws'] Cons.prems show ?thesis by (simp add: ws)
  qed
qed simp

lemma hexDigit_no_newline: "n < 16 \<Longrightarrow> hexDigit n \<noteq> 10"
  by (rule byte_less_cases [of n 16]) (simp, simp, code_simp)

lemma newlineFree_hex: "newlineFree (hex_EncodeToString bs)"
  by (induction bs) (simp_all add: newlineFree_def hexDigit_no_newline nibble_bounds not_sym [OF hexDigit_no_newline])

lemma newlineFree_formatUUID: "newlineFree (formatUUID v)"
proof -
  have "set (formatUUID v) \<subseteq> insert 45 (set (hex_EncodeToString (be_bytes 16 v)))"
    unfolding formatUUID_parts Let_def by (auto dest: in_set_takeD in_set_dropD)
  then show ?thesis using newlineFree_hex by (auto simp: newlineFree_def)
qed

lemma newlineFree_base64: "newlineFree (base64_EncodeToString bs)"
  using base64_alphabet by (auto simp: newlineFree_def)

lemma newlineFree_token:
  assumes "ParseOpaqueDestinationToken v = Inr t"
  shows "newlineFree v"
proof -
  have prefix: "newlineFree opaqueTokenPrefix" by (simp add: newlineFree_def opaqueTokenPrefix_def str_def)
  from assms obtain decoded where "HasPrefix v opaqueTokenPrefix"
      "drop (length opaqueTokenPrefix) v = base64_EncodeToString decoded"
    by (auto simp: ParseOpaqueDestinationToken_def Let_def dest: sym split: if_splits option.splits)
  then have "v = opaqueTokenPrefix @ base64_EncodeToString decoded"
    using append_take_drop_id [of "length opaqueTokenPrefix" v] by (simp add: HasPrefix_def)
  with prefix newlineFree_base64 [of decoded] show ?thesis by (simp add: newlineFree_def)
qed

lemma newlineFree_path:
  assumes "validCanonicalPath path"
  shows "newlineFree path"
proof -
  have prefix: "newlineFree canonicalPathPrefix" by (simp add: newlineFree_def canonicalPathPrefix_def str_def)
  let ?token = "drop (length canonicalPathPrefix) path"
  have path: "path = canonicalPathPrefix @ ?token"
    using assms append_take_drop_id [of "length canonicalPathPrefix" path] by (simp add: validCanonicalPath_def HasPrefix_def)
  have "newlineFree ?token"
    using assms newlineFree_token by (cases "ParseOpaqueDestinationToken ?token") (auto simp: validCanonicalPath_def)
  with path prefix show ?thesis by (metis Un_iff newlineFree_def set_append)
qed

lemma parseRequest_fields:
  assumes "parseRequest request = Inr p"
  shows "pq_path p = rq_path request \<and> pq_deliveryIdentity p = rq_deliveryIdentity request \<and> pq_rawBody p = rq_rawBody request \<and>
    rq_method request = str ''POST'' \<and> validCanonicalPath (pq_path p) \<and>
    (\<exists>d. d \<noteq> 0 \<and> formatUUID d = pq_deliveryIdentity p) \<and>
    rq_timestampValues request = [pq_timestampText p] \<and> parseTimestamp (pq_timestampText p) = Some (pq_timestamp p) \<and>
    rq_nonceValues request = [pq_nonceText p] \<and> ParseReplayNonce (pq_nonceText p) = Inr (pq_nonce p) \<and>
    (\<exists>v. rq_authorizationValues request = [v] \<and> parseAuthorization v = Some (pq_credentialID p, pq_signature p))"
  using assms
  by (auto simp: parseRequest_def parseHeaders_def exactlyOne_def Let_def durable_parseUUID_def
      split: if_splits sum.splits option.splits list.splits; blast)

lemma parseAuthorization_version: "parseAuthorization v = Some (c, m) \<Longrightarrow> c \<noteq> 0 \<and> versionFour c"
  using parseUUID_success by (fastforce simp: parseAuthorization_def Let_def split: if_splits option.splits sum.splits)

lemma newlineFree_fields:
  assumes "parseRequest request = Inr p"
  shows "newlineFree (pq_path p)" "newlineFree (pq_deliveryIdentity p)" "newlineFree (pq_timestampText p)"
    "newlineFree (pq_nonceText p)"
proof -
  note fields = parseRequest_fields [OF assms]
  show "newlineFree (pq_path p)" using fields newlineFree_path by blast
  show "newlineFree (pq_deliveryIdentity p)" using fields newlineFree_formatUUID by metis
  have "list_all digit (pq_timestampText p)" using fields by (auto simp: parseTimestamp_def split: if_splits)
  moreover have "\<not> digit 0x0a" by (simp add: digit_def)
  ultimately show "newlineFree (pq_timestampText p)" by (auto simp: list_all_iff newlineFree_def)
  show "newlineFree (pq_nonceText p)"
    using fields newlineFree_base64 by (metis ParseReplayNonce_iff formatReplayNonce_def)
qed

text \<open>C35. A signature covers the whole request: two well-formed requests, for whatever audiences, with the same signed
  bytes are for the same audience, path, credential, delivery identity, timestamp and nonce, and their bodies have the
  same SHA-256 digest. No field can be shifted into its neighbour.\<close>

theorem signing_input_determines_request:
  assumes "parseRequest request = Inr p" "parseRequest request' = Inr p'"
    "signingInput (formatUUID audience) p = signingInput (formatUUID audience') p'"
  shows "audience = audience' \<and> rq_path request = rq_path request' \<and> pq_credentialID p = pq_credentialID p' \<and>
    rq_deliveryIdentity request = rq_deliveryIdentity request' \<and> pq_timestamp p = pq_timestamp p' \<and>
    pq_nonce p = pq_nonce p' \<and> sha256_Sum (rq_rawBody request) = sha256_Sum (rq_rawBody request')"
proof -
  let ?fields = "\<lambda>audience p. [canonicalSigningDomain, formatUUID audience, str ''POST'', pq_path p, formatUUID (pq_credentialID p),
      pq_deliveryIdentity p, pq_timestampText p, pq_nonceText p, hex_EncodeToString (sha256_Sum (pq_rawBody p))]"
  have "newlineFree canonicalSigningDomain" "newlineFree (str ''POST'')"
    by (simp_all add: newlineFree_def canonicalSigningDomain_def str_def)
  then have "list_all newlineFree (?fields audience p)" "list_all newlineFree (?fields audience' p')"
    using newlineFree_fields [OF assms(1)] newlineFree_fields [OF assms(2)] newlineFree_formatUUID newlineFree_hex by simp_all
  then have eq: "?fields audience p = ?fields audience' p'"
    using assms(3) by (intro strings_Join_inject) (simp_all only: signingInput_def length_Cons list.size)
  have "sha256_Sum (pq_rawBody p) = sha256_Sum (pq_rawBody p')" using eq by (metis hex_roundtrip list.inject option.inject)
  then show ?thesis
    using eq parseRequest_fields [OF assms(1)] parseRequest_fields [OF assms(2)] by auto
qed

subsection \<open>What is accepted\<close>

text \<open>The header a client builds for its credential and signature.\<close>

definition authorizationValue :: "CredentialID \<Rightarrow> bytes32 \<Rightarrow> gostring" where
  "authorizationValue credentialID signature =
     authenticationScheme @ authorizationCredential @ formatUUID credentialID @ authorizationSignature @
     base64_EncodeToString (be_bytes 32 signature)"

lemma encode64_no_comma: "v < 64 \<Longrightarrow> encode64 v \<noteq> 44"
  by (rule byte_less_cases [of v 64]) (simp, simp, code_simp)

lemma hexDigit_no_comma: "n < 16 \<Longrightarrow> hexDigit n \<noteq> 44"
  by (rule byte_less_cases [of n 16]) (simp, simp, code_simp)

lemma comma_free:
  "44 \<notin> set (base64_EncodeToString bs)" "44 \<notin> set (formatUUID v)"
proof -
  show "44 \<notin> set (base64_EncodeToString bs)" using base64_range encode64_no_comma by metis
  have hex: "44 \<notin> set (hex_EncodeToString cs)" for cs
    by (induction cs) (simp_all add: hexDigit_no_comma nibble_bounds not_sym [OF hexDigit_no_comma])
  have "set (formatUUID v) \<subseteq> insert 45 (set (hex_EncodeToString (be_bytes 16 v)))"
    unfolding formatUUID_parts Let_def by (auto dest: in_set_takeD in_set_dropD)
  with hex [of "be_bytes 16 v"] show "44 \<notin> set (formatUUID v)" by auto
qed

lemma strings_Index_skip: "c \<notin> set a \<Longrightarrow> strings_Index (a @ (c # p) @ b) (c # p) = Some (length a)"
proof (induction a)
  case Nil
  then show ?case by (cases "(c # p) @ b") (simp_all add: HasPrefix_def)
qed (auto simp: HasPrefix_def)

lemma strings_Index_absent: "c \<notin> set a \<Longrightarrow> strings_Index a (c # p) = None"
  by (induction a) (auto simp: HasPrefix_def)

lemma authorizationSignature_comma: "authorizationSignature = 44 # str '' Signature=''"
  by (simp add: authorizationSignature_def str_def)

lemma parseSignature_encoded: "parseSignature (base64_EncodeToString (be_bytes 32 signature)) = Some signature"
  by (simp add: parseSignature_def length_base64_EncodeToString no_padding base64_roundtrip sha256_Size_def of_be_bytes_be_bytes)

lemma parseAuthorization_value:
  assumes "credentialID \<noteq> 0" "versionFour credentialID"
  shows "parseAuthorization (authorizationValue credentialID signature) = Some (credentialID, signature)"
proof -
  let ?sig = "base64_EncodeToString (be_bytes 32 signature)"
  have index: "strings_Index (formatUUID credentialID @ authorizationSignature @ ?sig) authorizationSignature =
      Some (length (formatUUID credentialID))" "strings_Index ?sig authorizationSignature = None"
    unfolding authorizationSignature_comma by (rule strings_Index_skip strings_Index_absent, rule comma_free)+
  have len: "length (formatUUID credentialID) = 36" using formatUUID_layout(1) by (simp add: uuid_layout_def)
  then have ne: "formatUUID credentialID \<noteq> []" by auto
  have parse: "parseUUID (formatUUID credentialID) True = Inr credentialID"
    using assms by (simp add: parseUUID_def formatUUID_layout hex_roundtrip of_be_bytes_be_bytes versionFour_def)
  show ?thesis
    unfolding parseAuthorization_def authorizationValue_def Let_def
    by (simp add: HasPrefix_def index ne parse parseSignature_encoded)
qed

definition sampleSignedRequest :: "bytes32 \<Rightarrow> Request" where
  "sampleSignedRequest signature =
     NewRequest (str ''POST'') (str ''/v1/goalert/contact-method/mso1_AAAAAAAAAAAAAAAAAAAAAAAAAAAAAAAAAAAAAAAAAAA'')
       (str ''11111111-2222-4333-8444-555555555555'')
       [authorizationValue 0x0f1e2d3c4b5a49788796a5b4c3d2e1f0 signature]
       [str ''1700000000''] [str ''AAAAAAAAAAAAAAAAAAAAAA''] [0x7b, 0x7d]"

definition sampleParsed :: "bytes32 \<Rightarrow> parsedRequest" where
  "sampleParsed signature =
     \<lparr>pq_path = str ''/v1/goalert/contact-method/mso1_AAAAAAAAAAAAAAAAAAAAAAAAAAAAAAAAAAAAAAAAAAA'',
      pq_deliveryIdentity = str ''11111111-2222-4333-8444-555555555555'',
      pq_credentialID = 0x0f1e2d3c4b5a49788796a5b4c3d2e1f0, pq_signature = signature, pq_timestampText = str ''1700000000'',
      pq_timestamp = 1700000000, pq_nonceText = str ''AAAAAAAAAAAAAAAAAAAAAA'', pq_nonce = 0, pq_rawBody = [0x7b, 0x7d]\<rparr>"

definition visible :: "byte \<Rightarrow> bool" where
  "visible b = (0x21 \<le> b \<and> b \<le> 0x7e)"

lemma visible_ends:
  assumes "v \<noteq> []" "visible (hd v)" "visible (last v)"
  shows "\<not> changedByTrimSpace v"
proof -
  have ends: "e \<noteq> [] \<and> \<not> visible (hd e) \<and> \<not> visible (last e)" if "e \<in> set spaceEncodings" for e
  proof -
    have "list_all (\<lambda>e. e \<noteq> [] \<and> \<not> visible (hd e) \<and> \<not> visible (last e)) spaceEncodings" by code_simp
    with that show ?thesis by (simp add: list_all_iff)
  qed
  have first: "HasPrefix w e \<Longrightarrow> e \<noteq> [] \<Longrightarrow> hd w = hd e" for w e :: gostring
    by (cases w; cases e) (auto simp: HasPrefix_def)
  have "\<not> HasPrefix v e" "\<not> HasPrefix (rev v) (rev e)" if "e \<in> set spaceEncodings" for e
    using ends [OF that] first [of v e] first [of "rev v" "rev e"] assms by (auto simp: hd_rev)
  then show ?thesis by (auto simp: changedByTrimSpace_def list_ex_iff)
qed

lemma exactlyOne_visible: "v \<noteq> [] \<Longrightarrow> list_all (\<lambda>b. visible b \<or> b = 0x20) v \<Longrightarrow> visible (hd v) \<Longrightarrow> visible (last v) \<Longrightarrow>
    exactlyOne [v] = Some v"
  using visible_ends [of v] by (auto simp: exactlyOne_def list_ex_iff list_all_iff visible_def)

lemma visible_sextet: "v < 64 \<Longrightarrow> visible (encode64 v)"
  by (rule byte_less_cases [of v 64]) (simp, simp, code_simp)

lemma visible_nibble: "n < 16 \<Longrightarrow> visible (hexDigit n)"
  by (rule byte_less_cases [of n 16]) (simp, simp, code_simp)

lemma visible_encoded:
  "list_all visible (base64_EncodeToString bs)" "list_all visible (formatUUID v)"
proof -
  show "list_all visible (base64_EncodeToString bs)" using base64_range visible_sextet by (metis list_all_iff)
  have hex: "list_all visible (hex_EncodeToString cs)" for cs
    by (induction cs) (simp_all add: visible_nibble nibble_bounds)
  have "set (formatUUID v) \<subseteq> insert 45 (set (hex_EncodeToString (be_bytes 16 v)))"
    unfolding formatUUID_parts Let_def by (auto dest: in_set_takeD in_set_dropD)
  moreover have "visible 45" by (simp add: visible_def)
  ultimately show "list_all visible (formatUUID v)" using hex [of "be_bytes 16 v"] by (auto simp: list_all_iff)
qed

lemma exactlyOne_authorization: "exactlyOne [authorizationValue credentialID signature] = Some (authorizationValue credentialID signature)"
proof (rule exactlyOne_visible)
  let ?v = "authorizationValue credentialID signature" and ?sig = "base64_EncodeToString (be_bytes 32 signature)"
  let ?ok = "\<lambda>b. visible b \<or> b = 0x20"
  have ne: "?sig \<noteq> []" using length_base64_EncodeToString [of "be_bytes 32 signature"] by auto
  have parts: "list_all ?ok (authenticationScheme @ authorizationCredential)" "list_all ?ok authorizationSignature"
    "authenticationScheme \<noteq> [] \<and> visible (hd authenticationScheme)"
    by code_simp+
  show "?v \<noteq> []" using ne by (simp add: authorizationValue_def)
  show "list_all ?ok ?v"
    using parts visible_encoded(1) [of "be_bytes 32 signature"] visible_encoded(2) [of credentialID]
    by (auto simp: authorizationValue_def list_all_iff)
  show "visible (hd ?v)" using parts(3) by (simp add: authorizationValue_def)
  show "visible (last ?v)" using ne visible_encoded(1) [of "be_bytes 32 signature"] by (simp add: authorizationValue_def list_all_iff)
qed

lemma signed_sample_parsed: "parseRequest (sampleSignedRequest signature) = Inr (sampleParsed signature)"
proof -
  have path: "validCanonicalPath (str ''/v1/goalert/contact-method/mso1_AAAAAAAAAAAAAAAAAAAAAAAAAAAAAAAAAAAAAAAAAAA'')" by code_simp
  have printed: "formatUUID 0x11111111222243338444555555555555 = str ''11111111-2222-4333-8444-555555555555''" by code_simp
  then have delivery: "durable_parseUUID (str ''11111111-2222-4333-8444-555555555555'') = Inr 0x11111111222243338444555555555555"
    using durable_parseUUID_formatUUID [of "0x11111111222243338444555555555555"] by simp
  have headers: "exactlyOne [str ''1700000000''] = Some (str ''1700000000'')"
    "exactlyOne [str ''AAAAAAAAAAAAAAAAAAAAAA''] = Some (str ''AAAAAAAAAAAAAAAAAAAAAA'')"
    "ParseReplayNonce (str ''AAAAAAAAAAAAAAAAAAAAAA'') = Inr 0" by code_simp+
  have stamp: "parseTimestamp (str ''1700000000'') = Some 1700000000"
    by (simp add: parseTimestamp_def ParseUint_def str_def digit_def Let_def)
  have credential: "versionFour 0x0f1e2d3c4b5a49788796a5b4c3d2e1f0" by code_simp
  show ?thesis
    unfolding sampleSignedRequest_def sampleParsed_def NewRequest_def parseRequest_def parseHeaders_def
    by (simp add: path printed delivery headers stamp exactlyOne_authorization parseAuthorization_value [OF _ credential] Let_def)
qed

theorem signing_input_determines_request_witness:
  "parseRequest (sampleSignedRequest 0) = Inr (sampleParsed 0) \<and> parseRequest (sampleSignedRequest 1) = Inr (sampleParsed 1) \<and>
   signingInput (formatUUID 1) (sampleParsed 0) = signingInput (formatUUID 1) (sampleParsed 1) \<and>
   pq_nonce (sampleParsed 0) = pq_nonce (sampleParsed 1)"
proof -
  have "signingInput (formatUUID 1) (sampleParsed 0) = signingInput (formatUUID 1) (sampleParsed 1)"
    by (simp add: signingInput_def sampleParsed_def)
  with signing_input_determines_request [OF signed_sample_parsed signed_sample_parsed this] signed_sample_parsed show ?thesis by blast
qed

end
