(* ===== verification/Authentication_Service.thy ===== *)
theory Authentication_Service
  imports Authentication_Request
begin

section \<open>The authentication service\<close>

text \<open>
  \<^verbatim>\<open>internal/authentication/service.go\<close>: the service is a record of its dependencies, each an operation on a world \<open>'w\<close>
  the service does not look into, and a clock; \<open>ctxErr\<close> is one evaluation of \<^verbatim>\<open>ctx.Err()\<close>. The contract of the
  dependencies is the locale \<open>authentication_stores\<close>, whose lemmas hold for every world; it is interpreted on the
  repository of \<open>Authentication_State\<close>.
\<close>

subsection \<open>The service\<close>

type_synonym 'w credentialRegistry = "go_context \<Rightarrow> GatewayAudienceID \<Rightarrow> CredentialID \<Rightarrow> ('w, CredentialSpec result) state"
type_synonym 'w secretSource = "go_context \<Rightarrow> GatewayAudienceID \<Rightarrow> CredentialID \<Rightarrow> ('w, AuthenticationSecret result) state"
type_synonym 'w principalRegistry = "go_context \<Rightarrow> GatewayAudienceID \<Rightarrow> CorePrincipalID \<Rightarrow> ('w, Principal result) state"
type_synonym 'w replayStore =
  "go_context \<Rightarrow> CredentialRecordID \<Rightarrow> ReplayNonce \<Rightarrow> time \<Rightarrow> ('w, ReplayReservationDisposition result) state"

record 'w Service =
  sv_configuredAudience :: GatewayAudienceID
  sv_audienceBinding :: "(go_context \<Rightarrow> ('w, GatewayAudienceID result) state) option"
  sv_credentials :: "'w credentialRegistry option"
  sv_secrets :: "'w secretSource option"
  sv_principals :: "'w principalRegistry option"
  sv_replay :: "'w replayStore option"
  sv_clock :: "('w, time) state option"

definition serviceConfigured :: "'w Service \<Rightarrow> bool" where
  "serviceConfigured service =
     (sv_configuredAudience service \<noteq> 0 \<and> sv_audienceBinding service \<noteq> None \<and> sv_credentials service \<noteq> None \<and>
      sv_secrets service \<noteq> None \<and> sv_principals service \<noteq> None \<and> sv_replay service \<noteq> None \<and> sv_clock service \<noteq> None)"

definition NewService ::
  "GatewayAudienceID \<Rightarrow> (go_context \<Rightarrow> ('w, GatewayAudienceID result) state) option \<Rightarrow> 'w credentialRegistry option \<Rightarrow>
   'w secretSource option \<Rightarrow> 'w principalRegistry option \<Rightarrow> 'w replayStore option \<Rightarrow> ('w, time) state option \<Rightarrow>
   'w Service result" where
  "NewService configuredAudience audienceBinding credentials secrets principals replay clock =
     (let service = \<lparr>sv_configuredAudience = configuredAudience, sv_audienceBinding = audienceBinding,
            sv_credentials = credentials, sv_secrets = secrets, sv_principals = principals, sv_replay = replay,
            sv_clock = clock\<rparr>
      in if \<not> serviceConfigured service then Inl (authenticationErr ErrConfigurationInvalid) else Inr service)"

definition credentialRecordValid :: "CredentialSpec \<Rightarrow> GatewayAudienceID \<Rightarrow> CredentialID \<Rightarrow> bool" where
  "credentialRecordValid credential audience publicID =
     (if cs_PublicID credential \<noteq> publicID \<or> cs_AudienceID credential \<noteq> audience \<or> pr_id (cs_Principal credential) = 0 \<or>
         sl_id (cs_Slot credential) = 0 \<or> cs_RecordID credential = 0
      then False
      else cs_State credential \<in> {CredentialDisabled, CredentialActive, CredentialRetiring, CredentialRevoked})"

definition contextDone :: "('w, go_error option) state \<Rightarrow> ('w, bool) state" where
  "contextDone ctxErr = do {
     err \<leftarrow> ctxErr;
     State_Monad.return (errors_Is_opt err (Context Canceled) \<or> errors_Is_opt err (Context DeadlineExceeded)) }"

definition dependencyCanceled :: "('w, go_error option) state \<Rightarrow> go_error option \<Rightarrow> ('w, bool) state" where
  "dependencyCanceled ctxErr dependencyErr = do {
     contextIsDone \<leftarrow> contextDone ctxErr;
     State_Monad.return (contextIsDone \<or> errors_Is_opt dependencyErr (Context Canceled) \<or>
       errors_Is_opt dependencyErr (Context DeadlineExceeded)) }"

definition errorOf :: "'a result \<Rightarrow> go_error option" where
  "errorOf r = (case r of Inl e \<Rightarrow> Some e | Inr _ \<Rightarrow> None)"

text \<open>One call of a dependency: its answer, the check for cancellation, and the mapping of its other errors.\<close>

definition dependency ::
  "('w, go_error option) state \<Rightarrow> ('w, 'a result) state \<Rightarrow> (go_error \<Rightarrow> authentication_sentinel) \<Rightarrow>
   ('a \<Rightarrow> ('w, Result result) state) \<Rightarrow> ('w, Result result) state" where
  "dependency ctxErr call failure continue' = do {
     answer \<leftarrow> call;
     canceled \<leftarrow> dependencyCanceled ctxErr (errorOf answer);
     if canceled then State_Monad.return (Inl (authenticationErr ErrAuthenticationCanceled))
     else (case answer of
             Inl e \<Rightarrow> State_Monad.return (Inl (authenticationErr (failure e)))
           | Inr v \<Rightarrow> continue' v) }"

text \<open>The principal of a credential, after its nonce was reserved.\<close>

definition authorize_principal :: "GatewayAudienceID \<Rightarrow> CredentialSpec \<Rightarrow> Principal \<Rightarrow> Result result" where
  "authorize_principal audience credential core =
     (if pr_id core = 0 \<or> pr_audienceID core = 0 \<or> pr_id core \<noteq> pr_id (cs_Principal credential) \<or> pr_audienceID core \<noteq> audience
      then Inl (authenticationErr ErrUnavailable)
      else if \<not> pr_enabled core \<or> \<not> pr_intakeAuthorized core then Inl (authenticationErr ErrForbidden)
      else Inr \<lparr>rs_corePrincipalID = pr_id core\<rparr>)"

definition reserve_nonce ::
  "('w, go_error option) state \<Rightarrow> go_context \<Rightarrow> GatewayAudienceID \<Rightarrow> 'w principalRegistry \<Rightarrow> 'w replayStore \<Rightarrow> parsedRequest \<Rightarrow>
   time \<Rightarrow> CredentialSpec \<Rightarrow> ('w, Result result) state" where
  "reserve_nonce ctxErr ctx audience principals replay parsed now credential = do {
     canceled \<leftarrow> contextDone ctxErr;
     if canceled then State_Monad.return (Inl (authenticationErr ErrAuthenticationCanceled))
     else dependency ctxErr (replay ctx (cs_RecordID credential) (pq_nonce parsed) now) (\<lambda>_. ErrUnavailable) (\<lambda>disposition.
       case disposition of
         ReplayDuplicate \<Rightarrow> State_Monad.return (Inl (authenticationErr ErrAuthenticationFailed))
       | ReplayReserved \<Rightarrow>
           dependency ctxErr (principals ctx audience (pr_id (cs_Principal credential)))
             (\<lambda>e. if singleCauseMatches e (Securitystate ErrPrincipalNotAuthorized) then ErrForbidden else ErrUnavailable)
             (\<lambda>core. State_Monad.return (authorize_principal audience credential core))
       | _ \<Rightarrow> State_Monad.return (Inl (authenticationErr ErrUnavailable))) }"

definition verify_signature ::
  "('w, go_error option) state \<Rightarrow> go_context \<Rightarrow> GatewayAudienceID \<Rightarrow> 'w principalRegistry \<Rightarrow> 'w replayStore \<Rightarrow> parsedRequest \<Rightarrow>
   time \<Rightarrow> CredentialSpec \<Rightarrow> AuthenticationSecret \<Rightarrow> ('w, Result result) state" where
  "verify_signature ctxErr ctx audience principals replay parsed now credential secret =
     (let expectedMAC = requestMAC (formatUUID audience) parsed secret in
      if be_bytes 32 expectedMAC \<noteq> be_bytes 32 (pq_signature parsed)
      then State_Monad.return (Inl (authenticationErr ErrAuthenticationFailed))
      else if \<not> timestampWithinWindow (word_of_int (Unix now)) (pq_timestamp parsed)
      then State_Monad.return (Inl (authenticationErr ErrAuthenticationFailed))
      else reserve_nonce ctxErr ctx audience principals replay parsed now credential)"

definition check_credential ::
  "('w, go_error option) state \<Rightarrow> go_context \<Rightarrow> GatewayAudienceID \<Rightarrow> 'w secretSource \<Rightarrow> 'w principalRegistry \<Rightarrow> 'w replayStore \<Rightarrow>
   parsedRequest \<Rightarrow> time \<Rightarrow> CredentialSpec \<Rightarrow> ('w, Result result) state" where
  "check_credential ctxErr ctx audience secrets principals replay parsed now credential =
     (if \<not> credentialRecordValid credential audience (pq_credentialID parsed)
      then State_Monad.return (Inl (authenticationErr ErrUnavailable))
      else if \<not> Credential_UsableAt credential now
      then State_Monad.return (Inl (authenticationErr ErrAuthenticationFailed))
      else dependency ctxErr (secrets ctx audience (pq_credentialID parsed)) (\<lambda>_. ErrUnavailable)
        (verify_signature ctxErr ctx audience principals replay parsed now credential))"

definition authenticate_request ::
  "('w, go_error option) state \<Rightarrow> 'w Service \<Rightarrow> go_context \<Rightarrow> parsedRequest \<Rightarrow> time \<Rightarrow> ('w, Result result) state" where
  "authenticate_request ctxErr service ctx parsed now =
     (let audience = sv_configuredAudience service in
      dependency ctxErr (the (sv_audienceBinding service) ctx) (\<lambda>_. ErrUnavailable) (\<lambda>boundAudience.
        if boundAudience = 0 \<or> boundAudience \<noteq> audience
        then State_Monad.return (Inl (authenticationErr ErrUnavailable))
        else dependency ctxErr (the (sv_credentials service) ctx audience (pq_credentialID parsed))
          (\<lambda>e. if singleCauseMatches e (Securitystate ErrCredentialNotFound) then ErrAuthenticationFailed else ErrUnavailable)
          (check_credential ctxErr ctx audience (the (sv_secrets service)) (the (sv_principals service))
             (the (sv_replay service)) parsed now)))"

definition Authenticate ::
  "('w, go_error option) state \<Rightarrow> 'w Service option \<Rightarrow> go_context \<Rightarrow> Request \<Rightarrow> ('w, Result result) state" where
  "Authenticate ctxErr service' ctx request =
     (case service' of
        None \<Rightarrow> State_Monad.return (Inl (authenticationErr ErrConfigurationInvalid))
      | Some service \<Rightarrow>
          if \<not> serviceConfigured service then State_Monad.return (Inl (authenticationErr ErrConfigurationInvalid))
          else if ctx = NilContext then State_Monad.return (Inl (authenticationErr ErrRequestInvalid))
          else do {
            canceled \<leftarrow> contextDone ctxErr;
            if canceled then State_Monad.return (Inl (authenticationErr ErrAuthenticationCanceled))
            else (case parseRequest request of
                Inl e \<Rightarrow> State_Monad.return (Inl e)
              | Inr parsed \<Rightarrow> do {
                  now \<leftarrow> the (sv_clock service);
                  if IsZero now \<or> Unix now < 0
                  then State_Monad.return (Inl (authenticationErr ErrConfigurationInvalid))
                  else do {
                    canceled \<leftarrow> contextDone ctxErr;
                    if canceled then State_Monad.return (Inl (authenticationErr ErrAuthenticationCanceled))
                    else authenticate_request ctxErr service ctx parsed now } }) })"

subsection \<open>The contract of the stores\<close>

text \<open>A request that passed every check up to the nonce: the credential of the tables is usable, the signature is the
  keyed hash of the request under the secret of that credential, and the timestamp is within the window.\<close>

definition signatureVerified ::
  "auth_db \<Rightarrow> (GatewayAudienceID \<Rightarrow> CredentialID \<Rightarrow> AuthenticationSecret option) \<Rightarrow> GatewayAudienceID \<Rightarrow> parsedRequest \<Rightarrow> time \<Rightarrow>
   CredentialSpec \<Rightarrow> bool" where
  "signatureVerified db keyring audience parsed now credential =
     (audienceLookup db = Inr audience \<and> credentialLookup db audience (pq_credentialID parsed) = Inr credential \<and>
      Credential_UsableAt credential now \<and> 0 \<le> Unix now \<and>
      (\<exists>secret. keyring audience (pq_credentialID parsed) = Some secret \<and>
         pq_signature parsed = requestMAC (formatUUID audience) parsed secret) \<and>
      timestampWithinWindow (word_of_int (Unix now)) (pq_timestamp parsed))"

text \<open>What a call of \<^verbatim>\<open>Authenticate\<close> means for the tables. An accepted request is verified, its nonce was new and is now
  reserved, and its principal may use the intake. A refused one has a fixed error and leaves the tables alone, or uses
  up its nonce after its signature was verified.\<close>

definition authenticationKinds :: "authentication_sentinel set" where
  "authenticationKinds =
     {ErrConfigurationInvalid, ErrRequestInvalid, ErrAuthenticationFailed, ErrForbidden, ErrUnavailable, ErrAuthenticationCanceled}"

definition nonceConsumed ::
  "auth_db \<Rightarrow> (GatewayAudienceID \<Rightarrow> CredentialID \<Rightarrow> AuthenticationSecret option) \<Rightarrow> GatewayAudienceID \<Rightarrow> parsedRequest \<Rightarrow> time \<Rightarrow>
   CredentialSpec \<Rightarrow> auth_db \<Rightarrow> bool" where
  "nonceConsumed db keyring audience parsed now credential db' =
     (signatureVerified db keyring audience parsed now credential \<and>
      \<not> reserved db (cs_RecordID credential) (pq_nonce parsed) \<and>
      db' = addReservation (cs_RecordID credential) (pq_nonce parsed) now db)"

definition principalAllowed :: "auth_db \<Rightarrow> GatewayAudienceID \<Rightarrow> CredentialSpec \<Rightarrow> Result \<Rightarrow> bool" where
  "principalAllowed db audience credential result =
     (\<exists>core. principalLookup db audience (pr_id (cs_Principal credential)) = Inr core \<and> AuthorizesIntake core audience \<and>
        rs_corePrincipalID result = pr_id core)"

definition authenticationPost ::
  "auth_db \<Rightarrow> (GatewayAudienceID \<Rightarrow> CredentialID \<Rightarrow> AuthenticationSecret option) \<Rightarrow> GatewayAudienceID \<Rightarrow> parsedRequest \<Rightarrow> time \<Rightarrow>
   Result result \<Rightarrow> auth_db \<Rightarrow> bool" where
  "authenticationPost db keyring audience parsed now r db' =
     (case r of
        Inr result \<Rightarrow> \<exists>credential. nonceConsumed db keyring audience parsed now credential db' \<and>
          principalAllowed db' audience credential result
      | Inl e \<Rightarrow> e \<in> authenticationErr ` authenticationKinds \<and>
          (db' = db \<or> (\<exists>credential. nonceConsumed db keyring audience parsed now credential db')))"

definition authenticateOutcome ::
  "(GatewayAudienceID \<Rightarrow> CredentialID \<Rightarrow> AuthenticationSecret option) \<Rightarrow> (time \<Rightarrow> bool) \<Rightarrow> GatewayAudienceID \<Rightarrow> Request \<Rightarrow>
   auth_db \<Rightarrow> Result result \<Rightarrow> auth_db \<Rightarrow> bool" where
  "authenticateOutcome keyring clockAt audience request db r db' =
     (db' = db \<and> r \<in> Inl ` authenticationErr ` authenticationKinds \<or>
      (\<exists>parsed now. parseRequest request = Inr parsed \<and> clockAt now \<and>
         authenticationPost db keyring audience parsed now r db'))"

lemma authenticationPost_refused:
  "kind \<in> authenticationKinds \<Longrightarrow> authenticationPost db keyring audience parsed now (Inl (authenticationErr kind)) db"
  by (simp add: authenticationPost_def)

lemma authenticationKinds_members [simp]:
  "ErrConfigurationInvalid \<in> authenticationKinds" "ErrRequestInvalid \<in> authenticationKinds"
  "ErrAuthenticationFailed \<in> authenticationKinds" "ErrForbidden \<in> authenticationKinds"
  "ErrUnavailable \<in> authenticationKinds" "ErrAuthenticationCanceled \<in> authenticationKinds"
  by (simp_all add: authenticationKinds_def)

lemma parseRequest_error: "parseRequest request = Inl e \<Longrightarrow> e \<in> authenticationErr ` authenticationKinds"
  by (auto simp: parseRequest_def parseHeaders_def Let_def split: if_splits sum.splits option.splits)

text \<open>A source of secrets that only gives out those of \<open>keyring\<close>, and a clock that only shows times of \<open>clockAt\<close>; neither
  touches the tables.\<close>

definition secretsFrom ::
  "('w \<Rightarrow> bool) \<Rightarrow> ('w \<Rightarrow> auth_db) \<Rightarrow> (GatewayAudienceID \<Rightarrow> CredentialID \<Rightarrow> AuthenticationSecret option) \<Rightarrow> 'w secretSource \<Rightarrow> bool" where
  "secretsFrom ready tables keyring secrets =
     (\<forall>w ctx audience publicID. ready w \<longrightarrow> after (secrets ctx audience publicID) w
        (\<lambda>r w'. ready w' \<and> tables w' = tables w \<and> (\<forall>k. r = Inr k \<longrightarrow> keyring audience publicID = Some k)))"

definition clockFrom :: "('w \<Rightarrow> bool) \<Rightarrow> ('w \<Rightarrow> auth_db) \<Rightarrow> (time \<Rightarrow> bool) \<Rightarrow> ('w, time) state \<Rightarrow> bool" where
  "clockFrom ready tables clockAt clock =
     (\<forall>w. ready w \<longrightarrow> after clock w (\<lambda>t w'. ready w' \<and> tables w' = tables w \<and> clockAt t))"

text \<open>The operations the service calls, on a world whose tables \<open>tables\<close> shows and in which \<open>ready\<close> holds between calls.\<close>

locale authentication_stores =
  fixes ctxErr :: "('w, go_error option) state"
    and boundAudience :: "go_context \<Rightarrow> ('w, GatewayAudienceID result) state"
    and credentials :: "'w credentialRegistry" and principals :: "'w principalRegistry" and replay :: "'w replayStore"
    and tables :: "'w \<Rightarrow> auth_db" and ready :: "'w \<Rightarrow> bool"
  assumes polls: "ready w \<Longrightarrow> after ctxErr w (\<lambda>_ w'. ready w' \<and> tables w' = tables w)"
    and binding: "ready w \<Longrightarrow> after (boundAudience ctx) w
      (\<lambda>r w'. ready w' \<and> tables w' = tables w \<and> (\<forall>a. r = Inr a \<longrightarrow> audienceLookup (tables w) = Inr a))"
    and lookup: "ready w \<Longrightarrow> after (credentials ctx audience publicID) w
      (\<lambda>r w'. ready w' \<and> tables w' = tables w \<and> (\<forall>c. r = Inr c \<longrightarrow> credentialLookup (tables w) audience publicID = Inr c))"
    and owner: "ready w \<Longrightarrow> after (principals ctx audience principalID) w
      (\<lambda>r w'. ready w' \<and> tables w' = tables w \<and> (\<forall>p. r = Inr p \<longrightarrow> principalLookup (tables w) audience principalID = Inr p))"
    and reserve: "ready w \<Longrightarrow> after (replay ctx recordID nonce now) w
      (\<lambda>r w'. ready w' \<and>
        (if r = Inr ReplayReserved
         then \<not> reserved (tables w) recordID nonce \<and> tables w' = addReservation recordID nonce now (tables w)
         else tables w' = tables w \<or>
           isl r \<and> \<not> reserved (tables w) recordID nonce \<and> tables w' = addReservation recordID nonce now (tables w)))"
begin

lemma polled:
  "ready w \<Longrightarrow> (\<And>x w'. ready w' \<Longrightarrow> tables w' = tables w \<Longrightarrow> Q x w') \<Longrightarrow> after ctxErr w Q"
  using polls by (blast intro: after_mono)

lemma contextDone_after:
  "ready w \<Longrightarrow> (\<And>x w'. ready w' \<Longrightarrow> tables w' = tables w \<Longrightarrow> Q x w') \<Longrightarrow> after (contextDone ctxErr) w Q"
  unfolding contextDone_def by (intro after_intro polled)

text \<open>A dependency that leaves its result \<open>r\<close> in a world that satisfies \<open>P\<close> is followed by its continuation.\<close>

lemma dependency_after:
  assumes "after call w P"
    "\<And>r w1. P r w1 \<Longrightarrow> ready w1"
    "\<And>r w1 w2 kind. P r w1 \<Longrightarrow> ready w2 \<Longrightarrow> tables w2 = tables w1 \<Longrightarrow> kind \<in> insert ErrAuthenticationCanceled (range failure) \<Longrightarrow>
       kind = ErrAuthenticationCanceled \<or> isl r \<Longrightarrow> Q (Inl (authenticationErr kind)) w2"
    "\<And>v w1 w2. P (Inr v) w1 \<Longrightarrow> ready w2 \<Longrightarrow> tables w2 = tables w1 \<Longrightarrow> after (continue' v) w2 Q"
  shows "after (dependency ctxErr call failure continue') w Q"
  unfolding dependency_def dependencyCanceled_def
  by (intro after_intro after_mono [OF assms(1)] contextDone_after; (erule assms(2))?;
      use assms(3,4) in \<open>auto simp: isl_def split: if_splits\<close>)

lemma reserve_nonce_after:
  assumes "ready w" "signatureVerified (tables w) keyring audience parsed now credential"
  shows "after (reserve_nonce ctxErr ctx audience principals replay parsed now credential) w
    (\<lambda>r w'. ready w' \<and> authenticationPost (tables w) keyring audience parsed now r (tables w'))"
proof -
  let ?id = "cs_RecordID credential" and ?nonce = "pq_nonce parsed"
  let ?added = "addReservation ?id ?nonce now (tables w)"
  let ?Q = "\<lambda>r w'. ready w' \<and> authenticationPost (tables w) keyring audience parsed now r (tables w')"
  have allowed: "after (dependency ctxErr (principals ctx audience (pr_id (cs_Principal credential))) failure
      (\<lambda>core. State_Monad.return (authorize_principal audience credential core))) w1 ?Q"
    if "ready w1" "\<not> reserved (tables w) ?id ?nonce" "tables w1 = ?added"
      "range failure \<subseteq> authenticationKinds" for w1 failure
    by (rule dependency_after [OF owner [OF that(1)]]; (intro after_intro)?;
        use assms(2) that in \<open>auto simp: authenticationPost_def nonceConsumed_def principalAllowed_def authorize_principal_def
          AuthorizesIntake_def split: if_splits\<close>)
  have failure: "range (\<lambda>e. if singleCauseMatches e (Securitystate ErrPrincipalNotAuthorized) then ErrForbidden else ErrUnavailable)
      \<subseteq> authenticationKinds" by auto
  have disposed: "after (case v of
       ReplayDuplicate \<Rightarrow> State_Monad.return (Inl (authenticationErr ErrAuthenticationFailed))
     | ReplayReserved \<Rightarrow>
         dependency ctxErr (principals ctx audience (pr_id (cs_Principal credential)))
           (\<lambda>e. if singleCauseMatches e (Securitystate ErrPrincipalNotAuthorized) then ErrForbidden else ErrUnavailable)
           (\<lambda>core. State_Monad.return (authorize_principal audience credential core))
     | _ \<Rightarrow> State_Monad.return (Inl (authenticationErr ErrUnavailable))) w1 ?Q"
    if "ready w1" "if v = ReplayReserved then \<not> reserved (tables w) ?id ?nonce \<and> tables w1 = ?added else tables w1 = tables w" for v w1
    using that allowed [OF that(1) _ _ failure] by (cases v) (simp_all add: after_simps authenticationPost_def)
  show ?thesis
    unfolding reserve_nonce_def
    by (intro after_intro contextDone_after [OF assms(1)] dependency_after [OF reserve] disposed;
        use assms(2) in \<open>auto simp: authenticationPost_def nonceConsumed_def split: if_splits\<close>)
qed

lemma check_credential_after:
  assumes "secretsFrom ready tables keyring secrets" "ready w" "audienceLookup (tables w) = Inr audience" "0 \<le> Unix now"
    "credentialLookup (tables w) audience (pq_credentialID parsed) = Inr credential"
  shows "after (check_credential ctxErr ctx audience secrets principals replay parsed now credential) w
    (\<lambda>r w'. ready w' \<and> authenticationPost (tables w) keyring audience parsed now r (tables w'))"
proof -
  let ?Q = "\<lambda>r w'. ready w' \<and> authenticationPost (tables w) keyring audience parsed now r (tables w')"
  have verify: "after (verify_signature ctxErr ctx audience principals replay parsed now credential k) w1 ?Q"
    if "ready w1" "tables w1 = tables w" "keyring audience (pq_credentialID parsed) = Some k" "Credential_UsableAt credential now" for k w1
  proof (cases "signatureVerified (tables w) keyring audience parsed now credential")
    case True
    then show ?thesis
      using reserve_nonce_after [OF that(1), of keyring audience parsed now credential ctx] that(1,2)
      by (auto simp: verify_signature_def after_simps Let_def authenticationPost_refused)
  next
    case False
    with assms that have "pq_signature parsed \<noteq> requestMAC (formatUUID audience) parsed k \<or>
        \<not> timestampWithinWindow (word_of_int (Unix now)) (pq_timestamp parsed)"
      by (auto simp: signatureVerified_def)
    with that(1,2) show ?thesis
      by (auto simp: verify_signature_def after_simps Let_def authenticationPost_refused be_bytes_inject)
  qed
  show ?thesis
    unfolding check_credential_def
    by (intro after_intro dependency_after [OF assms(1) [unfolded secretsFrom_def, rule_format]] verify;
        use assms(2-) in \<open>auto simp: authenticationPost_refused\<close>)
qed

lemma authenticate_request_after:
  assumes "secretsFrom ready tables keyring secrets" "ready w" "0 \<le> Unix now"
    "NewService audience (Some boundAudience) (Some credentials) (Some secrets) (Some principals) (Some replay) (Some clock) = Inr svc"
  shows "after (authenticate_request ctxErr svc ctx parsed now) w
    (\<lambda>r w'. ready w' \<and> authenticationPost (tables w) keyring audience parsed now r (tables w'))"
proof -
  have svc: "svc = \<lparr>sv_configuredAudience = audience, sv_audienceBinding = Some boundAudience, sv_credentials = Some credentials,
      sv_secrets = Some secrets, sv_principals = Some principals, sv_replay = Some replay, sv_clock = Some clock\<rparr>"
    using assms(4) by (auto simp: NewService_def Let_def split: if_splits)
  have check: "after (check_credential ctxErr ctx audience secrets principals replay parsed now c) w1
      (\<lambda>r w'. ready w' \<and> authenticationPost (tables w) keyring audience parsed now r (tables w'))"
    if "ready w1" "tables w1 = tables w" "audienceLookup (tables w) = Inr audience"
      "credentialLookup (tables w) audience (pq_credentialID parsed) = Inr c" for c w1
    using check_credential_after [OF assms(1) that(1), of audience now parsed c ctx] that assms(3) by simp
  show ?thesis
    unfolding authenticate_request_def svc Let_def Service.select_convs option.sel
    by (intro after_intro dependency_after [OF binding] dependency_after [OF lookup] check;
        use assms(2,3) in \<open>auto simp: authenticationPost_refused split: if_splits\<close>)
qed

lemma Authenticate_after:
  assumes "secretsFrom ready tables keyring secrets" "clockFrom ready tables clockAt clock" "ready w"
    "NewService audience (Some boundAudience) (Some credentials) (Some secrets) (Some principals) (Some replay) (Some clock) = Inr svc"
  shows "after (Authenticate ctxErr (Some svc) ctx request) w
    (\<lambda>r w'. ready w' \<and> authenticateOutcome keyring clockAt audience request (tables w) r (tables w'))"
proof -
  have parts: "serviceConfigured svc" "sv_clock svc = Some clock"
    using assms(4) by (auto simp: NewService_def Let_def split: if_splits)
  let ?Q = "\<lambda>r w'. ready w' \<and> authenticateOutcome keyring clockAt audience request (tables w) r (tables w')"
  have refused: "?Q (Inl (authenticationErr kind)) w'" if "ready w'" "tables w' = tables w" "kind \<in> authenticationKinds" for kind w'
    using that by (auto simp: authenticateOutcome_def split: sum.splits)
  have unparsed: "?Q (Inl e) w'" if "ready w'" "tables w' = tables w" "parseRequest request = Inl e" for e w'
    using parseRequest_error [OF that(3)] refused [OF that(1,2)] by auto
  have run: "after (authenticate_request ctxErr svc ctx parsed now) w1 ?Q"
    if "ready w1" "tables w1 = tables w" "clockAt now" "parseRequest request = Inr parsed" "0 \<le> Unix now" for parsed now w1
    using authenticate_request_after [OF assms(1) that(1,5) assms(4), of ctx parsed] that(2-4)
    by (auto simp: authenticateOutcome_def elim!: after_mono)
  show ?thesis
    unfolding Authenticate_def option.case parts(2) option.sel
    by (intro after_intro contextDone_after after_mono [OF assms(2) [unfolded clockFrom_def, rule_format]] refused unparsed run)
      (use assms(3) parts(1) in auto)
qed

end

subsection \<open>The stores in PostgreSQL\<close>

text \<open>A session between calls of the service: no open transaction, and a driver whose errors mean what they document.\<close>

definition sessionReady :: "(go_error \<Rightarrow> bool) \<Rightarrow> 'db session \<Rightarrow> bool" where
  "sessionReady timeout s = (s_tx s = None \<and> replay_honest timeout s)"

lemma sessionReady_keep:
  "sessionReady timeout s \<Longrightarrow> s_tx s' = s_tx s \<Longrightarrow> set (s_script s') \<subseteq> set (s_script s) \<Longrightarrow> sessionReady timeout s'"
  by (auto simp: sessionReady_def replay_honest_def no_rows_honest_def)

lemma readPost_ready:
  "sessionReady timeout s \<Longrightarrow> readPost s P r s' \<Longrightarrow> sessionReady timeout s' \<and> s_db s' = s_db s \<and> (\<forall>v. r = Inr v \<longrightarrow> P v)"
  by (auto simp: readPost_def intro: sessionReady_keep)

interpretation pgauth: authentication_stores ctx_Err "BoundAudience timeout (Some (NewAuthenticationStateRepository nilPool))"
  "repository_Credential timeout (Some (NewAuthenticationStateRepository nilPool))"
  "repository_Principal timeout (Some (NewAuthenticationStateRepository nilPool))"
  "repository_Reserve timeout (Some (NewAuthenticationStateRepository nilPool))" s_db "sessionReady timeout"
  for timeout :: "go_error \<Rightarrow> bool" and nilPool :: bool
proof
  fix s :: "auth_db session" assume ready: "sessionReady timeout s"
  then have tx: "s_tx s = None" and honest: "replay_honest timeout s" by (simp_all add: sessionReady_def)
  show "after ctx_Err s (\<lambda>_ s'. sessionReady timeout s' \<and> s_db s' = s_db s)"
    by (rule ctx_Err_after) (use ready in \<open>auto simp: same_data_def intro: sessionReady_keep\<close>)
  note read = after_mono [OF _ readPost_ready [OF ready]]
  show "after (BoundAudience timeout (Some (NewAuthenticationStateRepository nilPool)) ctx) s
      (\<lambda>r s'. sessionReady timeout s' \<and> s_db s' = s_db s \<and> (\<forall>a. r = Inr a \<longrightarrow> audienceLookup (s_db s) = Inr a))" for ctx
    by (rule read [OF BoundAudience_after [OF refl tx]])
  show "after (repository_Credential timeout (Some (NewAuthenticationStateRepository nilPool)) ctx audience publicID) s
      (\<lambda>r s'. sessionReady timeout s' \<and> s_db s' = s_db s \<and> (\<forall>c. r = Inr c \<longrightarrow> credentialLookup (s_db s) audience publicID = Inr c))"
    for ctx audience publicID
    by (rule read [OF after_mono [OF Credential_after [OF refl tx]]]) (auto simp: readPost_def)
  show "after (repository_Principal timeout (Some (NewAuthenticationStateRepository nilPool)) ctx audience principalID) s
      (\<lambda>r s'. sessionReady timeout s' \<and> s_db s' = s_db s \<and> (\<forall>p. r = Inr p \<longrightarrow> principalLookup (s_db s) audience principalID = Inr p))"
    for ctx audience principalID
    by (rule read [OF Principal_after [OF refl tx]])
  show "after (repository_Reserve timeout (Some (NewAuthenticationStateRepository nilPool)) ctx recordID nonce now) s
      (\<lambda>r s'. sessionReady timeout s' \<and>
        (if r = Inr ReplayReserved
         then \<not> reserved (s_db s) recordID nonce \<and> s_db s' = addReservation recordID nonce now (s_db s)
         else s_db s' = s_db s \<or>
           isl r \<and> \<not> reserved (s_db s) recordID nonce \<and> s_db s' = addReservation recordID nonce now (s_db s)))"
    for ctx recordID nonce now
    by (rule after_mono [OF Reserve_after [OF refl honest]])
      (auto simp: reservePost_def split: sum.splits ReplayReservationDisposition.splits intro: sessionReady_keep [OF ready])
qed

end
