(* ===== verification/Authentication_Guarantees.thy ===== *)
theory Authentication_Guarantees
  imports Authentication_Service
begin

section \<open>What an authenticated request guarantees\<close>

text \<open>
  The properties of the authentication service over the PostgreSQL repository: an accepted request is genuine, a refused
  one has a fixed error and changes nothing it should not, a signed request is accepted at most once even when expired
  reservations are removed, and a valid request is accepted when nothing fails.
\<close>

subsection \<open>The service over the repository\<close>

definition pgService ::
  "(go_error \<Rightarrow> bool) \<Rightarrow> bool \<Rightarrow> GatewayAudienceID \<Rightarrow> auth_db session secretSource \<Rightarrow> (auth_db session, time) state \<Rightarrow>
   auth_db session Service result" where
  "pgService timeout nilPool audience secrets clock =
     (let repository = Some (NewAuthenticationStateRepository nilPool) in
      NewService audience (Some (BoundAudience timeout repository)) (Some (repository_Credential timeout repository)) (Some secrets)
        (Some (repository_Principal timeout repository)) (Some (repository_Reserve timeout repository)) (Some clock))"

lemma pg_authenticate:
  assumes "pgService timeout nilPool audience secrets clock = Inr svc" "secretsFrom (sessionReady timeout) s_db keyring secrets"
    "clockFrom (sessionReady timeout) s_db clockAt clock" "sessionReady timeout s"
    "run_state (Authenticate ctx_Err (Some svc) ctx request) s = (r, s')"
  shows "sessionReady timeout s'" "authenticateOutcome keyring clockAt audience request (s_db s) r (s_db s')"
  using afterD [OF pgauth.Authenticate_after [OF assms(2-4) assms(1) [unfolded pgService_def Let_def]] assms(5)] by simp_all

lemma unix_word: "0 \<le> Unix now \<Longrightarrow> Unix now < 2 ^ 64 \<Longrightarrow> uint (word_of_int (Unix now) :: 64 word) = Unix now"
  by (simp add: uint_word_of_int_eq take_bit_int_eq_self)

text \<open>The range of the clock: \<^verbatim>\<open>Time.Unix\<close> is an \<^verbatim>\<open>int64\<close>.\<close>

definition unixRange :: "time \<Rightarrow> bool" where
  "unixRange t = (Unix t < 2 ^ 63)"

definition withinWindow :: "time \<Rightarrow> parsedRequest \<Rightarrow> bool" where
  "withinWindow now parsed = (\<bar>Unix now - uint (pq_timestamp parsed)\<bar> \<le> 60)"

lemma signatureVerified_window:
  "signatureVerified db keyring audience parsed now credential \<Longrightarrow> unixRange now \<Longrightarrow> withinWindow now parsed"
  by (auto simp: signatureVerified_def timestampWithinWindow_iff unix_word unixRange_def withinWindow_def)

lemma addReservation_reserved: "reserved (addReservation recordID nonce now db) recordID nonce"
  by (simp add: reserved_def addReservation_def reservationRow_def)

lemma addReservation_lookups [simp]:
  "principalLookup (addReservation recordID nonce now db) = principalLookup db"
  "storedPrincipal (addReservation recordID nonce now db) = storedPrincipal db"
  by (simp_all add: fun_eq_iff principalLookup_def selectPrincipalSQL_def addReservation_def storedPrincipal_def)

text \<open>C32. A request is only authenticated when it is genuine. Whatever the driver, the context, the secret source and the
  clock do, a call that returns a principal was made with a well-formed request whose credential is a row of the
  credential table for the configured audience that is usable at the time of the clock, whose signature is the keyed
  hash of the request under the secret of that credential, whose timestamp is at most 60 seconds away from the clock,
  and whose nonce had not been used with that credential and is stored now; the principal is a row of the principal
  table that is enabled and authorized for the intake.\<close>

theorem authenticated_request_is_genuine:
  assumes "pgService timeout nilPool audience secrets clock = Inr svc" "secretsFrom (sessionReady timeout) s_db keyring secrets"
    "clockFrom (sessionReady timeout) s_db unixRange clock" "sessionReady timeout s"
    "run_state (Authenticate ctx_Err (Some svc) ctx request) s = (Inr result, s')"
  shows "\<exists>parsed now credential secret core. parseRequest request = Inr parsed \<and>
    storedCredential (s_db s) credential \<and> cs_PublicID credential = pq_credentialID parsed \<and> cs_AudienceID credential = audience \<and>
    Credential_UsableAt credential now \<and>
    keyring audience (pq_credentialID parsed) = Some secret \<and>
    pq_signature parsed = requestMAC (formatUUID audience) parsed secret \<and> withinWindow now parsed \<and>
    \<not> reserved (s_db s) (cs_RecordID credential) (pq_nonce parsed) \<and>
    s_db s' = addReservation (cs_RecordID credential) (pq_nonce parsed) now (s_db s) \<and>
    storedPrincipal (s_db s) core \<and> AuthorizesIntake core audience \<and> pr_id core = pr_id (cs_Principal credential) \<and>
    rs_corePrincipalID result = pr_id core"
proof -
  obtain parsed now credential core secret where p: "parseRequest request = Inr parsed" "unixRange now"
      "signatureVerified (s_db s) keyring audience parsed now credential"
      "\<not> reserved (s_db s) (cs_RecordID credential) (pq_nonce parsed)"
      "s_db s' = addReservation (cs_RecordID credential) (pq_nonce parsed) now (s_db s)"
    and core: "principalLookup (s_db s) audience (pr_id (cs_Principal credential)) = Inr core" "AuthorizesIntake core audience"
      "rs_corePrincipalID result = pr_id core"
    and secret: "keyring audience (pq_credentialID parsed) = Some secret" "pq_signature parsed = requestMAC (formatUUID audience) parsed secret"
    using pg_authenticate(2) [OF assms]
    by (auto simp: authenticateOutcome_def authenticationPost_def nonceConsumed_def principalAllowed_def)
      (auto simp: signatureVerified_def)
  then have found: "credentialLookup (s_db s) audience (pq_credentialID parsed) = Inr credential" "Credential_UsableAt credential now"
    by (simp_all add: signatureVerified_def)
  show ?thesis
    using p core secret found(2) signatureVerified_window [OF p(3,2)] credentialLookup_stored [OF found(1)] principalLookup_stored [OF core(1)]
    by blast
qed

text \<open>C33. Refusals are safe and say nothing: every error of an authentication is one of the six fixed errors, and the call
  leaves the tables as they were unless the signature of the request verified, in which case it may have used up the
  nonce of the request. A request that is malformed, unsigned or signed with another secret never changes a table.\<close>

theorem refused_request_changes_nothing:
  assumes "pgService timeout nilPool audience secrets clock = Inr svc" "secretsFrom (sessionReady timeout) s_db keyring secrets"
    "clockFrom (sessionReady timeout) s_db clockAt clock" "sessionReady timeout s"
    "run_state (Authenticate ctx_Err (Some svc) ctx request) s = (Inl e, s')"
  shows "e \<in> authenticationErr ` authenticationKinds \<and>
    ((\<nexists>parsed secret. parseRequest request = Inr parsed \<and> keyring audience (pq_credentialID parsed) = Some secret \<and>
        pq_signature parsed = requestMAC (formatUUID audience) parsed secret) \<longrightarrow> s_db s' = s_db s)"
  using pg_authenticate(2) [OF assms]
  by (auto simp: authenticateOutcome_def authenticationPost_def nonceConsumed_def signatureVerified_def)

subsection \<open>Replays\<close>

text \<open>The life of the tables: requests are served one after the other, and in between anything may happen to the tables
  except that a reservation is only removed once it has expired. The list holds the credential record, the nonce and the
  timestamp of every accepted request.\<close>

inductive traffic ::
  "(go_error \<Rightarrow> bool) \<Rightarrow> (GatewayAudienceID \<Rightarrow> CredentialID \<Rightarrow> AuthenticationSecret option) \<Rightarrow> GatewayAudienceID \<Rightarrow>
   auth_db \<Rightarrow> time \<Rightarrow> (CredentialRecordID \<times> ReplayNonce \<times> 64 word) list \<Rightarrow> bool"
  for timeout keyring audience where
  opened: "traffic timeout keyring audience db t []"
| accepted: "traffic timeout keyring audience db t trace \<Longrightarrow> t \<le> now \<Longrightarrow> unixRange now \<Longrightarrow>
    pgService timeout nilPool audience secrets (State_Monad.return now) = Inr svc \<Longrightarrow>
    secretsFrom (sessionReady timeout) s_db keyring secrets \<Longrightarrow> sessionReady timeout s \<Longrightarrow> s_db s = db \<Longrightarrow>
    run_state (Authenticate ctx_Err (Some svc) ctx request) s = (Inr result, s') \<Longrightarrow>
    parseRequest request = Inr parsed \<Longrightarrow>
    credentialLookup db audience (pq_credentialID parsed) = Inr credential \<Longrightarrow>
    traffic timeout keyring audience (s_db s') now ((cs_RecordID credential, pq_nonce parsed, pq_timestamp parsed) # trace)"
| refused: "traffic timeout keyring audience db t trace \<Longrightarrow> t \<le> now \<Longrightarrow> unixRange now \<Longrightarrow>
    pgService timeout nilPool audience secrets (State_Monad.return now) = Inr svc \<Longrightarrow>
    secretsFrom (sessionReady timeout) s_db keyring secrets \<Longrightarrow> sessionReady timeout s \<Longrightarrow> s_db s = db \<Longrightarrow>
    run_state (Authenticate ctx_Err (Some svc) ctx request) s = (Inl e, s') \<Longrightarrow>
    traffic timeout keyring audience (s_db s') now trace"
| maintained: "traffic timeout keyring audience db t trace \<Longrightarrow> t \<le> t' \<Longrightarrow>
    \<forall>row\<in>set (au_replay db). stamp_less (timestampArgument t') (rr_expires_at row) \<longrightarrow> row \<in> set (au_replay db') \<Longrightarrow>
    traffic timeout keyring audience db' t' trace"

text \<open>An accepted request is remembered by a reservation that outlives its window, or its window has passed.\<close>

definition remembered :: "auth_db \<Rightarrow> time \<Rightarrow> CredentialRecordID \<times> ReplayNonce \<times> 64 word \<Rightarrow> bool" where
  "remembered db t entry =
     (case entry of (recordID, nonce, signedAt) \<Rightarrow>
        uint signedAt + 60 < Unix t \<or>
        (\<exists>row\<in>set (au_replay db). rr_credential_record_id row = recordID \<and> rr_nonce_bytes row = be_bytes 16 nonce \<and>
           (\<exists>us. rr_expires_at row = Stamp us \<and> uint signedAt + 60 < Unix (us * 1000))))"

lemma Unix_mono: "t \<le> t' \<Longrightarrow> Unix t \<le> Unix t'"
  by (simp add: Unix_def Second_def zdiv_mono1)

lemma remembered_mono:
  assumes "remembered db t entry" "t \<le> t'" "set (au_replay db) \<subseteq> set (au_replay db')"
  shows "remembered db' t' entry"
  using assms Unix_mono [OF assms(2)] by (fastforce simp: remembered_def split: prod.splits)

lemma remembered_maintained:
  assumes "remembered db t entry" "t \<le> t'"
    "\<forall>row\<in>set (au_replay db). stamp_less (timestampArgument t') (rr_expires_at row) \<longrightarrow> row \<in> set (au_replay db')"
  shows "remembered db' t' entry"
proof -
  have "uint signedAt + 60 < Unix t'"
    if "\<not> us > t' div 1000" "uint signedAt + 60 < Unix (us * 1000)" for us and signedAt :: "64 word"
  proof -
    have "us * 1000 \<le> t'" using that(1) by linarith
    with that(2) Unix_mono show ?thesis by fastforce
  qed
  with assms Unix_mono [OF assms(2)] show ?thesis
    by (fastforce simp: remembered_def timestampArgument_def split: prod.splits)
qed

lemma window_retained:
  assumes "withinWindow now parsed"
  shows "remembered (addReservation recordID (pq_nonce parsed) now db) now (recordID, pq_nonce parsed, pq_timestamp parsed)"
proof -
  let ?us = "(now + 300000000000) div 1000"
  have "now + 299000000000 \<le> ?us * 1000" by linarith
  then have "Unix (now + 299000000000) \<le> Unix (?us * 1000)" by (rule Unix_mono)
  moreover have "Unix (now + 299000000000) = Unix now + 299"
    by (simp add: Unix_def Second_def)
  ultimately have "uint (pq_timestamp parsed) + 60 < Unix (?us * 1000)"
    using assms by (simp add: withinWindow_def)
  then show ?thesis
    by (auto simp: remembered_def addReservation_def reservationRow_def timestampArgument_def Add_def replayReservationLifetime_def
        Minute_def Second_def)
qed

lemma clockFrom_return: "P now \<Longrightarrow> clockFrom ready tables P (State_Monad.return now)"
  by (simp add: clockFrom_def after_simps)

text \<open>One request against a clock that shows \<open>now\<close>.\<close>

lemma served_at:
  assumes "pgService timeout nilPool audience secrets (State_Monad.return now) = Inr svc"
    "secretsFrom (sessionReady timeout) s_db keyring secrets" "sessionReady timeout s"
    "run_state (Authenticate ctx_Err (Some svc) ctx request) s = (r, s')"
  shows "authenticateOutcome keyring (\<lambda>t. t = now) audience request (s_db s) r (s_db s')"
  by (rule pg_authenticate(2) [OF assms(1,2) clockFrom_return assms(3,4)]) simp

lemma accepted_consumes:
  assumes "authenticateOutcome keyring (\<lambda>t. t = now) audience request db (Inr result) db'"
    "parseRequest request = Inr parsed" "credentialLookup db audience (pq_credentialID parsed) = Inr credential"
  shows "nonceConsumed db keyring audience parsed now credential db'"
proof -
  from assms(1,2) obtain c where c: "nonceConsumed db keyring audience parsed now c db'"
    by (auto simp: authenticateOutcome_def authenticationPost_def)
  with assms(3) have "c = credential" by (simp add: nonceConsumed_def signatureVerified_def)
  with c show ?thesis by simp
qed

lemma outcome_keeps:
  "authenticateOutcome keyring (\<lambda>t. t = now) audience request db r db' \<Longrightarrow> set (au_replay db) \<subseteq> set (au_replay db')"
  by (cases r) (auto simp: authenticateOutcome_def authenticationPost_def nonceConsumed_def addReservation_def)

lemma consumed_fresh:
  assumes "nonceConsumed db keyring audience parsed now credential db'" "unixRange now"
  shows "\<not> remembered db now (cs_RecordID credential, pq_nonce parsed, pq_timestamp parsed)"
    "remembered db' now (cs_RecordID credential, pq_nonce parsed, pq_timestamp parsed)"
proof -
  have window: "withinWindow now parsed"
    using assms(1) signatureVerified_window [OF _ assms(2)] unfolding nonceConsumed_def by blast
  then show "\<not> remembered db now (cs_RecordID credential, pq_nonce parsed, pq_timestamp parsed)"
    using assms(1) by (auto simp: remembered_def nonceConsumed_def reserved_def withinWindow_def)
  show "remembered db' now (cs_RecordID credential, pq_nonce parsed, pq_timestamp parsed)"
    using assms(1) window_retained [OF window] by (simp add: nonceConsumed_def)
qed

lemma traffic_remembered:
  assumes "traffic timeout keyring audience db t trace"
  shows "distinct trace \<and> (\<forall>entry\<in>set trace. remembered db t entry)"
  using assms
proof induction
  case (accepted db t trace now nilPool secrets svc s ctx request result s' parsed credential)
  note outcome = served_at [OF accepted.hyps(4-6) accepted.hyps(8), unfolded accepted.hyps(7)]
  note fresh = consumed_fresh [OF accepted_consumes [OF outcome accepted.hyps(9,10)] accepted.hyps(3)]
  have kept: "remembered (s_db s') now entry" "remembered db now entry" if "entry \<in> set trace" for entry
    using remembered_mono [OF _ accepted.hyps(2)] outcome_keeps [OF outcome] accepted.IH that by blast+
  with fresh accepted.IH show ?case by auto
next
  case (refused db t trace now nilPool secrets svc s ctx request e s')
  note outcome = served_at [OF refused.hyps(4-6) refused.hyps(8), unfolded refused.hyps(7)]
  show ?case
    using remembered_mono [OF _ refused.hyps(2)] outcome_keeps [OF outcome] refused.IH by blast
next
  case (maintained db t trace t' db')
  then show ?case using remembered_maintained by blast
qed simp

text \<open>C31. A signed request is accepted at most once. Over any run of requests, with a clock that does not go back, and
  whatever else changes the tables as long as reservations are kept until they expire, no two accepted requests have the
  same credential record, nonce and timestamp: the retention of five minutes outlives the window of sixty seconds.\<close>

theorem signed_request_accepted_once:
  assumes "traffic timeout keyring audience db t trace"
  shows "distinct trace"
  using traffic_remembered [OF assms] by blast

subsection \<open>When nothing fails\<close>

text \<open>A service over a pool that works, a clock that shows \<open>now\<close>, and a source that has the secret.\<close>

definition delivers :: "auth_db session secretSource \<Rightarrow> GatewayAudienceID \<Rightarrow> CredentialID \<Rightarrow> AuthenticationSecret \<Rightarrow> bool" where
  "delivers secrets audience publicID k = (\<forall>ctx. secrets ctx audience publicID = State_Monad.return (Inr k))"

lemma dependency_calm:
  assumes "\<And>R. after call s R = R (Inr v) s1" "calm s1"
  shows "after (dependency ctx_Err call failure continue') s Q = after (continue' v) s1 Q"
  by (simp add: dependency_def dependencyCanceled_def contextDone_def after_simps assms(1) calm_ctx_Err [OF assms(2)] errorOf_def
      errors_Is_opt_def)

lemma contextDone_calm: "calm s \<Longrightarrow> after (contextDone ctx_Err) s Q = Q False s"
  by (simp add: contextDone_def after_simps calm_ctx_Err errors_Is_opt_def)

lemma reserve_nonce_calm:
  assumes "calm s" "s_tx s = None" "ctx \<noteq> NilContext" "cs_RecordID credential \<noteq> 0" "\<not> IsZero now" "audience \<noteq> 0"
    "\<exists>row\<in>set (au_credentials (s_db s)). cd_credential_record_id row = cs_RecordID credential"
    "\<not> timeout (Sentinel (Pgx ErrNoRows))" "pr_id (cs_Principal credential) \<noteq> 0"
    "principalLookup (s_db s) audience (pr_id (cs_Principal credential)) = Inr core"
  shows "after (reserve_nonce ctx_Err ctx audience (repository_Principal timeout (Some (NewAuthenticationStateRepository False)))
      (repository_Reserve timeout (Some (NewAuthenticationStateRepository False))) parsed now credential) s (\<lambda>r s'. r =
        (if reserved (s_db s) (cs_RecordID credential) (pq_nonce parsed) then Inl (authenticationErr ErrAuthenticationFailed)
         else authorize_principal audience credential core))"
proof -
  let ?repository = "Some (NewAuthenticationStateRepository False)"
  let ?kept = "connectionUsed (s\<lparr>s_db := addReservation (cs_RecordID credential) (pq_nonce parsed) now (s_db s)\<rparr>)"
  note call = Reserve_calm [where timeout = timeout and ctx = ctx, OF assms(1,3,4,5,7,8)]
  have owner: "after (repository_Principal timeout ?repository ctx audience (pr_id (cs_Principal credential))) ?kept R =
      R (Inr core) (connectionUsed ?kept)" for R
    by (rule Principal_calm) (use assms in simp_all)
  show ?thesis
  proof (cases "reserved (s_db s) (cs_RecordID credential) (pq_nonce parsed)")
    case True
    have "after (repository_Reserve timeout ?repository ctx (cs_RecordID credential) (pq_nonce parsed) now) s R =
        R (Inr ReplayDuplicate) (connectionUsed s)" for R
      by (simp add: call True)
    from dependency_calm [OF this] assms(1) True show ?thesis
      by (simp add: reserve_nonce_def after_simps contextDone_calm)
  next
    case False
    have "after (repository_Reserve timeout ?repository ctx (cs_RecordID credential) (pq_nonce parsed) now) s R =
        R (Inr ReplayReserved) ?kept" for R
      by (simp add: call False)
    from dependency_calm [OF this] dependency_calm [OF owner] assms(1) False show ?thesis
      by (simp add: reserve_nonce_def after_simps contextDone_calm)
  qed
qed

lemma authenticate_calm:
  assumes "pgService timeout False audience secrets (State_Monad.return now) = Inr svc" "calm s" "s_tx s = None" "ctx \<noteq> NilContext"
    "parseRequest request = Inr parsed" "signatureVerified (s_db s) keyring audience parsed now credential" "\<not> IsZero now"
    "keyring audience (pq_credentialID parsed) = Some k" "delivers secrets audience (pq_credentialID parsed) k"
    "\<not> timeout (Sentinel (Pgx ErrNoRows))"
    "principalLookup (s_db s) audience (pr_id (cs_Principal credential)) = Inr core" "AuthorizesIntake core audience"
  shows "after (Authenticate ctx_Err (Some svc) ctx request) s (\<lambda>r s'. r =
    (if reserved (s_db s) (cs_RecordID credential) (pq_nonce parsed) then Inl (authenticationErr ErrAuthenticationFailed)
     else Inr \<lparr>rs_corePrincipalID = pr_id core\<rparr>))"
proof -
  let ?repository = "Some (NewAuthenticationStateRepository False)"
  have svc: "serviceConfigured svc" "svc = \<lparr>sv_configuredAudience = audience, sv_audienceBinding = Some (BoundAudience timeout ?repository),
      sv_credentials = Some (repository_Credential timeout ?repository), sv_secrets = Some secrets,
      sv_principals = Some (repository_Principal timeout ?repository), sv_replay = Some (repository_Reserve timeout ?repository),
      sv_clock = Some (State_Monad.return now)\<rparr>"
    using assms(1) by (auto simp: pgService_def NewService_def Let_def split: if_splits)
  have nz: "audience \<noteq> 0" using svc by (auto simp: serviceConfigured_def)
  note verified = assms(6) [unfolded signatureVerified_def]
  note found = credentialLookup_stored [OF conjunct1 [OF conjunct2 [OF verified]]]
  have valid: "credentialRecordValid credential audience (pq_credentialID parsed)" "pq_credentialID parsed \<noteq> 0"
      "versionFour (pq_credentialID parsed)"
    using found verified parseRequest_fields [OF assms(5)] parseAuthorization_version
    by (auto simp: credentialRecordValid_def Credential_UsableAt_def split: if_splits)
  have owner: "authorize_principal audience credential core = Inr \<lparr>rs_corePrincipalID = pr_id core\<rparr>"
    using principalLookup_stored [OF assms(11)] assms(12) found(5) nz by (auto simp: authorize_principal_def AuthorizesIntake_def)
  have stored: "\<exists>row\<in>set (au_credentials (s_db s)). cd_credential_record_id row = cs_RecordID credential"
    using found(1) by (auto simp: storedCredential_def)
  have secret: "after (secrets ctx audience (pq_credentialID parsed)) s1 R = R (Inr k) s1" for s1 R
    using assms(9) by (simp add: delivers_def after_simps)
  have reads: "after (BoundAudience timeout ?repository ctx) s R = R (Inr audience) (connectionUsed s)"
      "after (repository_Credential timeout ?repository ctx audience (pq_credentialID parsed)) (connectionUsed s) R' =
         R' (Inr credential) (connectionUsed (connectionUsed s))" for R R'
    using assms(2-4) nz valid(2,3) verified by (simp_all add: BoundAudience_calm Credential_calm)
  let ?s = "connectionUsed (connectionUsed s)"
  have reserve: "after (reserve_nonce ctx_Err ctx audience (repository_Principal timeout ?repository)
      (repository_Reserve timeout ?repository) parsed now credential) ?s (\<lambda>r s'. r =
        (if reserved (s_db s) (cs_RecordID credential) (pq_nonce parsed) then Inl (authenticationErr ErrAuthenticationFailed)
         else Inr \<lparr>rs_corePrincipalID = pr_id core\<rparr>))"
    using reserve_nonce_calm [of ?s ctx credential now audience timeout core parsed] assms(2-4,7,10,11) found(4,5) nz stored
    by (simp add: owner cong: if_cong)
  show ?thesis
    using assms(2,4,7) svc(1) verified valid(1) nz reserve
    unfolding Authenticate_def authenticate_request_def check_credential_def verify_signature_def svc(2)
    by (simp add: after_simps contextDone_calm assms(5,8) dependency_calm [OF reads(1)] dependency_calm [OF reads(2)]
        dependency_calm [OF secret] Let_def)
qed

text \<open>C34. A valid request gets through, once. When the database and the context cooperate and the source has the secret, a
  well-formed request with a correct signature, a timestamp in the window, a usable credential of the bound audience and an
  authorized principal is answered with that principal if its nonce is new, and is refused as a replay otherwise.\<close>

theorem valid_request_is_accepted:
  assumes "pgService timeout False audience secrets (State_Monad.return now) = Inr svc" "calm s" "s_tx s = None" "ctx \<noteq> NilContext"
    "parseRequest request = Inr parsed" "signatureVerified (s_db s) keyring audience parsed now credential" "\<not> IsZero now"
    "keyring audience (pq_credentialID parsed) = Some k" "delivers secrets audience (pq_credentialID parsed) k"
    "\<not> timeout (Sentinel (Pgx ErrNoRows))"
    "principalLookup (s_db s) audience (pr_id (cs_Principal credential)) = Inr core" "AuthorizesIntake core audience"
  shows "fst (run_state (Authenticate ctx_Err (Some svc) ctx request) s) =
    (if reserved (s_db s) (cs_RecordID credential) (pq_nonce parsed) then Inl (authenticationErr ErrAuthenticationFailed)
     else Inr \<lparr>rs_corePrincipalID = pr_id core\<rparr>)"
  using authenticate_calm [OF assms] by (simp add: after_def split: prod.splits)

subsection \<open>A sample\<close>

definition sampleNow :: time where
  "sampleNow = (unixToInternal + 1700000010) * 1000000000"

definition sampleAuthDb :: auth_db where
  "sampleAuthDb =
     \<lparr>au_realm = [\<lparr>rm_singleton_key = True, rm_gateway_audience_id = 1\<rparr>],
      au_principals = [\<lparr>pp_core_principal_id = 2, pp_gateway_audience_id = 1, pp_enabled = True,
        pp_gateway_intake_v1_authorized = True, pp_created_at = Stamp 1, pp_state_changed_at = Stamp 1\<rparr>],
      au_slots = [\<lparr>so_credential_slot_id = 3, so_gateway_audience_id = 1, so_core_principal_id = 2, so_created_at = Stamp 1\<rparr>],
      au_credentials = [\<lparr>cd_credential_record_id = 4, cd_credential_id = 0x0f1e2d3c4b5a49788796a5b4c3d2e1f0,
        cd_credential_slot_id = 3, cd_gateway_audience_id = 1, cd_core_principal_id = 2, cd_credential_state = str ''active'',
        cd_not_before = Stamp (sampleNow div 1000 - 10), cd_expires_at = Stamp (sampleNow div 1000 + 10),
        cd_activated_at = Some (Stamp (sampleNow div 1000 - 10)), cd_retirement_started_at = None,
        cd_retirement_overlap_deadline = None, cd_revoked_at = None, cd_created_at = Stamp (sampleNow div 1000 - 10),
        cd_state_changed_at = Stamp (sampleNow div 1000 - 10)\<rparr>],
      au_replay = []\<rparr>"

definition samplePrincipal :: Principal where
  "samplePrincipal = \<lparr>pr_audienceID = 1, pr_id = 2, pr_enabled = True, pr_intakeAuthorized = True, pr_createdAt = 1000,
     pr_stateChangedAt = 1000\<rparr>"

definition sampleCredential :: CredentialSpec where
  "sampleCredential =
     \<lparr>cs_AudienceID = 1, cs_Principal = samplePrincipal,
      cs_Slot = \<lparr>sl_audienceID = 1, sl_principalID = 2, sl_id = 3, sl_createdAt = 1000\<rparr>, cs_RecordID = 4,
      cs_PublicID = 0x0f1e2d3c4b5a49788796a5b4c3d2e1f0, cs_State = CredentialActive,
      cs_NotBefore = sampleNow - 10000, cs_ExpiresAt = sampleNow + 10000, cs_ActivatedAt = sampleNow - 10000,
      cs_RetirementStartedAt = 0, cs_RetirementDeadline = 0, cs_RevokedAt = 0, cs_CreatedAt = sampleNow - 10000,
      cs_StateChangedAt = sampleNow - 10000\<rparr>"

lemma auth_sample_credential: "credentialLookup sampleAuthDb 1 0x0f1e2d3c4b5a49788796a5b4c3d2e1f0 = Inr sampleCredential"
proof -
  have v4: "versionFour 0x0f1e2d3c4b5a49788796a5b4c3d2e1f0" by code_simp
  have parse: "parseUUID (formatUUID 0x0f1e2d3c4b5a49788796a5b4c3d2e1f0) True = Inr 0x0f1e2d3c4b5a49788796a5b4c3d2e1f0"
    using v4 by (simp add: parseUUID_def formatUUID_layout hex_roundtrip of_be_bytes_be_bytes versionFour_def)
  have state: "credentialState (str ''active'') = Inr CredentialActive" by code_simp
  have now: "sampleNow = 63835596810000000000" by (simp add: sampleNow_def unixToInternal_def)
  have row: "selectCredentialSQL 1 0x0f1e2d3c4b5a49788796a5b4c3d2e1f0 sampleAuthDb = Some (1, True, hd (au_credentials sampleAuthDb),
      Some (hd (au_slots sampleAuthDb)), Some (hd (au_principals sampleAuthDb)))"
    by (simp add: selectCredentialSQL_def sampleAuthDb_def leftJoin_def)
  show ?thesis
    unfolding credentialLookup_def row
    by (simp add: scanCredential_def sampleAuthDb_def credentialOfRow_def credentialRecord_credential_def ownersOfRecord_def
        credentialOfRecord_def parse state parseUUID_formatUUID now finiteTimestamp_def optionalFiniteTime_def IsZero_def NewPrincipal_def NewCredentialSlot_def
        NewCredential_def validateCredentialSpec_def validateLifecycleHistory_def Before_def After_def sampleCredential_def samplePrincipal_def
        Sub_def minDuration_def maxDuration_def credentialMaxLifetime_def duration_defs)
qed

lemma auth_sample_principal: "principalLookup sampleAuthDb 1 2 = Inr samplePrincipal"
  by (simp add: principalLookup_def selectPrincipalSQL_def sampleAuthDb_def scanPrincipal_def principalOfScan_def parseUUID_formatUUID
      NewPrincipal_def IsZero_def Before_def samplePrincipal_def)

definition sampleSecrets :: "'w secretSource" where
  "sampleSecrets ctx audience publicID = State_Monad.return (Inr 0)"

definition sampleSignature :: bytes32 where
  "sampleSignature = requestMAC (formatUUID 1) (sampleParsed 0) 0"

definition sampleService :: "auth_db session Service" where
  "sampleService =
     (case pgService (\<lambda>_. False) False 1 sampleSecrets (State_Monad.return sampleNow) of Inr svc \<Rightarrow> svc)"

definition sampleAuthSession :: "auth_db session" where
  "sampleAuthSession = \<lparr>s_db = sampleAuthDb, s_tx = None, s_script = [], s_polls = [], s_log = []\<rparr>"

lemma auth_sample_service: "pgService (\<lambda>_. False) False 1 sampleSecrets (State_Monad.return sampleNow) = Inr sampleService"
  by (simp add: sampleService_def pgService_def NewService_def serviceConfigured_def Let_def)

lemma auth_sample_sources:
  "secretsFrom ready tables (\<lambda>_ _. Some 0) sampleSecrets" "delivers sampleSecrets audience publicID 0"
  by (simp_all add: secretsFrom_def delivers_def sampleSecrets_def after_simps)

lemma auth_sample_session: "calm sampleAuthSession" "s_tx sampleAuthSession = None" "s_db sampleAuthSession = sampleAuthDb"
    "sessionReady timeout sampleAuthSession"
  by (simp_all add: sampleAuthSession_def calm_def answering_def sessionReady_def replay_honest_def no_rows_honest_def)

lemma auth_sample_now: "Unix sampleNow = 1700000010" "\<not> IsZero sampleNow" "unixRange sampleNow"
  by (simp_all add: sampleNow_def Unix_def IsZero_def unixRange_def unixToInternal_def Second_def)

lemma auth_sample_verified:
  "signatureVerified sampleAuthDb (\<lambda>_ _. Some 0) 1 (sampleParsed sampleSignature) sampleNow sampleCredential"
proof -
  have "requestMAC (formatUUID 1) (sampleParsed sampleSignature) 0 = sampleSignature"
    unfolding sampleSignature_def requestMAC_def signingInput_def sampleParsed_def by simp
  moreover have "audienceLookup sampleAuthDb = Inr 1" by (simp add: audienceLookup_iff sampleAuthDb_def)
  moreover have "Credential_UsableAt sampleCredential sampleNow"
    by (simp add: Credential_UsableAt_def sampleCredential_def Before_def sampleNow_def unixToInternal_def)
  ultimately show ?thesis
    using auth_sample_credential
    by (simp add: signatureVerified_def sampleParsed_def auth_sample_now timestampWithinWindow_iff)
qed

lemma auth_sample_accepted:
  "\<exists>s'. run_state (Authenticate ctx_Err (Some sampleService) CallContext (sampleSignedRequest sampleSignature)) sampleAuthSession =
     (Inr \<lparr>rs_corePrincipalID = 2\<rparr>, s')"
proof -
  have fields: "pq_credentialID (sampleParsed sampleSignature) = 0x0f1e2d3c4b5a49788796a5b4c3d2e1f0"
      "pr_id (cs_Principal sampleCredential) = 2" "\<not> reserved sampleAuthDb r n" "AuthorizesIntake samplePrincipal 1"
      "pr_id samplePrincipal = 2" for r n
    by (simp_all add: sampleParsed_def sampleCredential_def samplePrincipal_def reserved_def sampleAuthDb_def AuthorizesIntake_def)
  have "after (Authenticate ctx_Err (Some sampleService) CallContext (sampleSignedRequest sampleSignature)) sampleAuthSession
      (\<lambda>r s'. r = (if reserved (s_db sampleAuthSession) (cs_RecordID sampleCredential) (pq_nonce (sampleParsed sampleSignature))
         then Inl (authenticationErr ErrAuthenticationFailed) else Inr \<lparr>rs_corePrincipalID = pr_id samplePrincipal\<rparr>))"
    by (rule authenticate_calm [OF auth_sample_service auth_sample_session(1,2) _ signed_sample_parsed _ auth_sample_now(2) _ auth_sample_sources(2)])
      (simp_all add: auth_sample_session auth_sample_verified auth_sample_principal fields)
  then show ?thesis by (auto simp: after_def auth_sample_session fields split: prod.splits)
qed

theorem authenticated_request_is_genuine_witness:
  "\<exists>s' parsed now credential. run_state (Authenticate ctx_Err (Some sampleService) CallContext (sampleSignedRequest sampleSignature))
       sampleAuthSession = (Inr \<lparr>rs_corePrincipalID = 2\<rparr>, s') \<and>
     parseRequest (sampleSignedRequest sampleSignature) = Inr parsed \<and> storedCredential sampleAuthDb credential \<and>
     withinWindow now parsed \<and> s_db s' = addReservation (cs_RecordID credential) (pq_nonce parsed) now sampleAuthDb"
proof -
  obtain s' where run: "run_state (Authenticate ctx_Err (Some sampleService) CallContext (sampleSignedRequest sampleSignature))
      sampleAuthSession = (Inr \<lparr>rs_corePrincipalID = 2\<rparr>, s')"
    using auth_sample_accepted by blast
  from authenticated_request_is_genuine [OF auth_sample_service auth_sample_sources(1) clockFrom_return [of unixRange, OF auth_sample_now(3)]
      auth_sample_session(4) run] run
  show ?thesis unfolding auth_sample_session(3) by blast
qed

theorem refused_request_changes_nothing_witness:
  "\<exists>e s'. run_state (Authenticate ctx_Err (Some sampleService) NilContext (sampleSignedRequest 0)) sampleAuthSession = (Inl e, s') \<and>
     e \<in> authenticationErr ` authenticationKinds"
proof -
  have "serviceConfigured sampleService"
    using auth_sample_service by (auto simp: pgService_def NewService_def Let_def split: if_splits)
  then have run: "run_state (Authenticate ctx_Err (Some sampleService) NilContext (sampleSignedRequest 0)) sampleAuthSession =
      (Inl (authenticationErr ErrRequestInvalid), sampleAuthSession)"
    by (simp add: Authenticate_def)
  from refused_request_changes_nothing [OF auth_sample_service auth_sample_sources(1) clockFrom_return [of unixRange, OF auth_sample_now(3)]
      auth_sample_session(4) run] run
  show ?thesis by blast
qed

theorem valid_request_is_accepted_witness:
  "fst (run_state (Authenticate ctx_Err (Some sampleService) CallContext (sampleSignedRequest sampleSignature)) sampleAuthSession) =
     Inr \<lparr>rs_corePrincipalID = 2\<rparr>"
proof -
  have fields: "pr_id (cs_Principal sampleCredential) = 2" "\<not> reserved sampleAuthDb r n" "AuthorizesIntake samplePrincipal 1"
      "pr_id samplePrincipal = 2" for r n
    by (simp_all add: sampleCredential_def samplePrincipal_def reserved_def sampleAuthDb_def AuthorizesIntake_def)
  have "fst (run_state (Authenticate ctx_Err (Some sampleService) CallContext (sampleSignedRequest sampleSignature)) sampleAuthSession) =
      (if reserved (s_db sampleAuthSession) (cs_RecordID sampleCredential) (pq_nonce (sampleParsed sampleSignature))
       then Inl (authenticationErr ErrAuthenticationFailed) else Inr \<lparr>rs_corePrincipalID = pr_id samplePrincipal\<rparr>)"
    by (rule valid_request_is_accepted [OF auth_sample_service auth_sample_session(1,2) _ signed_sample_parsed _ auth_sample_now(2) _ auth_sample_sources(2)])
      (simp_all add: auth_sample_session auth_sample_verified auth_sample_principal fields)
  then show ?thesis by (simp add: auth_sample_session fields)
qed

theorem signed_request_accepted_once_witness:
  "\<exists>db trace. traffic (\<lambda>_. False) (\<lambda>_ _. Some 0) 1 db sampleNow trace \<and> trace \<noteq> [] \<and> distinct trace"
proof -
  obtain s' where run: "run_state (Authenticate ctx_Err (Some sampleService) CallContext (sampleSignedRequest sampleSignature))
      sampleAuthSession = (Inr \<lparr>rs_corePrincipalID = 2\<rparr>, s')"
    using auth_sample_accepted by blast
  have lookup: "credentialLookup sampleAuthDb 1 (pq_credentialID (sampleParsed sampleSignature)) = Inr sampleCredential"
    using auth_sample_credential by (simp add: sampleParsed_def)
  have "traffic (\<lambda>_. False) (\<lambda>_ _. Some 0) 1 (s_db s') sampleNow [(cs_RecordID sampleCredential, pq_nonce (sampleParsed sampleSignature),
      pq_timestamp (sampleParsed sampleSignature))]"
    by (rule traffic.accepted [OF traffic.opened order_refl auth_sample_now(3) auth_sample_service auth_sample_sources(1) auth_sample_session(4,3) run
        signed_sample_parsed lookup])
  with signed_request_accepted_once [OF this] show ?thesis by blast
qed

end
