(* ===== verification/Durable_Store.thy ===== *)
theory Durable_Store
  imports Identifiers Pg_Session
begin

section \<open>Durable acceptance\<close>

text \<open>
  The package \<^verbatim>\<open>internal/durable\<close>: the values handed to the store (\<^verbatim>\<open>types.go\<close>), the receipt
  generator, and the service \<^verbatim>\<open>Service.Accept\<close> of \<^verbatim>\<open>store.go\<close> over an abstract world \<open>'w\<close> that its
  repository, its digest opener and its receipt source act on. A Go \<^verbatim>\<open>int64\<close> is a 64-bit word
  read by \<open>sint\<close>. The contract of a repository is the locale \<open>acceptance_repository\<close>; the service
  is proved once against it to refine a store in which the first acceptance of a delivery
  identity wins.
\<close>

type_synonym int64 = "64 word"
type_synonym ReceiptID = bytes16
type_synonym DeliveryIdentity = bytes16
type_synonym CanonicalDigest = bytes32

subsection \<open>Values\<close>

record ProtectedValue =
  pv_ciphertext :: "byte list"
  pv_nonce :: "byte list"

definition NewProtectedValue :: "byte list \<Rightarrow> byte list \<Rightarrow> ProtectedValue result" where
  "NewProtectedValue ciphertext nonce =
     (if ciphertext = [] \<or> nonce = [] then Inl (durableErr ErrInvalidAcceptance)
      else Inr \<lparr>pv_ciphertext = ciphertext, pv_nonce = nonce\<rparr>)"

definition ProtectedValue_valid :: "ProtectedValue \<Rightarrow> bool" where
  "ProtectedValue_valid v = (0 < length (pv_ciphertext v) \<and> 0 < length (pv_nonce v))"

record PreparedAcceptance =
  pa_corePrincipalID :: gostring
  pa_destinationID :: gostring
  pa_deliveryIdentity :: DeliveryIdentity
  pa_formatVersion :: int64
  pa_canonicalEvent :: ProtectedValue
  pa_protectedDigest :: ProtectedValue
  pa_encryptionKeyID :: gostring
  pa_equivalenceDigest :: CanonicalDigest

definition PreparedAcceptance_validate :: "PreparedAcceptance \<Rightarrow> go_error option" where
  "PreparedAcceptance_validate a =
     (if pa_corePrincipalID a = [] \<or> pa_destinationID a = [] \<or> pa_deliveryIdentity a = 0 \<or>
         sint (pa_formatVersion a) \<le> 0 \<or> \<not> ProtectedValue_valid (pa_canonicalEvent a) \<or>
         \<not> ProtectedValue_valid (pa_protectedDigest a) \<or> pa_encryptionKeyID a = []
      then Some (durableErr ErrInvalidAcceptance) else None)"

definition NewPreparedAcceptance ::
  "gostring \<Rightarrow> gostring \<Rightarrow> DeliveryIdentity \<Rightarrow> int64 \<Rightarrow> ProtectedValue \<Rightarrow> ProtectedValue \<Rightarrow> gostring \<Rightarrow>
   CanonicalDigest \<Rightarrow> PreparedAcceptance result" where
  "NewPreparedAcceptance corePrincipalID destinationID deliveryIdentity formatVersion canonicalEvent
     protectedDigest encryptionKeyID equivalenceDigest =
     (let acceptance = \<lparr>pa_corePrincipalID = corePrincipalID, pa_destinationID = destinationID,
            pa_deliveryIdentity = deliveryIdentity, pa_formatVersion = formatVersion,
            pa_canonicalEvent = canonicalEvent, pa_protectedDigest = protectedDigest,
            pa_encryptionKeyID = encryptionKeyID, pa_equivalenceDigest = equivalenceDigest\<rparr>
      in case PreparedAcceptance_validate acceptance of
           Some e \<Rightarrow> Inl e
         | None \<Rightarrow> Inr acceptance)"

text \<open>\<^verbatim>\<open>Disposition\<close> is a \<^verbatim>\<open>uint8\<close> whose zero value names no disposition.\<close>

type_synonym Disposition = byte

definition AcceptedNew :: Disposition where "AcceptedNew = 1"
definition AcceptedDuplicate :: Disposition where "AcceptedDuplicate = 2"
definition IdentityConflict :: Disposition where "IdentityConflict = 3"

lemma dispositions_distinct [simp]:
  "AcceptedNew \<noteq> AcceptedDuplicate" "AcceptedDuplicate \<noteq> AcceptedNew" "AcceptedNew \<noteq> IdentityConflict"
  "IdentityConflict \<noteq> AcceptedNew" "AcceptedDuplicate \<noteq> IdentityConflict" "IdentityConflict \<noteq> AcceptedDuplicate"
  by (simp_all add: AcceptedNew_def AcceptedDuplicate_def IdentityConflict_def)

record Result =
  r_Disposition :: Disposition
  r_ReceiptID :: ReceiptID

record Candidate =
  c_ReceiptID :: ReceiptID
  c_Acceptance :: PreparedAcceptance

record StoredAcceptance =
  sa_ReceiptID :: ReceiptID
  sa_FormatVersion :: int64
  sa_ProtectedDigest :: ProtectedValue
  sa_EncryptionKeyID :: gostring

record PersistenceResult =
  pr_Inserted :: bool
  pr_Stored :: StoredAcceptance

record DigestOpenRequest =
  do_ProtectedDigest :: ProtectedValue
  do_EncryptionKeyID :: gostring
  do_CorePrincipalID :: gostring
  do_DestinationID :: gostring
  do_DeliveryIdentity :: DeliveryIdentity
  do_FormatVersion :: int64

subsection \<open>The receipt generator\<close>

text \<open>\<^verbatim>\<open>UUIDv4Generator.NewReceiptID\<close>; \<open>read\<close> is \<^verbatim>\<open>io.ReadFull\<close> of sixteen bytes from its reader.\<close>

definition NewReceiptID :: "('w, bytes16 result) state \<Rightarrow> ('w, ReceiptID result) state" where
  "NewReceiptID read = do {
     r \<leftarrow> read;
     State_Monad.return (case r of
         Inl _ \<Rightarrow> Inl (durableErr ErrReceiptGeneration)
       | Inr v \<Rightarrow> Inr (of_be_bytes (stampV4 (be_bytes 16 v)))) }"

subsection \<open>The service\<close>

record 'w DurableService =
  ds_repository :: "(Candidate \<Rightarrow> ('w, PersistenceResult result) state) option"
  ds_opener :: "(DigestOpenRequest \<Rightarrow> ('w, CanonicalDigest result) state) option"
  ds_receipts :: "('w, ReceiptID result) state option"

definition digestsEqual :: "CanonicalDigest \<Rightarrow> CanonicalDigest \<Rightarrow> bool" where
  "digestsEqual left right = (left = right)"

definition classifyRepositoryError :: "go_error \<Rightarrow> go_error" where
  "classifyRepositoryError err =
     (case find (\<lambda>safe. errors_Is err (Durable safe))
        [ErrStoreUnavailable, ErrStoreOutcomeUnknown, ErrStoreCanceled, ErrStoreFailure, ErrStoredRecordUnreadable] of
        Some safe \<Rightarrow> durableErr safe
      | None \<Rightarrow> durableErr ErrStoreFailure)"

definition openRequest :: "PreparedAcceptance \<Rightarrow> StoredAcceptance \<Rightarrow> DigestOpenRequest" where
  "openRequest acceptance stored =
     \<lparr>do_ProtectedDigest = sa_ProtectedDigest stored, do_EncryptionKeyID = sa_EncryptionKeyID stored,
      do_CorePrincipalID = pa_corePrincipalID acceptance, do_DestinationID = pa_destinationID acceptance,
      do_DeliveryIdentity = pa_deliveryIdentity acceptance, do_FormatVersion = sa_FormatVersion stored\<rparr>"

definition storedReadable :: "StoredAcceptance \<Rightarrow> bool" where
  "storedReadable stored =
     (sa_ReceiptID stored \<noteq> 0 \<and> 0 < sint (sa_FormatVersion stored) \<and>
      ProtectedValue_valid (sa_ProtectedDigest stored) \<and> sa_EncryptionKeyID stored \<noteq> [])"

text \<open>What is answered for an acceptance whose delivery identity is already stored.\<close>

definition compareStored :: "PreparedAcceptance \<Rightarrow> StoredAcceptance \<Rightarrow> CanonicalDigest \<Rightarrow> Result" where
  "compareStored acceptance stored storedDigest =
     (if sa_FormatVersion stored = pa_formatVersion acceptance \<and>
         digestsEqual storedDigest (pa_equivalenceDigest acceptance)
      then \<lparr>r_Disposition = AcceptedDuplicate, r_ReceiptID = sa_ReceiptID stored\<rparr>
      else \<lparr>r_Disposition = IdentityConflict, r_ReceiptID = 0\<rparr>)"

definition accept_stored ::
  "(DigestOpenRequest \<Rightarrow> ('w, CanonicalDigest result) state) \<Rightarrow> PreparedAcceptance \<Rightarrow> StoredAcceptance \<Rightarrow>
   ('w, Result result) state" where
  "accept_stored opener acceptance stored =
     (if \<not> storedReadable stored then State_Monad.return (Inl (durableErr ErrStoredRecordUnreadable))
      else do {
        opened \<leftarrow> opener (openRequest acceptance stored);
        State_Monad.return (case opened of
            Inl _ \<Rightarrow> Inl (durableErr ErrStoredRecordUnreadable)
          | Inr storedDigest \<Rightarrow> Inr (compareStored acceptance stored storedDigest)) })"

definition accept_candidate ::
  "(Candidate \<Rightarrow> ('w, PersistenceResult result) state) \<Rightarrow> (DigestOpenRequest \<Rightarrow> ('w, CanonicalDigest result) state) \<Rightarrow>
   PreparedAcceptance \<Rightarrow> ReceiptID \<Rightarrow> ('w, Result result) state" where
  "accept_candidate repository opener acceptance receipt = do {
     persisted \<leftarrow> repository \<lparr>c_ReceiptID = receipt, c_Acceptance = acceptance\<rparr>;
     case persisted of
       Inl err \<Rightarrow> State_Monad.return (Inl (classifyRepositoryError err))
     | Inr p \<Rightarrow>
         if pr_Inserted p
         then State_Monad.return
           (if sa_ReceiptID (pr_Stored p) \<noteq> receipt then Inl (durableErr ErrStoreFailure)
            else Inr \<lparr>r_Disposition = AcceptedNew, r_ReceiptID = receipt\<rparr>)
         else accept_stored opener acceptance (pr_Stored p) }"

definition durable_Accept ::
  "'w DurableService option \<Rightarrow> PreparedAcceptance \<Rightarrow> ('w, Result result) state" where
  "durable_Accept service acceptance =
     (case service of
        None \<Rightarrow> State_Monad.return (Inl (durableErr ErrStoreFailure))
      | Some svc \<Rightarrow>
          (case (ds_repository svc, ds_opener svc, ds_receipts svc) of
             (Some repository, Some opener, Some receipts) \<Rightarrow>
               if PreparedAcceptance_validate acceptance \<noteq> None
               then State_Monad.return (Inl (durableErr ErrInvalidAcceptance))
               else do {
                 generated \<leftarrow> receipts;
                 case generated of
                   Inl _ \<Rightarrow> State_Monad.return (Inl (durableErr ErrReceiptGeneration))
                 | Inr receipt \<Rightarrow>
                     if receipt = 0 then State_Monad.return (Inl (durableErr ErrReceiptGeneration))
                     else accept_candidate repository opener acceptance receipt }
           | _ \<Rightarrow> State_Monad.return (Inl (durableErr ErrStoreFailure))))"

subsection \<open>The promise of a repository\<close>

type_synonym deliveryKey = "gostring \<times> gostring \<times> DeliveryIdentity"

definition deliveryKey :: "PreparedAcceptance \<Rightarrow> deliveryKey" where
  "deliveryKey a = (pa_corePrincipalID a, pa_destinationID a, pa_deliveryIdentity a)"

definition storedAs :: "ReceiptID \<Rightarrow> PreparedAcceptance \<Rightarrow> StoredAcceptance" where
  "storedAs receipt a =
     \<lparr>sa_ReceiptID = receipt, sa_FormatVersion = pa_formatVersion a,
      sa_ProtectedDigest = pa_protectedDigest a, sa_EncryptionKeyID = pa_encryptionKeyID a\<rparr>"

text \<open>What an insertion of a candidate into the accepted deliveries \<open>m\<close> may report, and what it leaves.
  Only an unknown outcome leaves open whether the candidate was stored.\<close>

definition insertPost ::
  "(deliveryKey \<rightharpoonup> StoredAcceptance) \<Rightarrow> Candidate \<Rightarrow> PersistenceResult result \<Rightarrow> (deliveryKey \<rightharpoonup> StoredAcceptance) \<Rightarrow> bool" where
  "insertPost m c r m' =
     (let k = deliveryKey (c_Acceptance c); new = m(k \<mapsto> storedAs (c_ReceiptID c) (c_Acceptance c)) in
      case r of
        Inr p \<Rightarrow>
          if pr_Inserted p then sa_ReceiptID (pr_Stored p) = c_ReceiptID c \<and> m k = None \<and> m' = new
          else m k = Some (pr_Stored p) \<and> m' = m
      | Inl e \<Rightarrow>
          m' = m \<or> classifyRepositoryError e = durableErr ErrStoreOutcomeUnknown \<and> m k = None \<and> m' = new)"

text \<open>A call that leaves the accepted deliveries alone and whose result satisfies \<open>P\<close>.\<close>

definition reads :: "('w \<Rightarrow> 'm) \<Rightarrow> ('w \<Rightarrow> bool) \<Rightarrow> ('w, 'a) state \<Rightarrow> ('a \<Rightarrow> bool) \<Rightarrow> bool" where
  "reads view ready p P = (\<forall>w. ready w \<longrightarrow> after p w (\<lambda>r w'. ready w' \<and> view w' = view w \<and> P r))"

lemma readsD: "reads view ready p P \<Longrightarrow> ready w \<Longrightarrow> after p w (\<lambda>r w'. ready w' \<and> view w' = view w \<and> P r)"
  by (simp add: reads_def)

lemma readsI: "(\<And>w. ready w \<Longrightarrow> after p w (\<lambda>r w'. ready w' \<and> view w' = view w \<and> P r)) \<Longrightarrow> reads view ready p P"
  by (simp add: reads_def)

lemma reads_bind:
  assumes "reads view ready p P" "\<And>x. P x \<Longrightarrow> reads view ready (f x) Q"
  shows "reads view ready (State_Monad.bind p f) Q"
proof (rule readsI)
  fix w assume w: "ready w"
  show "after (State_Monad.bind p f) w (\<lambda>r w'. ready w' \<and> view w' = view w \<and> Q r)"
    unfolding after_bind
  proof (rule after_mono [OF readsD [OF assms(1) w]])
    fix x w' assume x: "ready w' \<and> view w' = view w \<and> P x"
    then show "after (f x) w' (\<lambda>r w'. ready w' \<and> view w' = view w \<and> Q r)"
      using readsD [OF assms(2), of x w'] by simp
  qed
qed

lemma reads_return: "P x \<Longrightarrow> reads view ready (State_Monad.return x) P"
  by (simp add: reads_def after_simps)

lemma reads_if: "(c \<Longrightarrow> reads view ready p P) \<Longrightarrow> (\<not> c \<Longrightarrow> reads view ready q P) \<Longrightarrow> reads view ready (if c then p else q) P"
  by simp

lemma reads_sum:
  "(\<And>e. x = Inl e \<Longrightarrow> reads view ready (f e) P) \<Longrightarrow> (\<And>v. x = Inr v \<Longrightarrow> reads view ready (g v) P) \<Longrightarrow>
     reads view ready (case x of Inl e \<Rightarrow> f e | Inr v \<Rightarrow> g v) P"
  by (cases x) simp_all

lemma reads_prod: "(\<And>a b. x = (a, b) \<Longrightarrow> reads view ready (f a b) P) \<Longrightarrow> reads view ready (case x of (a, b) \<Rightarrow> f a b) P"
  by (cases x) simp

lemmas reads_intro = reads_return reads_if reads_sum reads_prod reads_bind

lemma reads_mono: "reads view ready p P \<Longrightarrow> (\<And>r. P r \<Longrightarrow> Q r) \<Longrightarrow> reads view ready p Q"
  by (auto simp: reads_def intro: after_mono)

text \<open>What accepting \<open>a\<close> may report and leave. \<open>digestOf\<close> is the digest an opener reads from a stored
  acceptance.\<close>

definition acceptPost ::
  "(PreparedAcceptance \<Rightarrow> StoredAcceptance \<Rightarrow> CanonicalDigest option) \<Rightarrow> (deliveryKey \<rightharpoonup> StoredAcceptance) \<Rightarrow>
   PreparedAcceptance \<Rightarrow> Result result \<Rightarrow> (deliveryKey \<rightharpoonup> StoredAcceptance) \<Rightarrow> bool" where
  "acceptPost digestOf m a r m' =
     (case r of
        Inr res \<Rightarrow>
          (\<exists>receipt. receipt \<noteq> 0 \<and> res = \<lparr>r_Disposition = AcceptedNew, r_ReceiptID = receipt\<rparr> \<and>
             m (deliveryKey a) = None \<and> m' = m(deliveryKey a \<mapsto> storedAs receipt a)) \<or>
          (\<exists>st d. m (deliveryKey a) = Some st \<and> storedReadable st \<and> digestOf a st = Some d \<and>
             res = compareStored a st d \<and> m' = m)
      | Inl e \<Rightarrow>
          m' = m \<or>
          e = durableErr ErrStoreOutcomeUnknown \<and> m (deliveryKey a) = None \<and>
          (\<exists>receipt. m' = m(deliveryKey a \<mapsto> storedAs receipt a)))"

definition durableService ::
  "(Candidate \<Rightarrow> ('w, PersistenceResult result) state) \<Rightarrow> (DigestOpenRequest \<Rightarrow> ('w, CanonicalDigest result) state) \<Rightarrow>
   ('w, ReceiptID result) state \<Rightarrow> 'w DurableService" where
  "durableService repository opener receipts =
     \<lparr>ds_repository = Some repository, ds_opener = Some opener, ds_receipts = Some receipts\<rparr>"

text \<open>Accepting a sequence of deliveries, each call whatever the ones before it answered.\<close>

fun acceptAll :: "'w DurableService \<Rightarrow> PreparedAcceptance list \<Rightarrow> ('w, Result result list) state" where
  "acceptAll svc [] = State_Monad.return []"
| "acceptAll svc (a # as) = do {
     r \<leftarrow> durable_Accept (Some svc) a;
     rs \<leftarrow> acceptAll svc as;
     State_Monad.return (r # rs) }"

text \<open>The receipts reported as new for a delivery.\<close>

fun newReceipts :: "deliveryKey \<Rightarrow> PreparedAcceptance list \<Rightarrow> Result result list \<Rightarrow> ReceiptID list" where
  "newReceipts k (a # as) (r # rs) =
     (case r of
        Inr res \<Rightarrow> if deliveryKey a = k \<and> r_Disposition res = AcceptedNew
          then r_ReceiptID res # newReceipts k as rs else newReceipts k as rs
      | Inl _ \<Rightarrow> newReceipts k as rs)"
| "newReceipts k _ _ = []"

text \<open>An opener that reads the digests \<open>digestOf\<close> gives.\<close>

definition opensWith ::
  "('w \<Rightarrow> 'm) \<Rightarrow> ('w \<Rightarrow> bool) \<Rightarrow> (DigestOpenRequest \<Rightarrow> ('w, CanonicalDigest result) state) \<Rightarrow>
   (PreparedAcceptance \<Rightarrow> StoredAcceptance \<Rightarrow> CanonicalDigest option) \<Rightarrow> bool" where
  "opensWith view ready opener digestOf =
     (\<forall>a st. reads view ready (opener (openRequest a st)) (\<lambda>r. \<forall>d. r = Inr d \<longrightarrow> digestOf a st = Some d))"

text \<open>What a sequence of calls reported as new, between the accepted deliveries \<open>m\<close> and \<open>m'\<close>: for every
  delivery nothing, or the one receipt it was stored under since.\<close>

definition newOnce ::
  "(deliveryKey \<rightharpoonup> StoredAcceptance) \<Rightarrow> PreparedAcceptance list \<Rightarrow> Result result list \<Rightarrow> (deliveryKey \<rightharpoonup> StoredAcceptance) \<Rightarrow> bool" where
  "newOnce m as rs m' =
     (m \<subseteq>\<^sub>m m' \<and>
      (\<forall>k. newReceipts k as rs = [] \<or>
         m k = None \<and> (\<exists>st. m' k = Some st \<and> newReceipts k as rs = [sa_ReceiptID st])))"

lemma acceptPost_extends: "acceptPost digestOf m a r m' \<Longrightarrow> m \<subseteq>\<^sub>m m'"
  by (cases r) (auto simp: acceptPost_def map_le_def)

lemma acceptPost_new:
  assumes "acceptPost digestOf m a (Inr res) m'" "r_Disposition res = AcceptedNew"
  shows "m (deliveryKey a) = None" "\<exists>st. m' (deliveryKey a) = Some st \<and> sa_ReceiptID st = r_ReceiptID res"
  using assms by (auto simp: acceptPost_def compareStored_def storedAs_def split: if_splits)

lemma map_leD: "m \<subseteq>\<^sub>m m' \<Longrightarrow> m k = Some v \<Longrightarrow> m' k = Some v"
  by (metis domI map_le_def)

lemma newOnce_step:
  assumes step: "acceptPost digestOf m a r m'" and tail: "newOnce m' as rs m''"
  shows "newOnce m (a # as) (r # rs) m''"
  unfolding newOnce_def
proof (intro conjI allI)
  have le: "m \<subseteq>\<^sub>m m'" by (rule acceptPost_extends [OF step])
  have le': "m' \<subseteq>\<^sub>m m''" using tail by (simp add: newOnce_def)
  show "m \<subseteq>\<^sub>m m''" using le le' by (rule map_le_trans)
  fix k
  have once: "newReceipts k as rs = [] \<or> m' k = None \<and> (\<exists>st. m'' k = Some st \<and> newReceipts k as rs = [sa_ReceiptID st])"
    using tail unfolding newOnce_def by blast
  show "newReceipts k (a # as) (r # rs) = [] \<or>
      m k = None \<and> (\<exists>st. m'' k = Some st \<and> newReceipts k (a # as) (r # rs) = [sa_ReceiptID st])"
  proof (cases "\<exists>res. r = Inr res \<and> deliveryKey a = k \<and> r_Disposition res = AcceptedNew")
    case True
    then obtain res st where "r = Inr res" "deliveryKey a = k" "r_Disposition res = AcceptedNew"
      "m k = None" "m' k = Some st" "sa_ReceiptID st = r_ReceiptID res"
      using acceptPost_new step by blast
    with once map_leD [OF le', of k st] show ?thesis by simp
  next
    case False
    then have "newReceipts k (a # as) (r # rs) = newReceipts k as rs"
      by (cases r) auto
    moreover have "m' k = None \<Longrightarrow> m k = None"
      using map_leD [OF le, of k] by (cases "m k") auto
    ultimately show ?thesis using once by metis
  qed
qed

locale acceptance_repository =
  fixes insertOrLoad :: "Candidate \<Rightarrow> ('w, PersistenceResult result) state"
    and accepted :: "'w \<Rightarrow> deliveryKey \<Rightarrow> StoredAcceptance option"
    and ready :: "'w \<Rightarrow> bool"
  assumes inserts:
    "ready w \<Longrightarrow> PreparedAcceptance_validate (c_Acceptance c) = None \<Longrightarrow> c_ReceiptID c \<noteq> 0 \<Longrightarrow>
       after (insertOrLoad c) w (\<lambda>r w'. ready w' \<and> insertPost (accepted w) c r (accepted w'))"
begin

lemma accept_stored_after:
  assumes "opensWith accepted ready opener digestOf" "ready w" "accepted w (deliveryKey a) = Some st"
  shows "after (accept_stored opener a st) w (\<lambda>r w'. ready w' \<and> acceptPost digestOf (accepted w) a r (accepted w'))"
proof -
  have opened: "after (opener (openRequest a st)) w
      (\<lambda>r w'. ready w' \<and> accepted w' = accepted w \<and> (\<forall>d. r = Inr d \<longrightarrow> digestOf a st = Some d))"
    using assms(1,2) by (simp add: opensWith_def reads_def)
  show ?thesis
    unfolding accept_stored_def
    by (intro after_intro after_mono [OF opened]; use assms(2,3) in \<open>auto simp: acceptPost_def split: sum.splits\<close>)
qed

lemma accept_candidate_after:
  assumes "opensWith accepted ready opener digestOf" "ready w" "PreparedAcceptance_validate a = None" "receipt \<noteq> 0"
  shows "after (accept_candidate insertOrLoad opener a receipt) w
    (\<lambda>r w'. ready w' \<and> acceptPost digestOf (accepted w) a r (accepted w'))"
proof -
  let ?c = "\<lparr>c_ReceiptID = receipt, c_Acceptance = a\<rparr>"
  have "after (insertOrLoad ?c) w (\<lambda>r w'. ready w' \<and> insertPost (accepted w) ?c r (accepted w'))"
    using inserts [of w ?c] assms by simp
  then show ?thesis
    unfolding accept_candidate_def
  proof (intro after_intro, elim after_mono)
    fix r w' assume r: "ready w' \<and> insertPost (accepted w) ?c r (accepted w')"
    have stored: "after (accept_stored opener a (pr_Stored p)) w'
        (\<lambda>r w'. ready w' \<and> acceptPost digestOf (accepted w) a r (accepted w'))"
      if "r = Inr p" "\<not> pr_Inserted p" for p
      using accept_stored_after [OF assms(1), of w' a "pr_Stored p"] r that
      by (simp add: insertPost_def Let_def)
    show "after (case r of
         Inl err \<Rightarrow> State_Monad.return (Inl (classifyRepositoryError err))
       | Inr p \<Rightarrow> if pr_Inserted p
           then State_Monad.return (if sa_ReceiptID (pr_Stored p) \<noteq> receipt then Inl (durableErr ErrStoreFailure)
             else Inr \<lparr>r_Disposition = AcceptedNew, r_ReceiptID = receipt\<rparr>)
           else accept_stored opener a (pr_Stored p)) w'
        (\<lambda>r w'. ready w' \<and> acceptPost digestOf (accepted w) a r (accepted w'))"
      by (intro after_intro stored; use r assms(4) in \<open>auto simp: insertPost_def acceptPost_def Let_def split: if_splits\<close>)
  qed
qed

lemma accept_after:
  assumes "opensWith accepted ready opener digestOf" "reads accepted ready receipts (\<lambda>_. True)" "ready w"
  shows "after (durable_Accept (Some (durableService insertOrLoad opener receipts)) a) w
    (\<lambda>r w'. ready w' \<and> acceptPost digestOf (accepted w) a r (accepted w'))"
proof -
  have keep: "acceptPost digestOf m a (Inl e) m" for m e by (simp add: acceptPost_def)
  show ?thesis
    unfolding durable_Accept_def durableService_def option.case DurableService.simps prod.case
    apply (intro after_intro after_mono [OF readsD [OF assms(2,3)]])
    subgoal using assms(3) keep by simp
    subgoal using keep by simp
    subgoal using keep by simp
    subgoal for x s' receipt using accept_candidate_after [OF assms(1), of s' a receipt] by simp
    done
qed

lemma accept_all_after:
  assumes "opensWith accepted ready opener digestOf" "reads accepted ready receipts (\<lambda>_. True)" "ready w"
  shows "after (acceptAll (durableService insertOrLoad opener receipts) as) w
    (\<lambda>rs w'. ready w' \<and> newOnce (accepted w) as rs (accepted w'))"
  using assms(3)
proof (induction "as" arbitrary: w)
  case Nil
  then show ?case by (simp add: after_simps newOnce_def)
next
  case (Cons a "as")
  show ?case
    unfolding acceptAll.simps
  proof (intro after_intro after_mono [OF accept_after [OF assms(1,2) Cons.prems]])
    fix r w' assume step: "ready w' \<and> acceptPost digestOf (accepted w) a r (accepted w')"
    show "after (acceptAll (durableService insertOrLoad opener receipts) as) w'
        (\<lambda>rs s'. after (State_Monad.return (r # rs)) s'
          (\<lambda>rs w'. ready w' \<and> newOnce (accepted w) (a # as) rs (accepted w')))"
      by (rule after_mono [OF Cons.IH [OF conjunct1 [OF step]]])
        (use step newOnce_step in \<open>simp add: after_return, blast\<close>)
  qed
qed

end

end
