(* ===== verification/Crypto_Gcm.thy ===== *)
theory Crypto_Gcm
  imports Crypto_Hash
begin

unbundle bit_operations_syntax

section \<open>AES-256 in Galois/counter mode\<close>

text \<open>
  The authenticated encryption of \<^verbatim>\<open>crypto/aes\<close> and \<^verbatim>\<open>crypto/cipher\<close> with a 32-byte key and a
  12-byte nonce, as FIPS 197 and NIST SP 800-38D define it. What the gateway relies on is
  proved for these definitions: a sealed text opens to its plaintext under the same key, nonce
  and additional data, and a text that opens is the sealing of what it opens to.
\<close>

subsection \<open>The block cipher\<close>

definition sbox :: "byte list" where
  "sbox =
    [0x63, 0x7c, 0x77, 0x7b, 0xf2, 0x6b, 0x6f, 0xc5, 0x30, 0x01, 0x67, 0x2b, 0xfe, 0xd7, 0xab, 0x76,
     0xca, 0x82, 0xc9, 0x7d, 0xfa, 0x59, 0x47, 0xf0, 0xad, 0xd4, 0xa2, 0xaf, 0x9c, 0xa4, 0x72, 0xc0,
     0xb7, 0xfd, 0x93, 0x26, 0x36, 0x3f, 0xf7, 0xcc, 0x34, 0xa5, 0xe5, 0xf1, 0x71, 0xd8, 0x31, 0x15,
     0x04, 0xc7, 0x23, 0xc3, 0x18, 0x96, 0x05, 0x9a, 0x07, 0x12, 0x80, 0xe2, 0xeb, 0x27, 0xb2, 0x75,
     0x09, 0x83, 0x2c, 0x1a, 0x1b, 0x6e, 0x5a, 0xa0, 0x52, 0x3b, 0xd6, 0xb3, 0x29, 0xe3, 0x2f, 0x84,
     0x53, 0xd1, 0x00, 0xed, 0x20, 0xfc, 0xb1, 0x5b, 0x6a, 0xcb, 0xbe, 0x39, 0x4a, 0x4c, 0x58, 0xcf,
     0xd0, 0xef, 0xaa, 0xfb, 0x43, 0x4d, 0x33, 0x85, 0x45, 0xf9, 0x02, 0x7f, 0x50, 0x3c, 0x9f, 0xa8,
     0x51, 0xa3, 0x40, 0x8f, 0x92, 0x9d, 0x38, 0xf5, 0xbc, 0xb6, 0xda, 0x21, 0x10, 0xff, 0xf3, 0xd2,
     0xcd, 0x0c, 0x13, 0xec, 0x5f, 0x97, 0x44, 0x17, 0xc4, 0xa7, 0x7e, 0x3d, 0x64, 0x5d, 0x19, 0x73,
     0x60, 0x81, 0x4f, 0xdc, 0x22, 0x2a, 0x90, 0x88, 0x46, 0xee, 0xb8, 0x14, 0xde, 0x5e, 0x0b, 0xdb,
     0xe0, 0x32, 0x3a, 0x0a, 0x49, 0x06, 0x24, 0x5c, 0xc2, 0xd3, 0xac, 0x62, 0x91, 0x95, 0xe4, 0x79,
     0xe7, 0xc8, 0x37, 0x6d, 0x8d, 0xd5, 0x4e, 0xa9, 0x6c, 0x56, 0xf4, 0xea, 0x65, 0x7a, 0xae, 0x08,
     0xba, 0x78, 0x25, 0x2e, 0x1c, 0xa6, 0xb4, 0xc6, 0xe8, 0xdd, 0x74, 0x1f, 0x4b, 0xbd, 0x8b, 0x8a,
     0x70, 0x3e, 0xb5, 0x66, 0x48, 0x03, 0xf6, 0x0e, 0x61, 0x35, 0x57, 0xb9, 0x86, 0xc1, 0x1d, 0x9e,
     0xe1, 0xf8, 0x98, 0x11, 0x69, 0xd9, 0x8e, 0x94, 0x9b, 0x1e, 0x87, 0xe9, 0xce, 0x55, 0x28, 0xdf,
     0x8c, 0xa1, 0x89, 0x0d, 0xbf, 0xe6, 0x42, 0x68, 0x41, 0x99, 0x2d, 0x0f, 0xb0, 0x54, 0xbb, 0x16]"

definition sub_byte :: "byte \<Rightarrow> byte" where
  "sub_byte b = sbox ! unat b"

definition xor_bytes :: "byte list \<Rightarrow> byte list \<Rightarrow> byte list" where
  "xor_bytes xs ys = map2 (XOR) xs ys"

definition xtime :: "byte \<Rightarrow> byte" where
  "xtime b = (if bit b 7 then push_bit 1 b XOR 0x1b else push_bit 1 b)"

fun mix_column :: "byte list \<Rightarrow> byte list" where
  "mix_column [a, b, c, d] =
     (let t = a XOR b XOR c XOR d in
      [a XOR t XOR xtime (a XOR b), b XOR t XOR xtime (b XOR c),
       c XOR t XOR xtime (c XOR d), d XOR t XOR xtime (d XOR a)])"
| "mix_column xs = xs"

text \<open>The state is the sixteen bytes in column order; row \<open>r\<close> of column \<open>c\<close> moves to column \<open>c - r\<close>.\<close>

definition shift_rows :: "byte list \<Rightarrow> byte list" where
  "shift_rows s = map (\<lambda>i. s ! ((i + 4 * (i mod 4)) mod 16)) [0..<16]"

definition aes_round :: "bool \<Rightarrow> byte list \<Rightarrow> byte list \<Rightarrow> byte list" where
  "aes_round final key s =
     (let t = shift_rows (map sub_byte s) in
      xor_bytes (if final then t else concat (map mix_column (chunks 4 t))) key)"

definition next_word :: "byte list list \<Rightarrow> nat \<times> byte \<Rightarrow> byte list" where
  "next_word ws step =
     (case step of (i, rcon) \<Rightarrow>
        let prev = ws ! (i - 1);
            t = (if i mod 8 = 0 then xor_bytes (map sub_byte (rotate1 prev)) [rcon, 0, 0, 0]
                 else if i mod 8 = 4 then map sub_byte prev else prev)
        in xor_bytes (ws ! (i - 8)) t)"

definition expand_key :: "byte list \<Rightarrow> byte list list" where
  "expand_key key =
     chunks 16 (concat (fold (\<lambda>step ws. ws @ [next_word ws step])
       (map (\<lambda>i. (i, push_bit (i div 8 - 1) 1)) [8..<60]) (chunks 4 key)))"

definition aes256 :: "byte list \<Rightarrow> byte list \<Rightarrow> byte list" where
  "aes256 key block =
     (case expand_key key of
        [] \<Rightarrow> block
      | k # ks \<Rightarrow> aes_round True (last ks) (fold (aes_round False) (butlast ks) (xor_bytes block k)))"

subsection \<open>Counter mode\<close>

definition counter_block :: "byte list \<Rightarrow> nat \<Rightarrow> byte list" where
  "counter_block nonce i = nonce @ be_bytes 4 (word_of_nat i :: 32 word)"

text \<open>
  The key stream for \<open>n\<close> bytes, from the counter value after the one that masks the tag. A
  block of the cipher is sixteen bytes, which \<open>key_block\<close> makes explicit for every argument.
\<close>

definition key_block :: "byte list \<Rightarrow> byte list \<Rightarrow> nat \<Rightarrow> byte list" where
  "key_block key nonce i = take 16 (aes256 key (counter_block nonce i) @ replicate 16 0)"

definition key_stream :: "byte list \<Rightarrow> byte list \<Rightarrow> nat \<Rightarrow> byte list" where
  "key_stream key nonce n =
     take n (concat (map (key_block key nonce) [2..<2 + (n + 15) div 16]))"

definition ctr :: "byte list \<Rightarrow> byte list \<Rightarrow> byte list \<Rightarrow> byte list" where
  "ctr key nonce text = xor_bytes text (key_stream key nonce (length text))"

subsection \<open>The authentication tag\<close>

fun gf_mult_loop :: "nat \<Rightarrow> 128 word \<Rightarrow> 128 word \<Rightarrow> 128 word \<Rightarrow> 128 word" where
  "gf_mult_loop 0 x z v = z"
| "gf_mult_loop (Suc n) x z v =
     gf_mult_loop n x (if bit x n then z XOR v else z)
       (if bit v 0 then drop_bit 1 v XOR push_bit 120 0xe1 else drop_bit 1 v)"

definition gf_mult :: "128 word \<Rightarrow> 128 word \<Rightarrow> 128 word" where
  "gf_mult x y = gf_mult_loop 128 x 0 y"

definition pad16 :: "byte list \<Rightarrow> byte list" where
  "pad16 bs = bs @ replicate ((16 - length bs mod 16) mod 16) 0"

definition ghash :: "128 word \<Rightarrow> byte list \<Rightarrow> 128 word" where
  "ghash h bs = fold (\<lambda>block y. gf_mult (y XOR of_be_bytes block) h) (chunks 16 bs) 0"

definition gcm_tag :: "byte list \<Rightarrow> byte list \<Rightarrow> byte list \<Rightarrow> byte list \<Rightarrow> byte list" where
  "gcm_tag key nonce ciphertext aad =
     be_bytes 16
       (ghash (of_be_bytes (aes256 key (replicate 16 0)))
          (pad16 aad @ pad16 ciphertext @ be_bytes 8 (word_of_nat (8 * length aad) :: 64 word) @
           be_bytes 8 (word_of_nat (8 * length ciphertext) :: 64 word)) XOR
        of_be_bytes (aes256 key (counter_block nonce 1)) :: 128 word)"

definition gcmTagSize :: nat where "gcmTagSize = 16"

definition gcm_Seal :: "byte list \<Rightarrow> byte list \<Rightarrow> byte list \<Rightarrow> byte list \<Rightarrow> byte list" where
  "gcm_Seal key nonce plaintext aad =
     (let ciphertext = ctr key nonce plaintext in ciphertext @ gcm_tag key nonce ciphertext aad)"

definition gcm_Open :: "byte list \<Rightarrow> byte list \<Rightarrow> byte list \<Rightarrow> byte list \<Rightarrow> byte list option" where
  "gcm_Open key nonce text aad =
     (if length text < gcmTagSize then None
      else let ciphertext = take (length text - gcmTagSize) text; tag = drop (length text - gcmTagSize) text in
        if tag = gcm_tag key nonce ciphertext aad then Some (ctr key nonce ciphertext) else None)"

subsection \<open>What the gateway relies on\<close>

lemma xor_bytes_cancel: "length ys = length xs \<Longrightarrow> xor_bytes (xor_bytes xs ys) ys = xs"
  by (simp add: xor_bytes_def list_eq_iff_nth_eq xor.assoc)

lemma length_xor_bytes [simp]: "length (xor_bytes xs ys) = min (length xs) (length ys)"
  by (simp add: xor_bytes_def)

lemma length_key_stream [simp]: "length (key_stream key nonce n) = n"
proof -
  have block: "length (key_block key nonce i) = 16" for i by (simp add: key_block_def)
  have "n \<le> (n + 15) div 16 * 16" by linarith
  then show ?thesis
    by (simp only: key_stream_def length_take length_concat map_map comp_def block sum_list_triv length_upt) simp
qed

lemma length_ctr [simp]: "length (ctr key nonce text) = length text"
  by (simp add: ctr_def)

lemma ctr_ctr [simp]: "ctr key nonce (ctr key nonce text) = text"
  by (simp add: ctr_def xor_bytes_cancel)

lemma length_gcm_tag [simp]: "length (gcm_tag key nonce ciphertext aad) = gcmTagSize"
  by (simp add: gcm_tag_def gcmTagSize_def)

lemma length_gcm_Seal [simp]: "length (gcm_Seal key nonce plaintext aad) = length plaintext + gcmTagSize"
  by (simp add: gcm_Seal_def Let_def)

lemma gcm_Seal_not_empty [simp]: "gcm_Seal key nonce plaintext aad \<noteq> []"
  by (simp add: gcm_Seal_def gcm_tag_def Let_def flip: length_0_conv)

lemma gcm_Open_Seal: "gcm_Open key nonce (gcm_Seal key nonce plaintext aad) aad = Some plaintext"
  by (simp add: gcm_Open_def gcm_Seal_def Let_def)

lemma gcm_Open_iff: "gcm_Open key nonce text aad = Some plaintext \<longleftrightarrow> text = gcm_Seal key nonce plaintext aad"
proof
  assume "gcm_Open key nonce text aad = Some plaintext"
  then have "gcmTagSize \<le> length text"
    "drop (length text - gcmTagSize) text = gcm_tag key nonce (take (length text - gcmTagSize) text) aad"
    "plaintext = ctr key nonce (take (length text - gcmTagSize) text)"
    by (auto simp: gcm_Open_def Let_def split: if_splits)
  then show "text = gcm_Seal key nonce plaintext aad"
    unfolding gcm_Seal_def Let_def by (metis append_take_drop_id ctr_ctr)
qed (simp add: gcm_Open_Seal)

end
