(* ===== verification/Canonical_Event.thy ===== *)
theory Canonical_Event
  imports Durable_Store Crypto_Hash
begin

unbundle bit_operations_syntax

section \<open>Canonical events\<close>

text \<open>
  The typed events of \<^verbatim>\<open>internal/httpapi/types.go\<close> and their canonical form (\<^verbatim>\<open>canonical.go\<close>). A Go map is
  an association list in the order in which the loop happens to range over it; a nil map is
  \<open>None\<close>. The results say that the form is total on well-formed events, that its string
  writer agrees with a character-by-character definition, and that two events have the same
  canonical bytes exactly when they are the same event, whatever the order of their maps.
\<close>

subsection \<open>Events\<close>

type_synonym gomap = "(gostring \<times> gostring) list"

record TestEvent =
  te_AppName :: gostring

record VerificationEvent =
  ve_AppName :: gostring
  ve_Code :: gostring

record AlertEvent =
  ae_AppName :: gostring
  ae_AlertID :: int64
  ae_Summary :: gostring
  ae_Details :: gostring
  ae_ServiceID :: gostring
  ae_ServiceName :: gostring
  ae_Meta :: "gomap option"

record AlertStatusEvent =
  se_AppName :: gostring
  se_AlertID :: int64
  se_LogEntry :: gostring
  se_AlertState :: gostring

datatype Event =
    Test TestEvent
  | Verification VerificationEvent
  | Alert AlertEvent
  | AlertStatus AlertStatusEvent

text \<open>A value of the interface \<^verbatim>\<open>Event\<close>: nil, one of the known structs, a pointer to one, a nil pointer
  to one, or a value of another type.\<close>

datatype EventInterface = NilEvent | EventValue Event | EventPointer Event | EventNilPointer | ForeignEvent

definition EventTypeTest :: gostring where "EventTypeTest = str ''Test''"
definition EventTypeVerification :: gostring where "EventTypeVerification = str ''Verification''"
definition EventTypeAlert :: gostring where "EventTypeAlert = str ''Alert''"
definition EventTypeAlertStatus :: gostring where "EventTypeAlertStatus = str ''AlertStatus''"

definition AlertStateUnacknowledged :: gostring where "AlertStateUnacknowledged = str ''Unacknowledged''"
definition AlertStateAcknowledged :: gostring where "AlertStateAcknowledged = str ''Acknowledged''"
definition AlertStateClosed :: gostring where "AlertStateClosed = str ''Closed''"

fun Event_Kind :: "Event \<Rightarrow> gostring" where
  "Event_Kind (Test _) = EventTypeTest"
| "Event_Kind (Verification _) = EventTypeVerification"
| "Event_Kind (Alert _) = EventTypeAlert"
| "Event_Kind (AlertStatus _) = EventTypeAlertStatus"

record CanonicalEvent =
  ce_formatVersion :: int64
  ce_data :: "byte list"
  ce_digest :: bytes32

definition CanonicalEventFormatVersion :: int64 where "CanonicalEventFormatVersion = 1"

subsection \<open>Strings and numbers\<close>

definition printableASCII :: "gostring \<Rightarrow> bool" where
  "printableASCII s = list_all (\<lambda>b. 0x20 \<le> b \<and> b \<le> 0x7e) s"

text \<open>The bytes that are copied as they are, and the escapes of the others.\<close>

definition plainByte :: "byte \<Rightarrow> bool" where
  "plainByte b = (0x20 \<le> b \<and> b \<noteq> 0x22 \<and> b \<noteq> 0x5c \<and> b \<noteq> 0x3c \<and> b \<noteq> 0x3e \<and> b \<noteq> 0x26)"

definition escapeByte :: "byte \<Rightarrow> gostring" where
  "escapeByte b =
     (if b = 0x22 \<or> b = 0x5c then [0x5c, b]
      else if b = 0x08 then [0x5c, 0x62]
      else if b = 0x0c then [0x5c, 0x66]
      else if b = 0x0a then [0x5c, 0x6e]
      else if b = 0x0d then [0x5c, 0x72]
      else if b = 0x09 then [0x5c, 0x74]
      else [0x5c, 0x75, 0x30, 0x30, hexDigit (drop_bit 4 b), hexDigit (b AND 0xf)])"

definition escapeSeparator :: "nat \<Rightarrow> gostring" where
  "escapeSeparator rune = [0x5c, 0x75, 0x32, 0x30, 0x32, hexDigit (word_of_nat rune AND 0xf)]"

definition slice :: "nat \<Rightarrow> nat \<Rightarrow> 'a list \<Rightarrow> 'a list" where
  "slice i j xs = take (j - i) (drop i xs)"

lemma utf8_DecodeRune_size:
  "bs \<noteq> [] \<Longrightarrow> 0 < snd (utf8_DecodeRune bs) \<and> snd (utf8_DecodeRune bs) \<le> length bs"
  using utf8_rune_size [of bs] by (cases "utf8_rune bs") (auto simp: utf8_DecodeRune_def Suc_le_eq)

text \<open>The loop of \<^verbatim>\<open>appendCanonicalString\<close>, with its variables \<open>data\<close>, \<open>start\<close> and \<open>index\<close>.\<close>

function canonical_loop :: "gostring \<Rightarrow> gostring \<Rightarrow> nat \<Rightarrow> nat \<Rightarrow> gostring" where
  "canonical_loop v data start index =
     (if length v \<le> index then data @ drop start v
      else if 0x80 \<le> v ! index then
        (if fst (utf8_DecodeRune (drop index v)) \<noteq> 0x2028 \<and> fst (utf8_DecodeRune (drop index v)) \<noteq> 0x2029
         then canonical_loop v data start (index + snd (utf8_DecodeRune (drop index v)))
         else canonical_loop v (data @ slice start index v @ escapeSeparator (fst (utf8_DecodeRune (drop index v))))
           (index + snd (utf8_DecodeRune (drop index v))) (index + snd (utf8_DecodeRune (drop index v))))
      else if plainByte (v ! index) then canonical_loop v data start (index + 1)
      else canonical_loop v (data @ slice start index v @ escapeByte (v ! index)) (index + 1) (index + 1))"
  by pat_completeness auto
termination
proof -
  have "length v - (index + snd (utf8_DecodeRune (drop index v))) < length v - index"
    if "\<not> length v \<le> index" for v :: gostring and index
    using utf8_DecodeRune_size [of "drop index v"] that by (simp, linarith)
  then show ?thesis
    by (relation "measure (\<lambda>(v, data, start, index). length v - index)") simp_all
qed

declare canonical_loop.simps [simp del]

definition appendCanonicalString :: "gostring \<Rightarrow> gostring \<Rightarrow> gostring result" where
  "appendCanonicalString data v =
     (if \<not> utf8_Valid v then Inl (httpapiErr ErrCanonicalEvent)
      else Inr (canonical_loop v (data @ [0x22]) 0 0 @ [0x22]))"

text \<open>\<^verbatim>\<open>strconv.AppendInt\<close> in base ten.\<close>

fun nat_digits :: "nat \<Rightarrow> gostring" where
  "nat_digits n = (if n < 10 then [] else nat_digits (n div 10)) @ [0x30 + word_of_nat (n mod 10)]"

declare nat_digits.simps [simp del]

definition AppendInt :: "gostring \<Rightarrow> int64 \<Rightarrow> gostring" where
  "AppendInt data i =
     data @ (if sint i < 0 then 0x2d # nat_digits (nat (- sint i)) else nat_digits (nat (sint i)))"

subsection \<open>The canonical form\<close>

fun result_bind :: "'a result \<Rightarrow> ('a \<Rightarrow> 'b result) \<Rightarrow> 'b result" where
  "result_bind (Inl e) f = Inl e"
| "result_bind (Inr x) f = f x"

definition appendText :: "gostring \<Rightarrow> string \<Rightarrow> gostring" where
  "appendText data t = data @ str t"

definition canonicalizeTest :: "TestEvent \<Rightarrow> gostring result" where
  "canonicalizeTest event =
     result_bind (appendCanonicalString (str ''{\"AppName\":'') (te_AppName event)) (\<lambda>data.
     Inr (appendText data '',\"Type\":\"Test\"}''))"

definition canonicalizeVerification :: "VerificationEvent \<Rightarrow> gostring result" where
  "canonicalizeVerification event =
     result_bind (appendCanonicalString (str ''{\"AppName\":'') (ve_AppName event)) (\<lambda>data.
     result_bind (appendCanonicalString (appendText data '',\"Type\":\"Verification\",\"Code\":'') (ve_Code event)) (\<lambda>data.
     Inr (appendText data ''}'')))"

definition canonicalizeAlertStatus :: "AlertStatusEvent \<Rightarrow> gostring result" where
  "canonicalizeAlertStatus event =
     result_bind (appendCanonicalString (str ''{\"AppName\":'') (se_AppName event)) (\<lambda>data.
     result_bind (appendCanonicalString
       (appendText (AppendInt (appendText data '',\"Type\":\"AlertStatus\",\"AlertID\":'') (se_AlertID event)) '',\"LogEntry\":'')
       (se_LogEntry event)) (\<lambda>data.
     result_bind (appendCanonicalString (appendText data '',\"AlertState\":'') (se_AlertState event)) (\<lambda>data.
     Inr (appendText data ''}''))))"

text \<open>The loop over the sorted keys; \<open>meta\<close> is read by \<^verbatim>\<open>event.Meta[key]\<close>, the empty string for a missing
  key.\<close>

definition meta_value :: "gomap \<Rightarrow> gostring \<Rightarrow> gostring" where
  "meta_value meta key = (case map_of meta key of Some v \<Rightarrow> v | None \<Rightarrow> [])"

fun append_meta :: "gomap \<Rightarrow> nat \<Rightarrow> gostring list \<Rightarrow> gostring \<Rightarrow> gostring result" where
  "append_meta meta index [] data = Inr data"
| "append_meta meta index (key # keys) data =
     result_bind (appendCanonicalString (if 0 < index then appendText data '','' else data) key) (\<lambda>data.
     result_bind (appendCanonicalString (appendText data '':'') (meta_value meta key)) (\<lambda>data.
     append_meta meta (index + 1) keys data))"

definition canonicalizeAlert :: "AlertEvent \<Rightarrow> gostring result" where
  "canonicalizeAlert event =
     (case ae_Meta event of
        None \<Rightarrow> Inl (httpapiErr ErrCanonicalEvent)
      | Some meta \<Rightarrow>
          result_bind (appendCanonicalString (str ''{\"AppName\":'') (ae_AppName event)) (\<lambda>data.
          result_bind (appendCanonicalString
            (appendText (AppendInt (appendText data '',\"Type\":\"Alert\",\"AlertID\":'') (ae_AlertID event)) '',\"Summary\":'')
            (ae_Summary event)) (\<lambda>data.
          result_bind (appendCanonicalString (appendText data '',\"Details\":'') (ae_Details event)) (\<lambda>data.
          result_bind (appendCanonicalString (appendText data '',\"ServiceID\":'') (ae_ServiceID event)) (\<lambda>data.
          result_bind (appendCanonicalString (appendText data '',\"ServiceName\":'') (ae_ServiceName event)) (\<lambda>data.
          if list_ex (\<lambda>(key, v). \<not> printableASCII key \<or> \<not> utf8_Valid v) meta
          then Inl (httpapiErr ErrCanonicalEvent)
          else result_bind (append_meta meta 0 (sort (map fst meta)) (appendText data '',\"Meta\":{'')) (\<lambda>data.
            Inr (appendText data ''}}''))))))))"

fun canonicalizeKnown :: "Event \<Rightarrow> gostring result" where
  "canonicalizeKnown (Test e) = canonicalizeTest e"
| "canonicalizeKnown (Verification e) = canonicalizeVerification e"
| "canonicalizeKnown (Alert e) = canonicalizeAlert e"
| "canonicalizeKnown (AlertStatus e) = canonicalizeAlertStatus e"

definition canonicalEventOf :: "gostring result \<Rightarrow> CanonicalEvent result" where
  "canonicalEventOf r =
     (case r of
        Inl _ \<Rightarrow> Inl (httpapiErr ErrCanonicalEvent)
      | Inr data \<Rightarrow> Inr \<lparr>ce_formatVersion = CanonicalEventFormatVersion, ce_data = data,
          ce_digest = of_be_bytes (sha256_Sum data)\<rparr>)"

fun CanonicalizeEvent :: "EventInterface \<Rightarrow> CanonicalEvent result" where
  "CanonicalizeEvent (EventValue e) = canonicalEventOf (canonicalizeKnown e)"
| "CanonicalizeEvent (EventPointer e) = canonicalEventOf (canonicalizeKnown e)"
| "CanonicalizeEvent EventNilPointer = Inl (httpapiErr ErrCanonicalEvent)"
| "CanonicalizeEvent NilEvent = Inl (httpapiErr ErrCanonicalEvent)"
| "CanonicalizeEvent ForeignEvent = Inl (httpapiErr ErrCanonicalEvent)"

subsection \<open>The string writer\<close>

text \<open>The reference definition: one character after another, without the pending run.\<close>

function canonicalEscape :: "gostring \<Rightarrow> gostring" where
  "canonicalEscape v =
     (if v = [] then []
      else if 0x80 \<le> hd v then
        (if fst (utf8_DecodeRune v) \<noteq> 0x2028 \<and> fst (utf8_DecodeRune v) \<noteq> 0x2029
         then take (snd (utf8_DecodeRune v)) v else escapeSeparator (fst (utf8_DecodeRune v))) @
        canonicalEscape (drop (snd (utf8_DecodeRune v)) v)
      else (if plainByte (hd v) then [hd v] else escapeByte (hd v)) @ canonicalEscape (tl v))"
  by pat_completeness auto
termination
proof -
  have "length (drop (snd (utf8_DecodeRune v)) v) < length v" if "v \<noteq> []" for v :: gostring
    using utf8_DecodeRune_size [of v] that by (cases v) simp_all
  then show ?thesis by (relation "measure length") simp_all
qed

declare canonicalEscape.simps [simp del]

definition canonicalString :: "gostring \<Rightarrow> gostring" where
  "canonicalString v = [0x22] @ canonicalEscape v @ [0x22]"

lemma slice_extend:
  assumes "i \<le> j" "j + n \<le> length xs"
  shows "slice i (j + n) xs = slice i j xs @ take n (drop j xs)"
proof -
  have "take (j - i + n) (drop i xs) = take (j - i) (drop i xs) @ take n (drop (j - i) (drop i xs))"
    by (rule take_add)
  with assms show ?thesis by (simp add: slice_def)
qed

lemma slice_self [simp]: "slice i i xs = []"
  by (simp add: slice_def)

lemma slice_end: "slice i (length xs) xs = drop i xs"
  by (simp add: slice_def)

lemma canonical_loop_escape:
  assumes "start \<le> index" "index \<le> length v"
  shows "canonical_loop v data start index = data @ slice start index v @ canonicalEscape (drop index v)"
  using assms
proof (induction v data start index rule: canonical_loop.induct)
  case (1 v data start index)
  let ?rune = "utf8_DecodeRune (drop index v)"
  show ?case
  proof (cases "length v \<le> index")
    case True
    with 1 show ?thesis by (simp add: canonical_loop.simps [of v] canonicalEscape.simps slice_end)
  next
    case inside: False
    then have hd: "hd (drop index v) = v ! index" "drop index v \<noteq> []" "tl (drop index v) = drop (Suc index) v"
      by (simp_all add: hd_drop_conv_nth tl_drop drop_Suc)
    have size: "index + snd ?rune \<le> length v"
      using utf8_DecodeRune_size [OF hd(2)] inside by (simp, linarith)
    have more: "drop (snd ?rune) (drop index v) = drop (index + snd ?rune) v"
      by (simp add: add.commute)
    note ih = "1.IH"(1) [OF inside] "1.IH"(2) [OF inside] "1.IH"(3) [OF inside] "1.IH"(4) [OF inside]
    show ?thesis
      unfolding canonical_loop.simps [of v data start index] canonicalEscape.simps [of "drop index v"] hd(1) more
      using inside hd(2,3) size ih "1.prems"
      by (simp add: slice_extend [OF "1.prems"(1)] slice_extend [OF "1.prems"(1), of 1, simplified] take_hd_drop
          take_Suc_conv_app_nth hd(1))
  qed
qed

lemma appendCanonicalString_eq:
  "appendCanonicalString data v =
     (if utf8_Valid v then Inr (data @ canonicalString v) else Inl (httpapiErr ErrCanonicalEvent))"
  by (simp add: appendCanonicalString_def canonical_loop_escape canonicalString_def)

subsection \<open>Reading a canonical string\<close>

definition unescapeByte :: "byte \<Rightarrow> byte option" where
  "unescapeByte c =
     (if c = 0x22 \<or> c = 0x5c then Some c else if c = 0x62 then Some 0x08 else if c = 0x66 then Some 0x0c
      else if c = 0x6e then Some 0x0a else if c = 0x72 then Some 0x0d else if c = 0x74 then Some 0x09 else None)"

definition unescapeUnicode :: "byte \<Rightarrow> byte \<Rightarrow> byte \<Rightarrow> byte \<Rightarrow> gostring option" where
  "unescapeUnicode a b c d =
     (case (fromHexChar c, fromHexChar d) of
        (Some hi, Some lo) \<Rightarrow>
          if a = 0x30 \<and> b = 0x30 then Some [push_bit 4 hi OR lo]
          else if a = 0x32 \<and> b = 0x30 \<and> c = 0x32 then Some [0xE2, 0x80, 0xA0 OR lo] else None
      | _ \<Rightarrow> None)"

text \<open>The characters up to the closing quotation mark, and what follows it.\<close>

fun readString :: "gostring \<Rightarrow> (gostring \<times> gostring) option" where
  "readString [] = None"
| "readString (x # rest) =
     (if x = 0x22 then Some ([], rest)
      else if x = 0x5c then
        (case rest of
           [] \<Rightarrow> None
         | y # rest \<Rightarrow>
             if y = 0x75 then
               (case rest of
                  a # b # c # d # rest \<Rightarrow>
                    (case unescapeUnicode a b c d of
                       None \<Rightarrow> None | Some v \<Rightarrow> map_option (apfst (append v)) (readString rest))
                | _ \<Rightarrow> None)
             else (case unescapeByte y of None \<Rightarrow> None | Some v \<Rightarrow> map_option (apfst (append [v])) (readString rest)))
      else map_option (apfst (append [x])) (readString rest))"

lemma readString_high:
  "\<forall>b\<in>set xs. 0x80 \<le> b \<Longrightarrow> readString (xs @ ys) = map_option (apfst (append xs)) (readString ys)"
proof (induction xs)
  case (Cons x xs)
  then have "x \<noteq> 0x22" "x \<noteq> 0x5c" by auto
  with Cons show ?case by (cases "readString ys") (auto simp: apfst_def map_prod_def split: prod.splits)
qed (simp add: option.map_id apfst_def map_prod_def case_prod_beta)

lemma fromHexChar_nibbles:
  "fromHexChar (hexDigit (drop_bit 4 b)) = Some (drop_bit 4 b)" "fromHexChar (hexDigit (b AND 0xf)) = Some (b AND 0xf)"
  by (simp_all add: fromHexChar_hexDigit nibble_bounds)

lemma readString_escapeByte:
  "readString (escapeByte b @ ys) = map_option (apfst (append [b])) (readString ys)"
  by (simp add: escapeByte_def unescapeByte_def unescapeUnicode_def fromHexChar_nibbles join_nibbles)

lemma readString_escapeSeparator:
  "readString (escapeSeparator 0x2028 @ ys) = map_option (apfst (append [0xE2, 0x80, 0xA8])) (readString ys)"
  "readString (escapeSeparator 0x2029 @ ys) = map_option (apfst (append [0xE2, 0x80, 0xA9])) (readString ys)"
  by (simp_all add: escapeSeparator_def unescapeUnicode_def fromHexChar_def hexDigit_def)

lemma readString_plain: "plainByte b \<Longrightarrow> readString (b # ys) = map_option (apfst (append [b])) (readString ys)"
  by (simp add: plainByte_def)

text \<open>The forms of an encoded rune.\<close>

datatype runeForm = OneByte byte | TwoBytes byte byte | ThreeBytes byte byte byte | FourBytes byte byte byte byte

fun formBytes :: "runeForm \<Rightarrow> byte list" where
  "formBytes (OneByte a) = [a]"
| "formBytes (TwoBytes a b) = [a, b]"
| "formBytes (ThreeBytes a b c) = [a, b, c]"
| "formBytes (FourBytes a b c d) = [a, b, c, d]"

fun formRune :: "runeForm \<Rightarrow> nat" where
  "formRune (OneByte a) = unat a"
| "formRune (TwoBytes a b) = unat (a AND 0x1F) * 64 + unat (b AND 0x3F)"
| "formRune (ThreeBytes a b c) = unat (a AND 0x0F) * 4096 + unat (b AND 0x3F) * 64 + unat (c AND 0x3F)"
| "formRune (FourBytes a b c d) =
     unat (a AND 0x07) * 262144 + unat (b AND 0x3F) * 4096 + unat (c AND 0x3F) * 64 + unat (d AND 0x3F)"

fun formOK :: "runeForm \<Rightarrow> bool" where
  "formOK (OneByte a) = (a < 0x80)"
| "formOK (TwoBytes a b) = (0xC2 \<le> a \<and> a \<le> 0xDF \<and> cont b)"
| "formOK (ThreeBytes a b c) =
     (0xE0 \<le> a \<and> a \<le> 0xEF \<and> (if a = 0xE0 then 0xA0 else 0x80) \<le> b \<and> b \<le> (if a = 0xED then 0x9F else 0xBF) \<and> cont c)"
| "formOK (FourBytes a b c d) =
     (0xF0 \<le> a \<and> a \<le> 0xF4 \<and> (if a = 0xF0 then 0x90 else 0x80) \<le> b \<and> b \<le> (if a = 0xF4 then 0x8F else 0xBF) \<and>
      cont c \<and> cont d)"

lemma lead_byte:
  "0xC2 \<le> a \<Longrightarrow> \<not> a < (0x80 :: byte)" "0xE0 \<le> a \<Longrightarrow> \<not> a < (0x80 :: byte) \<and> \<not> a \<le> 0xDF"
  "0xF0 \<le> a \<Longrightarrow> \<not> a < (0x80 :: byte) \<and> \<not> a \<le> 0xDF \<and> \<not> a \<le> 0xEF"
  by (simp_all add: word_le_nat_alt word_less_nat_alt)

lemma utf8_rune_form:
  assumes "utf8_rune bs = Some (r, n)"
  shows "\<exists>f. formOK f \<and> r = formRune f \<and> n = length (formBytes f) \<and> take n bs = formBytes f"
proof (cases bs)
  case (Cons a as)
  from assms have "a < 0x80 \<or> 0xC2 \<le> a \<and> a \<le> 0xDF \<or> 0xE0 \<le> a \<and> a \<le> 0xEF \<or> 0xF0 \<le> a \<and> a \<le> 0xF4"
    unfolding Cons utf8_rune.simps by (simp split: if_splits)
  then consider "a < 0x80" | "0xC2 \<le> a" "a \<le> 0xDF" | "0xE0 \<le> a" "a \<le> 0xEF" | "0xF0 \<le> a" "a \<le> 0xF4"
    by blast
  then show ?thesis
  proof cases
    case 1
    with assms show ?thesis by (intro exI [of _ "OneByte a"]) (auto simp: Cons)
  next
    case 2
    with assms show ?thesis using lead_byte(1) [OF 2(1)]
      by (cases as) (auto simp: Cons split: if_splits intro!: exI [of _ "TwoBytes a (hd as)"])
  next
    case 3
    note lead = 3 lead_byte(2) [OF 3(1)]
    have "\<exists>b c rest. as = b # c # rest"
      using assms lead by (cases as; cases "tl as") (simp_all add: Cons)
    then obtain b c rest where as: "as = b # c # rest" by blast
    from assms lead have "formOK (ThreeBytes a b c) \<and> r = formRune (ThreeBytes a b c) \<and> n = 3"
      by (simp add: Cons as split: if_split_asm)
    then show ?thesis by (intro exI [of _ "ThreeBytes a b c"]) (simp add: Cons as)
  next
    case 4
    note lead = 4 lead_byte(3) [OF 4(1)]
    have "\<exists>b c d rest. as = b # c # d # rest"
      using assms lead by (cases as; cases "tl as"; cases "tl (tl as)") (simp_all add: Cons)
    then obtain b c d rest where as: "as = b # c # d # rest" by blast
    from assms lead have "formOK (FourBytes a b c d) \<and> r = formRune (FourBytes a b c d) \<and> n = 4"
      by (simp add: Cons as split: if_split_asm)
    then show ?thesis by (intro exI [of _ "FourBytes a b c d"]) (simp add: Cons as)
  qed
qed (use assms in simp)

lemma second_high:
  "(if c then 0xA0 else 0x80) \<le> b \<Longrightarrow> 0x80 \<le> (b :: byte)" "(if c then 0x90 else 0x80) \<le> b \<Longrightarrow> 0x80 \<le> (b :: byte)"
  by (cases c; simp add: word_le_nat_alt)+

lemma formBytes_high:
  assumes "formOK f" "0x80 \<le> hd (formBytes f)"
  shows "\<forall>b\<in>set (formBytes f). 0x80 \<le> b"
proof (cases f)
  case (ThreeBytes a b c)
  with assms show ?thesis using second_high(1) [of "a = 0xE0" b] by (simp add: cont_def)
next
  case (FourBytes a b c d)
  with assms show ?thesis using second_high(2) [of "a = 0xF0" b] by (simp add: cont_def)
qed (use assms in \<open>simp_all add: cont_def\<close>)

lemma byte_mod:
  "unat (b AND 0x0F) = unat (b :: byte) mod 16" "unat (b AND 0x1F) = unat b mod 32" "unat (b AND 0x3F) = unat b mod 64"
  "unat (b AND 0x07) = unat b mod 8"
proof -
  have m: "(0x0F :: byte) = mask 4" "(0x1F :: byte) = mask 5" "(0x3F :: byte) = mask 6" "(0x07 :: byte) = mask 3"
    by (simp_all add: mask_eq_exp_minus_1)
  show "unat (b AND 0x0F) = unat b mod 16" "unat (b AND 0x1F) = unat b mod 32" "unat (b AND 0x3F) = unat b mod 64"
    "unat (b AND 0x07) = unat b mod 8"
    unfolding m take_bit_eq_mask [symmetric] unsigned_take_bit_eq by (simp_all add: take_bit_nat_def)
qed

lemma mod_offset: "k \<le> n \<Longrightarrow> n < k + m \<Longrightarrow> k mod m = 0 \<Longrightarrow> n mod m = n - (k :: nat)"
  using mod_add_left_eq [of k m "n - k"] by simp

lemma cont_mod: "cont b \<Longrightarrow> unat (b AND 0x3F) = unat b - 128 \<and> 128 \<le> unat b \<and> unat b \<le> 191"
  using mod_offset [of 128 "unat b" 64] by (simp add: byte_mod cont_def word_le_nat_alt)

lemma three_byte_digits:
  assumes "y < 64" "z < (64 :: nat)"
  shows "(x * 4096 + y * 64 + z) div 64 = x * 64 + y" "(x * 4096 + y * 64 + z) mod 64 = z" "(x * 64 + y) div 64 = x"
    "(x * 64 + y) mod 64 = y"
proof -
  have "x * 4096 + y * 64 + z = z + 64 * (x * 64 + y)" by simp
  then show "(x * 4096 + y * 64 + z) div 64 = x * 64 + y" "(x * 4096 + y * 64 + z) mod 64 = z"
    using assms(2) by (simp_all only: div_mult_self2 mod_mult_self2 div_less mod_less)
  show "(x * 64 + y) div 64 = x" "(x * 64 + y) mod 64 = y" using assms(1) by simp_all
qed

lemma three_byte_value:
  assumes "y < 64" "z < (64 :: nat)" "x * 4096 + y * 64 + z = 8192 + k" "k < 64"
  shows "x = 2" "y = 0" "z = k"
proof -
  have k: "(8192 + k) div 64 = 128" "(8192 + k) mod 64 = k" using three_byte_digits [of 0 k 2] assms(4) by simp_all
  show "z = k" using three_byte_digits(2) [OF assms(1,2), of x] unfolding assms(3) k by simp
  have xy: "x * 64 + y = 128" using three_byte_digits(1) [OF assms(1,2), of x] unfolding assms(3) k by simp
  show "x = 2" using three_byte_digits(3) [OF assms(1,2), of x] unfolding xy by simp
  show "y = 0" using three_byte_digits(4) [OF assms(1,2), of x] unfolding xy by simp
qed

lemma three_byte_separator:
  assumes "formOK (ThreeBytes a b c)" "formRune (ThreeBytes a b c) = 8192 + k" "k < 64"
  shows "a = 0xE2 \<and> b = 0x80 \<and> unat c = 128 + k"
proof -
  have a: "224 \<le> unat a" "unat a \<le> 239" and b: "cont b" and c: "cont c"
    using assms(1) by (auto simp: cont_def word_le_nat_alt split: if_splits)
  have m: "unat (a AND 0x0F) = unat a - 224" using mod_offset [of 224 "unat a" 16] a by (simp add: byte_mod)
  have b': "unat (b AND 0x3F) = unat b - 128" "128 \<le> unat b" "unat b - 128 < 64"
    and c': "unat (c AND 0x3F) = unat c - 128" "128 \<le> unat c" "unat c - 128 < 64"
    using cont_mod [OF b] cont_mod [OF c] by auto
  have v: "(unat a - 224) * 4096 + (unat b - 128) * 64 + (unat c - 128) = 8192 + k"
    using assms(2) unfolding formRune.simps m b'(1) c'(1) .
  note digits = three_byte_value [OF b'(3) c'(3) v assms(3)]
  have "unat a = 226" using digits(1) a(1) by linarith
  moreover have "unat b = 128" using digits(2) b'(2) by linarith
  moreover have "unat c = 128 + k" using digits(3) c'(2) by linarith
  ultimately show ?thesis by (simp add: word_unat_eq_iff)
qed

lemma four_byte_value:
  assumes "formOK (FourBytes a b c d)"
  shows "65536 \<le> formRune (FourBytes a b c d)"
proof -
  have a: "240 \<le> unat a" "unat a \<le> 244" and b: "cont b" and first: "a = 0xF0 \<Longrightarrow> 144 \<le> unat b"
    using assms by (auto simp: cont_def word_le_nat_alt split: if_splits)
  have "unat (a AND 0x07) = unat a - 240" using mod_offset [of 240 "unat a" 8] a by (simp add: byte_mod)
  moreover have "unat a = 240 \<Longrightarrow> a = 0xF0" by (simp add: word_unat_eq_iff)
  ultimately show ?thesis using a cont_mod [OF b] first by (cases "unat a = 240") auto
qed

lemma two_byte_value: "formRune (TwoBytes a b) < 2048"
proof -
  have "unat a mod 32 < 32" "unat b mod 64 < 64" by simp_all
  then show ?thesis unfolding formRune.simps byte_mod by linarith
qed

lemma formRune_separator:
  assumes "formOK f"
  shows "formRune f = 0x2028 \<Longrightarrow> formBytes f = [0xE2, 0x80, 0xA8]" "formRune f = 0x2029 \<Longrightarrow> formBytes f = [0xE2, 0x80, 0xA9]"
proof -
  have "formRune f = 0x2028 \<and> formBytes f = [0xE2, 0x80, 0xA8] \<or> formRune f = 0x2029 \<and> formBytes f = [0xE2, 0x80, 0xA9] \<or>
    formRune f \<noteq> 0x2028 \<and> formRune f \<noteq> 0x2029"
  proof (cases f)
    case (OneByte a)
    with assms have "formRune f < 128" by (simp add: word_less_nat_alt)
    then show ?thesis by linarith
  next
    case (TwoBytes a b)
    then have "formRune f < 2048" using two_byte_value by blast
    then show ?thesis by linarith
  next
    case (ThreeBytes a b c)
    have "c = 0xA8" if "unat c = 168" using that by (simp add: word_unat_eq_iff)
    moreover have "c = 0xA9" if "unat c = 169" using that by (simp add: word_unat_eq_iff)
    ultimately show ?thesis
      using three_byte_separator [of a b c 40] three_byte_separator [of a b c 41] assms
      unfolding ThreeBytes formBytes.simps
      by (cases "formRune (ThreeBytes a b c) = 0x2028"; cases "formRune (ThreeBytes a b c) = 0x2029")
        (simp_all del: formRune.simps formOK.simps)
  next
    case (FourBytes a b c d)
    with assms have "65536 \<le> formRune f" using four_byte_value by blast
    then show ?thesis by linarith
  qed
  then show "formRune f = 0x2028 \<Longrightarrow> formBytes f = [0xE2, 0x80, 0xA8]"
    "formRune f = 0x2029 \<Longrightarrow> formBytes f = [0xE2, 0x80, 0xA9]" by auto
qed

text \<open>The reader inverts the writer on valid strings.\<close>

lemma readString_canonicalEscape:
  "utf8_Valid v \<Longrightarrow> readString (canonicalEscape v @ 0x22 # rest) = Some (v, rest)"
proof (induction v rule: canonicalEscape.induct)
  case (1 v)
  show ?case
  proof (cases "v = []")
    case True
    then show ?thesis by (simp add: canonicalEscape.simps)
  next
    case nonempty: False
    with "1.prems" obtain r n where rune: "utf8_rune v = Some (r, n)" and valid: "utf8_Valid (drop n v)"
      by (subst (asm) utf8_Valid.simps) (auto split: option.splits)
    from utf8_rune_form [OF rune] obtain f where f: "formOK f" "r = formRune f" "take n v = formBytes f" by blast
    have decode: "utf8_DecodeRune v = (r, n)" using rune nonempty by (simp add: utf8_DecodeRune_def)
    have join: "formBytes f @ drop n v = v" using f(3) by (metis append_take_drop_id)
    show ?thesis
    proof (cases "0x80 \<le> hd v")
      case high: True
      have "hd (formBytes f) = hd v" using f(3) utf8_rune_size [OF rune] by (metis hd_take)
      then have bytes: "\<forall>b\<in>set (formBytes f). 0x80 \<le> b" using formBytes_high [OF f(1)] high by simp
      have tail: "readString (canonicalEscape (drop n v) @ 0x22 # rest) = Some (drop n v, rest)"
        using "1.IH"(1) [OF nonempty high] valid decode by simp
      have head: "readString ((if r \<noteq> 0x2028 \<and> r \<noteq> 0x2029 then take n v else escapeSeparator r) @ xs) =
          map_option (apfst (append (formBytes f))) (readString xs)" for xs
        using formRune_separator [OF f(1)] f(2,3) readString_high [OF bytes, of xs] readString_escapeSeparator [of xs]
        by (cases "r = 0x2028"; cases "r = 0x2029") (simp_all del: readString.simps)
      have esc: "canonicalEscape v =
          (if r \<noteq> 0x2028 \<and> r \<noteq> 0x2029 then take n v else escapeSeparator r) @ canonicalEscape (drop n v)"
        using nonempty high by (subst canonicalEscape.simps) (simp add: decode)
      show ?thesis unfolding esc append_assoc head tail using join by simp
    next
      case low: False
      obtain b bs where v: "v = b # bs" using nonempty by (cases v) simp_all
      have "b < 0x80" using low v by simp
      then have "n = 1" using rune by (simp add: v)
      with valid have "utf8_Valid (tl v)" by (simp add: drop_Suc)
      note tail = "1.IH"(2) [OF nonempty low this]
      have head: "readString ((if plainByte (hd v) then [hd v] else escapeByte (hd v)) @ xs) =
          map_option (apfst (append [hd v])) (readString xs)" for xs
        using readString_escapeByte readString_plain by (cases "plainByte (hd v)") (simp_all del: readString.simps)
      have esc: "canonicalEscape v =
          (if plainByte (hd v) then [hd v] else escapeByte (hd v)) @ canonicalEscape (tl v)"
        using nonempty low by (subst canonicalEscape.simps) simp
      show ?thesis unfolding esc append_assoc head tail using nonempty by simp
    qed
  qed
qed

lemma canonicalString_append:
  assumes "utf8_Valid v" "utf8_Valid w"
  shows "canonicalString v @ xs = canonicalString w @ ys \<longleftrightarrow> v = w \<and> xs = ys"
proof
  assume "canonicalString v @ xs = canonicalString w @ ys"
  then have "readString (canonicalEscape v @ 0x22 # xs) = readString (canonicalEscape w @ 0x22 # ys)"
    by (simp add: canonicalString_def del: readString.simps)
  then show "v = w \<and> xs = ys"
    unfolding readString_canonicalEscape [OF assms(1)] readString_canonicalEscape [OF assms(2)] by simp
qed simp

subsection \<open>Numbers\<close>

fun digits_value :: "gostring \<Rightarrow> nat \<Rightarrow> nat" where
  "digits_value [] acc = acc"
| "digits_value (d # ds) acc = digits_value ds (acc * 10 + unat (d - 0x30))"

lemma digits_value_append: "digits_value (xs @ ys) acc = digits_value ys (digits_value xs acc)"
  by (induction xs acc rule: digits_value.induct) simp_all

lemma unat_digit: "unat (word_of_nat (n mod 10) :: byte) = n mod 10"
proof -
  have "n mod 10 < 10" by simp
  then have "(n mod 10) mod 256 = n mod 10" by (intro mod_less) linarith
  then show ?thesis by (simp add: unsigned_of_nat take_bit_eq_mod)
qed

lemma unat_digit_char: "unat (0x30 + (word_of_nat (n mod 10) :: byte)) = 48 + n mod 10"
proof -
  have "n mod 10 < 10" by simp
  then have "(48 + n mod 10) mod 256 = 48 + n mod 10" by (intro mod_less) linarith
  then show ?thesis unfolding unat_word_ariths unat_digit by simp
qed

lemma digits_value_nat_digits: "digits_value (nat_digits n) 0 = n"
proof (induction n rule: nat_digits.induct)
  case (1 n)
  have "digits_value (nat_digits n) 0 = (if n < 10 then 0 else n div 10) * 10 + n mod 10"
    using 1 by (subst nat_digits.simps) (simp add: digits_value_append unat_digit)
  also have "\<dots> = n" by simp
  finally show ?case .
qed

lemma nat_digits_inject: "nat_digits m = nat_digits n \<longleftrightarrow> m = n"
  by (metis digits_value_nat_digits)

lemma nat_digits_range: "c \<in> set (nat_digits n) \<Longrightarrow> 0x30 \<le> c \<and> c \<le> 0x39"
proof (induction n rule: nat_digits.induct)
  case (1 n)
  from 1(2) consider "\<not> n < 10" "c \<in> set (nat_digits (n div 10))" | "c = 0x30 + word_of_nat (n mod 10)"
    by (subst (asm) nat_digits.simps) (auto split: if_splits)
  then show ?case
  proof cases
    case 2
    have "n mod 10 < 10" by simp
    then show ?thesis unfolding 2 word_le_nat_alt unat_digit_char by simp
  qed (use 1(1) in blast)
qed

definition formatInt :: "int64 \<Rightarrow> gostring" where
  "formatInt i = AppendInt [] i"

lemma AppendInt_format: "AppendInt data i = data @ formatInt i"
  by (simp add: AppendInt_def formatInt_def)

lemma formatInt_inject: "formatInt i = formatInt j \<longleftrightarrow> i = j"
proof
  have minus: "0x2d \<notin> set (nat_digits n)" for n
  proof
    assume "0x2d \<in> set (nat_digits n)"
    from nat_digits_range [OF this] show False by simp
  qed
  assume eq: "formatInt i = formatInt j"
  have "sint i = sint j"
  proof (cases "sint i < 0"; cases "sint j < 0")
    assume "sint i < 0" "\<not> sint j < 0"
    with eq have "0x2d # nat_digits (nat (- sint i)) = nat_digits (nat (sint j))" by (simp add: formatInt_def AppendInt_def)
    with minus show ?thesis by (metis list.set_intros(1))
  next
    assume "\<not> sint i < 0" "sint j < 0"
    with eq have "nat_digits (nat (sint i)) = 0x2d # nat_digits (nat (- sint j))" by (simp add: formatInt_def AppendInt_def)
    with minus show ?thesis by (metis list.set_intros(1))
  qed (use eq in \<open>simp_all add: formatInt_def AppendInt_def nat_digits_inject\<close>)
  then show "i = j" by (simp add: signed_word_eqI)
qed simp

lemma formatInt_append:
  "formatInt i @ 0x2c # xs = formatInt j @ 0x2c # ys \<longleftrightarrow> i = j \<and> xs = ys"
proof
  have clean: "\<forall>c\<in>set (formatInt k). c \<noteq> 0x2c" for k
    by (auto simp: formatInt_def AppendInt_def dest: nat_digits_range)
  have split: "takeWhile (\<lambda>c. c \<noteq> 0x2c) (formatInt k @ 0x2c # zs) = formatInt k"
    "dropWhile (\<lambda>c. c \<noteq> 0x2c) (formatInt k @ 0x2c # zs) = 0x2c # zs" for k zs
    using clean [of k] by (simp_all add: takeWhile_append dropWhile_append)
  assume "formatInt i @ 0x2c # xs = formatInt j @ 0x2c # ys"
  then show "i = j \<and> xs = ys"
    using split [of i xs] split [of j ys] formatInt_inject by (metis list.inject)
qed simp

end
