(* ===== verification/Payload_Protection.thy ===== *)
theory Payload_Protection
  imports Durable_Store Crypto_Gcm Canonical_Event
begin

section \<open>Payload protection\<close>

text \<open>
  The package \<^verbatim>\<open>internal/protection\<close>: keys, the additional authenticated data, sealing and opening, and
  the two service operations \<^verbatim>\<open>Prepare\<close> and \<^verbatim>\<open>OpenDigest\<close>. The key source is an interface that the
  repository does not implement: it is an argument of the operations, and so are the random
  source and the polls of the context. A nonce read from the random source is a 96-bit word.
\<close>

type_synonym bytes12 = "96 word"

definition PayloadProtectionFormatVersion :: int64 where "PayloadProtectionFormatVersion = 1"
definition protectionDomainTag :: gostring where "protectionDomainTag = str ''MS_ONCALL_GATEWAY_PAYLOAD_PROTECTION''"
definition purposeEvent :: byte where "purposeEvent = 0x01"
definition purposeDigest :: byte where "purposeDigest = 0x02"
definition gcmNonceSize :: nat where "gcmNonceSize = 12"
definition aes256KeySize :: nat where "aes256KeySize = 32"

subsection \<open>Keys\<close>

record Key =
  k_id :: gostring
  k_material :: "byte list"

definition validateAADString :: "gostring \<Rightarrow> go_error option" where
  "validateAADString v =
     (if \<not> utf8_Valid v \<or> length v > 2 ^ 32 - 1 then Some (protectionErr ErrProtectionInvalid) else None)"

definition NewKey :: "gostring \<Rightarrow> byte list \<Rightarrow> Key result" where
  "NewKey ident material =
     (if ident = [] \<or> validateAADString ident \<noteq> None \<or> length material \<noteq> aes256KeySize
      then Inl (protectionErr ErrProtectionInvalid)
      else Inr \<lparr>k_id = ident, k_material = material\<rparr>)"

definition Key_valid :: "Key \<Rightarrow> bool" where
  "Key_valid key = (k_id key \<noteq> [] \<and> validateAADString (k_id key) = None \<and> length (k_material key) = aes256KeySize)"

subsection \<open>Additional authenticated data\<close>

definition appendAADString :: "byte list \<Rightarrow> gostring \<Rightarrow> byte list" where
  "appendAADString aad v = aad @ be_bytes 4 (word_of_nat (length v) :: 32 word) @ v"

fun validateAADStrings :: "gostring list \<Rightarrow> go_error option" where
  "validateAADStrings [] = None"
| "validateAADStrings (v # vs) =
     (if v = [] then Some (protectionErr ErrProtectionInvalid)
      else case validateAADString v of Some e \<Rightarrow> Some e | None \<Rightarrow> validateAADStrings vs)"

definition buildAADForVersion ::
  "int64 \<Rightarrow> byte \<Rightarrow> int64 \<Rightarrow> DeliveryIdentity \<Rightarrow> gostring \<Rightarrow> gostring \<Rightarrow> gostring \<Rightarrow> byte list result" where
  "buildAADForVersion protectionFormatVersion purpose canonicalFormatVersion deliveryIdentity corePrincipalID
     destinationID keyID =
     (if sint protectionFormatVersion \<le> 0 \<or> sint canonicalFormatVersion \<le> 0 \<or> deliveryIdentity = 0 \<or>
         purpose \<noteq> purposeEvent \<and> purpose \<noteq> purposeDigest
      then Inl (protectionErr ErrProtectionInvalid)
      else case validateAADStrings [corePrincipalID, destinationID, keyID] of
             Some e \<Rightarrow> Inl e
           | None \<Rightarrow>
               Inr (appendAADString (appendAADString (appendAADString
                 (protectionDomainTag @ [0] @ be_bytes 8 protectionFormatVersion @ [purpose] @
                  be_bytes 8 canonicalFormatVersion @ be_bytes 16 deliveryIdentity)
                 corePrincipalID) destinationID) keyID))"

definition buildAAD ::
  "byte \<Rightarrow> int64 \<Rightarrow> DeliveryIdentity \<Rightarrow> gostring \<Rightarrow> gostring \<Rightarrow> gostring \<Rightarrow> byte list result" where
  "buildAAD = buildAADForVersion PayloadProtectionFormatVersion"

subsection \<open>Sealing and opening\<close>

text \<open>\<^verbatim>\<open>newGCM\<close>: the key of the cipher; \<^verbatim>\<open>aes.NewCipher\<close> accepts every 32-byte key.\<close>

definition newGCM :: "Key \<Rightarrow> byte list result" where
  "newGCM key = (if \<not> Key_valid key then Inl (protectionErr ErrProtectionFailed) else Inr (k_material key))"

definition sealProtected :: "Key \<Rightarrow> byte list \<Rightarrow> byte list \<Rightarrow> byte list \<Rightarrow> ProtectedValue result" where
  "sealProtected key nonce plaintext aad =
     (case newGCM key of
        Inl _ \<Rightarrow> Inl (protectionErr ErrProtectionFailed)
      | Inr material \<Rightarrow>
          if length nonce \<noteq> gcmNonceSize then Inl (protectionErr ErrProtectionFailed)
          else case NewProtectedValue (gcm_Seal material nonce plaintext aad) nonce of
                 Inl _ \<Rightarrow> Inl (protectionErr ErrProtectionFailed)
               | Inr protected \<Rightarrow> Inr protected)"

definition openProtected :: "Key \<Rightarrow> ProtectedValue \<Rightarrow> byte list \<Rightarrow> byte list result" where
  "openProtected key protected aad =
     (case newGCM key of
        Inl _ \<Rightarrow> Inl (protectionErr ErrProtectionFailed)
      | Inr material \<Rightarrow>
          if length (pv_nonce protected) \<noteq> gcmNonceSize then Inl (protectionErr ErrProtectionFailed)
          else case gcm_Open material (pv_nonce protected) (pv_ciphertext protected) aad of
                 None \<Rightarrow> Inl (protectionErr ErrProtectionFailed)
               | Some plaintext \<Rightarrow> Inr plaintext)"

subsection \<open>The service\<close>

record 'w KeySource =
  ks_ActiveKey :: "('w, Key result) state"
  ks_KeyByID :: "gostring \<Rightarrow> ('w, Key result) state"

record 'w ProtectionService =
  ps_keys :: "'w KeySource option"
  ps_random :: "('w, bytes12 result) state option"

definition validatePrepareInput ::
  "gostring \<Rightarrow> gostring \<Rightarrow> DeliveryIdentity \<Rightarrow> int64 \<Rightarrow> byte list \<Rightarrow> CanonicalDigest \<Rightarrow> go_error option" where
  "validatePrepareInput corePrincipalID destinationID deliveryIdentity formatVersion canonicalBytes canonicalDigest =
     (if corePrincipalID = [] \<or> destinationID = [] \<or> deliveryIdentity = 0 \<or> sint formatVersion \<le> 0 \<or> canonicalBytes = []
      then Some (protectionErr ErrProtectionInvalid)
      else case validateAADString corePrincipalID of
             Some e \<Rightarrow> Some e
           | None \<Rightarrow>
               (case validateAADString destinationID of
                  Some e \<Rightarrow> Some e
                | None \<Rightarrow>
                    if of_be_bytes (sha256_Sum canonicalBytes) \<noteq> canonicalDigest
                    then Some (protectionErr ErrProtectionInvalid) else None))"

definition validateDigestOpenRequest :: "DigestOpenRequest \<Rightarrow> go_error option" where
  "validateDigestOpenRequest request =
     (if do_EncryptionKeyID request = [] \<or> do_CorePrincipalID request = [] \<or> do_DestinationID request = [] \<or>
         do_DeliveryIdentity request = 0 \<or> sint (do_FormatVersion request) \<le> 0 \<or>
         pv_ciphertext (do_ProtectedDigest request) = [] \<or> length (pv_nonce (do_ProtectedDigest request)) \<noteq> gcmNonceSize
      then Some (protectionErr ErrProtectionInvalid)
      else first_some validateAADString
        [do_EncryptionKeyID request, do_CorePrincipalID request, do_DestinationID request])"

text \<open>\<^verbatim>\<open>service.nonces\<close>, under the lock of the random source.\<close>

definition protection_nonces :: "('w, bytes12 result) state \<Rightarrow> ('w, (byte list \<times> byte list) result) state" where
  "protection_nonces random = do {
     first \<leftarrow> random;
     case first of
       Inl _ \<Rightarrow> State_Monad.return (Inl (protectionErr ErrProtectionRandom))
     | Inr eventNonce \<Rightarrow> do {
         second \<leftarrow> random;
         State_Monad.return (case second of
             Inl _ \<Rightarrow> Inl (protectionErr ErrProtectionRandom)
           | Inr digestNonce \<Rightarrow> Inr (be_bytes 12 eventNonce, be_bytes 12 digestNonce)) } }"

text \<open>The part of \<^verbatim>\<open>Prepare\<close> after the nonces: no further call leaves the process.\<close>

definition sealAcceptance ::
  "gostring \<Rightarrow> gostring \<Rightarrow> DeliveryIdentity \<Rightarrow> CanonicalEvent \<Rightarrow> Key \<Rightarrow> byte list \<Rightarrow> byte list \<Rightarrow> PreparedAcceptance result" where
  "sealAcceptance corePrincipalID destinationID deliveryIdentity event key eventNonce digestNonce =
     (case buildAAD purposeEvent (ce_formatVersion event) deliveryIdentity corePrincipalID destinationID (k_id key) of
        Inl _ \<Rightarrow> Inl (protectionErr ErrProtectionInvalid)
      | Inr eventAAD \<Rightarrow>
          (case sealProtected key eventNonce (ce_data event) eventAAD of
             Inl _ \<Rightarrow> Inl (protectionErr ErrProtectionFailed)
           | Inr protectedEvent \<Rightarrow>
               (case buildAAD purposeDigest (ce_formatVersion event) deliveryIdentity corePrincipalID destinationID (k_id key) of
                  Inl _ \<Rightarrow> Inl (protectionErr ErrProtectionInvalid)
                | Inr digestAAD \<Rightarrow>
                    (case sealProtected key digestNonce (be_bytes 32 (ce_digest event)) digestAAD of
                       Inl _ \<Rightarrow> Inl (protectionErr ErrProtectionFailed)
                     | Inr protectedDigest \<Rightarrow>
                         (case NewPreparedAcceptance corePrincipalID destinationID deliveryIdentity (ce_formatVersion event)
                            protectedEvent protectedDigest (k_id key) (ce_digest event) of
                            Inl _ \<Rightarrow> Inl (protectionErr ErrProtectionFailed)
                          | Inr prepared \<Rightarrow> Inr prepared)))))"

definition prepare_with_key ::
  "('w, go_error option) state \<Rightarrow> ('w, bytes12 result) state \<Rightarrow> gostring \<Rightarrow> gostring \<Rightarrow> DeliveryIdentity \<Rightarrow>
   CanonicalEvent \<Rightarrow> Key \<Rightarrow> ('w, PreparedAcceptance result) state" where
  "prepare_with_key ctxErr random corePrincipalID destinationID deliveryIdentity event key = do {
     poll \<leftarrow> ctxErr;
     if poll \<noteq> None then State_Monad.return (Inl (protectionErr ErrProtectionFailed))
     else do {
       nonces \<leftarrow> protection_nonces random;
       case nonces of
         Inl _ \<Rightarrow> State_Monad.return (Inl (protectionErr ErrProtectionRandom))
       | Inr (eventNonce, digestNonce) \<Rightarrow>
           if eventNonce = digestNonce then State_Monad.return (Inl (protectionErr ErrProtectionRandom))
           else do {
             poll \<leftarrow> ctxErr;
             State_Monad.return
               (if poll \<noteq> None then Inl (protectionErr ErrProtectionFailed)
                else sealAcceptance corePrincipalID destinationID deliveryIdentity event key eventNonce digestNonce) } } }"

definition prepare_validated ::
  "('w, go_error option) state \<Rightarrow> 'w KeySource \<Rightarrow> ('w, bytes12 result) state \<Rightarrow> gostring \<Rightarrow> gostring \<Rightarrow> DeliveryIdentity \<Rightarrow>
   CanonicalEvent \<Rightarrow> ('w, PreparedAcceptance result) state" where
  "prepare_validated ctxErr keys random corePrincipalID destinationID deliveryIdentity event = do {
     active \<leftarrow> ks_ActiveKey keys;
     case active of
       Inl _ \<Rightarrow> State_Monad.return (Inl (protectionErr ErrProtectionKeyUnavailable))
     | Inr key \<Rightarrow>
         if \<not> Key_valid key then State_Monad.return (Inl (protectionErr ErrProtectionKeyUnavailable))
         else prepare_with_key ctxErr random corePrincipalID destinationID deliveryIdentity event key }"

definition protection_Prepare ::
  "('w, go_error option) state \<Rightarrow> 'w ProtectionService option \<Rightarrow> go_context \<Rightarrow> gostring \<Rightarrow> gostring \<Rightarrow> DeliveryIdentity \<Rightarrow>
   CanonicalEvent \<Rightarrow> ('w, PreparedAcceptance result) state" where
  "protection_Prepare ctxErr service ctx corePrincipalID destinationID deliveryIdentity event =
     (case (case service of None \<Rightarrow> (None, None) | Some svc \<Rightarrow> (ps_keys svc, ps_random svc)) of
        (Some keys, Some random) \<Rightarrow>
          if ctx = NilContext then State_Monad.return (Inl (protectionErr ErrProtectionInvalid))
          else do {
            poll \<leftarrow> ctxErr;
            if poll \<noteq> None then State_Monad.return (Inl (protectionErr ErrProtectionFailed))
            else if validatePrepareInput corePrincipalID destinationID deliveryIdentity (ce_formatVersion event)
                      (ce_data event) (ce_digest event) \<noteq> None
            then State_Monad.return (Inl (protectionErr ErrProtectionInvalid))
            else prepare_validated ctxErr keys random corePrincipalID destinationID deliveryIdentity event }
      | _ \<Rightarrow> State_Monad.return (Inl (protectionErr ErrProtectionInvalid)))"

text \<open>What is read from the protected digest of a request under a key.\<close>

definition openDigestWith :: "Key \<Rightarrow> DigestOpenRequest \<Rightarrow> CanonicalDigest result" where
  "openDigestWith key request =
     (case buildAAD purposeDigest (do_FormatVersion request) (do_DeliveryIdentity request) (do_CorePrincipalID request)
        (do_DestinationID request) (do_EncryptionKeyID request) of
        Inl _ \<Rightarrow> Inl (protectionErr ErrProtectedDigestUnreadable)
      | Inr aad \<Rightarrow>
          (case openProtected key (do_ProtectedDigest request) aad of
             Inl _ \<Rightarrow> Inl (protectionErr ErrProtectedDigestUnreadable)
           | Inr plaintext \<Rightarrow>
               if length plaintext \<noteq> sha256_Size then Inl (protectionErr ErrProtectedDigestUnreadable)
               else Inr (of_be_bytes plaintext)))"

definition protection_OpenDigest ::
  "('w, go_error option) state \<Rightarrow> 'w ProtectionService option \<Rightarrow> go_context \<Rightarrow> DigestOpenRequest \<Rightarrow>
   ('w, CanonicalDigest result) state" where
  "protection_OpenDigest ctxErr service ctx request =
     (case (case service of None \<Rightarrow> None | Some svc \<Rightarrow> ps_keys svc) of
        None \<Rightarrow> State_Monad.return (Inl (protectionErr ErrProtectedDigestUnreadable))
      | Some keys \<Rightarrow>
          if ctx = NilContext then State_Monad.return (Inl (protectionErr ErrProtectedDigestUnreadable))
          else do {
            poll \<leftarrow> ctxErr;
            if poll \<noteq> None \<or> validateDigestOpenRequest request \<noteq> None
            then State_Monad.return (Inl (protectionErr ErrProtectedDigestUnreadable))
            else do {
              found \<leftarrow> ks_KeyByID keys (do_EncryptionKeyID request);
              case found of
                Inl _ \<Rightarrow> State_Monad.return (Inl (protectionErr ErrProtectedDigestUnreadable))
              | Inr key \<Rightarrow>
                  if \<not> Key_valid key \<or> k_id key \<noteq> do_EncryptionKeyID request
                  then State_Monad.return (Inl (protectionErr ErrProtectedDigestUnreadable))
                  else do {
                    poll \<leftarrow> ctxErr;
                    State_Monad.return
                      (if poll \<noteq> None then Inl (protectionErr ErrProtectedDigestUnreadable)
                       else openDigestWith key request) } } })"

subsection \<open>The additional data names its context\<close>

lemma aad_string_append:
  assumes "length u \<le> 2 ^ 32 - 1" "length v \<le> 2 ^ 32 - 1"
  shows "be_bytes 4 (word_of_nat (length u) :: 32 word) @ u @ xs = be_bytes 4 (word_of_nat (length v) :: 32 word) @ v @ ys \<longleftrightarrow>
    u = v \<and> xs = ys"
proof
  assume eq: "be_bytes 4 (word_of_nat (length u) :: 32 word) @ u @ xs = be_bytes 4 (word_of_nat (length v) :: 32 word) @ v @ ys"
  have small: "unat (word_of_nat n :: 32 word) = n" if "n \<le> 2 ^ 32 - 1" for n
    using that by (simp add: unsigned_of_nat take_bit_eq_mod)
  from eq have "be_bytes 4 (word_of_nat (length u) :: 32 word) = be_bytes 4 (word_of_nat (length v) :: 32 word)" and rest: "u @ xs = v @ ys"
    by simp_all
  then have "(word_of_nat (length u) :: 32 word) = word_of_nat (length v)" by (simp add: be_bytes_inject)
  then have "length u = length v" using small [OF assms(1)] small [OF assms(2)] by metis
  with rest show "u = v \<and> xs = ys" by simp
qed simp

lemma validateAADStrings_None: "validateAADStrings vs = None \<longleftrightarrow> (\<forall>v\<in>set vs. v \<noteq> [] \<and> validateAADString v = None)"
  by (induction vs) (auto split: option.splits)

lemma validateAADString_None: "validateAADString v = None \<longleftrightarrow> utf8_Valid v \<and> length v \<le> 2 ^ 32 - 1"
  by (auto simp: validateAADString_def)

lemma buildAADForVersion_Inr:
  "buildAADForVersion version purpose format identity core destination keyID = Inr aad \<longleftrightarrow>
     0 < sint version \<and> 0 < sint format \<and> identity \<noteq> 0 \<and> purpose \<in> {purposeEvent, purposeDigest} \<and>
     (\<forall>v\<in>{core, destination, keyID}. v \<noteq> [] \<and> validateAADString v = None) \<and>
     aad = protectionDomainTag @ [0] @ be_bytes 8 version @ [purpose] @ be_bytes 8 format @ be_bytes 16 identity @
       be_bytes 4 (word_of_nat (length core) :: 32 word) @ core @
       be_bytes 4 (word_of_nat (length destination) :: 32 word) @ destination @
       be_bytes 4 (word_of_nat (length keyID) :: 32 word) @ keyID"
  unfolding buildAADForVersion_def
  by (auto simp: appendAADString_def validateAADStrings_None split: option.splits)

text \<open>C25. The additional authenticated data determines the version, the purpose and the whole context: data
  built for two contexts is equal only when the contexts are.\<close>

theorem buildAAD_injective:
  assumes "buildAADForVersion version purpose format identity core destination keyID = Inr aad"
    and "buildAADForVersion version' purpose' format' identity' core' destination' keyID' = Inr aad"
  shows "version = version' \<and> purpose = purpose' \<and> format = format' \<and> identity = identity' \<and>
    core = core' \<and> destination = destination' \<and> keyID = keyID'"
proof -
  note ok = assms [unfolded buildAADForVersion_Inr validateAADString_None]
  have len: "length core \<le> 2 ^ 32 - 1" "length core' \<le> 2 ^ 32 - 1" "length destination \<le> 2 ^ 32 - 1"
    "length destination' \<le> 2 ^ 32 - 1" "length keyID \<le> 2 ^ 32 - 1" "length keyID' \<le> 2 ^ 32 - 1"
    using ok by blast+
  from ok have eq: "protectionDomainTag @ [0] @ be_bytes 8 version @ [purpose] @ be_bytes 8 format @ be_bytes 16 identity @
       be_bytes 4 (word_of_nat (length core) :: 32 word) @ core @
       be_bytes 4 (word_of_nat (length destination) :: 32 word) @ destination @
       be_bytes 4 (word_of_nat (length keyID) :: 32 word) @ keyID =
     protectionDomainTag @ [0] @ be_bytes 8 version' @ [purpose'] @ be_bytes 8 format' @ be_bytes 16 identity' @
       be_bytes 4 (word_of_nat (length core') :: 32 word) @ core' @
       be_bytes 4 (word_of_nat (length destination') :: 32 word) @ destination' @
       be_bytes 4 (word_of_nat (length keyID') :: 32 word) @ keyID'"
    by metis
  from eq have fixed: "be_bytes 8 version = be_bytes 8 version'" "purpose = purpose'" "be_bytes 8 format = be_bytes 8 format'"
      "be_bytes 16 identity = be_bytes 16 identity'"
    and strings: "be_bytes 4 (word_of_nat (length core) :: 32 word) @ core @
       be_bytes 4 (word_of_nat (length destination) :: 32 word) @ destination @
       be_bytes 4 (word_of_nat (length keyID) :: 32 word) @ keyID @ [] =
     be_bytes 4 (word_of_nat (length core') :: 32 word) @ core' @
       be_bytes 4 (word_of_nat (length destination') :: 32 word) @ destination' @
       be_bytes 4 (word_of_nat (length keyID') :: 32 word) @ keyID' @ []"
    by simp_all
  from strings have "core = core' \<and> destination = destination' \<and> keyID = keyID'"
    by (simp only: aad_string_append [OF len(1,2)] aad_string_append [OF len(3,4)] aad_string_append [OF len(5,6)] simp_thms)
  with fixed show ?thesis by (simp add: be_bytes_inject)
qed

lemma sample_aad:
  "\<exists>aad. buildAADForVersion 1 purposeDigest 1 7 (str ''core'') (str ''dest'') (str ''key'') = Inr aad"
  "\<exists>aad. buildAADForVersion 1 purposeDigest 1 7 (str ''core'') (str ''other'') (str ''key'') = Inr aad"
proof -
  have "utf8_Valid (str ''core'')" "utf8_Valid (str ''dest'')" "utf8_Valid (str ''other'')" "utf8_Valid (str ''key'')"
    by code_simp+
  then have "validateAADString (str ''core'') = None" "validateAADString (str ''dest'') = None"
    "validateAADString (str ''other'') = None" "validateAADString (str ''key'') = None"
    unfolding validateAADString_None by (simp_all add: str_def)
  then show "\<exists>aad. buildAADForVersion 1 purposeDigest 1 7 (str ''core'') (str ''dest'') (str ''key'') = Inr aad"
    "\<exists>aad. buildAADForVersion 1 purposeDigest 1 7 (str ''core'') (str ''other'') (str ''key'') = Inr aad"
    by (simp_all add: buildAADForVersion_Inr) (simp_all add: str_def)
qed

theorem buildAAD_injective_witness:
  "buildAADForVersion 1 purposeDigest 1 7 (str ''core'') (str ''dest'') (str ''key'') \<noteq>
   buildAADForVersion 1 purposeDigest 1 7 (str ''core'') (str ''other'') (str ''key'')"
proof
  assume eq: "buildAADForVersion 1 purposeDigest 1 7 (str ''core'') (str ''dest'') (str ''key'') =
    buildAADForVersion 1 purposeDigest 1 7 (str ''core'') (str ''other'') (str ''key'')"
  obtain aad where "buildAADForVersion 1 purposeDigest 1 7 (str ''core'') (str ''dest'') (str ''key'') = Inr aad"
    using sample_aad(1) by blast
  from buildAAD_injective [OF this this [unfolded eq]] have "str ''dest'' = str ''other''" by blast
  then show False by (simp add: str_def)
qed

subsection \<open>What is sealed can be opened\<close>

lemma open_sealed:
  assumes "sealProtected key nonce plaintext aad = Inr protected"
  shows "openProtected key protected aad = Inr plaintext"
    and "protected = \<lparr>pv_ciphertext = gcm_Seal (k_material key) nonce plaintext aad, pv_nonce = nonce\<rparr>"
  using assms
  by (auto simp: sealProtected_def openProtected_def newGCM_def NewProtectedValue_def gcm_Open_Seal
      split: sum.splits if_splits)

lemma open_authentic:
  assumes "openProtected key protected aad = Inr plaintext"
  shows "pv_ciphertext protected = gcm_Seal (k_material key) (pv_nonce protected) plaintext aad"
  using assms by (auto simp: openProtected_def newGCM_def gcm_Open_iff split: sum.splits if_splits option.splits)

lemma sealAcceptance_Inr:
  assumes "sealAcceptance core destination identity event key eventNonce digestNonce = Inr prepared"
  obtains eventAAD digestAAD protectedEvent protectedDigest where
    "buildAAD purposeEvent (ce_formatVersion event) identity core destination (k_id key) = Inr eventAAD"
    "buildAAD purposeDigest (ce_formatVersion event) identity core destination (k_id key) = Inr digestAAD"
    "sealProtected key eventNonce (ce_data event) eventAAD = Inr protectedEvent"
    "sealProtected key digestNonce (be_bytes 32 (ce_digest event)) digestAAD = Inr protectedDigest"
    "prepared = \<lparr>pa_corePrincipalID = core, pa_destinationID = destination, pa_deliveryIdentity = identity,
       pa_formatVersion = ce_formatVersion event, pa_canonicalEvent = protectedEvent, pa_protectedDigest = protectedDigest,
       pa_encryptionKeyID = k_id key, pa_equivalenceDigest = ce_digest event\<rparr>"
    "PreparedAcceptance_validate prepared = None"
  using assms
  by (auto simp: sealAcceptance_def NewPreparedAcceptance_def Let_def split: sum.splits option.splits)

text \<open>The digest a key ring reads for a request.\<close>

definition openedBy :: "(gostring \<rightharpoonup> Key) \<Rightarrow> DigestOpenRequest \<Rightarrow> CanonicalDigest option" where
  "openedBy keyring request =
     (case keyring (do_EncryptionKeyID request) of
        None \<Rightarrow> None
      | Some key \<Rightarrow> (case openDigestWith key request of Inl _ \<Rightarrow> None | Inr d \<Rightarrow> Some d))"

lemma sealed_digest_opens:
  assumes "sealAcceptance core destination identity event key eventNonce digestNonce = Inr prepared"
  shows "openDigestWith key (openRequest prepared (storedAs receipt prepared)) = Inr (ce_digest event)"
  using assms
proof (rule sealAcceptance_Inr)
  fix eventAAD digestAAD protectedEvent protectedDigest
  assume aad: "buildAAD purposeDigest (ce_formatVersion event) identity core destination (k_id key) = Inr digestAAD"
    and seal: "sealProtected key digestNonce (be_bytes 32 (ce_digest event)) digestAAD = Inr protectedDigest"
    and prepared: "prepared = \<lparr>pa_corePrincipalID = core, pa_destinationID = destination, pa_deliveryIdentity = identity,
       pa_formatVersion = ce_formatVersion event, pa_canonicalEvent = protectedEvent, pa_protectedDigest = protectedDigest,
       pa_encryptionKeyID = k_id key, pa_equivalenceDigest = ce_digest event\<rparr>"
  show ?thesis
    using aad open_sealed(1) [OF seal]
    by (simp add: openDigestWith_def openRequest_def storedAs_def prepared sha256_Size_def of_be_bytes_be_bytes)
qed

subsection \<open>The operations\<close>

text \<open>A key source that answers from a key ring or fails, and touches nothing else.\<close>

definition keySourceFor :: "('w \<Rightarrow> 'm) \<Rightarrow> ('w \<Rightarrow> bool) \<Rightarrow> 'w KeySource \<Rightarrow> (gostring \<rightharpoonup> Key) \<Rightarrow> bool" where
  "keySourceFor view ready keys keyring =
     (reads view ready (ks_ActiveKey keys) (\<lambda>r. \<forall>key. r = Inr key \<longrightarrow> keyring (k_id key) = Some key) \<and>
      (\<forall>i. reads view ready (ks_KeyByID keys i) (\<lambda>r. \<forall>key. r = Inr key \<longrightarrow> keyring i = Some key)))"

definition protectionService :: "'w KeySource \<Rightarrow> ('w, bytes12 result) state \<Rightarrow> 'w ProtectionService" where
  "protectionService keys random = \<lparr>ps_keys = Some keys, ps_random = Some random\<rparr>"

lemma open_digest_reads:
  assumes "reads view ready ctxErr (\<lambda>_. True)" "keySourceFor view ready keys keyring"
  shows "reads view ready (protection_OpenDigest ctxErr (Some (protectionService keys random)) ctx request)
    (\<lambda>r. \<forall>d. r = Inr d \<longrightarrow> openedBy keyring request = Some d)"
proof -
  have find: "reads view ready (ks_KeyByID keys i) (\<lambda>r. \<forall>key. r = Inr key \<longrightarrow> keyring i = Some key)" for i
    using assms(2) by (simp add: keySourceFor_def)
  show ?thesis
    unfolding protection_OpenDigest_def protectionService_def option.case ProtectionService.simps
    by (intro reads_intro reads_bind [OF assms(1)] reads_bind [OF find]) (auto simp: openedBy_def)
qed

text \<open>An acceptance that was sealed for a context under a key of the ring, with two different nonces.\<close>

definition preparedFor ::
  "gostring \<Rightarrow> gostring \<Rightarrow> DeliveryIdentity \<Rightarrow> CanonicalEvent \<Rightarrow> (gostring \<rightharpoonup> Key) \<Rightarrow> PreparedAcceptance \<Rightarrow> bool" where
  "preparedFor core destination identity event keyring p =
     (\<exists>key eventNonce digestNonce. keyring (k_id key) = Some key \<and> eventNonce \<noteq> digestNonce \<and>
        sealAcceptance core destination identity event key eventNonce digestNonce = Inr p)"

lemma prepare_reads:
  assumes "reads view ready ctxErr (\<lambda>_. True)" "keySourceFor view ready keys keyring" "reads view ready random (\<lambda>_. True)"
  shows "reads view ready (protection_Prepare ctxErr (Some (protectionService keys random)) ctx core destination identity event)
    (\<lambda>r. \<forall>p. r = Inr p \<longrightarrow> preparedFor core destination identity event keyring p)"
proof -
  have active: "reads view ready (ks_ActiveKey keys) (\<lambda>r. \<forall>key. r = Inr key \<longrightarrow> keyring (k_id key) = Some key)"
    using assms(2) by (simp add: keySourceFor_def)
  have nonces: "reads view ready (protection_nonces random) (\<lambda>_. True)"
    unfolding protection_nonces_def
    by (intro reads_return reads_if reads_sum reads_bind [OF assms(3)]) simp_all
  have sealed: "reads view ready (prepare_with_key ctxErr random core destination identity event key)
      (\<lambda>r. \<forall>p. r = Inr p \<longrightarrow> preparedFor core destination identity event keyring p)"
    if "keyring (k_id key) = Some key" for key
    unfolding prepare_with_key_def
    by (intro reads_return reads_if reads_sum reads_prod reads_bind [OF assms(1)] reads_bind [OF nonces])
      (use that in \<open>auto simp: preparedFor_def\<close>)
  have validated: "reads view ready (prepare_validated ctxErr keys random core destination identity event)
      (\<lambda>r. \<forall>p. r = Inr p \<longrightarrow> preparedFor core destination identity event keyring p)"
    unfolding prepare_validated_def
    by (intro reads_return reads_if reads_sum reads_bind [OF active] sealed) simp_all
  show ?thesis
    unfolding protection_Prepare_def protectionService_def option.case ProtectionService.simps prod.case
    by (intro reads_return reads_if reads_bind [OF assms(1)] validated) simp_all
qed

lemma preparedFor_fields:
  assumes "preparedFor core destination identity event keyring p"
  shows "pa_corePrincipalID p = core" "pa_destinationID p = destination" "pa_deliveryIdentity p = identity"
    "pa_formatVersion p = ce_formatVersion event" "pa_equivalenceDigest p = ce_digest event"
    "PreparedAcceptance_validate p = None"
  using assms unfolding preparedFor_def by (auto elim!: sealAcceptance_Inr)

lemma preparedFor_opens:
  assumes "preparedFor core destination identity event keyring p"
  shows "openedBy keyring (openRequest p (storedAs receipt p)) = Some (ce_digest event)"
    and "\<exists>key aad. keyring (pa_encryptionKeyID p) = Some key \<and>
      buildAAD purposeEvent (ce_formatVersion event) identity core destination (k_id key) = Inr aad \<and>
      openProtected key (pa_canonicalEvent p) aad = Inr (ce_data event)"
    and "pv_nonce (pa_canonicalEvent p) \<noteq> pv_nonce (pa_protectedDigest p)"
proof -
  obtain key n n' where key: "keyring (k_id key) = Some key" "n \<noteq> n'"
    and seal: "sealAcceptance core destination identity event key n n' = Inr p"
    using assms by (auto simp: preparedFor_def)
  from seal obtain eventAAD digestAAD protectedEvent protectedDigest where
    aad: "buildAAD purposeEvent (ce_formatVersion event) identity core destination (k_id key) = Inr eventAAD"
    and e: "sealProtected key n (ce_data event) eventAAD = Inr protectedEvent"
    and d: "sealProtected key n' (be_bytes 32 (ce_digest event)) digestAAD = Inr protectedDigest"
    and p: "pa_canonicalEvent p = protectedEvent" "pa_protectedDigest p = protectedDigest" "pa_encryptionKeyID p = k_id key"
    by (auto elim!: sealAcceptance_Inr)
  show "openedBy keyring (openRequest p (storedAs receipt p)) = Some (ce_digest event)"
    using sealed_digest_opens [OF seal, of receipt] key p by (simp add: openedBy_def openRequest_def storedAs_def)
  show "\<exists>key aad. keyring (pa_encryptionKeyID p) = Some key \<and>
      buildAAD purposeEvent (ce_formatVersion event) identity core destination (k_id key) = Inr aad \<and>
      openProtected key (pa_canonicalEvent p) aad = Inr (ce_data event)"
    using key aad open_sealed(1) [OF e] p by auto
  show "pv_nonce (pa_canonicalEvent p) \<noteq> pv_nonce (pa_protectedDigest p)"
    using open_sealed(2) [OF e] open_sealed(2) [OF d] key(2) p by simp
qed

text \<open>C23. An acceptance returned by \<^verbatim>\<open>Prepare\<close> names the context it was asked for, its two values are sealed
  under different nonces, and with the key ring that sealed it both open again: the event to its canonical
  bytes and the stored digest to the event's digest.\<close>

theorem prepared_acceptance_opens:
  assumes "reads view ready ctxErr (\<lambda>_. True)" "keySourceFor view ready keys keyring" "reads view ready random (\<lambda>_. True)"
  shows "reads view ready (protection_Prepare ctxErr (Some (protectionService keys random)) ctx core destination identity event)
    (\<lambda>r. \<forall>p. r = Inr p \<longrightarrow>
       deliveryKey p = (core, destination, identity) \<and> pa_equivalenceDigest p = ce_digest event \<and>
       pv_nonce (pa_canonicalEvent p) \<noteq> pv_nonce (pa_protectedDigest p) \<and>
       openedBy keyring (openRequest p (storedAs receipt p)) = Some (ce_digest event) \<and>
       (\<exists>key aad. keyring (pa_encryptionKeyID p) = Some key \<and>
          buildAAD purposeEvent (ce_formatVersion event) identity core destination (k_id key) = Inr aad \<and>
          openProtected key (pa_canonicalEvent p) aad = Inr (ce_data event)))"
proof (rule reads_mono [OF prepare_reads [OF assms]], intro allI impI)
  fix r p assume "\<forall>p. r = Inr p \<longrightarrow> preparedFor core destination identity event keyring p" "r = Inr p"
  then have p: "preparedFor core destination identity event keyring p" by blast
  have "deliveryKey p = (core, destination, identity)" "pa_equivalenceDigest p = ce_digest event"
    by (simp_all add: deliveryKey_def preparedFor_fields [OF p])
  with preparedFor_opens [OF p] show "deliveryKey p = (core, destination, identity) \<and> pa_equivalenceDigest p = ce_digest event \<and>
       pv_nonce (pa_canonicalEvent p) \<noteq> pv_nonce (pa_protectedDigest p) \<and>
       openedBy keyring (openRequest p (storedAs receipt p)) = Some (ce_digest event) \<and>
       (\<exists>key aad. keyring (pa_encryptionKeyID p) = Some key \<and>
          buildAAD purposeEvent (ce_formatVersion event) identity core destination (k_id key) = Inr aad \<and>
          openProtected key (pa_canonicalEvent p) aad = Inr (ce_data event))"
    by blast
qed

lemma nonce_not_empty: "be_bytes 12 v \<noteq> []"
  by (simp flip: length_0_conv)

lemma sealAcceptance_succeeds:
  assumes "validatePrepareInput core destination identity (ce_formatVersion event) (ce_data event) (ce_digest event) = None"
    and "Key_valid key"
  shows "\<exists>p. sealAcceptance core destination identity event key (be_bytes 12 (n :: bytes12)) (be_bytes 12 (n' :: bytes12)) = Inr p"
proof -
  have valid: "core \<noteq> []" "destination \<noteq> []" "identity \<noteq> 0" "0 < sint (ce_formatVersion event)"
    "validateAADString core = None" "validateAADString destination = None"
    using assms(1) by (auto simp: validatePrepareInput_def split: if_splits option.splits)
  have key: "k_id key \<noteq> []" "validateAADString (k_id key) = None" using assms(2) by (simp_all add: Key_valid_def)
  have aad: "\<exists>aad. buildAAD purpose (ce_formatVersion event) identity core destination (k_id key) = Inr aad"
    if "purpose = purposeEvent \<or> purpose = purposeDigest" for purpose
    using valid key that by (auto simp: buildAAD_def buildAADForVersion_Inr PayloadProtectionFormatVersion_def)
  obtain eventAAD digestAAD where aads:
    "buildAAD purposeEvent (ce_formatVersion event) identity core destination (k_id key) = Inr eventAAD"
    "buildAAD purposeDigest (ce_formatVersion event) identity core destination (k_id key) = Inr digestAAD"
    using aad by blast
  have seal: "sealProtected key (be_bytes 12 v) plaintext a =
      Inr \<lparr>pv_ciphertext = gcm_Seal (k_material key) (be_bytes 12 v) plaintext a, pv_nonce = be_bytes 12 v\<rparr>"
    for v :: bytes12 and plaintext a
    using assms(2) by (simp add: sealProtected_def newGCM_def NewProtectedValue_def gcmNonceSize_def nonce_not_empty)
  show "\<exists>p. sealAcceptance core destination identity event key (be_bytes 12 n) (be_bytes 12 n') = Inr p"
    using valid key aads seal
    by (simp add: sealAcceptance_def NewPreparedAcceptance_def PreparedAcceptance_validate_def ProtectedValue_valid_def
        Let_def nonce_not_empty)
qed

text \<open>C24. With a live context, a valid active key and two different nonces, \<^verbatim>\<open>Prepare\<close> returns an acceptance for
  every valid input.\<close>

theorem Prepare_succeeds:
  assumes "validatePrepareInput core destination identity (ce_formatVersion event) (ce_data event) (ce_digest event) = None"
    and "Key_valid key" "run_state (ks_ActiveKey keys) w = (Inr key, w)"
    and "run_state random w = (Inr n, w1)" "run_state random w1 = (Inr n', w2)" "n \<noteq> n'"
  shows "\<exists>p. run_state (protection_Prepare (State_Monad.return None) (Some (protectionService keys random)) CallContext
      core destination identity event) w = (Inr p, w2)"
proof -
  have "be_bytes 12 n \<noteq> be_bytes 12 n'" using assms(6) by (simp add: be_bytes_inject)
  then show ?thesis
    using assms sealAcceptance_succeeds [OF assms(1,2), of n n']
    by (simp add: protection_Prepare_def protectionService_def prepare_validated_def prepare_with_key_def
        protection_nonces_def go_run)
qed

definition sampleKey :: Key where
  "sampleKey = \<lparr>k_id = str ''key'', k_material = replicate 32 1\<rparr>"

definition sampleKeys :: "'w KeySource" where
  "sampleKeys = \<lparr>ks_ActiveKey = State_Monad.return (Inr sampleKey),
     ks_KeyByID = (\<lambda>i. State_Monad.return (if i = k_id sampleKey then Inr sampleKey else Inl (Leaf 0 False)))\<rparr>"

lemma sample_keys: "keySourceFor view ready sampleKeys [k_id sampleKey \<mapsto> sampleKey]"
  by (simp add: keySourceFor_def sampleKeys_def reads_def after_simps)

definition sampleCanonical :: CanonicalEvent where
  "sampleCanonical = \<lparr>ce_formatVersion = 1, ce_data = str ''{}'', ce_digest = of_be_bytes (sha256_Sum (str ''{}''))\<rparr>"

text \<open>A random source that counts.\<close>

definition sampleRandom :: "(nat, bytes12 result) state" where
  "sampleRandom = do { n \<leftarrow> State_Monad.get; State_Monad.set (n + 1); State_Monad.return (Inr (word_of_nat n)) }"

lemma sample_prepare:
  "validatePrepareInput (str ''core'') (str ''dest'') 7 (ce_formatVersion sampleCanonical) (ce_data sampleCanonical)
     (ce_digest sampleCanonical) = None"
  "Key_valid sampleKey" "run_state (ks_ActiveKey sampleKeys) w = (Inr sampleKey, w)"
  "run_state sampleRandom 0 = (Inr 0, 1)" "run_state sampleRandom 1 = (Inr 1, 2)" "(0 :: bytes12) \<noteq> 1"
proof -
  have "utf8_Valid (str ''core'')" "utf8_Valid (str ''dest'')" "utf8_Valid (str ''key'')" by code_simp+
  then have "validateAADString (str ''core'') = None" "validateAADString (str ''dest'') = None"
    "validateAADString (str ''key'') = None"
    unfolding validateAADString_None by (simp_all add: str_def)
  then show "validatePrepareInput (str ''core'') (str ''dest'') 7 (ce_formatVersion sampleCanonical) (ce_data sampleCanonical)
     (ce_digest sampleCanonical) = None" "Key_valid sampleKey"
    by (simp_all add: validatePrepareInput_def sampleCanonical_def sampleKey_def Key_valid_def aes256KeySize_def)
      (simp_all add: str_def)
qed (simp_all add: sampleKeys_def sampleRandom_def go_run)

theorem Prepare_succeeds_witness:
  "\<exists>p. run_state (protection_Prepare (State_Monad.return None) (Some (protectionService sampleKeys sampleRandom)) CallContext
     (str ''core'') (str ''dest'') 7 sampleCanonical) 0 = (Inr p, 2)"
  by (rule Prepare_succeeds [OF sample_prepare])

theorem prepared_acceptance_opens_witness:
  "reads (\<lambda>_. ()) (\<lambda>_. True) (protection_Prepare (State_Monad.return None)
      (Some (protectionService sampleKeys sampleRandom)) CallContext (str ''core'') (str ''dest'') 7 sampleCanonical)
    (\<lambda>r. \<forall>p. r = Inr p \<longrightarrow> deliveryKey p = (str ''core'', str ''dest'', 7) \<and>
       openedBy [k_id sampleKey \<mapsto> sampleKey] (openRequest p (storedAs 5 p)) = Some (ce_digest sampleCanonical))"
proof -
  have "reads (\<lambda>_. ()) (\<lambda>_. True) (State_Monad.return None) (\<lambda>_. True)"
    "reads (\<lambda>_. ()) (\<lambda>_. True) sampleRandom (\<lambda>_. True)"
    by (auto simp: reads_def after_simps sampleRandom_def)
  from prepared_acceptance_opens [OF this(1) sample_keys this(2), of CallContext "str ''core''" "str ''dest''" 7 sampleCanonical 5]
  show ?thesis by (rule reads_mono) blast
qed


definition sampleAAD :: "byte list" where
  "sampleAAD = (case buildAAD purposeDigest 1 7 (str ''core'') (str ''dest'') (str ''key'') of Inl _ \<Rightarrow> [] | Inr aad \<Rightarrow> aad)"

definition sampleOpenRequest :: DigestOpenRequest where
  "sampleOpenRequest =
     \<lparr>do_ProtectedDigest = \<lparr>pv_ciphertext = gcm_Seal (k_material sampleKey) (replicate 12 3) (be_bytes 32 (9 :: bytes32)) sampleAAD,
        pv_nonce = replicate 12 3\<rparr>,
      do_EncryptionKeyID = str ''key'', do_CorePrincipalID = str ''core'', do_DestinationID = str ''dest'',
      do_DeliveryIdentity = 7, do_FormatVersion = 1\<rparr>"


end
