(* ===== verification/Acceptance_Repository.thy ===== *)
theory Acceptance_Repository
  imports Durable_Store Encoding
begin

section \<open>The PostgreSQL acceptance repository\<close>

text \<open>
  \<^verbatim>\<open>AcceptanceRepository.InsertOrLoad\<close> of \<^verbatim>\<open>internal/postgres/acceptance.go\<close> and the table
  \<^verbatim>\<open>durable_acceptances\<close> of \<^verbatim>\<open>000001_initial_schema.sql\<close>. The database of this repository is the
  list of the table's rows; the column \<^verbatim>\<open>created_at\<close>, which no query reads, is left out. The
  driver's objects are never nil when it reports no error, as its documentation says and
  the code relies on without a test, so only the error of an acquisition or of a transaction
  start is looked at. An insertion waits for the end of a concurrent one of the same
  identity, so the committed rows it sees include it.
\<close>

subsection \<open>The table\<close>

record acceptance_row =
  ar_receipt_id :: ReceiptID
  ar_core_principal_id :: gostring
  ar_destination_id :: gostring
  ar_core_delivery_identity :: DeliveryIdentity
  ar_format_version :: int64
  ar_event_ciphertext :: "byte list"
  ar_event_nonce :: "byte list"
  ar_digest_ciphertext :: "byte list"
  ar_digest_nonce :: "byte list"
  ar_encryption_key_id :: gostring

definition identityConstraintName :: gostring where
  "identityConstraintName = str ''durable_acceptances_delivery_identity_unique''"

definition receiptConstraintName :: gostring where
  "receiptConstraintName = str ''durable_acceptances_pkey''"

text \<open>A value of a \<^verbatim>\<open>text\<close> column: valid UTF-8 without a zero byte.\<close>

definition pg_text :: "gostring \<Rightarrow> bool" where
  "pg_text s = (utf8_Valid s \<and> 0 \<notin> set s)"

definition acceptanceTexts :: "acceptance_row \<Rightarrow> bool" where
  "acceptanceTexts row =
     (pg_text (ar_core_principal_id row) \<and> pg_text (ar_destination_id row) \<and> pg_text (ar_encryption_key_id row))"

definition acceptanceChecks :: "acceptance_row \<Rightarrow> bool" where
  "acceptanceChecks row =
     (0 < length (ar_core_principal_id row) \<and> 0 < length (ar_destination_id row) \<and>
      0 < sint (ar_format_version row) \<and> 0 < length (ar_event_ciphertext row) \<and>
      0 < length (ar_event_nonce row) \<and> 0 < length (ar_digest_ciphertext row) \<and>
      0 < length (ar_digest_nonce row) \<and> 0 < length (ar_encryption_key_id row))"

definition rowKey :: "acceptance_row \<Rightarrow> deliveryKey" where
  "rowKey row = (ar_core_principal_id row, ar_destination_id row, ar_core_delivery_identity row)"

text \<open>\<^verbatim>\<open>insertAcceptanceSQL\<close>: the text of the receipt when the row was added, no row when the
  identity is taken.\<close>

definition insertAcceptanceSQL ::
  "acceptance_row \<Rightarrow> acceptance_row list \<Rightarrow> go_error + (gostring option \<times> acceptance_row list)" where
  "insertAcceptanceSQL row rows =
     (if \<not> acceptanceTexts row then Inl (PgError (str ''22021'') [])
      else if \<not> acceptanceChecks row then Inl (PgError (str ''23514'') [])
      else if list_ex (\<lambda>r. rowKey r = rowKey row) rows then Inr (None, rows)
      else if list_ex (\<lambda>r. ar_receipt_id r = ar_receipt_id row) rows
      then Inl (PgError (str ''23505'') receiptConstraintName)
      else Inr (Some (formatUUID (ar_receipt_id row)), rows @ [row]))"

text \<open>\<^verbatim>\<open>selectAcceptanceSQL\<close>: the columns of the row with an identity.\<close>

definition selectAcceptanceSQL ::
  "deliveryKey \<Rightarrow> acceptance_row list \<Rightarrow> (gostring \<times> int64 \<times> byte list \<times> byte list \<times> gostring) option" where
  "selectAcceptanceSQL k rows =
     map_option (\<lambda>r. (formatUUID (ar_receipt_id r), ar_format_version r, ar_digest_ciphertext r,
         ar_digest_nonce r, ar_encryption_key_id r))
       (find (\<lambda>r. rowKey r = k) rows)"

definition candidateAcceptanceRow :: "Candidate \<Rightarrow> acceptance_row" where
  "candidateAcceptanceRow c =
     (let a = c_Acceptance c in
      \<lparr>ar_receipt_id = c_ReceiptID c, ar_core_principal_id = pa_corePrincipalID a,
       ar_destination_id = pa_destinationID a, ar_core_delivery_identity = pa_deliveryIdentity a,
       ar_format_version = pa_formatVersion a,
       ar_event_ciphertext = pv_ciphertext (pa_canonicalEvent a), ar_event_nonce = pv_nonce (pa_canonicalEvent a),
       ar_digest_ciphertext = pv_ciphertext (pa_protectedDigest a), ar_digest_nonce = pv_nonce (pa_protectedDigest a),
       ar_encryption_key_id = pa_encryptionKeyID a\<rparr>)"

subsection \<open>The operation\<close>

type_synonym acceptance_session = "acceptance_row list session"

definition contextFailure :: "go_error \<Rightarrow> ('db session, bool) state" where
  "contextFailure err =
     (if errors_Is err (Context Canceled) \<or> errors_Is err (Context DeadlineExceeded) then State_Monad.return True
      else do {
        first \<leftarrow> ctx_Err;
        if errors_Is_opt first (Context Canceled) then State_Monad.return True
        else do {
          second \<leftarrow> ctx_Err;
          State_Monad.return (errors_Is_opt second (Context DeadlineExceeded)) } })"

text \<open>The results of the steps below carry whether the deferred release of the connection still
  applies.\<close>

type_synonym 'a unreleased = "'a result \<times> bool"

text \<open>The closure \<^verbatim>\<open>rollback\<close>.\<close>

definition acceptance_rollback ::
  "durable_sentinel \<Rightarrow> bool \<Rightarrow> string \<Rightarrow> (acceptance_session, PersistenceResult unreleased) state" where
  "acceptance_rollback kind destroy operation = do {
     rollbackErr \<leftarrow> tx_Rollback;
     if rollbackErr \<noteq> None \<and> \<not> errors_Is_opt rollbackErr (Pgx ErrTxClosed)
     then do {
       connection_Destroy;
       State_Monad.return (Inl (safeError (durableErr ErrStoreOutcomeUnknown) ''durable acceptance cleanup''), False) }
     else if destroy
     then do {
       connection_Destroy;
       State_Monad.return (Inl (safeError (durableErr kind) operation), False) }
     else State_Monad.return (Inl (safeError (durableErr kind) operation), True) }"

definition acceptance_commit ::
  "PersistenceResult \<Rightarrow> (acceptance_session, PersistenceResult unreleased) state" where
  "acceptance_commit result = do {
     commitErr \<leftarrow> tx_Commit;
     if commitErr \<noteq> None
     then do {
       connection_Destroy;
       State_Monad.return (Inl (safeError (durableErr ErrStoreOutcomeUnknown) ''durable acceptance commit''), False) }
     else State_Monad.return (Inr result, True) }"

definition insertedResult :: "ReceiptID \<Rightarrow> PersistenceResult" where
  "insertedResult receipt =
     \<lparr>pr_Inserted = True,
      pr_Stored = \<lparr>sa_ReceiptID = receipt, sa_FormatVersion = 0,
        sa_ProtectedDigest = \<lparr>pv_ciphertext = [], pv_nonce = []\<rparr>, sa_EncryptionKeyID = []\<rparr>\<rparr>"

text \<open>What is done with the columns of a stored acceptance.\<close>

definition acceptance_loaded ::
  "gostring \<times> int64 \<times> byte list \<times> byte list \<times> gostring \<Rightarrow> (acceptance_session, PersistenceResult unreleased) state" where
  "acceptance_loaded columns =
     (case columns of (storedReceiptString, storedVersion, storedCiphertext, storedNonce, storedKeyID) \<Rightarrow>
        case (durable_parseUUID storedReceiptString, NewProtectedValue storedCiphertext storedNonce) of
          (Inr storedReceipt, Inr storedDigest) \<Rightarrow>
            if sint storedVersion \<le> 0 \<or> storedKeyID = []
            then acceptance_rollback ErrStoredRecordUnreadable False ''durable acceptance stored record''
            else acceptance_commit
              \<lparr>pr_Inserted = False,
               pr_Stored = \<lparr>sa_ReceiptID = storedReceipt, sa_FormatVersion = storedVersion,
                 sa_ProtectedDigest = storedDigest, sa_EncryptionKeyID = storedKeyID\<rparr>\<rparr>
        | _ \<Rightarrow> acceptance_rollback ErrStoredRecordUnreadable False ''durable acceptance stored record'')"

definition acceptance_lookup ::
  "(go_error \<Rightarrow> bool) \<Rightarrow> deliveryKey \<Rightarrow> (acceptance_session, PersistenceResult unreleased) state" where
  "acceptance_lookup timeout k = do {
     scanned \<leftarrow> tx_QueryRow_returning (\<lambda>rows. Inr (selectAcceptanceSQL k rows, rows));
     case scanned of
       Inl err \<Rightarrow> do {
         failed \<leftarrow> contextFailure err;
         if failed then acceptance_rollback ErrStoreCanceled False ''durable acceptance lookup''
         else if isConnectionInterruption timeout (Some err)
         then acceptance_rollback ErrStoreUnavailable True ''durable acceptance lookup''
         else acceptance_rollback ErrStoreFailure False ''durable acceptance lookup'' }
     | Inr columns \<Rightarrow> acceptance_loaded columns }"

definition acceptance_transaction ::
  "(go_error \<Rightarrow> bool) \<Rightarrow> Candidate \<Rightarrow> (acceptance_session, PersistenceResult unreleased) state" where
  "acceptance_transaction timeout candidate = do {
     scanned \<leftarrow> tx_QueryRow_returning (insertAcceptanceSQL (candidateAcceptanceRow candidate));
     case scanned of
       Inr insertedReceipt \<Rightarrow>
         if durable_parseUUID insertedReceipt \<noteq> Inr (c_ReceiptID candidate)
         then acceptance_rollback ErrStoreFailure False ''durable acceptance insert result''
         else acceptance_commit (insertedResult (c_ReceiptID candidate))
     | Inl err \<Rightarrow>
         if errors_Is err (Pgx ErrNoRows) then acceptance_lookup timeout (deliveryKey (c_Acceptance candidate))
         else do {
           failed \<leftarrow> contextFailure err;
           if failed then acceptance_rollback ErrStoreCanceled False ''durable acceptance insert''
           else if isConnectionInterruption timeout (Some err)
           then acceptance_rollback ErrStoreOutcomeUnknown True ''durable acceptance insert''
           else acceptance_rollback ErrStoreFailure False ''durable acceptance insert'' } }"

definition acceptance_begin ::
  "(go_error \<Rightarrow> bool) \<Rightarrow> Candidate \<Rightarrow> (acceptance_session, PersistenceResult unreleased) state" where
  "acceptance_begin timeout candidate = do {
     (_, err) \<leftarrow> connection_Begin;
     case err of
       Some e \<Rightarrow>
         if isConnectionInterruption timeout (Some e)
         then do {
           connection_Destroy;
           failed \<leftarrow> contextFailure e;
           State_Monad.return
             (Inl (safeError (durableErr (if failed then ErrStoreCanceled else ErrStoreUnavailable))
                ''durable acceptance begin''), False) }
         else State_Monad.return (Inl (safeError (durableErr ErrStoreFailure) ''durable acceptance begin''), True)
     | None \<Rightarrow> acceptance_transaction timeout candidate }"

text \<open>\<^verbatim>\<open>NewAcceptanceRepository\<close>'s acquisition, which drops whatever came with an error. \<open>configured\<close> says that
  the repository and its acquisition are not nil.\<close>

definition acceptance_acquire :: "(acceptance_session, go_error option) state" where
  "acceptance_acquire = do {
     a \<leftarrow> next_answer;
     case a of
       Refused e \<Rightarrow> State_Monad.return (Some e)
     | Lost e \<Rightarrow> State_Monad.return (Some e)
     | _ \<Rightarrow> do { record_event Acquired; State_Monad.return None } }"

definition InsertOrLoad ::
  "(go_error \<Rightarrow> bool) \<Rightarrow> bool \<Rightarrow> Candidate \<Rightarrow> (acceptance_session, PersistenceResult result) state" where
  "InsertOrLoad timeout configured candidate =
     (if \<not> configured
      then State_Monad.return (Inl (safeError (durableErr ErrStoreFailure) ''durable acceptance configuration''))
      else do {
        acquireErr \<leftarrow> acceptance_acquire;
        case acquireErr of
          Some e \<Rightarrow> do {
            failed \<leftarrow> contextFailure e;
            State_Monad.return
              (Inl (safeError (durableErr (if failed then ErrStoreCanceled else ErrStoreUnavailable))
                 ''durable acceptance connection'')) }
        | None \<Rightarrow> do {
            (result, release) \<leftarrow> acceptance_begin timeout candidate;
            (if release then connection_Release else State_Monad.return ());
            State_Monad.return result } })"

text \<open>\<^verbatim>\<open>constraintName\<close>.\<close>

definition constraintName :: "go_error \<Rightarrow> gostring" where
  "constraintName err =
     (case errors_As_PgError err of
        Some (code, name) \<Rightarrow> if code = str ''23505'' then name else []
      | None \<Rightarrow> [])"

subsection \<open>What the operation does for every behaviour of the driver\<close>

definition rowStored :: "acceptance_row \<Rightarrow> StoredAcceptance" where
  "rowStored row =
     \<lparr>sa_ReceiptID = ar_receipt_id row, sa_FormatVersion = ar_format_version row,
      sa_ProtectedDigest = \<lparr>pv_ciphertext = ar_digest_ciphertext row, pv_nonce = ar_digest_nonce row\<rparr>,
      sa_EncryptionKeyID = ar_encryption_key_id row\<rparr>"

definition insertable :: "Candidate \<Rightarrow> acceptance_row list \<Rightarrow> bool" where
  "insertable c rows =
     (insertAcceptanceSQL (candidateAcceptanceRow c) rows =
        Inr (Some (formatUUID (c_ReceiptID c)), rows @ [candidateAcceptanceRow c]))"

definition rowsPost :: "acceptance_row list \<Rightarrow> Candidate \<Rightarrow> PersistenceResult result \<Rightarrow> acceptance_row list \<Rightarrow> bool" where
  "rowsPost rows c r rows' =
     (case r of
        Inr p \<Rightarrow>
          if pr_Inserted p
          then p = insertedResult (c_ReceiptID c) \<and> insertable c rows \<and> rows' = rows @ [candidateAcceptanceRow c]
          else rows' = rows \<and>
            (\<exists>row. find (\<lambda>r. rowKey r = deliveryKey (c_Acceptance c)) rows = Some row \<and> pr_Stored p = rowStored row)
      | Inl e \<Rightarrow>
          \<exists>kind operation. e = safeError (durableErr kind) operation \<and>
            (rows' = rows \<or>
             kind = ErrStoreOutcomeUnknown \<and> insertable c rows \<and> rows' = rows @ [candidateAcceptanceRow c]))"

text \<open>The end of a transaction that started on the committed rows: the events are those of the
  connection.\<close>

definition endPost ::
  "acceptance_session \<Rightarrow> Candidate \<Rightarrow> PersistenceResult result \<times> bool \<Rightarrow> acceptance_session \<Rightarrow> bool" where
  "endPost s c x s' =
     (rowsPost (s_db s) c (fst x) (s_db s') \<and> s_tx s' = None \<and>
      s_log s' = s_log s @ (if snd x then [] else [Destroyed]) \<and> set (s_script s') \<subseteq> set (s_script s))"

text \<open>Inside a transaction only the working copy differs from the session before it.\<close>

definition within :: "acceptance_session \<Rightarrow> acceptance_session \<Rightarrow> bool" where
  "within s s' = (s_db s' = s_db s \<and> s_log s' = s_log s \<and> set (s_script s') \<subseteq> set (s_script s))"

lemma within_refl [simp]: "within s s"
  by (simp add: within_def)

lemma withinI: "moved s (s_db s) t [] s' \<Longrightarrow> within s s'" "same_data s s' \<Longrightarrow> within s s'"
  by (simp_all add: within_def moved_def same_data_def)

lemma within_trans: "within s s' \<Longrightarrow> within s' s'' \<Longrightarrow> within s s''"
  by (auto simp: within_def)

lemma endPost_within: "within s s' \<Longrightarrow> endPost s' c x s'' \<Longrightarrow> endPost s c x s''"
  by (auto simp: within_def endPost_def)

lemma acceptance_rollback_after:
  assumes "within s s'"
  shows "after (acceptance_rollback kind destroy operation) s' (endPost s c)"
  unfolding acceptance_rollback_def
  by (intro after_intro tx_Rollback_after connection_end_after;
      use assms in \<open>auto simp: within_def moved_def endPost_def rowsPost_def\<close>)

lemma contextFailure_same: "(\<And>b s'. same_data s s' \<Longrightarrow> Q b s') \<Longrightarrow> after (contextFailure e) s Q"
  unfolding contextFailure_def
  by (intro after_intro session_after) (auto intro: same_data_trans)

lemma contextFailure_after:
  "within s s' \<Longrightarrow> (\<And>b s''. within s s'' \<Longrightarrow> Q b s'') \<Longrightarrow> after (contextFailure e) s' Q"
  by (rule contextFailure_same) (auto simp: within_def same_data_def)

lemma acceptance_commit_after:
  assumes "within s s'" and "rowsPost (s_db s) c (Inr result) (tx_view s')"
    and "tx_view s' = s_db s \<or> insertable c (s_db s) \<and> tx_view s' = s_db s @ [candidateAcceptanceRow c]"
  shows "after (acceptance_commit result) s' (endPost s c)"
  unfolding acceptance_commit_def
  by (intro after_intro tx_Commit_after connection_end_after;
      use assms in \<open>auto simp: within_def moved_def endPost_def rowsPost_def [where r = "Inl e" for e]\<close>)

lemma parse_formatted: "durable_parseUUID (formatUUID v) = Inr w \<Longrightarrow> w = v"
  by (auto simp: durable_parseUUID_def formatUUID_layout hex_roundtrip of_be_bytes_be_bytes split: if_splits)

lemma acceptance_loaded_after:
  assumes "selectAcceptanceSQL (deliveryKey (c_Acceptance c)) (s_db s) = Some columns"
    and "tx_view s' = s_db s" "within s s'"
  shows "after (acceptance_loaded columns) s' (endPost s c)"
proof -
  obtain row where row: "find (\<lambda>r. rowKey r = deliveryKey (c_Acceptance c)) (s_db s) = Some row"
    and columns: "columns = (formatUUID (ar_receipt_id row), ar_format_version row, ar_digest_ciphertext row,
      ar_digest_nonce row, ar_encryption_key_id row)"
    using assms(1) by (auto simp: selectAcceptanceSQL_def)
  have "after (acceptance_commit \<lparr>pr_Inserted = False, pr_Stored = rowStored row\<rparr>) s' (endPost s c)"
    using row assms(2,3) by (intro acceptance_commit_after) (simp_all add: rowsPost_def)
  then show ?thesis
    unfolding acceptance_loaded_def columns prod.case
    by (auto simp: NewProtectedValue_def rowStored_def intro: acceptance_rollback_after [OF assms(3)]
        dest!: parse_formatted split: sum.splits)
qed

lemma acceptance_lookup_after:
  assumes "tx_view s' = s_db s" "within s s'"
  shows "after (acceptance_lookup timeout (deliveryKey (c_Acceptance c))) s' (endPost s c)"
  unfolding acceptance_lookup_def
proof (intro after_intro tx_QueryRow_returning_after)
  fix r t s'' err assume "moved s' (s_db s') t [] s''"
  with assms(2) have w: "within s s''" by (blast intro: within_trans withinI)
  show "after (contextFailure err) s'' (\<lambda>failed s'. after
      (if failed then acceptance_rollback ErrStoreCanceled False ''durable acceptance lookup''
       else if isConnectionInterruption timeout (Some err)
         then acceptance_rollback ErrStoreUnavailable True ''durable acceptance lookup''
         else acceptance_rollback ErrStoreFailure False ''durable acceptance lookup'') s' (endPost s c))"
    by (intro contextFailure_after [OF w] after_intro acceptance_rollback_after)
next
  fix r t s'' columns
  assume moved: "moved s' (s_db s') t [] s''" and r: "r = Inr columns"
    and q: "\<And>row. r = Inr row \<Longrightarrow> \<exists>d. Inr (selectAcceptanceSQL (deliveryKey (c_Acceptance c)) (tx_view s'), tx_view s') =
      Inr (Some row, d) \<and> t = Some d"
  from q [OF r] assms(1) have "selectAcceptanceSQL (deliveryKey (c_Acceptance c)) (s_db s) = Some columns" "t = Some (s_db s)"
    by auto
  with moved assms(2) show "after (acceptance_loaded columns) s'' (endPost s c)"
    by (intro acceptance_loaded_after) (auto simp: moved_def tx_view_def within_def)
qed

lemma insertAcceptance_cases:
  assumes "insertAcceptanceSQL (candidateAcceptanceRow c) rows = Inr (row, d)"
  shows "row = None \<and> d = rows \<or>
    row = Some (formatUUID (c_ReceiptID c)) \<and> d = rows @ [candidateAcceptanceRow c] \<and> insertable c rows"
  using assms by (auto simp: insertAcceptanceSQL_def insertable_def candidateAcceptanceRow_def Let_def split: if_splits)

lemma acceptance_transaction_after:
  assumes view: "tx_view s = s_db s" and honest: "no_rows_honest s"
  shows "after (acceptance_transaction timeout c) s (endPost s c)"
  unfolding acceptance_transaction_def
proof (intro after_intro tx_QueryRow_returning_after)
  fix r t s' err
  assume moved: "moved s (s_db s) t [] s'" and r: "r = Inl err" and none: "errors_Is err (Pgx ErrNoRows)"
    and t: "\<And>e. r = Inl e \<Longrightarrow> no_rows_honest s \<Longrightarrow> errors_Is e (Pgx ErrNoRows) \<Longrightarrow> t = s_tx s \<or>
      (\<exists>d. insertAcceptanceSQL (candidateAcceptanceRow c) (tx_view s) = Inr (None, d) \<and> t = Some d)"
  from t [OF r honest none] have "tx_view s' = s_db s"
    using moved view by (auto simp: moved_def tx_view_def dest!: insertAcceptance_cases)
  then show "after (acceptance_lookup timeout (deliveryKey (c_Acceptance c))) s' (endPost s c)"
    using moved by (intro acceptance_lookup_after) (auto intro: withinI)
next
  fix r t s' err
  assume "moved s (s_db s) t [] s'"
  then have w: "within s s'" by (rule withinI)
  show "after (contextFailure err) s' (\<lambda>failed s'. after
      (if failed then acceptance_rollback ErrStoreCanceled False ''durable acceptance insert''
       else if isConnectionInterruption timeout (Some err)
         then acceptance_rollback ErrStoreOutcomeUnknown True ''durable acceptance insert''
         else acceptance_rollback ErrStoreFailure False ''durable acceptance insert'') s' (endPost s c))"
    by (intro contextFailure_after [OF w] after_intro acceptance_rollback_after)
next
  fix r t s' receipt
  assume "moved s (s_db s) t [] s'"
  then show "after (acceptance_rollback ErrStoreFailure False ''durable acceptance insert result'') s' (endPost s c)"
    by (intro acceptance_rollback_after withinI)
next
  fix r t s' receipt
  assume moved: "moved s (s_db s) t [] s'" and r: "r = Inr receipt"
    and q: "\<And>row. r = Inr row \<Longrightarrow>
      \<exists>d. insertAcceptanceSQL (candidateAcceptanceRow c) (tx_view s) = Inr (Some row, d) \<and> t = Some d"
  from q [OF r] view have "t = Some (s_db s @ [candidateAcceptanceRow c])" "insertable c (s_db s)"
    by (auto dest!: insertAcceptance_cases)
  with moved show "after (acceptance_commit (insertedResult (c_ReceiptID c))) s' (endPost s c)"
    by (intro acceptance_commit_after) (auto simp: rowsPost_def insertedResult_def moved_def tx_view_def withinI within_def)
qed

lemma acceptance_begin_after:
  assumes "s_tx s = None" "no_rows_honest s"
  shows "after (acceptance_begin timeout c) s (endPost s c)"
proof -
  have run: "after (acceptance_transaction timeout c) s' (endPost s c)"
    if m: "moved s (s_db s) (if ok then Some (s_db s) else s_tx s) [] s'" for ok s'
  proof (rule after_mono [OF acceptance_transaction_after])
    show "tx_view s' = s_db s'" using m assms(1) by (cases ok) (simp_all add: moved_def tx_view_def)
    show "no_rows_honest s'" using m assms(2) by (auto simp: moved_def no_rows_honest_def)
    show "endPost s c x s''" if "endPost s' c x s''" for x s''
      using endPost_within [OF withinI(1) [OF m] that] .
  qed
  show ?thesis
    unfolding acceptance_begin_def
    by (intro after_intro connection_Begin_after connection_end_after contextFailure_same;
        use assms in \<open>auto intro!: run simp: session_frame endPost_def rowsPost_def\<close>)
qed

definition acceptance_log :: "connection_event list \<Rightarrow> bool" where
  "acceptance_log evs = (evs \<in> {[], [Acquired, Released], [Acquired, Destroyed]})"

lemma acceptance_acquire_after:
  assumes "\<And>e s'. moved s (s_db s) (s_tx s) (if e = None then [Acquired] else []) s' \<Longrightarrow> Q e s'"
  shows "after acceptance_acquire s Q"
  unfolding acceptance_acquire_def after_bind
proof (rule next_answer_after)
  fix a s' assume "same_data s s'"
  then show "after (case a of
       Refused e \<Rightarrow> State_Monad.return (Some e)
     | Lost e \<Rightarrow> State_Monad.return (Some e)
     | _ \<Rightarrow> State_Monad.bind (record_event Acquired) (\<lambda>_. State_Monad.return None)) s' Q"
    using assms by (cases a) (simp_all add: record_event_def after_simps same_data_def moved_def)
qed

lemma insert_or_load_after:
  assumes "s_tx s = None" "no_rows_honest s"
  shows "after (InsertOrLoad timeout configured c) s
    (\<lambda>r s'. rowsPost (s_db s) c r (s_db s') \<and> s_tx s' = None \<and> no_rows_honest s' \<and>
       (\<exists>evs. acceptance_log evs \<and> s_log s' = s_log s @ evs))"
proof -
  have run: "after (acceptance_begin timeout c) s' (\<lambda>x s''. endPost s' c x s'' \<and> no_rows_honest s'')"
    if m: "moved s (s_db s) (s_tx s) evs s'" for evs s'
    by (rule after_mono [OF acceptance_begin_after])
      (use m assms in \<open>auto simp: moved_def no_rows_honest_def endPost_def\<close>)
  show ?thesis
    unfolding InsertOrLoad_def
    by (intro after_intro acceptance_acquire_after contextFailure_same connection_end_after after_mono [OF run];
        use assms in \<open>auto simp: session_frame endPost_def acceptance_log_def no_rows_honest_def
          rowsPost_def [where r = "Inl (safeError (durableErr k) x)" for k x] split: if_splits\<close>)
qed

subsection \<open>The repository meets its contract\<close>

definition acceptedRows :: "acceptance_row list \<Rightarrow> deliveryKey \<Rightarrow> StoredAcceptance option" where
  "acceptedRows rows k = map_option rowStored (find (\<lambda>r. rowKey r = k) rows)"

definition acceptedIn :: "acceptance_session \<Rightarrow> deliveryKey \<Rightarrow> StoredAcceptance option" where
  "acceptedIn s = acceptedRows (s_db s)"

definition acceptanceIdle :: "acceptance_session \<Rightarrow> bool" where
  "acceptanceIdle s = (s_tx s = None \<and> no_rows_honest s)"

lemma find_append: "find P (xs @ ys) = (case find P xs of None \<Rightarrow> find P ys | Some x \<Rightarrow> Some x)"
  by (induction xs) simp_all

lemma insertable_iff:
  "insertable c rows \<longleftrightarrow> acceptanceTexts (candidateAcceptanceRow c) \<and> acceptanceChecks (candidateAcceptanceRow c) \<and>
     (\<forall>r\<in>set rows. rowKey r \<noteq> deliveryKey (c_Acceptance c) \<and> ar_receipt_id r \<noteq> c_ReceiptID c)"
  by (auto simp: insertable_def insertAcceptanceSQL_def list_ex_iff candidateAcceptanceRow_def rowKey_def deliveryKey_def
      Let_def)

lemma insertable_accepted:
  assumes "insertable c rows"
  shows "acceptedRows rows (deliveryKey (c_Acceptance c)) = None"
    "acceptedRows (rows @ [candidateAcceptanceRow c]) =
       (acceptedRows rows)(deliveryKey (c_Acceptance c) \<mapsto> storedAs (c_ReceiptID c) (c_Acceptance c))"
proof -
  have key: "rowKey (candidateAcceptanceRow c) = deliveryKey (c_Acceptance c)"
    and stored: "rowStored (candidateAcceptanceRow c) = storedAs (c_ReceiptID c) (c_Acceptance c)"
    by (simp_all add: candidateAcceptanceRow_def rowKey_def deliveryKey_def rowStored_def storedAs_def Let_def)
  have none: "find (\<lambda>r. rowKey r = deliveryKey (c_Acceptance c)) rows = None"
    using assms by (auto simp: insertable_iff find_None_iff)
  then show "acceptedRows rows (deliveryKey (c_Acceptance c)) = None" by (simp add: acceptedRows_def)
  show "acceptedRows (rows @ [candidateAcceptanceRow c]) =
      (acceptedRows rows)(deliveryKey (c_Acceptance c) \<mapsto> storedAs (c_ReceiptID c) (c_Acceptance c))"
    using none by (intro ext) (auto simp: acceptedRows_def find_append key stored split: option.splits)
qed

lemma rowsPost_insertPost:
  assumes "rowsPost rows c r rows'"
  shows "insertPost (acceptedRows rows) c r (acceptedRows rows')"
proof (cases r)
  case (Inl e)
  have "classifyRepositoryError (safeError (durableErr ErrStoreOutcomeUnknown) operation) = durableErr ErrStoreOutcomeUnknown"
    for operation by (simp add: classifyRepositoryError_def safeError_def)
  with assms Inl show ?thesis
    by (auto simp: rowsPost_def insertPost_def Let_def insertable_accepted)
next
  case (Inr p)
  show ?thesis
  proof (cases "pr_Inserted p")
    case True
    with assms Inr show ?thesis
      by (simp add: rowsPost_def insertPost_def Let_def insertable_accepted insertedResult_def)
  next
    case False
    with assms Inr show ?thesis
      by (auto simp: rowsPost_def insertPost_def Let_def acceptedRows_def)
  qed
qed

interpretation pgacc: acceptance_repository "InsertOrLoad timeout configured" acceptedIn acceptanceIdle
  for timeout configured
proof
  fix w :: acceptance_session and c
  assume "acceptanceIdle w"
  then show "after (InsertOrLoad timeout configured c) w
      (\<lambda>r w'. acceptanceIdle w' \<and> insertPost (acceptedIn w) c r (acceptedIn w'))"
    by (intro after_mono [OF insert_or_load_after]) (auto simp: acceptanceIdle_def acceptedIn_def intro: rowsPost_insertPost)
qed

subsection \<open>Properties\<close>

text \<open>The constraints of the table: the row checks, one row per delivery identity, one per receipt.\<close>

definition acceptanceTableOK :: "acceptance_row list \<Rightarrow> bool" where
  "acceptanceTableOK rows =
     (list_all (\<lambda>r. acceptanceTexts r \<and> acceptanceChecks r) rows \<and> distinct (map rowKey rows) \<and>
      distinct (map ar_receipt_id rows))"

lemma insertable_tableOK:
  assumes "insertable c rows" "acceptanceTableOK rows"
  shows "acceptanceTableOK (rows @ [candidateAcceptanceRow c])"
proof -
  have "rowKey (candidateAcceptanceRow c) = deliveryKey (c_Acceptance c)" "ar_receipt_id (candidateAcceptanceRow c) = c_ReceiptID c"
    by (simp_all add: candidateAcceptanceRow_def rowKey_def deliveryKey_def Let_def)
  with assms show ?thesis by (auto simp: acceptanceTableOK_def insertable_iff)
qed

definition sampleAcceptance :: PreparedAcceptance where
  "sampleAcceptance =
     \<lparr>pa_corePrincipalID = str ''core'', pa_destinationID = str ''dest'', pa_deliveryIdentity = 7, pa_formatVersion = 1,
      pa_canonicalEvent = \<lparr>pv_ciphertext = [1], pv_nonce = [2]\<rparr>,
      pa_protectedDigest = \<lparr>pv_ciphertext = [3], pv_nonce = [4]\<rparr>, pa_encryptionKeyID = str ''k'', pa_equivalenceDigest = 9\<rparr>"

definition sampleAcceptanceSession :: "driver_answer list \<Rightarrow> acceptance_row list \<Rightarrow> acceptance_session" where
  "sampleAcceptanceSession script rows =
     \<lparr>s_db = rows, s_tx = None, s_script = script, s_polls = [], s_log = []\<rparr>"

text \<open>C17. For every behaviour of the driver, storing a candidate either adds exactly its row and says so, or
  reports the stored row of its delivery identity and changes nothing, or fails with a fixed
  durable error; only the unknown-outcome error leaves open whether the row was added. The
  table's constraints survive, and an acquired connection is released or destroyed once.\<close>

theorem InsertOrLoad_outcomes:
  assumes "s_tx s = None" "no_rows_honest s" "acceptanceTableOK (s_db s)"
  shows "after (InsertOrLoad timeout configured c) s (\<lambda>r s'.
    rowsPost (s_db s) c r (s_db s') \<and> acceptanceTableOK (s_db s') \<and>
    (\<exists>evs. s_log s' = s_log s @ evs \<and> evs \<in> {[], [Acquired, Released], [Acquired, Destroyed]}))"
proof (rule after_mono [OF insert_or_load_after [OF assms(1,2)]])
  fix r s'
  assume post: "rowsPost (s_db s) c r (s_db s') \<and> s_tx s' = None \<and> no_rows_honest s' \<and>
    (\<exists>evs. acceptance_log evs \<and> s_log s' = s_log s @ evs)"
  then have "s_db s' = s_db s \<or> insertable c (s_db s) \<and> s_db s' = s_db s @ [candidateAcceptanceRow c]"
    by (auto simp: rowsPost_def split: sum.splits if_splits)
  with assms(3) have "acceptanceTableOK (s_db s')" by (auto intro: insertable_tableOK)
  with post show "rowsPost (s_db s) c r (s_db s') \<and> acceptanceTableOK (s_db s') \<and>
    (\<exists>evs. s_log s' = s_log s @ evs \<and> evs \<in> {[], [Acquired, Released], [Acquired, Destroyed]})"
    by (auto simp: acceptance_log_def)
qed

definition sampleCandidateAcceptance :: Candidate where
  "sampleCandidateAcceptance = \<lparr>c_ReceiptID = 5, c_Acceptance = sampleAcceptance\<rparr>"

lemma sample_acceptance_session:
  "s_tx (sampleAcceptanceSession script rows) = None" "s_db (sampleAcceptanceSession script rows) = rows"
  "s_log (sampleAcceptanceSession script rows) = []"
  "no_rows_honest (sampleAcceptanceSession [Answered, Answered, Answered, Lost (Leaf 0 True)] rows)"
  by (simp_all add: sampleAcceptanceSession_def no_rows_honest_def)

theorem InsertOrLoad_outcomes_witness:
  "after (InsertOrLoad (\<lambda>_. False) True sampleCandidateAcceptance)
     (sampleAcceptanceSession [Answered, Answered, Answered, Lost (Leaf 0 True)] []) (\<lambda>r s'.
     rowsPost [] sampleCandidateAcceptance r (s_db s') \<and> acceptanceTableOK (s_db s') \<and>
     (\<exists>evs. s_log s' = evs \<and> evs \<in> {[], [Acquired, Released], [Acquired, Destroyed]}))"
  using InsertOrLoad_outcomes [OF sample_acceptance_session(1) sample_acceptance_session(4),
      of "[]" "\<lambda>_. False" True sampleCandidateAcceptance]
  by (simp add: sample_acceptance_session acceptanceTableOK_def)

lemma insert_answers:
  assumes "answering s" "s_tx s = None" "acceptanceTableOK (s_db s)"
    and "acceptanceTexts (candidateAcceptanceRow c)" "acceptanceChecks (candidateAcceptanceRow c)" "c_ReceiptID c \<noteq> 0"
    and "\<forall>r\<in>set (s_db s). ar_receipt_id r \<noteq> c_ReceiptID c"
    and "\<forall>row. find (\<lambda>r. rowKey r = deliveryKey (c_Acceptance c)) (s_db s) = Some row \<longrightarrow> ar_receipt_id row \<noteq> 0"
  shows "after (InsertOrLoad timeout True c) s (\<lambda>r s'.
    s_log s' = s_log s @ [Acquired, Released] \<and>
    (case find (\<lambda>r. rowKey r = deliveryKey (c_Acceptance c)) (s_db s) of
       None \<Rightarrow> r = Inr (insertedResult (c_ReceiptID c)) \<and> s_db s' = s_db s @ [candidateAcceptanceRow c]
     | Some row \<Rightarrow> r = Inr \<lparr>pr_Inserted = False, pr_Stored = rowStored row\<rparr> \<and> s_db s' = s_db s) \<and>
    s_tx s' = None \<and> s_script s' = s_script s \<and> s_polls s' = s_polls s)"
proof -
  have key: "rowKey (candidateAcceptanceRow c) = deliveryKey (c_Acceptance c)"
    and receipt: "ar_receipt_id (candidateAcceptanceRow c) = c_ReceiptID c"
    by (simp_all add: candidateAcceptanceRow_def rowKey_def deliveryKey_def Let_def)
  have acquire: "after acceptance_acquire s Q = Q None (s\<lparr>s_log := s_log s @ [Acquired]\<rparr>)" for Q
    using assms(1) by (simp add: acceptance_acquire_def record_event_def after_simps answering_answer)
  show ?thesis
  proof (cases "find (\<lambda>r. rowKey r = deliveryKey (c_Acceptance c)) (s_db s)")
    case None
    then have "insertAcceptanceSQL (candidateAcceptanceRow c) (s_db s) =
        Inr (Some (formatUUID (c_ReceiptID c)), s_db s @ [candidateAcceptanceRow c])"
      using assms(4,5,7) by (auto simp: insertAcceptanceSQL_def key receipt find_None_iff list_ex_iff)
    with None assms(1,6) show ?thesis
      by (simp add: InsertOrLoad_def acceptance_begin_def acceptance_transaction_def acceptance_commit_def acquire
          after_simps answering_after tx_view_def durable_parseUUID_formatUUID connection_Release_def record_event_def)
  next
    case (Some row)
    then have row: "row \<in> set (s_db s)" "rowKey row = deliveryKey (c_Acceptance c)" by (auto simp: find_Some_iff)
    then have "insertAcceptanceSQL (candidateAcceptanceRow c) (s_db s) = Inr (None, s_db s)"
      using assms(4,5) by (auto simp: insertAcceptanceSQL_def key list_ex_iff)
    moreover have "ar_receipt_id row \<noteq> 0" "acceptanceChecks row"
      using assms(3,8) row(1) Some by (auto simp: acceptanceTableOK_def list_all_iff)
    ultimately show ?thesis
      using Some assms(1)
      by (simp add: InsertOrLoad_def acceptance_begin_def acceptance_transaction_def acceptance_lookup_def
          acceptance_loaded_def acceptance_commit_def acquire after_simps answering_after tx_view_def selectAcceptanceSQL_def
          durable_parseUUID_formatUUID NewProtectedValue_def acceptanceChecks_def rowStored_def
          connection_Release_def record_event_def)
  qed
qed

lemma prepared_checks:
  "PreparedAcceptance_validate (c_Acceptance c) = None \<Longrightarrow> acceptanceChecks (candidateAcceptanceRow c)"
  by (auto simp: PreparedAcceptance_validate_def acceptanceChecks_def candidateAcceptanceRow_def ProtectedValue_valid_def Let_def
      split: if_splits)

text \<open>C18. With a driver that answers, a candidate that satisfies the table's
  constraints is stored when its identity and its receipt are unused, and a stored row of its identity is
  reported when there is one; the connection goes back to the pool.\<close>

theorem InsertOrLoad_succeeds:
  assumes "answering s" "s_tx s = None" "acceptanceTableOK (s_db s)"
    and "acceptanceTexts (candidateAcceptanceRow c)" "acceptanceChecks (candidateAcceptanceRow c)" "c_ReceiptID c \<noteq> 0"
    and "\<forall>r\<in>set (s_db s). ar_receipt_id r \<noteq> 0 \<and> ar_receipt_id r \<noteq> c_ReceiptID c"
  shows "after (InsertOrLoad timeout True c) s (\<lambda>r s'.
    s_log s' = s_log s @ [Acquired, Released] \<and>
    (case find (\<lambda>r. rowKey r = deliveryKey (c_Acceptance c)) (s_db s) of
       None \<Rightarrow> r = Inr (insertedResult (c_ReceiptID c)) \<and> s_db s' = s_db s @ [candidateAcceptanceRow c]
     | Some row \<Rightarrow> r = Inr \<lparr>pr_Inserted = False, pr_Stored = rowStored row\<rparr> \<and> s_db s' = s_db s))"
  by (rule after_mono [OF insert_answers [OF assms(1-6)]]) (use assms(7) in \<open>auto simp: find_Some_iff\<close>)

theorem InsertOrLoad_succeeds_witness:
  "after (InsertOrLoad (\<lambda>_. False) True sampleCandidateAcceptance) (sampleAcceptanceSession [] []) (\<lambda>r s'.
     s_log s' = [Acquired, Released] \<and> r = Inr (insertedResult 5) \<and>
     s_db s' = [candidateAcceptanceRow sampleCandidateAcceptance])"
proof -
  have "answering (sampleAcceptanceSession [] [])" by (simp add: sampleAcceptanceSession_def answering_def)
  moreover have "acceptanceTexts (candidateAcceptanceRow sampleCandidateAcceptance)"
    "acceptanceChecks (candidateAcceptanceRow sampleCandidateAcceptance)" "c_ReceiptID sampleCandidateAcceptance \<noteq> 0"
    by code_simp+
  ultimately show ?thesis
    using InsertOrLoad_succeeds [of "sampleAcceptanceSession [] []" sampleCandidateAcceptance "\<lambda>_. False"]
    by (simp add: sample_acceptance_session acceptanceTableOK_def) (simp add: sampleCandidateAcceptance_def)
qed

end
