(* ===== verification/Canonical_Form.thy ===== *)
theory Canonical_Form
  imports Canonical_Event
begin

section \<open>What the canonical form distinguishes\<close>

text \<open>
  The canonical form of an event in one expression, the events it exists for, and the theorem
  that it is injective up to the order of a map: the fields can be read back from the bytes, since
  a canonical string ends at its closing quotation mark and a number at the next comma.
\<close>

subsection \<open>The form in one expression\<close>

definition canonicalMeta :: "gomap \<Rightarrow> (gostring \<times> gostring) list" where
  "canonicalMeta meta = map (\<lambda>k. (k, meta_value meta k)) (sort (map fst meta))"

fun metaText :: "nat \<Rightarrow> (gostring \<times> gostring) list \<Rightarrow> gostring" where
  "metaText i [] = []"
| "metaText i ((k, v) # ps) =
     (if 0 < i then [0x2c] else []) @ canonicalString k @ [0x3a] @ canonicalString v @ metaText (i + 1) ps"

fun canonicalText :: "Event \<Rightarrow> gostring" where
  "canonicalText (Test e) = str ''{\"AppName\":'' @ canonicalString (te_AppName e) @ str '',\"Type\":\"Test\"}''"
| "canonicalText (Verification e) =
     str ''{\"AppName\":'' @ canonicalString (ve_AppName e) @ str '',\"Type\":\"Verification\",\"Code\":'' @
     canonicalString (ve_Code e) @ str ''}''"
| "canonicalText (Alert e) =
     str ''{\"AppName\":'' @ canonicalString (ae_AppName e) @ str '',\"Type\":\"Alert\",\"AlertID\":'' @
     formatInt (ae_AlertID e) @ str '',\"Summary\":'' @ canonicalString (ae_Summary e) @
     str '',\"Details\":'' @ canonicalString (ae_Details e) @ str '',\"ServiceID\":'' @ canonicalString (ae_ServiceID e) @
     str '',\"ServiceName\":'' @ canonicalString (ae_ServiceName e) @ str '',\"Meta\":{'' @
     metaText 0 (canonicalMeta (the (ae_Meta e))) @ str ''}}''"
| "canonicalText (AlertStatus e) =
     str ''{\"AppName\":'' @ canonicalString (se_AppName e) @ str '',\"Type\":\"AlertStatus\",\"AlertID\":'' @
     formatInt (se_AlertID e) @ str '',\"LogEntry\":'' @ canonicalString (se_LogEntry e) @
     str '',\"AlertState\":'' @ canonicalString (se_AlertState e) @ str ''}''"

definition metaOK :: "gomap \<Rightarrow> bool" where
  "metaOK meta = list_all (\<lambda>(k, v). printableASCII k \<and> utf8_Valid v) meta"

text \<open>The events that have a canonical form.\<close>

fun eventOK :: "Event \<Rightarrow> bool" where
  "eventOK (Test e) = utf8_Valid (te_AppName e)"
| "eventOK (Verification e) = (utf8_Valid (ve_AppName e) \<and> utf8_Valid (ve_Code e))"
| "eventOK (Alert e) =
     (ae_Meta e \<noteq> None \<and> metaOK (the (ae_Meta e)) \<and>
      list_all utf8_Valid [ae_AppName e, ae_Summary e, ae_Details e, ae_ServiceID e, ae_ServiceName e])"
| "eventOK (AlertStatus e) = list_all utf8_Valid [se_AppName e, se_LogEntry e, se_AlertState e]"

lemma printableASCII_valid: "printableASCII s \<Longrightarrow> utf8_Valid s"
proof (induction s)
  case Nil
  show ?case by (simp add: utf8_Valid.simps)
next
  case (Cons b s)
  then have "b \<le> 0x7e" by (simp add: printableASCII_def)
  then have "b < 0x80" by (simp add: word_le_nat_alt word_less_nat_alt)
  with Cons show ?case by (subst utf8_Valid.simps) (simp add: printableASCII_def)
qed

lemma metaOK_keys: "metaOK meta \<Longrightarrow> k \<in> set (map fst meta) \<Longrightarrow> utf8_Valid k \<and> utf8_Valid (meta_value meta k)"
proof -
  assume ok: "metaOK meta" and k: "k \<in> set (map fst meta)"
  then obtain v where v: "map_of meta k = Some v" by (metis map_of_eq_None_iff not_None_eq set_map)
  then have "(k, v) \<in> set meta" by (rule map_of_SomeD)
  with ok v show ?thesis by (auto simp: metaOK_def list_all_iff meta_value_def intro: printableASCII_valid)
qed

lemma append_meta_eq:
  assumes "\<forall>k\<in>set keys. utf8_Valid k \<and> utf8_Valid (meta_value meta k)"
  shows "append_meta meta i keys data = Inr (data @ metaText i (map (\<lambda>k. (k, meta_value meta k)) keys))"
  using assms
  by (induction keys arbitrary: i data) (simp_all add: appendCanonicalString_eq appendText_def str_def)

lemma canonicalizeKnown_eq:
  "canonicalizeKnown e = (if eventOK e then Inr (canonicalText e) else Inl (httpapiErr ErrCanonicalEvent))"
proof (cases e)
  case (Alert a)
  have "append_meta meta 0 (sort (map fst meta)) data = Inr (data @ metaText 0 (canonicalMeta meta))"
    if "metaOK meta" for meta data
    using append_meta_eq [of "sort (map fst meta)" meta 0 data] metaOK_keys [OF that] by (simp add: canonicalMeta_def)
  moreover have "list_ex (\<lambda>(key, v). \<not> printableASCII key \<or> \<not> utf8_Valid v) meta \<longleftrightarrow> \<not> metaOK meta" for meta
    by (auto simp: metaOK_def list_ex_iff list_all_iff)
  ultimately show ?thesis
    by (cases "ae_Meta a") (simp_all add: Alert canonicalizeAlert_def appendCanonicalString_eq appendText_def AppendInt_format)
qed (simp_all add: canonicalizeTest_def canonicalizeVerification_def canonicalizeAlertStatus_def
    appendCanonicalString_eq appendText_def AppendInt_format)

subsection \<open>Reading the fields back\<close>

lemma metaText_append:
  assumes "\<forall>(k, v)\<in>set ps. utf8_Valid k \<and> utf8_Valid v" "\<forall>(k, v)\<in>set qs. utf8_Valid k \<and> utf8_Valid v"
  shows "metaText i ps @ 0x7d # xs = metaText i qs @ 0x7d # ys \<longleftrightarrow> ps = qs \<and> xs = ys"
  using assms
proof (induction ps arbitrary: i qs)
  case Nil
  then show ?case by (cases qs) (auto simp: canonicalString_def split: if_splits)
next
  case (Cons p ps)
  obtain k v where p: "p = (k, v)" by force
  show ?case
  proof (cases qs)
    case Nil
    then show ?thesis by (auto simp: p canonicalString_def split: if_splits)
  next
    case tail: (Cons q qs')
    obtain k' v' where q: "q = (k', v')" by force
    have valid: "utf8_Valid k" "utf8_Valid v" "utf8_Valid k'" "utf8_Valid v'"
      using Cons.prems by (simp_all add: p q tail)
    have "metaText (i + 1) ps @ 0x7d # xs = metaText (i + 1) qs' @ 0x7d # ys \<longleftrightarrow> ps = qs' \<and> xs = ys"
      using Cons.IH [of qs' "i + 1"] Cons.prems by (simp add: tail)
    then show ?thesis
      using canonicalString_append [OF valid(1,3)] canonicalString_append [OF valid(2,4)] by (auto simp: p q tail)
  qed
qed

lemma map_of_canonicalMeta: "map_of (canonicalMeta meta) = map_of meta"
proof
  fix k
  have "map_of (map (\<lambda>k. (k, f k)) ks) k = (if k \<in> set ks then Some (f k) else None)" for f :: "gostring \<Rightarrow> gostring" and ks
    by (induction ks) auto
  then have "map_of (canonicalMeta meta) k = (if k \<in> set (map fst meta) then Some (meta_value meta k) else None)"
    by (simp add: canonicalMeta_def)
  also have "\<dots> = map_of meta k"
  proof (cases "map_of meta k")
    case None
    then have "k \<notin> set (map fst meta)" by (simp add: map_of_eq_None_iff)
    with None show ?thesis by simp
  next
    case (Some v)
    then have "k \<in> set (map fst meta)" by (force dest: map_of_SomeD)
    with Some show ?thesis by (simp add: meta_value_def)
  qed
  finally show "map_of (canonicalMeta meta) k = map_of meta k" .
qed

lemma canonicalMeta_eq_iff:
  assumes "distinct (map fst m)" "distinct (map fst m')"
  shows "canonicalMeta m = canonicalMeta m' \<longleftrightarrow> map_of m = map_of m'"
proof
  assume "canonicalMeta m = canonicalMeta m'"
  then show "map_of m = map_of m'" by (metis map_of_canonicalMeta)
next
  assume eq: "map_of m = map_of m'"
  then have "set (map fst m) = set (map fst m')" by (metis dom_map_of_conv_image_fst set_map)
  then have "sort (map fst m) = sort (map fst m')"
    using assms by (intro sorted_distinct_set_unique) simp_all
  with eq show "canonicalMeta m = canonicalMeta m'" by (simp add: canonicalMeta_def meta_value_def)
qed

text \<open>The same event: equal fields, and equal maps whatever their order.\<close>

fun sameEvent :: "Event \<Rightarrow> Event \<Rightarrow> bool" where
  "sameEvent (Alert a) (Alert b) =
     (a\<lparr>ae_Meta := None\<rparr> = b\<lparr>ae_Meta := None\<rparr> \<and> map_option map_of (ae_Meta a) = map_option map_of (ae_Meta b))"
| "sameEvent e e' = (e = e')"

text \<open>The keys of a Go map are distinct.\<close>

fun goMaps :: "Event \<Rightarrow> bool" where
  "goMaps (Alert a) = (case ae_Meta a of None \<Rightarrow> True | Some meta \<Rightarrow> distinct (map fst meta))"
| "goMaps _ = True"

lemma canonicalMeta_valid: "metaOK meta \<Longrightarrow> \<forall>(k, v)\<in>set (canonicalMeta meta). utf8_Valid k \<and> utf8_Valid v"
  using metaOK_keys by (auto simp: canonicalMeta_def)

lemmas field_reads = canonicalString_append canonicalString_append [of v w "[]" "[]" for v w, simplified] formatInt_append

lemma canonicalText_alert:
  assumes "eventOK (Alert a)" "eventOK (Alert b)" "goMaps (Alert a)" "goMaps (Alert b)"
  shows "canonicalText (Alert a) = canonicalText (Alert b) \<longleftrightarrow> sameEvent (Alert a) (Alert b)"
proof -
  obtain m m' where m: "ae_Meta a = Some m" "metaOK m" and m': "ae_Meta b = Some m'" "metaOK m'"
    using assms(1,2) by auto
  have meta: "metaText 0 (canonicalMeta m) @ str ''}}'' = metaText 0 (canonicalMeta m') @ str ''}}'' \<longleftrightarrow> map_of m = map_of m'"
    using metaText_append [OF canonicalMeta_valid canonicalMeta_valid, OF m(2) m'(2), of 0 "[0x7d]" "[0x7d]"]
      canonicalMeta_eq_iff [of m m'] assms(3,4) m(1) m'(1) by (simp add: str_def)
  show ?thesis
    using assms(1,2) meta m m'
    by (cases a; cases b) (auto simp: field_reads str_def)
qed

lemma canonicalText_kinds:
  assumes "eventOK e" "eventOK e'" "canonicalText e = canonicalText e'"
  shows "Event_Kind e = Event_Kind e'"
  using assms by (cases e; cases e') (simp_all add: field_reads str_def)

lemma canonicalText_eq_iff:
  assumes "eventOK e" "eventOK e'" "goMaps e" "goMaps e'"
  shows "canonicalText e = canonicalText e' \<longleftrightarrow> sameEvent e e'"
proof (cases "Event_Kind e = Event_Kind e'")
  case True
  consider (test) t t' where "e = Test t" "e' = Test t'"
    | (verification) v v' where "e = Verification v" "e' = Verification v'"
    | (alert) a a' where "e = Alert a" "e' = Alert a'"
    | (status) t t' where "e = AlertStatus t" "e' = AlertStatus t'"
    using True by (cases e; cases e')
      (simp_all add: EventTypeTest_def EventTypeVerification_def EventTypeAlert_def EventTypeAlertStatus_def str_def)
  then show ?thesis
  proof cases
    case test
    with assms show ?thesis by (cases t; cases t') (auto simp: field_reads)
  next
    case verification
    with assms show ?thesis by (cases v; cases v') (auto simp: field_reads)
  next
    case alert
    with assms show ?thesis using canonicalText_alert [of a a'] by blast
  next
    case status
    with assms show ?thesis by (cases t; cases t') (auto simp: field_reads str_def)
  qed
next
  case False
  then have "\<not> sameEvent e e'" by (cases e; cases e') auto
  with False canonicalText_kinds [OF assms(1,2)] show ?thesis by blast
qed

subsection \<open>Properties\<close>

text \<open>C19. Two events given as values have the same canonical bytes exactly when they are the same event:
  no two different events collide, and the order in which a metadata map is ranged over does not
  show.\<close>

theorem canonical_events_injective:
  assumes "goMaps e" "goMaps e'"
    and "CanonicalizeEvent (EventValue e) = Inr c" "CanonicalizeEvent (EventValue e') = Inr c'"
  shows "ce_data c = ce_data c' \<longleftrightarrow> sameEvent e e'"
proof -
  have "eventOK e" "ce_data c = canonicalText e" "eventOK e'" "ce_data c' = canonicalText e'"
    using assms(3,4) by (auto simp: canonicalEventOf_def canonicalizeKnown_eq split: if_splits)
  with canonicalText_eq_iff [of e e'] assms(1,2) show ?thesis by simp
qed

definition sampleMeta :: gomap where
  "sampleMeta = [(str ''b'', str ''2''), (str ''a'', str ''1'')]"

definition sampleAlert :: "gomap \<Rightarrow> Event" where
  "sampleAlert meta = Alert \<lparr>ae_AppName = str ''App'', ae_AlertID = 12, ae_Summary = str ''<s>'', ae_Details = [],
     ae_ServiceID = str ''id'', ae_ServiceName = str ''name'', ae_Meta = Some meta\<rparr>"

lemma sample_alert_ok: "eventOK (sampleAlert sampleMeta) \<and> eventOK (sampleAlert (rev sampleMeta)) \<and>
    goMaps (sampleAlert sampleMeta) \<and> goMaps (sampleAlert (rev sampleMeta))"
  by code_simp

theorem canonical_events_injective_witness:
  "\<exists>c c'. CanonicalizeEvent (EventValue (sampleAlert sampleMeta)) = Inr c \<and>
     CanonicalizeEvent (EventValue (sampleAlert (rev sampleMeta))) = Inr c' \<and> ce_data c = ce_data c'"
proof -
  obtain c c' where c: "CanonicalizeEvent (EventValue (sampleAlert sampleMeta)) = Inr c"
    "CanonicalizeEvent (EventValue (sampleAlert (rev sampleMeta))) = Inr c'"
    using sample_alert_ok by (simp add: canonicalEventOf_def canonicalizeKnown_eq)
  have "sameEvent (sampleAlert sampleMeta) (sampleAlert (rev sampleMeta))"
    by (auto simp: sampleAlert_def sampleMeta_def str_def)
  with canonical_events_injective [OF _ _ c] sample_alert_ok c show ?thesis by blast
qed

text \<open>C21. An event has a canonical form exactly when its strings are valid UTF-8, its metadata is
  present and its metadata keys are printable ASCII; every failure is the one canonical-event error; the
  digest is the SHA-256 of the bytes.\<close>

theorem CanonicalizeEvent_total:
  "CanonicalizeEvent v =
     (case v of
        EventValue e \<Rightarrow> canonicalEventOf (if eventOK e then Inr (canonicalText e) else Inl (httpapiErr ErrCanonicalEvent))
      | EventPointer e \<Rightarrow> canonicalEventOf (if eventOK e then Inr (canonicalText e) else Inl (httpapiErr ErrCanonicalEvent))
      | _ \<Rightarrow> Inl (httpapiErr ErrCanonicalEvent))"
  by (cases v) (simp_all add: canonicalizeKnown_eq)

text \<open>C20. The string writer's loop with its pending run agrees with the character-by-character
  definition, and the string it writes is read back up to its closing quotation mark, whatever follows.\<close>

theorem canonical_string_roundtrip:
  assumes "utf8_Valid v"
  shows "\<exists>body. appendCanonicalString data v = Inr (data @ 0x22 # body) \<and>
    body = canonicalEscape v @ [0x22] \<and> readString (body @ rest) = Some (v, rest)"
  using assms readString_canonicalEscape [OF assms, of rest]
  by (auto simp: appendCanonicalString_eq canonicalString_def)

theorem canonical_string_roundtrip_witness:
  "\<exists>body. appendCanonicalString [] [0x3c, 0x22, 0x0a, 0xE2, 0x80, 0xA8, 0xC3, 0xA9] = Inr (0x22 # body) \<and>
     readString body = Some ([0x3c, 0x22, 0x0a, 0xE2, 0x80, 0xA8, 0xC3, 0xA9], [])"
proof -
  have "utf8_Valid [0x3c, 0x22, 0x0a, 0xE2, 0x80, 0xA8, 0xC3, 0xA9]" by code_simp
  from canonical_string_roundtrip [OF this, of "[]" "[]"] show ?thesis by (metis append_Nil append_Nil2)
qed

end
