(* ===== verification/Intake_Pipeline.thy ===== *)
theory Intake_Pipeline
  imports Payload_Protection Acceptance_Repository Canonical_Form
begin

section \<open>The acceptance pipeline\<close>

text \<open>
  \<^verbatim>\<open>internal/intake/service.go\<close>: an authenticated and resolved request is canonicalised, protected and
  stored. The service is modelled over any protector and store; the theorems compose it with the
  models of \<^verbatim>\<open>protection.Service\<close>, \<^verbatim>\<open>durable.Service\<close> and the PostgreSQL acceptance repository.
\<close>

subsection \<open>The service\<close>

record Request =
  rq_CorePrincipalID :: gostring
  rq_DestinationID :: gostring
  rq_DeliveryIdentity :: gostring
  rq_Event :: EventInterface

type_synonym 'w protector =
  "gostring \<Rightarrow> gostring \<Rightarrow> DeliveryIdentity \<Rightarrow> CanonicalEvent \<Rightarrow> ('w, PreparedAcceptance result) state"

record 'w IntakeService =
  is_protector :: "'w protector option"
  is_store :: "(PreparedAcceptance \<Rightarrow> ('w, Result result) state) option"

definition nilEventInterface :: "EventInterface \<Rightarrow> bool" where
  "nilEventInterface v = (v = NilEvent \<or> v = EventNilPointer)"

definition preparedMatchesRequest :: "PreparedAcceptance \<Rightarrow> Request \<Rightarrow> DeliveryIdentity \<Rightarrow> CanonicalEvent \<Rightarrow> bool" where
  "preparedMatchesRequest prepared request deliveryIdentity canonicalEvent =
     (if pa_corePrincipalID prepared \<noteq> rq_CorePrincipalID request \<or>
         pa_destinationID prepared \<noteq> rq_DestinationID request \<or>
         pa_deliveryIdentity prepared \<noteq> deliveryIdentity \<or>
         pa_formatVersion prepared \<noteq> ce_formatVersion canonicalEvent \<or>
         pa_encryptionKeyID prepared = []
      then False
      else if pv_ciphertext (pa_canonicalEvent prepared) = [] \<or> pv_nonce (pa_canonicalEvent prepared) = [] \<or>
         pv_ciphertext (pa_protectedDigest prepared) = [] \<or> pv_nonce (pa_protectedDigest prepared) = []
      then False
      else pa_equivalenceDigest prepared = ce_digest canonicalEvent)"

definition validResult :: "Result \<Rightarrow> bool" where
  "validResult result =
     (if r_Disposition result = AcceptedNew \<or> r_Disposition result = AcceptedDuplicate then r_ReceiptID result \<noteq> 0
      else if r_Disposition result = IdentityConflict then r_ReceiptID result = 0
      else False)"

definition classifyProtectionError :: "go_error \<Rightarrow> go_error" where
  "classifyProtectionError err =
     (case find (\<lambda>safe. errors_Is err (Protection safe))
        [ErrProtectionInvalid, ErrProtectionKeyUnavailable, ErrProtectionRandom, ErrProtectionFailed,
         ErrProtectedDigestUnreadable] of
        Some safe \<Rightarrow> protectionErr safe
      | None \<Rightarrow> protectionErr ErrProtectionFailed)"

definition classifyStoreError :: "go_error \<Rightarrow> go_error" where
  "classifyStoreError err =
     (case find (\<lambda>safe. errors_Is err (Durable safe))
        [ErrInvalidAcceptance, ErrReceiptGeneration, ErrStoreUnavailable, ErrStoreOutcomeUnknown, ErrStoreCanceled,
         ErrStoreFailure, ErrStoredRecordUnreadable] of
        Some safe \<Rightarrow> durableErr safe
      | None \<Rightarrow> durableErr ErrStoreFailure)"

text \<open>The part of \<^verbatim>\<open>Accept\<close> from the prepared acceptance on.\<close>

definition store_prepared ::
  "('w, go_error option) state \<Rightarrow> (PreparedAcceptance \<Rightarrow> ('w, Result result) state) \<Rightarrow> PreparedAcceptance \<Rightarrow>
   ('w, Result result) state" where
  "store_prepared ctxErr store prepared = do {
     poll \<leftarrow> ctxErr;
     if poll \<noteq> None then State_Monad.return (Inl (intakeErr ErrIntakeCanceled))
     else do {
       stored \<leftarrow> store prepared;
       State_Monad.return (case stored of
           Inl err \<Rightarrow> Inl (classifyStoreError err)
         | Inr result \<Rightarrow> if validResult result then Inr result else Inl (durableErr ErrStoreFailure)) } }"

definition protect_and_store ::
  "('w, go_error option) state \<Rightarrow> 'w protector \<Rightarrow> (PreparedAcceptance \<Rightarrow> ('w, Result result) state) \<Rightarrow> Request \<Rightarrow>
   DeliveryIdentity \<Rightarrow> CanonicalEvent \<Rightarrow> ('w, Result result) state" where
  "protect_and_store ctxErr protector store request deliveryIdentity canonicalEvent = do {
     poll \<leftarrow> ctxErr;
     if poll \<noteq> None then State_Monad.return (Inl (intakeErr ErrIntakeCanceled))
     else do {
       protected \<leftarrow> protector (rq_CorePrincipalID request) (rq_DestinationID request) deliveryIdentity canonicalEvent;
       case protected of
         Inl err \<Rightarrow> State_Monad.return (Inl (classifyProtectionError err))
       | Inr prepared \<Rightarrow>
           if \<not> preparedMatchesRequest prepared request deliveryIdentity canonicalEvent
           then State_Monad.return (Inl (protectionErr ErrProtectionFailed))
           else store_prepared ctxErr store prepared } }"

text \<open>\<^verbatim>\<open>durable.ParseDeliveryIdentity\<close> and the check that the text is the printed form.\<close>

definition requestIdentity :: "gostring \<Rightarrow> DeliveryIdentity option" where
  "requestIdentity text =
     (case durable_parseUUID text of
        Inl _ \<Rightarrow> None
      | Inr deliveryIdentity \<Rightarrow> if formatUUID deliveryIdentity \<noteq> text then None else Some deliveryIdentity)"

definition accept_request ::
  "('w, go_error option) state \<Rightarrow> 'w protector \<Rightarrow> (PreparedAcceptance \<Rightarrow> ('w, Result result) state) \<Rightarrow> Request \<Rightarrow>
   ('w, Result result) state" where
  "accept_request ctxErr protector store request =
     (if rq_CorePrincipalID request = [] \<or> rq_DestinationID request = [] \<or> nilEventInterface (rq_Event request)
      then State_Monad.return (Inl (intakeErr ErrInvalidRequest))
      else case requestIdentity (rq_DeliveryIdentity request) of
             None \<Rightarrow> State_Monad.return (Inl (intakeErr ErrInvalidRequest))
           | Some deliveryIdentity \<Rightarrow>
               (case CanonicalizeEvent (rq_Event request) of
                  Inl _ \<Rightarrow> State_Monad.return (Inl (httpapiErr ErrCanonicalEvent))
                | Inr canonicalEvent \<Rightarrow> protect_and_store ctxErr protector store request deliveryIdentity canonicalEvent))"

definition intake_Accept ::
  "('w, go_error option) state \<Rightarrow> 'w IntakeService option \<Rightarrow> go_context \<Rightarrow> Request \<Rightarrow> ('w, Result result) state" where
  "intake_Accept ctxErr service ctx request =
     (case (case service of None \<Rightarrow> (None, None) | Some svc \<Rightarrow> (is_protector svc, is_store svc)) of
        (Some protector, Some store) \<Rightarrow>
          if ctx = NilContext then State_Monad.return (Inl (intakeErr ErrInvalidRequest))
          else do {
            poll \<leftarrow> ctxErr;
            if poll \<noteq> None then State_Monad.return (Inl (intakeErr ErrIntakeCanceled))
            else accept_request ctxErr protector store request }
      | _ \<Rightarrow> State_Monad.return (Inl (intakeErr ErrInvalidRequest)))"

subsection \<open>The pipeline of the gateway\<close>

definition gatewayStore ::
  "(go_error \<Rightarrow> bool) \<Rightarrow> acceptance_session KeySource \<Rightarrow> (acceptance_session, bytes12 result) state \<Rightarrow>
   (acceptance_session, bytes16 result) state \<Rightarrow> PreparedAcceptance \<Rightarrow> (acceptance_session, Result result) state" where
  "gatewayStore timeout keys random entropy =
     durable_Accept (Some (durableService (InsertOrLoad timeout True)
       (protection_OpenDigest ctx_Err (Some (protectionService keys random)) CallContext) (NewReceiptID entropy)))"

definition gatewayIntake ::
  "(go_error \<Rightarrow> bool) \<Rightarrow> acceptance_session KeySource \<Rightarrow> (acceptance_session, bytes12 result) state \<Rightarrow>
   (acceptance_session, bytes16 result) state \<Rightarrow> Request \<Rightarrow> (acceptance_session, Result result) state" where
  "gatewayIntake timeout keys random entropy =
     intake_Accept ctx_Err
       (Some \<lparr>is_protector = Some (protection_Prepare ctx_Err (Some (protectionService keys random)) CallContext),
              is_store = Some (gatewayStore timeout keys random entropy)\<rparr>) CallContext"

text \<open>What the outside world must keep: the random and entropy sources and the key source leave the database
  alone, and the key source answers from a fixed key ring.\<close>

definition gatewaySources ::
  "acceptance_session KeySource \<Rightarrow> (gostring \<rightharpoonup> Key) \<Rightarrow> (acceptance_session, bytes12 result) state \<Rightarrow>
   (acceptance_session, bytes16 result) state \<Rightarrow> bool" where
  "gatewaySources keys keyring random entropy =
     (keySourceFor acceptedIn acceptanceIdle keys keyring \<and> reads acceptedIn acceptanceIdle random (\<lambda>_. True) \<and>
      reads acceptedIn acceptanceIdle entropy (\<lambda>_. True))"

text \<open>The digest stored for a delivery, read with a key ring.\<close>

definition requestFor :: "deliveryKey \<Rightarrow> StoredAcceptance \<Rightarrow> DigestOpenRequest" where
  "requestFor k st =
     (case k of (core, destination, identity) \<Rightarrow>
        \<lparr>do_ProtectedDigest = sa_ProtectedDigest st, do_EncryptionKeyID = sa_EncryptionKeyID st,
         do_CorePrincipalID = core, do_DestinationID = destination, do_DeliveryIdentity = identity,
         do_FormatVersion = sa_FormatVersion st\<rparr>)"

definition storedDigest :: "(gostring \<rightharpoonup> Key) \<Rightarrow> deliveryKey \<Rightarrow> StoredAcceptance \<Rightarrow> CanonicalDigest option" where
  "storedDigest keyring k st = openedBy keyring (requestFor k st)"

lemma openRequest_requestFor: "openRequest a st = requestFor (deliveryKey a) st"
  by (simp add: openRequest_def requestFor_def deliveryKey_def)

text \<open>The specification: the first acceptance of a delivery identity is stored under a fresh receipt with its
  digest; a later one is a duplicate when its digest is the stored one and a conflict otherwise.\<close>

definition intakePost ::
  "(gostring \<rightharpoonup> Key) \<Rightarrow> (deliveryKey \<rightharpoonup> StoredAcceptance) \<Rightarrow> Request \<Rightarrow> Result result \<Rightarrow> (deliveryKey \<rightharpoonup> StoredAcceptance) \<Rightarrow> bool" where
  "intakePost keyring m request r m' =
     (case r of
        Inr res \<Rightarrow>
          (\<exists>identity c. requestIdentity (rq_DeliveryIdentity request) = Some identity \<and> CanonicalizeEvent (rq_Event request) = Inr c \<and>
             (let k = (rq_CorePrincipalID request, rq_DestinationID request, identity) in
              (\<exists>st. m k = None \<and> m' = m(k \<mapsto> st) \<and> storedDigest keyring k st = Some (ce_digest c) \<and>
                 sa_FormatVersion st = CanonicalEventFormatVersion \<and> sa_ReceiptID st \<noteq> 0 \<and>
                 res = \<lparr>r_Disposition = AcceptedNew, r_ReceiptID = sa_ReceiptID st\<rparr>) \<or>
              (\<exists>st d. m k = Some st \<and> m' = m \<and> storedDigest keyring k st = Some d \<and>
                 res = (if sa_FormatVersion st = CanonicalEventFormatVersion \<and> d = ce_digest c
                        then \<lparr>r_Disposition = AcceptedDuplicate, r_ReceiptID = sa_ReceiptID st\<rparr>
                        else \<lparr>r_Disposition = IdentityConflict, r_ReceiptID = 0\<rparr>))))
      | Inl e \<Rightarrow>
          m' = m \<or>
          e = durableErr ErrStoreOutcomeUnknown \<and>
          (\<exists>identity st. requestIdentity (rq_DeliveryIdentity request) = Some identity \<and>
             m (rq_CorePrincipalID request, rq_DestinationID request, identity) = None \<and>
             m' = m((rq_CorePrincipalID request, rq_DestinationID request, identity) \<mapsto> st)))"

subsection \<open>The composition\<close>

lemma ctx_Err_reads: "reads acceptedIn acceptanceIdle ctx_Err (\<lambda>_. True)"
proof (rule readsI)
  fix w :: acceptance_session assume w: "acceptanceIdle w"
  show "after ctx_Err w (\<lambda>r w'. acceptanceIdle w' \<and> acceptedIn w' = acceptedIn w \<and> True)"
    by (rule ctx_Err_after) (use w in \<open>auto simp: same_data_def acceptanceIdle_def no_rows_honest_def acceptedIn_def\<close>)
qed

lemma gatewayStore_after:
  assumes "gatewaySources keys keyring random entropy" "acceptanceIdle s"
  shows "after (gatewayStore timeout keys random entropy a) s
    (\<lambda>r s'. acceptanceIdle s' \<and> acceptPost (\<lambda>a st. storedDigest keyring (deliveryKey a) st) (acceptedIn s) a r (acceptedIn s'))"
proof -
  have receipts: "reads acceptedIn acceptanceIdle (NewReceiptID entropy) (\<lambda>_. True)"
    unfolding NewReceiptID_def
    by (rule reads_bind [of _ _ _ "\<lambda>_. True"]) (use assms(1) in \<open>auto simp: gatewaySources_def intro: reads_return\<close>)
  have "opensWith acceptedIn acceptanceIdle (protection_OpenDigest ctx_Err (Some (protectionService keys random)) CallContext)
      (\<lambda>a st. storedDigest keyring (deliveryKey a) st)"
    using open_digest_reads [OF ctx_Err_reads, of keys keyring random CallContext] assms(1)
    by (simp add: opensWith_def gatewaySources_def storedDigest_def openRequest_requestFor)
  from pgacc.accept_after [OF this receipts assms(2)] show ?thesis
    by (simp add: gatewayStore_def)
qed

lemma canonical_version: "CanonicalizeEvent v = Inr c \<Longrightarrow> ce_formatVersion c = CanonicalEventFormatVersion"
  by (cases v) (auto simp: canonicalEventOf_def split: sum.splits)

text \<open>What the store may answer, as the pipeline reports it.\<close>

lemma acceptPost_intakePost:
  assumes post: "acceptPost (\<lambda>a st. storedDigest keyring (deliveryKey a) st) m prepared r m'"
    and prepared: "preparedFor (rq_CorePrincipalID request) (rq_DestinationID request) identity c keyring prepared"
    and request: "requestIdentity (rq_DeliveryIdentity request) = Some identity" "CanonicalizeEvent (rq_Event request) = Inr c"
  shows "intakePost keyring m request (case r of Inl err \<Rightarrow> Inl (classifyStoreError err)
    | Inr result \<Rightarrow> if validResult result then Inr result else Inl (durableErr ErrStoreFailure)) m'"
proof -
  let ?k = "(rq_CorePrincipalID request, rq_DestinationID request, identity)"
  have key: "deliveryKey prepared = ?k" by (simp add: deliveryKey_def preparedFor_fields [OF prepared])
  have version: "pa_formatVersion prepared = CanonicalEventFormatVersion"
    using preparedFor_fields(4) [OF prepared] canonical_version [OF request(2)] by simp
  have digest: "pa_equivalenceDigest prepared = ce_digest c" by (rule preparedFor_fields(5) [OF prepared])
  have opened: "storedDigest keyring ?k (storedAs receipt prepared) = Some (ce_digest c)" for receipt
    using preparedFor_opens(1) [OF prepared, of receipt] by (simp add: storedDigest_def openRequest_requestFor key)
  show ?thesis
  proof (cases r)
    case (Inl err)
    have "classifyStoreError (durableErr ErrStoreOutcomeUnknown) = durableErr ErrStoreOutcomeUnknown"
      by (simp add: classifyStoreError_def)
    with post Inl show ?thesis by (auto simp: acceptPost_def intakePost_def key request(1))
  next
    case (Inr res)
    from post Inr consider receipt where "receipt \<noteq> 0" "res = \<lparr>r_Disposition = AcceptedNew, r_ReceiptID = receipt\<rparr>"
        "m ?k = None" "m' = m(?k \<mapsto> storedAs receipt prepared)"
      | st d where "m ?k = Some st" "storedReadable st" "storedDigest keyring ?k st = Some d" "res = compareStored prepared st d" "m' = m"
      by (auto simp: acceptPost_def key)
    then show ?thesis
    proof cases
      case 1
      then have "validResult res" by (simp add: validResult_def)
      then show ?thesis
        using 1 opened [of receipt] request version
        by (simp add: Inr intakePost_def Let_def) (auto simp: storedAs_def)
    next
      case 2
      then have "validResult res" by (auto simp: validResult_def compareStored_def storedReadable_def)
      then show ?thesis
        using 2 request version digest
        by (simp add: Inr intakePost_def Let_def compareStored_def digestsEqual_def)
    qed
  qed
qed

text \<open>A step that only reads, followed by the rest.\<close>

lemma reads_then:
  assumes "reads view ready p P" "ready w"
    and "\<And>x w'. P x \<Longrightarrow> ready w' \<Longrightarrow> view w' = view w \<Longrightarrow> after (f x) w' Q"
  shows "after (State_Monad.bind p f) w Q"
  unfolding after_bind by (rule after_mono [OF readsD [OF assms(1,2)]]) (use assms(3) in blast)

lemma gateway_intake_after:
  assumes sources: "gatewaySources keys keyring random entropy" and idle: "acceptanceIdle s"
  shows "after (gatewayIntake timeout keys random entropy request) s
    (\<lambda>r s'. acceptanceIdle s' \<and> intakePost keyring (acceptedIn s) request r (acceptedIn s'))"
proof -
  let ?Q = "\<lambda>r s'. acceptanceIdle s' \<and> intakePost keyring (acceptedIn s) request r (acceptedIn s')"
  let ?prepare = "protection_Prepare ctx_Err (Some (protectionService keys random)) CallContext"
  let ?store = "gatewayStore timeout keys random entropy"
  have failed: "after (State_Monad.return (Inl e)) s' ?Q" if "acceptanceIdle s'" "acceptedIn s' = acceptedIn s" for e s'
    using that by (simp add: after_return intakePost_def)
  have stored: "after (store_prepared ctx_Err ?store prepared) s' ?Q"
    if "acceptanceIdle s'" "acceptedIn s' = acceptedIn s"
      and prepared: "preparedFor (rq_CorePrincipalID request) (rq_DestinationID request) identity c keyring prepared"
      and request: "requestIdentity (rq_DeliveryIdentity request) = Some identity" "CanonicalizeEvent (rq_Event request) = Inr c"
    for s' prepared identity c
    unfolding store_prepared_def
  proof (rule reads_then [OF ctx_Err_reads that(1)], rule after_ifI)
    fix poll s2 assume s2: "acceptanceIdle s2" "acceptedIn s2 = acceptedIn s'"
    with that(2) show "after (State_Monad.return (Inl (intakeErr ErrIntakeCanceled))) s2 ?Q" by (intro failed) simp_all
    show "after (State_Monad.bind (?store prepared) (\<lambda>stored. State_Monad.return (case stored of
           Inl err \<Rightarrow> Inl (classifyStoreError err)
         | Inr result \<Rightarrow> if validResult result then Inr result else Inl (durableErr ErrStoreFailure)))) s2 ?Q"
      unfolding after_bind after_return
      by (rule after_mono [OF gatewayStore_after [OF sources s2(1)]])
        (use s2 that(2) acceptPost_intakePost [OF _ prepared request] in auto)
  qed
  have prepare: "reads acceptedIn acceptanceIdle (?prepare core destination identity c)
      (\<lambda>r. \<forall>p. r = Inr p \<longrightarrow> preparedFor core destination identity c keyring p)" for core destination identity c
    by (rule prepare_reads [OF ctx_Err_reads]) (use sources in \<open>auto simp: gatewaySources_def\<close>)
  have protect: "after (protect_and_store ctx_Err ?prepare ?store request identity c) s' ?Q"
    if "acceptanceIdle s'" "acceptedIn s' = acceptedIn s"
      and request: "requestIdentity (rq_DeliveryIdentity request) = Some identity" "CanonicalizeEvent (rq_Event request) = Inr c"
    for s' identity c
    unfolding protect_and_store_def
    by (rule reads_then [OF ctx_Err_reads that(1)], intro after_ifI after_sumI failed reads_then [OF prepare] stored)
      (use that in auto)
  show ?thesis
    unfolding gatewayIntake_def intake_Accept_def option.case IntakeService.simps prod.case accept_request_def
    by (intro after_ifI after_optionI after_sumI failed reads_then [OF ctx_Err_reads idle] protect) (use idle in auto)
qed

subsection \<open>When nothing fails\<close>

text \<open>A driver that answers, a live context and no open transaction; \<open>kept\<close> is what a source leaves of it.\<close>

definition healthy :: "acceptance_session \<Rightarrow> bool" where
  "healthy s = (answering s \<and> live s \<and> s_tx s = None)"

definition kept :: "acceptance_session \<Rightarrow> acceptance_session \<Rightarrow> bool" where
  "kept s s' = (healthy s' \<and> s_db s' = s_db s \<and> s_log s' = s_log s)"

text \<open>Sources that deliver: an active key, two nonces that differ, entropy for an unused receipt.\<close>

definition sourcesDeliver ::
  "acceptance_row list \<Rightarrow> acceptance_session KeySource \<Rightarrow> Key \<Rightarrow> (acceptance_session, bytes12 result) state \<Rightarrow>
   (acceptance_session, bytes16 result) state \<Rightarrow> bool" where
  "sourcesDeliver rows keys key random entropy =
     ((\<forall>s. healthy s \<longrightarrow> after (ks_ActiveKey keys) s (\<lambda>r s'. r = Inr key \<and> kept s s')) \<and>
      (\<forall>s. healthy s \<longrightarrow> after random s (\<lambda>r s1. \<exists>n. r = Inr n \<and> kept s s1 \<and>
         after random s1 (\<lambda>r' s2. \<exists>n'. r' = Inr n' \<and> n' \<noteq> n \<and> kept s1 s2))) \<and>
      (\<forall>s. healthy s \<longrightarrow> after entropy s (\<lambda>r s'. \<exists>v. r = Inr v \<and> kept s s' \<and>
         (\<forall>row\<in>set rows. ar_receipt_id row \<noteq> of_be_bytes (stampV4 (be_bytes 16 v))))))"

lemma ctx_kept:
  assumes "healthy s" "\<And>s'. kept s s' \<Longrightarrow> Q None s'"
  shows "after ctx_Err s Q"
  by (rule live_ctx_Err) (use assms in \<open>auto simp: healthy_def kept_def\<close>)

lemma kept_trans: "kept s s' \<Longrightarrow> kept s' s'' \<Longrightarrow> kept s s''"
  by (simp add: kept_def)

lemma kept_healthy: "kept s s' \<Longrightarrow> healthy s'"
  by (simp add: kept_def)

lemma stamped_receipt: "of_be_bytes (stampV4 (be_bytes 16 v)) \<noteq> (0 :: bytes16)"
  using stampV4_version(2) [of "be_bytes 16 v"] by simp

lemma canonical_valid:
  assumes "CanonicalizeEvent v = Inr c"
  shows "ce_data c \<noteq> []" "ce_digest c = of_be_bytes (sha256_Sum (ce_data c))"
proof -
  have "canonicalText e \<noteq> []" for e by (cases e) (simp_all add: str_def)
  then show "ce_data c \<noteq> []" "ce_digest c = of_be_bytes (sha256_Sum (ce_data c))"
    using assms by (cases v; auto simp: canonicalEventOf_def canonicalizeKnown_eq split: if_splits)+
qed

text \<open>The texts of a request that the database and the additional data accept.\<close>

definition storableText :: "gostring \<Rightarrow> bool" where
  "storableText v = (v \<noteq> [] \<and> pg_text v \<and> length v \<le> 2 ^ 32 - 1)"

lemma storable_prepare:
  assumes "storableText core" "storableText destination" "identity \<noteq> 0" "CanonicalizeEvent v = Inr c"
  shows "validatePrepareInput core destination identity (ce_formatVersion c) (ce_data c) (ce_digest c) = None"
proof -
  have "validateAADString core = None" "validateAADString destination = None"
    using assms(1,2) by (simp_all add: storableText_def pg_text_def validateAADString_None)
  with assms canonical_valid [OF assms(4)] canonical_version [OF assms(4)] show ?thesis
    by (simp add: validatePrepareInput_def storableText_def CanonicalEventFormatVersion_def)
qed

text \<open>Sealed under a key, with some two nonces.\<close>

definition sealedUnder ::
  "gostring \<Rightarrow> gostring \<Rightarrow> DeliveryIdentity \<Rightarrow> CanonicalEvent \<Rightarrow> Key \<Rightarrow> PreparedAcceptance \<Rightarrow> bool" where
  "sealedUnder core destination identity c key p =
     (\<exists>n n'. sealAcceptance core destination identity c key n n' = Inr p)"

lemma prepare_delivers:
  assumes deliver: "sourcesDeliver rows keys key random entropy" and key: "Key_valid key" and h: "healthy s"
    and valid: "validatePrepareInput core destination identity (ce_formatVersion c) (ce_data c) (ce_digest c) = None"
  shows "after (protection_Prepare ctx_Err (Some (protectionService keys random)) CallContext core destination identity c) s
    (\<lambda>r s'. kept s s' \<and> (\<exists>p. r = Inr p \<and> sealedUnder core destination identity c key p))"
proof -
  let ?Q = "\<lambda>r s'. kept s s' \<and> (\<exists>p. r = Inr p \<and> sealedUnder core destination identity c key p)"
  have nonces: "after (protection_nonces random) s' (\<lambda>r s''. kept s s'' \<and>
      (\<exists>n n'. r = Inr (be_bytes 12 n, be_bytes 12 n') \<and> n \<noteq> (n' :: bytes12)))" if "kept s s'" for s'
  proof -
    have "after random s' (\<lambda>r s1. \<exists>n. r = Inr n \<and> kept s' s1 \<and>
         after random s1 (\<lambda>r' s2. \<exists>n'. r' = Inr n' \<and> n' \<noteq> n \<and> kept s1 s2))"
      using deliver that by (simp add: sourcesDeliver_def kept_healthy)
    then show ?thesis
      unfolding protection_nonces_def after_bind
      by (elim after_mono)
        (use that in \<open>auto simp: after_simps be_bytes_inject elim!: after_mono intro: kept_trans [OF that kept_trans]\<close>)
  qed
  have sealed: "after (prepare_with_key ctx_Err random core destination identity c key) s' ?Q" if "kept s s'" for s'
    unfolding prepare_with_key_def after_bind
  proof (rule ctx_kept [OF kept_healthy [OF that]], simp only: simp_thms if_False after_bind,
      rule after_mono [OF nonces])
    fix s1 assume "kept s' s1" then show "kept s s1" by (rule kept_trans [OF that])
  next
    fix r s2 assume r: "kept s s2 \<and> (\<exists>n n'. r = Inr (be_bytes 12 n, be_bytes 12 n') \<and> n \<noteq> (n' :: bytes12))"
    then obtain n n' where n: "r = Inr (be_bytes 12 n, be_bytes 12 n')" "n \<noteq> (n' :: bytes12)" by blast
    then have differ: "be_bytes 12 n \<noteq> be_bytes 12 n'" by (simp add: be_bytes_inject)
    obtain p where p: "sealAcceptance core destination identity c key (be_bytes 12 n) (be_bytes 12 n') = Inr p"
      using sealAcceptance_succeeds [OF valid key] by blast
    then have sealed: "sealedUnder core destination identity c key p" by (auto simp: sealedUnder_def)
    have "after ctx_Err s2 (\<lambda>poll s3. kept s s3 \<and> poll = None)"
      using r by (intro ctx_kept) (auto intro: kept_trans simp: kept_healthy)
    then show "after (case r of Inl _ \<Rightarrow> State_Monad.return (Inl (protectionErr ErrProtectionRandom))
       | Inr (eventNonce, digestNonce) \<Rightarrow>
           if eventNonce = digestNonce then State_Monad.return (Inl (protectionErr ErrProtectionRandom))
           else State_Monad.bind ctx_Err (\<lambda>poll. State_Monad.return
               (if poll \<noteq> None then Inl (protectionErr ErrProtectionFailed)
                else sealAcceptance core destination identity c key eventNonce digestNonce))) s2 ?Q"
      using differ n p sealed by (auto simp: after_simps elim!: after_mono)
  qed
  have active: "after (ks_ActiveKey keys) s' (\<lambda>r s''. r = Inr key \<and> kept s s'')" if "kept s s'" for s'
  proof (rule after_mono)
    show "after (ks_ActiveKey keys) s' (\<lambda>r s''. r = Inr key \<and> kept s' s'')"
      using deliver kept_healthy [OF that] by (simp add: sourcesDeliver_def)
  qed (use kept_trans [OF that] in blast)
  show ?thesis
    unfolding protection_Prepare_def protectionService_def option.case ProtectionService.simps prod.case prepare_validated_def
    using valid key
    by (auto simp: after_bind intro!: ctx_kept [OF h] after_mono [OF active] sealed)
qed

lemma store_delivers:
  assumes deliver: "sourcesDeliver (s_db s) keys key random entropy" and h: "healthy s"
    and p: "PreparedAcceptance_validate p = None" "pg_text (pa_corePrincipalID p)" "pg_text (pa_destinationID p)"
      "pg_text (pa_encryptionKeyID p)"
    and new: "acceptedIn s (deliveryKey p) = None" and table: "acceptanceTableOK (s_db s)"
  shows "after (gatewayStore timeout keys random entropy p) s (\<lambda>r s'. healthy s' \<and> s_log s' = s_log s @ [Acquired, Released] \<and>
    (\<exists>receipt. receipt \<noteq> 0 \<and> r = Inr \<lparr>r_Disposition = AcceptedNew, r_ReceiptID = receipt\<rparr> \<and>
       s_db s' = s_db s @ [candidateAcceptanceRow \<lparr>c_ReceiptID = receipt, c_Acceptance = p\<rparr>]))"
    (is "after _ _ ?Q")
proof -
  have none: "find (\<lambda>r. rowKey r = deliveryKey p) (s_db s) = None"
    using new by (simp add: acceptedIn_def acceptedRows_def)
  have inserted: "after (accept_candidate (InsertOrLoad timeout True)
      (protection_OpenDigest ctx_Err (Some (protectionService keys random)) CallContext) p receipt) s' ?Q"
    if k: "kept s s'" and receipt: "receipt \<noteq> 0" "\<forall>row\<in>set (s_db s). ar_receipt_id row \<noteq> receipt" for receipt s'
  proof -
    let ?c = "\<lparr>c_ReceiptID = receipt, c_Acceptance = p\<rparr>"
    have texts: "acceptanceTexts (candidateAcceptanceRow ?c)"
      using p by (simp add: acceptanceTexts_def candidateAcceptanceRow_def)
    have "after (InsertOrLoad timeout True ?c) s' (\<lambda>r s''. s_log s'' = s_log s' @ [Acquired, Released] \<and>
        (case find (\<lambda>r. rowKey r = deliveryKey (c_Acceptance ?c)) (s_db s') of
           None \<Rightarrow> r = Inr (insertedResult (c_ReceiptID ?c)) \<and> s_db s'' = s_db s' @ [candidateAcceptanceRow ?c]
         | Some row \<Rightarrow> r = Inr \<lparr>pr_Inserted = False, pr_Stored = rowStored row\<rparr> \<and> s_db s'' = s_db s') \<and>
        s_tx s'' = None \<and> s_script s'' = s_script s' \<and> s_polls s'' = s_polls s')"
      by (rule insert_answers)
        (use k p texts receipt table none in \<open>auto simp: kept_def healthy_def prepared_checks\<close>)
    then show ?thesis
      unfolding accept_candidate_def after_bind
      by (elim after_mono)
        (use k none receipt in \<open>auto simp: kept_def healthy_def answering_def live_def insertedResult_def after_simps\<close>)
  qed
  have "after entropy s (\<lambda>r s'. \<exists>v. r = Inr v \<and> kept s s' \<and>
      (\<forall>row\<in>set (s_db s). ar_receipt_id row \<noteq> of_be_bytes (stampV4 (be_bytes 16 v))))"
    using deliver h by (simp add: sourcesDeliver_def)
  then show ?thesis
    unfolding gatewayStore_def durable_Accept_def durableService_def option.case DurableService.simps prod.case NewReceiptID_def
    using p(1) by (auto simp: after_simps stamped_receipt elim!: after_mono intro!: inserted)
qed

lemma requestIdentity_nonzero: "requestIdentity text = Some identity \<Longrightarrow> identity \<noteq> 0"
  by (auto simp: requestIdentity_def durable_parseUUID_def split: if_splits option.splits)

lemma sealed_matches:
  assumes "sealedUnder (rq_CorePrincipalID request) (rq_DestinationID request) identity c key p"
  shows "preparedMatchesRequest p request identity c" "PreparedAcceptance_validate p = None"
    "deliveryKey p = (rq_CorePrincipalID request, rq_DestinationID request, identity)" "pa_encryptionKeyID p = k_id key"
    "pa_corePrincipalID p = rq_CorePrincipalID request" "pa_destinationID p = rq_DestinationID request"
  using assms
  by (auto elim!: sealAcceptance_Inr simp: sealedUnder_def preparedMatchesRequest_def PreparedAcceptance_validate_def ProtectedValue_valid_def
      deliveryKey_def split: if_splits)

text \<open>A new acceptance of a request: one row is added under the receipt that is reported.\<close>

definition acceptedAsNew :: "acceptance_session \<Rightarrow> Request \<Rightarrow> DeliveryIdentity \<Rightarrow> Result result \<Rightarrow> acceptance_session \<Rightarrow> bool" where
  "acceptedAsNew s request identity r s' =
     (\<exists>row. ar_receipt_id row \<noteq> 0 \<and> r = Inr \<lparr>r_Disposition = AcceptedNew, r_ReceiptID = ar_receipt_id row\<rparr> \<and>
        s_db s' = s_db s @ [row] \<and> rowKey row = (rq_CorePrincipalID request, rq_DestinationID request, identity) \<and>
        healthy s' \<and> s_log s' = s_log s @ [Acquired, Released])"

lemma store_prepared_delivers:
  assumes deliver: "sourcesDeliver (s_db s) keys key random entropy" and k: "kept s s'" and table: "acceptanceTableOK (s_db s)"
    and texts: "pg_text (k_id key)" "storableText (rq_CorePrincipalID request)" "storableText (rq_DestinationID request)"
    and new: "acceptedIn s (rq_CorePrincipalID request, rq_DestinationID request, identity) = None"
    and p: "sealedUnder (rq_CorePrincipalID request) (rq_DestinationID request) identity c key p"
  shows "after (store_prepared ctx_Err (gatewayStore timeout keys random entropy) p) s' (acceptedAsNew s request identity)"
  unfolding store_prepared_def after_bind
proof (rule ctx_kept [OF kept_healthy [OF k]], simp only: simp_thms if_False after_bind after_return,
    rule after_mono [OF store_delivers])
  fix s1 assume s1: "kept s' s1"
  then have s2: "kept s s1" by (rule kept_trans [OF k])
  show "sourcesDeliver (s_db s1) keys key random entropy" using deliver s2 by (simp add: kept_def)
  show "healthy s1" by (rule kept_healthy [OF s1])
  show "PreparedAcceptance_validate p = None" "pg_text (pa_corePrincipalID p)" "pg_text (pa_destinationID p)"
    "pg_text (pa_encryptionKeyID p)"
    using sealed_matches [OF p] texts by (simp_all add: storableText_def)
  show "acceptedIn s1 (deliveryKey p) = None" "acceptanceTableOK (s_db s1)"
    using sealed_matches(3) [OF p] new table s2 by (simp_all add: acceptedIn_def kept_def)
  fix r :: "Result result" and s3
  assume "healthy s3 \<and> s_log s3 = s_log s1 @ [Acquired, Released] \<and>
    (\<exists>receipt. receipt \<noteq> 0 \<and> r = Inr \<lparr>r_Disposition = AcceptedNew, r_ReceiptID = receipt\<rparr> \<and>
       s_db s3 = s_db s1 @ [candidateAcceptanceRow \<lparr>c_ReceiptID = receipt, c_Acceptance = p\<rparr>])"
  then show "acceptedAsNew s request identity (case r of Inl err \<Rightarrow> Inl (classifyStoreError err)
      | Inr result \<Rightarrow> if validResult result then Inr result else Inl (durableErr ErrStoreFailure)) s3"
    using s2 sealed_matches(3) [OF p]
    by (auto simp: acceptedAsNew_def kept_def validResult_def candidateAcceptanceRow_def rowKey_def deliveryKey_def Let_def)
qed

lemma intake_delivers:
  assumes "sourcesDeliver (s_db s) keys key random entropy" "Key_valid key" "pg_text (k_id key)" "healthy s" "acceptanceTableOK (s_db s)"
    and "storableText (rq_CorePrincipalID request)" "storableText (rq_DestinationID request)"
    and "requestIdentity (rq_DeliveryIdentity request) = Some identity"
    and "CanonicalizeEvent (rq_Event request) = Inr c"
    and "acceptedIn s (rq_CorePrincipalID request, rq_DestinationID request, identity) = None"
  shows "after (gatewayIntake timeout keys random entropy request) s (acceptedAsNew s request identity)"
proof -
  let ?prepare = "protection_Prepare ctx_Err (Some (protectionService keys random)) CallContext"
  let ?store = "gatewayStore timeout keys random entropy"
  have valid: "validatePrepareInput (rq_CorePrincipalID request) (rq_DestinationID request) identity (ce_formatVersion c)
      (ce_data c) (ce_digest c) = None"
    by (rule storable_prepare [OF assms(6,7) requestIdentity_nonzero [OF assms(8)] assms(9)])
  have protect: "after (protect_and_store ctx_Err ?prepare ?store request identity c) s' (acceptedAsNew s request identity)"
    if k: "kept s s'" for s'
    unfolding protect_and_store_def after_bind
  proof (rule ctx_kept [OF kept_healthy [OF k]], simp only: simp_thms if_False after_bind,
      rule after_mono [OF prepare_delivers [OF assms(1,2) kept_healthy valid]])
    fix s1 assume s1: "kept s' s1"
    then show "kept s' s1" .
    fix r :: "PreparedAcceptance result" and s2
    assume "kept s1 s2 \<and> (\<exists>p. r = Inr p \<and>
      sealedUnder (rq_CorePrincipalID request) (rq_DestinationID request) identity c key p)"
    then obtain p where p: "r = Inr p" "sealedUnder (rq_CorePrincipalID request) (rq_DestinationID request) identity c key p"
      and s2: "kept s1 s2" by blast
    have "kept s s2" by (rule kept_trans [OF kept_trans [OF k s1] s2])
    from store_prepared_delivers [OF assms(1) this assms(5,3,6,7,10) p(2)] show "after (case r of
         Inl err \<Rightarrow> State_Monad.return (Inl (classifyProtectionError err))
       | Inr prepared \<Rightarrow>
           if \<not> preparedMatchesRequest prepared request identity c
           then State_Monad.return (Inl (protectionErr ErrProtectionFailed))
           else store_prepared ctx_Err ?store prepared) s2 (acceptedAsNew s request identity)"
      using sealed_matches(1) [OF p(2)] by (simp add: p(1))
  qed
  have "\<not> nilEventInterface (rq_Event request)" using assms(9) by (auto simp: nilEventInterface_def)
  with assms(6-9) show ?thesis
    unfolding gatewayIntake_def intake_Accept_def option.case IntakeService.simps prod.case accept_request_def
    by (auto simp: after_bind storableText_def intro!: ctx_kept [OF assms(4)] protect)
qed

subsection \<open>A concrete gateway\<close>

text \<open>A random source that leaves one more live poll behind at each draw and counts with them, and constant
  entropy.\<close>

definition countingRandom :: "(acceptance_session, bytes12 result) state" where
  "countingRandom = do {
     s \<leftarrow> State_Monad.get;
     State_Monad.set (s\<lparr>s_polls := None # s_polls s\<rparr>);
     State_Monad.return (Inr (word_of_nat (length (s_polls s)))) }"

definition sampleEntropy :: "(acceptance_session, bytes16 result) state" where
  "sampleEntropy = State_Monad.return (Inr 1)"

definition sampleRequest :: "gostring \<Rightarrow> Request" where
  "sampleRequest name =
     \<lparr>rq_CorePrincipalID = str ''core'', rq_DestinationID = str ''dest'', rq_DeliveryIdentity = formatUUID 7,
      rq_Event = EventValue (Test \<lparr>te_AppName = name\<rparr>)\<rparr>"

lemma sample_sources:
  "gatewaySources sampleKeys [k_id sampleKey \<mapsto> sampleKey] countingRandom sampleEntropy"
  "sourcesDeliver [] sampleKeys sampleKey countingRandom sampleEntropy"
proof -
  show "gatewaySources sampleKeys [k_id sampleKey \<mapsto> sampleKey] countingRandom sampleEntropy"
    by (auto simp: gatewaySources_def sample_keys reads_def countingRandom_def sampleEntropy_def after_simps
        acceptanceIdle_def no_rows_honest_def acceptedIn_def)
  have polled: "kept s (s\<lparr>s_polls := None # s_polls s\<rparr>)" "kept s s"
    "kept (s\<lparr>s_polls := None # s_polls s\<rparr>) (s\<lparr>s_polls := None # None # s_polls s\<rparr>)" if "healthy s" for s
    using that by (simp_all add: kept_def healthy_def live_def answering_def)
  show "sourcesDeliver [] sampleKeys sampleKey countingRandom sampleEntropy"
    using polled
    by (simp add: sourcesDeliver_def sampleKeys_def countingRandom_def sampleEntropy_def after_simps)
qed

lemma sample_request:
  "storableText (rq_CorePrincipalID (sampleRequest name))" "storableText (rq_DestinationID (sampleRequest name))"
  "requestIdentity (rq_DeliveryIdentity (sampleRequest name)) = Some 7" "pg_text (k_id sampleKey)"
  "utf8_Valid name \<Longrightarrow> \<exists>c. CanonicalizeEvent (rq_Event (sampleRequest name)) = Inr c"
  "acceptanceIdle (sampleAcceptanceSession [] [])" "healthy (sampleAcceptanceSession [] [])"
proof -
  have "pg_text (str ''core'')" "pg_text (str ''dest'')" "pg_text (str ''key'')" by code_simp+
  then show "storableText (rq_CorePrincipalID (sampleRequest name))" "storableText (rq_DestinationID (sampleRequest name))"
    "pg_text (k_id sampleKey)"
    by (simp_all add: storableText_def sampleRequest_def sampleKey_def) (simp_all add: str_def)
qed (simp_all add: sampleRequest_def requestIdentity_def durable_parseUUID_formatUUID canonicalizeKnown_eq canonicalEventOf_def
    acceptanceIdle_def healthy_def live_def answering_def sampleAcceptanceSession_def no_rows_honest_def)

lemma sample_accepted:
  assumes "utf8_Valid name"
  shows "after (gatewayIntake (\<lambda>_. False) sampleKeys countingRandom sampleEntropy (sampleRequest name))
    (sampleAcceptanceSession [] []) (acceptedAsNew (sampleAcceptanceSession [] []) (sampleRequest name) 7)"
proof -
  obtain c where c: "CanonicalizeEvent (rq_Event (sampleRequest name)) = Inr c" using sample_request(5) [OF assms] by blast
  show ?thesis
    by (rule intake_delivers [OF _ sample_prepare(2) sample_request(4) sample_request(7) _ sample_request(1-3) c])
      (simp_all add: sample_acceptance_session sample_sources(2) acceptanceTableOK_def acceptedIn_def acceptedRows_def)
qed

subsection \<open>Properties\<close>

text \<open>C14. For every behaviour of the database driver, the context, the key source and the random sources, the
  pipeline refines the idempotent store: a reported acceptance is the canonical event of the request, stored
  with a digest that opens to the event's digest when it is new, a duplicate exactly when the stored digest is
  the event's, and a conflict otherwise; an error other than the unknown outcome leaves the accepted
  deliveries as they were.\<close>

theorem intake_refines_idempotent_store:
  assumes "gatewaySources keys keyring random entropy" "acceptanceIdle s"
  shows "after (gatewayIntake timeout keys random entropy request) s
    (\<lambda>r s'. acceptanceIdle s' \<and> intakePost keyring (acceptedIn s) request r (acceptedIn s'))"
  by (rule gateway_intake_after [OF assms])

theorem intake_refines_idempotent_store_witness:
  "after (gatewayIntake (\<lambda>_. False) sampleKeys countingRandom sampleEntropy (sampleRequest (str ''App'')))
     (sampleAcceptanceSession [Answered, Answered, Answered, Lost (Leaf 0 True)] [])
     (\<lambda>r s'. acceptanceIdle s' \<and>
        intakePost [k_id sampleKey \<mapsto> sampleKey] Map.empty (sampleRequest (str ''App'')) r (acceptedIn s'))"
proof -
  let ?s = "sampleAcceptanceSession [Answered, Answered, Answered, Lost (Leaf 0 True)] []"
  have idle: "acceptanceIdle ?s" and empty: "acceptedIn ?s = Map.empty"
    by (auto simp: acceptanceIdle_def sample_acceptance_session acceptedIn_def acceptedRows_def)
  show ?thesis by (rule intake_refines_idempotent_store [OF sample_sources(1) idle, unfolded empty])
qed

text \<open>C15. Once an event was accepted as new, every later answer for its delivery identity is a duplicate with
  the same receipt when the event's digest is the same, and a conflict when it is not, whatever was accepted in
  between.\<close>

theorem redelivery_is_recognised:
  assumes "gatewaySources keys keyring random entropy" "acceptanceIdle s" "acceptanceIdle t"
    and "run_state (gatewayIntake timeout keys random entropy first) s = (Inr res, s')" "r_Disposition res = AcceptedNew"
    and "acceptedIn s' \<subseteq>\<^sub>m acceptedIn t"
    and "run_state (gatewayIntake timeout keys random entropy again) t = (Inr res', t')"
    and "rq_CorePrincipalID again = rq_CorePrincipalID first" "rq_DestinationID again = rq_DestinationID first"
      "rq_DeliveryIdentity again = rq_DeliveryIdentity first"
    and "CanonicalizeEvent (rq_Event first) = Inr c" "CanonicalizeEvent (rq_Event again) = Inr c'"
  shows "res' = (if ce_digest c' = ce_digest c then \<lparr>r_Disposition = AcceptedDuplicate, r_ReceiptID = r_ReceiptID res\<rparr>
    else \<lparr>r_Disposition = IdentityConflict, r_ReceiptID = 0\<rparr>)"
proof -
  have post: "intakePost keyring (acceptedIn s) first (Inr res) (acceptedIn s')"
    using afterD [OF gateway_intake_after [OF assms(1,2)] assms(4)] by simp
  have post': "intakePost keyring (acceptedIn t) again (Inr res') (acceptedIn t')"
    using afterD [OF gateway_intake_after [OF assms(1,3)] assms(7)] by simp
  from post assms(5,11) obtain identity st where
    identity: "requestIdentity (rq_DeliveryIdentity first) = Some identity"
    and st: "acceptedIn s' (rq_CorePrincipalID first, rq_DestinationID first, identity) = Some st"
      "storedDigest keyring (rq_CorePrincipalID first, rq_DestinationID first, identity) st = Some (ce_digest c)"
      "sa_FormatVersion st = CanonicalEventFormatVersion" "r_ReceiptID res = sa_ReceiptID st"
    by (auto simp: intakePost_def Let_def split: if_splits)
  have "acceptedIn t (rq_CorePrincipalID first, rq_DestinationID first, identity) = Some st"
    using map_leD [OF assms(6) st(1)] .
  with post' identity st assms(8-10,12) show ?thesis
    by (auto simp: intakePost_def Let_def)
qed

text \<open>Redelivering the accepted sample event can only be answered with its receipt.\<close>

theorem redelivery_is_recognised_witness:
  "\<exists>res s'. run_state (gatewayIntake (\<lambda>_. False) sampleKeys countingRandom sampleEntropy (sampleRequest (str ''App'')))
       (sampleAcceptanceSession [] []) = (Inr res, s') \<and> r_Disposition res = AcceptedNew \<and>
     (\<forall>res' t'. run_state (gatewayIntake (\<lambda>_. False) sampleKeys countingRandom sampleEntropy (sampleRequest (str ''App''))) s' =
        (Inr res', t') \<longrightarrow> res' = \<lparr>r_Disposition = AcceptedDuplicate, r_ReceiptID = r_ReceiptID res\<rparr>)"
proof -
  let ?g = "gatewayIntake (\<lambda>_. False) sampleKeys countingRandom sampleEntropy (sampleRequest (str ''App''))"
  let ?s = "sampleAcceptanceSession [] []"
  have name: "utf8_Valid (str ''App'')" by code_simp
  obtain c where c: "CanonicalizeEvent (rq_Event (sampleRequest (str ''App''))) = Inr c"
    using sample_request(5) [OF name] by blast
  obtain r s' where run: "run_state ?g ?s = (r, s')" by force
  from afterD [OF sample_accepted [OF name] run] obtain res where res: "r = Inr res" "r_Disposition res = AcceptedNew"
    by (auto simp: acceptedAsNew_def)
  have idle: "acceptanceIdle s'"
    using afterD [OF gateway_intake_after [OF sample_sources(1) sample_request(6)] run] by simp
  have "res' = \<lparr>r_Disposition = AcceptedDuplicate, r_ReceiptID = r_ReceiptID res\<rparr>" if "run_state ?g s' = (Inr res', t')" for res' t'
    using redelivery_is_recognised [OF sample_sources(1) sample_request(6) idle run [unfolded res(1)] res(2) map_le_refl that
        refl refl refl c c] by simp
  then show ?thesis using run res by (intro exI [of _ res] exI [of _ s']) simp
qed



end
