(* ===== verification/Json_Text.thy ===== *)
theory Json_Text
  imports Canonical_Form "HOL-Library.AList"
begin

unbundle bit_operations_syntax

section \<open>The JSON reader of the standard library\<close>

text \<open>
  What the gateway uses of \<^verbatim>\<open>encoding/json\<close>: the scanner with its states and its stack, \<^verbatim>\<open>checkValid\<close>, the unquoting of
  string literals, the token reader of \<^verbatim>\<open>Decoder\<close>, and \<^verbatim>\<open>Unmarshal\<close> into a map of raw values. The scanner works byte by byte, so
  everything here is total; no reader gets longer input back than it was given.
\<close>

subsection \<open>Runes\<close>

definition utf8_EncodeRune :: "nat \<Rightarrow> byte list" where
  "utf8_EncodeRune r =
     (if r < 0x80 then [word_of_nat r]
      else if r < 0x800 then [0xC0 OR word_of_nat (r div 64), 0x80 OR word_of_nat (r mod 64)]
      else if 0x10FFFF < r \<or> 0xD800 \<le> r \<and> r < 0xE000 then [0xEF, 0xBF, 0xBD]
      else if r < 0x10000
      then [0xE0 OR word_of_nat (r div 4096), 0x80 OR word_of_nat (r div 64 mod 64), 0x80 OR word_of_nat (r mod 64)]
      else [0xF0 OR word_of_nat (r div 262144), 0x80 OR word_of_nat (r div 4096 mod 64),
            0x80 OR word_of_nat (r div 64 mod 64), 0x80 OR word_of_nat (r mod 64)])"

definition utf16_IsSurrogate :: "nat \<Rightarrow> bool" where
  "utf16_IsSurrogate r = (0xD800 \<le> r \<and> r < 0xE000)"

definition utf16_DecodeRune :: "nat \<Rightarrow> nat \<Rightarrow> nat" where
  "utf16_DecodeRune r1 r2 =
     (if 0xD800 \<le> r1 \<and> r1 < 0xDC00 \<and> 0xDC00 \<le> r2 \<and> r2 < 0xE000
      then (r1 - 0xD800) * 1024 + (r2 - 0xDC00) + 0x10000 else 0xFFFD)"

text \<open>Four hexadecimal digits.\<close>

definition hex4 :: "byte \<Rightarrow> byte \<Rightarrow> byte \<Rightarrow> byte \<Rightarrow> nat option" where
  "hex4 a b c d =
     (case (fromHexChar a, fromHexChar b, fromHexChar c, fromHexChar d) of
        (Some p, Some q, Some r, Some s) \<Rightarrow> Some (unat p * 4096 + unat q * 256 + unat r * 16 + unat s)
      | _ \<Rightarrow> None)"

fun getu4 :: "byte list \<Rightarrow> nat option" where
  "getu4 (x # y # a # b # c # d # rest) = (if x = 0x5c \<and> y = 0x75 then hex4 a b c d else None)"
| "getu4 _ = None"

lemma utf8_shrinks: "v \<noteq> [] \<Longrightarrow> length v - snd (utf8_DecodeRune v) < length v"
  using utf8_DecodeRune_size [of v] by (cases v) simp_all

function utf8_RuneCount :: "byte list \<Rightarrow> nat" where
  "utf8_RuneCount v = (if v = [] then 0 else Suc (utf8_RuneCount (drop (snd (utf8_DecodeRune v)) v)))"
  by pat_completeness auto
termination
  by (relation "measure length") (simp_all add: utf8_shrinks)

declare utf8_RuneCount.simps [simp del]

subsection \<open>Unquoting\<close>

definition simpleEscape :: "byte \<Rightarrow> byte option" where
  "simpleEscape e =
     (if e = 0x22 \<or> e = 0x5c \<or> e = 0x2f \<or> e = 0x27 then Some e
      else if e = 0x62 then Some 0x08 else if e = 0x66 then Some 0x0c else if e = 0x6e then Some 0x0a
      else if e = 0x72 then Some 0x0d else if e = 0x74 then Some 0x09 else None)"

text \<open>\<^verbatim>\<open>unquoteBytes\<close> of the bytes between the quotation marks. A surrogate that has no partner becomes the replacement
  rune.\<close>

function unquote :: "byte list \<Rightarrow> byte list option" where
  "unquote s =
     (case s of
        [] \<Rightarrow> Some []
      | c # t \<Rightarrow>
          if c = 0x5c then
            (case t of
               [] \<Rightarrow> None
             | e # rest \<Rightarrow>
                 if e = 0x75 then
                   (case getu4 s of
                      None \<Rightarrow> None
                    | Some rr \<Rightarrow>
                        if utf16_IsSurrogate rr then
                          (case getu4 (drop 6 s) of
                             Some rr1 \<Rightarrow>
                               if utf16_DecodeRune rr rr1 \<noteq> 0xFFFD
                               then map_option (append (utf8_EncodeRune (utf16_DecodeRune rr rr1))) (unquote (drop 12 s))
                               else map_option (append (utf8_EncodeRune 0xFFFD)) (unquote (drop 6 s))
                           | None \<Rightarrow> map_option (append (utf8_EncodeRune 0xFFFD)) (unquote (drop 6 s)))
                        else map_option (append (utf8_EncodeRune rr)) (unquote (drop 6 s)))
                 else (case simpleEscape e of None \<Rightarrow> None | Some v \<Rightarrow> map_option (Cons v) (unquote rest)))
          else if c = 0x22 \<or> c < 0x20 then None
          else if c < 0x80 then map_option (Cons c) (unquote t)
          else map_option (append (utf8_EncodeRune (fst (utf8_DecodeRune s)))) (unquote (drop (snd (utf8_DecodeRune s)) s)))"
  by pat_completeness auto
termination
  by (relation "measure length") (use utf8_shrinks [of "_ # _"] in auto)

declare unquote.simps [simp del]

subsection \<open>The scanner\<close>

datatype scan_step =
    BeginValue | BeginValueOrEmpty | BeginString | BeginStringOrEmpty | EndValue | EndTop
  | InString | InStringEsc | InStringEscU | InStringEscU1 | InStringEscU12 | InStringEscU123
  | Neg | Zero | Digits | Dot | DotDigits | Exp | ExpSign | ExpDigits
  | Literal "byte list"

datatype parse_state = ParseObjectKey | ParseObjectValue | ParseArrayValue

record scanner =
  sc_step :: scan_step
  sc_parseState :: "parse_state list"

datatype scan_result = ScanContinue scanner | ScanEnd | ScanError

definition maxNestingDepth :: nat where "maxNestingDepth = 10000"

definition isSpace :: "byte \<Rightarrow> bool" where
  "isSpace c = (c = 0x20 \<or> c = 0x09 \<or> c = 0x0d \<or> c = 0x0a)"

definition isDigit :: "byte \<Rightarrow> bool" where
  "isDigit c = (0x30 \<le> c \<and> c \<le> 0x39)"

definition scan_reset :: scanner where
  "scan_reset = \<lparr>sc_step = BeginValue, sc_parseState = []\<rparr>"

definition pushParseState :: "scan_step \<Rightarrow> parse_state \<Rightarrow> parse_state list \<Rightarrow> scan_result" where
  "pushParseState step new stack =
     (if Suc (length stack) \<le> maxNestingDepth then ScanContinue \<lparr>sc_step = step, sc_parseState = new # stack\<rparr> else ScanError)"

definition popParseState :: "parse_state list \<Rightarrow> scan_result" where
  "popParseState stack =
     ScanContinue \<lparr>sc_step = (if tl stack = [] then EndTop else EndValue), sc_parseState = tl stack\<rparr>"

definition stateEndValue :: "parse_state list \<Rightarrow> byte \<Rightarrow> scan_result" where
  "stateEndValue stack c =
     (case stack of
        [] \<Rightarrow> ScanEnd
      | ps # rest \<Rightarrow>
          if isSpace c then ScanContinue \<lparr>sc_step = EndValue, sc_parseState = stack\<rparr>
          else (case ps of
             ParseObjectKey \<Rightarrow>
               if c = 0x3a then ScanContinue \<lparr>sc_step = BeginValue, sc_parseState = ParseObjectValue # rest\<rparr> else ScanError
           | ParseObjectValue \<Rightarrow>
               if c = 0x2c then ScanContinue \<lparr>sc_step = BeginString, sc_parseState = ParseObjectKey # rest\<rparr>
               else if c = 0x7d then popParseState stack else ScanError
           | ParseArrayValue \<Rightarrow>
               if c = 0x2c then ScanContinue \<lparr>sc_step = BeginValue, sc_parseState = stack\<rparr>
               else if c = 0x5d then popParseState stack else ScanError))"

definition stateBeginString :: "parse_state list \<Rightarrow> byte \<Rightarrow> scan_result" where
  "stateBeginString stack c =
     (if isSpace c then ScanContinue \<lparr>sc_step = BeginString, sc_parseState = stack\<rparr>
      else if c = 0x22 then ScanContinue \<lparr>sc_step = InString, sc_parseState = stack\<rparr> else ScanError)"

definition stateBeginValue :: "parse_state list \<Rightarrow> byte \<Rightarrow> scan_result" where
  "stateBeginValue stack c =
     (let go = (\<lambda>step. ScanContinue \<lparr>sc_step = step, sc_parseState = stack\<rparr>) in
      if isSpace c then go BeginValue
      else if c = 0x7b then pushParseState BeginStringOrEmpty ParseObjectKey stack
      else if c = 0x5b then pushParseState BeginValueOrEmpty ParseArrayValue stack
      else if c = 0x22 then go InString
      else if c = 0x2d then go Neg
      else if c = 0x30 then go Zero
      else if c = 0x74 then go (Literal (str ''rue''))
      else if c = 0x66 then go (Literal (str ''alse''))
      else if c = 0x6e then go (Literal (str ''ull''))
      else if isDigit c then go Digits else ScanError)"

definition state0 :: "parse_state list \<Rightarrow> byte \<Rightarrow> scan_result" where
  "state0 stack c =
     (if c = 0x2e then ScanContinue \<lparr>sc_step = Dot, sc_parseState = stack\<rparr>
      else if c = 0x65 \<or> c = 0x45 then ScanContinue \<lparr>sc_step = Exp, sc_parseState = stack\<rparr> else stateEndValue stack c)"

definition stateESign :: "parse_state list \<Rightarrow> byte \<Rightarrow> scan_result" where
  "stateESign stack c =
     (if isDigit c then ScanContinue \<lparr>sc_step = ExpDigits, sc_parseState = stack\<rparr> else ScanError)"

fun scan :: "scan_step \<Rightarrow> parse_state list \<Rightarrow> byte \<Rightarrow> scan_result" where
  "scan BeginValue stack c = stateBeginValue stack c"
| "scan BeginValueOrEmpty stack c =
     (if isSpace c then ScanContinue \<lparr>sc_step = BeginValueOrEmpty, sc_parseState = stack\<rparr>
      else if c = 0x5d then stateEndValue stack c else stateBeginValue stack c)"
| "scan BeginString stack c = stateBeginString stack c"
| "scan BeginStringOrEmpty stack c =
     (if isSpace c then ScanContinue \<lparr>sc_step = BeginStringOrEmpty, sc_parseState = stack\<rparr>
      else if c = 0x7d then stateEndValue (ParseObjectValue # tl stack) c else stateBeginString stack c)"
| "scan EndValue stack c = stateEndValue stack c"
| "scan EndTop stack c = ScanEnd"
| "scan InString stack c =
     (if c = 0x22 then ScanContinue \<lparr>sc_step = EndValue, sc_parseState = stack\<rparr>
      else if c = 0x5c then ScanContinue \<lparr>sc_step = InStringEsc, sc_parseState = stack\<rparr>
      else if c < 0x20 then ScanError else ScanContinue \<lparr>sc_step = InString, sc_parseState = stack\<rparr>)"
| "scan InStringEsc stack c =
     (if c \<in> {0x62, 0x66, 0x6e, 0x72, 0x74, 0x5c, 0x2f, 0x22} then ScanContinue \<lparr>sc_step = InString, sc_parseState = stack\<rparr>
      else if c = 0x75 then ScanContinue \<lparr>sc_step = InStringEscU, sc_parseState = stack\<rparr> else ScanError)"
| "scan InStringEscU stack c =
     (if fromHexChar c \<noteq> None then ScanContinue \<lparr>sc_step = InStringEscU1, sc_parseState = stack\<rparr> else ScanError)"
| "scan InStringEscU1 stack c =
     (if fromHexChar c \<noteq> None then ScanContinue \<lparr>sc_step = InStringEscU12, sc_parseState = stack\<rparr> else ScanError)"
| "scan InStringEscU12 stack c =
     (if fromHexChar c \<noteq> None then ScanContinue \<lparr>sc_step = InStringEscU123, sc_parseState = stack\<rparr> else ScanError)"
| "scan InStringEscU123 stack c =
     (if fromHexChar c \<noteq> None then ScanContinue \<lparr>sc_step = InString, sc_parseState = stack\<rparr> else ScanError)"
| "scan Neg stack c =
     (if c = 0x30 then ScanContinue \<lparr>sc_step = Zero, sc_parseState = stack\<rparr>
      else if isDigit c then ScanContinue \<lparr>sc_step = Digits, sc_parseState = stack\<rparr> else ScanError)"
| "scan Digits stack c =
     (if isDigit c then ScanContinue \<lparr>sc_step = Digits, sc_parseState = stack\<rparr> else state0 stack c)"
| "scan Zero stack c = state0 stack c"
| "scan Dot stack c =
     (if isDigit c then ScanContinue \<lparr>sc_step = DotDigits, sc_parseState = stack\<rparr> else ScanError)"
| "scan DotDigits stack c =
     (if isDigit c then ScanContinue \<lparr>sc_step = DotDigits, sc_parseState = stack\<rparr>
      else if c = 0x65 \<or> c = 0x45 then ScanContinue \<lparr>sc_step = Exp, sc_parseState = stack\<rparr> else stateEndValue stack c)"
| "scan Exp stack c =
     (if c = 0x2b \<or> c = 0x2d then ScanContinue \<lparr>sc_step = ExpSign, sc_parseState = stack\<rparr> else stateESign stack c)"
| "scan ExpSign stack c = stateESign stack c"
| "scan ExpDigits stack c =
     (if isDigit c then ScanContinue \<lparr>sc_step = ExpDigits, sc_parseState = stack\<rparr> else stateEndValue stack c)"
| "scan (Literal rest) stack c =
     (case rest of
        [] \<Rightarrow> stateEndValue stack c
      | x # xs \<Rightarrow>
          if c = x then ScanContinue \<lparr>sc_step = (if xs = [] then EndValue else Literal xs), sc_parseState = stack\<rparr> else ScanError)"

text \<open>The end of the input: the value is complete if it is followed by a space.\<close>

definition scan_eof :: "scanner \<Rightarrow> bool" where
  "scan_eof s = (sc_step s = EndTop \<or> scan (sc_step s) (sc_parseState s) 0x20 = ScanEnd)"

fun check_loop :: "scanner \<Rightarrow> byte list \<Rightarrow> bool" where
  "check_loop s [] = scan_eof s"
| "check_loop s (c # cs) =
     (case scan (sc_step s) (sc_parseState s) c of
        ScanError \<Rightarrow> False
      | ScanContinue s' \<Rightarrow> check_loop s' cs
      | ScanEnd \<Rightarrow> list_all isSpace (c # cs))"

definition checkValid :: "byte list \<Rightarrow> bool" where
  "checkValid data = check_loop scan_reset data"

text \<open>\<^verbatim>\<open>Decoder.readValue\<close>: the bytes of the first value and what follows them.\<close>

definition closedTop :: "byte \<Rightarrow> scanner \<Rightarrow> bool" where
  "closedTop c s = ((c = 0x7d \<or> c = 0x5d) \<and> sc_step s = EndTop)"

fun read_value :: "scanner \<Rightarrow> byte list \<Rightarrow> (byte list \<times> byte list) option" where
  "read_value s [] = (if scan_eof s then Some ([], []) else None)"
| "read_value s (c # cs) =
     (case scan (sc_step s) (sc_parseState s) c of
        ScanError \<Rightarrow> None
      | ScanEnd \<Rightarrow> Some ([], c # cs)
      | ScanContinue s' \<Rightarrow>
          if closedTop c s' then Some ([c], cs) else map_option (apfst (Cons c)) (read_value s' cs))"

lemma read_value_append: "read_value s bs = Some (v, rest) \<Longrightarrow> bs = v @ rest"
  by (induction bs arbitrary: s v) (auto split: if_splits scan_result.splits)

definition skipSpace :: "byte list \<Rightarrow> byte list" where
  "skipSpace = dropWhile isSpace"

lemma skipSpace_length: "length (skipSpace bs) \<le> length bs"
  unfolding skipSpace_def by (rule length_dropWhile_le)

subsection \<open>Objects of raw values\<close>

text \<open>The string of a literal with its quotation marks.\<close>

definition unquoteLiteral :: "byte list \<Rightarrow> gostring option" where
  "unquoteLiteral item =
     (if length item < 2 \<or> hd item \<noteq> 0x22 \<or> last item \<noteq> 0x22 then None else unquote (butlast (tl item)))"

text \<open>The members of an object, from after its brace or a comma: the unquoted key and the bytes of the value. A later
  member replaces an earlier one of the same key.\<close>

function object_members :: "byte list \<Rightarrow> (gostring \<times> byte list) list \<Rightarrow> (gostring \<times> byte list) list option" where
  "object_members bs members =
     (case read_value scan_reset (skipSpace bs) of
        None \<Rightarrow> None
      | Some (k, afterKey) \<Rightarrow>
          (case (unquoteLiteral k, skipSpace afterKey) of
             (Some key, colon # afterColon) \<Rightarrow>
               (case read_value scan_reset (skipSpace afterColon) of
                  None \<Rightarrow> None
                | Some (v, afterValue) \<Rightarrow>
                    (case skipSpace afterValue of
                       [] \<Rightarrow> None
                     | c # rest \<Rightarrow>
                         if c = 0x2c then object_members rest (AList.update key v members)
                         else Some (AList.update key v members)))
           | _ \<Rightarrow> None))"
  by pat_completeness auto
termination
proof (relation "measure (length \<circ> fst)", simp, goal_cases)
  case (1 bs members kv k afterKey pair key more colon afterColon vv v afterValue c rest)
  then have "length (skipSpace bs) = length k + length afterKey" "length (skipSpace afterColon) = length v + length afterValue"
    by (auto dest!: read_value_append)
  moreover from 1 have "length (skipSpace afterKey) = Suc (length afterColon)" "length (skipSpace afterValue) = Suc (length rest)"
    by (metis Pair_inject length_Cons)+
  ultimately have "length rest < length bs"
    using skipSpace_length [of bs] skipSpace_length [of afterKey] skipSpace_length [of afterColon] skipSpace_length [of afterValue]
    by linarith
  then show ?case by simp
qed

declare object_members.simps [simp del]

text \<open>\<^verbatim>\<open>json.Unmarshal\<close> into a map of raw values: no result for an error, no map for the literal null.\<close>

definition unmarshalRawMap :: "byte list \<Rightarrow> (gostring \<times> byte list) list option option" where
  "unmarshalRawMap data =
     (if \<not> checkValid data then None
      else (case skipSpace data of
              [] \<Rightarrow> None
            | c # rest \<Rightarrow>
                if c = 0x6e then Some None
                else if c \<noteq> 0x7b then None
                else (case skipSpace rest of
                        [] \<Rightarrow> None
                      | d # _ \<Rightarrow> if d = 0x7d then Some (Some []) else map_option Some (object_members rest []))))"

text \<open>\<^verbatim>\<open>json.Unmarshal\<close> into a string, of input that begins with a quotation mark.\<close>

definition unmarshalString :: "byte list \<Rightarrow> gostring option" where
  "unmarshalString data =
     (if \<not> checkValid data then None
      else (case read_value scan_reset data of None \<Rightarrow> None | Some (literal, rest) \<Rightarrow> unquoteLiteral literal))"

subsection \<open>The token reader\<close>

datatype token_state =
    TopValue | ArrayStart | ArrayValue | ArrayComma | ObjectStart | ObjectKey | ObjectColon | ObjectValue | ObjectComma

text \<open>A \<^verbatim>\<open>Decoder\<close>: what has not been read, its token state, and the states around it. \<^verbatim>\<open>UseNumber\<close> keeps a number as its
  text.\<close>

record Decoder =
  dc_rest :: "byte list"
  dc_state :: token_state
  dc_stack :: "token_state list"

datatype token = Delim byte | StringToken gostring | OtherToken

datatype token_result = TokenOK token Decoder | TokenEOF | TokenError

definition NewDecoder :: "byte list \<Rightarrow> Decoder" where
  "NewDecoder data = \<lparr>dc_rest = data, dc_state = TopValue, dc_stack = []\<rparr>"

definition tokenValueAllowed :: "token_state \<Rightarrow> bool" where
  "tokenValueAllowed st = (st = TopValue \<or> st = ArrayStart \<or> st = ArrayValue \<or> st = ObjectValue)"

fun tokenValueEnd :: "token_state \<Rightarrow> token_state" where
  "tokenValueEnd ArrayStart = ArrayComma"
| "tokenValueEnd ArrayValue = ArrayComma"
| "tokenValueEnd ObjectValue = ObjectComma"
| "tokenValueEnd st = st"

definition token_open :: "byte \<Rightarrow> token_state \<Rightarrow> Decoder \<Rightarrow> byte list \<Rightarrow> token_result" where
  "token_open c start dec rest =
     (if \<not> tokenValueAllowed (dc_state dec) then TokenError
      else TokenOK (Delim c) \<lparr>dc_rest = rest, dc_state = start, dc_stack = dc_state dec # dc_stack dec\<rparr>)"

definition token_close :: "byte \<Rightarrow> token_state \<Rightarrow> token_state \<Rightarrow> Decoder \<Rightarrow> byte list \<Rightarrow> token_result" where
  "token_close c start comma dec rest =
     (if dc_state dec \<noteq> start \<and> dc_state dec \<noteq> comma then TokenError
      else (case dc_stack dec of
              [] \<Rightarrow> TokenError
            | st # stack \<Rightarrow> TokenOK (Delim c) \<lparr>dc_rest = rest, dc_state = tokenValueEnd st, dc_stack = stack\<rparr>))"

text \<open>\<^verbatim>\<open>Decode\<close> of the scalar that begins here: it ends in the state of a finished value. A literal that cannot be unquoted
  cannot occur after the scanner accepted it.\<close>

definition token_scalar :: "Decoder \<Rightarrow> byte list \<Rightarrow> token_result" where
  "token_scalar dec bs =
     (if \<not> tokenValueAllowed (dc_state dec) then TokenError
      else (case read_value scan_reset bs of
              None \<Rightarrow> TokenError
            | Some (literal, rest) \<Rightarrow>
                (let dec' = dec\<lparr>dc_rest := rest, dc_state := tokenValueEnd (dc_state dec)\<rparr> in
                 if hd bs = 0x22
                 then (case unquoteLiteral literal of None \<Rightarrow> TokenError | Some x \<Rightarrow> TokenOK (StringToken x) dec')
                 else TokenOK OtherToken dec')))"

definition token_key :: "Decoder \<Rightarrow> byte list \<Rightarrow> token_result" where
  "token_key dec bs =
     (case read_value scan_reset bs of
        None \<Rightarrow> TokenError
      | Some (literal, rest) \<Rightarrow>
          (case unquoteLiteral literal of
             None \<Rightarrow> TokenError
           | Some x \<Rightarrow> TokenOK (StringToken x) (dec\<lparr>dc_rest := rest, dc_state := ObjectColon\<rparr>)))"

function Token :: "Decoder \<Rightarrow> token_result" where
  "Token dec =
     (case skipSpace (dc_rest dec) of
        [] \<Rightarrow> TokenEOF
      | c # rest \<Rightarrow>
          if c = 0x5b then token_open c ArrayStart dec rest
          else if c = 0x5d then token_close c ArrayStart ArrayComma dec rest
          else if c = 0x7b then token_open c ObjectStart dec rest
          else if c = 0x7d then token_close c ObjectStart ObjectComma dec rest
          else if c = 0x3a then
            (if dc_state dec \<noteq> ObjectColon then TokenError else Token (dec\<lparr>dc_rest := rest, dc_state := ObjectValue\<rparr>))
          else if c = 0x2c then
            (if dc_state dec = ArrayComma then Token (dec\<lparr>dc_rest := rest, dc_state := ArrayValue\<rparr>)
             else if dc_state dec = ObjectComma then Token (dec\<lparr>dc_rest := rest, dc_state := ObjectKey\<rparr>)
             else TokenError)
          else if c = 0x22 \<and> (dc_state dec = ObjectStart \<or> dc_state dec = ObjectKey) then token_key dec (c # rest)
          else token_scalar dec (c # rest))"
  by pat_completeness auto
termination
proof -
  have "length rest < length bs" if "skipSpace bs = c # rest" for bs c rest
    using skipSpace_length [of bs] that by simp
  then show ?thesis by (relation "measure (length \<circ> dc_rest)") auto
qed

declare Token.simps [simp del]

definition More :: "Decoder \<Rightarrow> bool" where
  "More dec = (case skipSpace (dc_rest dec) of [] \<Rightarrow> False | c # _ \<Rightarrow> c \<noteq> 0x5d \<and> c \<noteq> 0x7d)"

end
