(* ===== verification/Event_Decoding.thy ===== *)
theory Event_Decoding
  imports Json_Text Authentication_Request
begin

section \<open>Decoding an event\<close>

text \<open>
  \<^verbatim>\<open>internal/httpapi/decode.go\<close>: the body of a webhook is checked to be one JSON object in which no object names a
  member twice, and is then read into one of the four typed events. The check consumes the tokens of the body
  recursively; its functions take fuel, and no result at all, \<open>None\<close>, means that the fuel ran out.
\<close>

datatype decode_error = errInvalidEvent | errUnsupportedEvent

type_synonym rawFields = "(gostring \<times> byte list) list"

subsection \<open>Patterns\<close>

definition lowerHex :: "byte \<Rightarrow> bool" where
  "lowerHex b = (digit b \<or> 0x61 \<le> b \<and> b \<le> 0x66)"

text \<open>The pattern of a canonical UUID: groups of 8, 4, 4, 4 and 12 digits.\<close>

definition validCanonicalUUID :: "gostring \<Rightarrow> bool" where
  "validCanonicalUUID v =
     (length v = 36 \<and>
      list_all (\<lambda>i. if i \<in> {8, 13, 18, 23} then v ! i = 0x2d else lowerHex (v ! i)) [0..<36])"

definition digitsPattern :: "gostring \<Rightarrow> bool" where
  "digitsPattern v = (length v = 6 \<and> list_all digit v)"

definition positiveIntPattern :: "gostring \<Rightarrow> bool" where
  "positiveIntPattern v = (case v of [] \<Rightarrow> False | b # bs \<Rightarrow> 0x31 \<le> b \<and> b \<le> 0x39 \<and> list_all digit bs)"

definition letter :: "byte \<Rightarrow> bool" where
  "letter b = (0x41 \<le> b \<and> b \<le> 0x5a \<or> 0x61 \<le> b \<and> b \<le> 0x7a)"

definition nameEnd :: "byte \<Rightarrow> bool" where
  "nameEnd b = (letter b \<or> digit b \<or> b = 0x5f \<or> b = 0x27 \<or> b = 0x2d)"

definition serviceNamePattern :: "gostring \<Rightarrow> bool" where
  "serviceNamePattern v =
     (2 \<le> length v \<and> letter (hd v) \<and> list_all (\<lambda>b. nameEnd b \<or> b = 0x20) (butlast (tl v)) \<and> nameEnd (last v))"

definition validAppName :: "gostring \<Rightarrow> bool" where
  "validAppName v = (1 \<le> length v \<and> length v \<le> 32 \<and> printableASCII v)"

definition validServiceName :: "gostring \<Rightarrow> bool" where
  "validServiceName v = (2 \<le> length v \<and> length v \<le> 64 \<and> printableASCII v \<and> serviceNamePattern v)"

subsection \<open>Consuming tokens\<close>

text \<open>The recursion of \<^verbatim>\<open>consumeObject\<close> and \<^verbatim>\<open>consumeValue\<close>: \<open>consumeObject\<close> is the loop over the members with the names
  seen so far, \<open>consume_array\<close> the loop over the elements. The outcome is the decoder after the value, or an error.\<close>

fun consumeObject :: "nat \<Rightarrow> gostring list \<Rightarrow> Decoder \<Rightarrow> (decode_error + Decoder) option"
  and consume_array :: "nat \<Rightarrow> Decoder \<Rightarrow> (decode_error + Decoder) option"
  and consumeValue :: "nat \<Rightarrow> Decoder \<Rightarrow> (decode_error + Decoder) option" where
  "consumeObject 0 seen dec = None"
| "consumeObject (Suc n) seen dec =
     (if More dec then
        (case Token dec of
           TokenOK (StringToken name) dec1 \<Rightarrow>
             if name \<in> set seen then Some (Inl errInvalidEvent)
             else (case consumeValue n dec1 of
                     None \<Rightarrow> None
                   | Some (Inl e) \<Rightarrow> Some (Inl e)
                   | Some (Inr dec2) \<Rightarrow> consumeObject n (name # seen) dec2)
         | _ \<Rightarrow> Some (Inl errInvalidEvent))
      else (case Token dec of
              TokenOK token dec1 \<Rightarrow> if token = Delim 0x7d then Some (Inr dec1) else Some (Inl errInvalidEvent)
            | _ \<Rightarrow> Some (Inl errInvalidEvent)))"
| "consume_array 0 dec = None"
| "consume_array (Suc n) dec =
     (if More dec then
        (case consumeValue n dec of
           None \<Rightarrow> None
         | Some (Inl e) \<Rightarrow> Some (Inl e)
         | Some (Inr dec1) \<Rightarrow> consume_array n dec1)
      else (case Token dec of
              TokenOK token dec1 \<Rightarrow> if token = Delim 0x5d then Some (Inr dec1) else Some (Inl errInvalidEvent)
            | _ \<Rightarrow> Some (Inl errInvalidEvent)))"
| "consumeValue 0 dec = None"
| "consumeValue (Suc n) dec =
     (case Token dec of
        TokenOK (Delim c) dec1 \<Rightarrow>
          if c = 0x7b then consumeObject n [] dec1
          else if c = 0x5b then consume_array n dec1
          else Some (Inl errInvalidEvent)
      | TokenOK _ dec1 \<Rightarrow> Some (Inr dec1)
      | _ \<Rightarrow> Some (Inl errInvalidEvent))"

text \<open>Every call of the recursion is on shorter input than the one two calls before it.\<close>

definition consumeFuel :: "byte list \<Rightarrow> nat" where
  "consumeFuel data = 2 * length data + 2"

text \<open>\<^verbatim>\<open>validateJSONObject\<close>, with the outcome of the recursion in the result: \<open>None\<close> is the nil error.\<close>

definition validateJSONObject :: "byte list \<Rightarrow> decode_error option option" where
  "validateJSONObject data =
     (case Token (NewDecoder data) of
        TokenOK (Delim c) dec \<Rightarrow>
          if c \<noteq> 0x7b then Some (Some errInvalidEvent)
          else (case consumeObject (consumeFuel data) [] dec of
                  None \<Rightarrow> None
                | Some (Inl e) \<Rightarrow> Some (Some errInvalidEvent)
                | Some (Inr dec1) \<Rightarrow> Some (if Token dec1 = TokenEOF then None else Some errInvalidEvent))
      | _ \<Rightarrow> Some (Some errInvalidEvent))"

subsection \<open>Strings, numbers and metadata\<close>

text \<open>\<^verbatim>\<open>bytes.TrimSpace\<close> of valid UTF-8.\<close>

function trim_left :: "byte list list \<Rightarrow> byte list \<Rightarrow> byte list" where
  "trim_left spaces v =
     (case find (\<lambda>e. e \<noteq> [] \<and> HasPrefix v e) spaces of
        None \<Rightarrow> v
      | Some e \<Rightarrow> trim_left spaces (drop (length e) v))"
  by pat_completeness auto
termination
proof (relation "measure (length \<circ> snd)", simp, goal_cases)
  case (1 spaces v e)
  then have "e \<noteq> [] \<and> HasPrefix v e" by (auto simp: find_Some_iff)
  then have "0 < length e" "length e \<le> length v" unfolding HasPrefix_def by (auto, metis length_take min.cobounded2 nat_le_linear take_all_iff)
  then have "length v - length e < length v" by linarith
  then show ?case by simp
qed

declare trim_left.simps [simp del]

definition bytes_TrimSpace :: "byte list \<Rightarrow> byte list" where
  "bytes_TrimSpace v = rev (trim_left (map rev spaceEncodings) (rev (trim_left spaceEncodings v)))"

text \<open>The loop of \<^verbatim>\<open>validSurrogateEscapes\<close> at the index \<open>i\<close>; \<^verbatim>\<open>strconv.ParseUint\<close> of four digits in base 16 is \<open>hex4\<close>.\<close>

definition hexAt :: "byte list \<Rightarrow> nat \<Rightarrow> nat option" where
  "hexAt data i = hex4 (data ! i) (data ! (i + 1)) (data ! (i + 2)) (data ! (i + 3))"

function surrogate_loop :: "byte list \<Rightarrow> nat \<Rightarrow> bool" where
  "surrogate_loop data i =
     (if length data \<le> i + 1 then True
      else if data ! i \<noteq> 0x5c then surrogate_loop data (i + 1)
      else let i = i + 1 in
        if length data \<le> i + 1 \<or> data ! i \<noteq> 0x75 then surrogate_loop data (i + 1)
        else if length data \<le> i + 4 then False
        else (case hexAt data (i + 1) of
                None \<Rightarrow> False
              | Some v \<Rightarrow>
                  let i = i + 4 in
                  if 0xd800 \<le> v \<and> v \<le> 0xdbff then
                    (if length data \<le> i + 6 \<or> data ! (i + 1) \<noteq> 0x5c \<or> data ! (i + 2) \<noteq> 0x75 then False
                     else (case hexAt data (i + 3) of
                             None \<Rightarrow> False
                           | Some low \<Rightarrow>
                               if low < 0xdc00 \<or> 0xdfff < low then False else surrogate_loop data (i + 6 + 1)))
                  else if 0xdc00 \<le> v \<and> v \<le> 0xdfff then False
                  else surrogate_loop data (i + 1)))"
  by pat_completeness auto
termination
  by (relation "measure (\<lambda>(data, i). length data - i)") auto

declare surrogate_loop.simps [simp del]

definition validSurrogateEscapes :: "byte list \<Rightarrow> bool" where
  "validSurrogateEscapes data = surrogate_loop data 1"

definition decodeJSONString :: "byte list \<Rightarrow> decode_error + gostring" where
  "decodeJSONString trimmed =
     (if trimmed = [] \<or> hd trimmed \<noteq> 0x22 then Inl errInvalidEvent
      else if \<not> validSurrogateEscapes trimmed then Inl errInvalidEvent
      else (case unmarshalString trimmed of None \<Rightarrow> Inl errInvalidEvent | Some v \<Rightarrow> Inr v))"

definition requiredString :: "rawFields \<Rightarrow> gostring \<Rightarrow> decode_error + gostring" where
  "requiredString raws name =
     (case map_of raws name of
        None \<Rightarrow> Inl errInvalidEvent
      | Some raw \<Rightarrow> decodeJSONString (bytes_TrimSpace raw))"

text \<open>\<^verbatim>\<open>strconv.ParseInt(value, 10, 64)\<close> of digits.\<close>

definition ParseInt :: "gostring \<Rightarrow> int64 option" where
  "ParseInt v = (let n = decimal_value v 0 in if n < 2 ^ 63 then Some (word_of_nat n) else None)"

definition requiredPositiveInt :: "rawFields \<Rightarrow> gostring \<Rightarrow> decode_error + int64" where
  "requiredPositiveInt raws name =
     (case map_of raws name of
        None \<Rightarrow> Inl errInvalidEvent
      | Some raw \<Rightarrow>
          (let trimmed = bytes_TrimSpace raw in
           if \<not> positiveIntPattern trimmed then Inl errInvalidEvent
           else (case ParseInt trimmed of None \<Rightarrow> Inl errInvalidEvent | Some v \<Rightarrow> Inr v)))"

text \<open>The loop over the metadata, in the order of the association list; the outcome does not depend on the order, since
  every failure is the same error and the size only grows.\<close>

fun meta_loop :: "rawFields \<Rightarrow> gomap \<Rightarrow> nat \<Rightarrow> decode_error + gomap" where
  "meta_loop [] meta bytes = Inr meta"
| "meta_loop ((key, rawValue) # rest) meta bytes =
     (if length key < 1 \<or> 255 < length key \<or> \<not> printableASCII key then Inl errInvalidEvent
      else (case decodeJSONString (bytes_TrimSpace rawValue) of
              Inl _ \<Rightarrow> Inl errInvalidEvent
            | Inr v \<Rightarrow>
                if 32768 < bytes + (length key + length v) then Inl errInvalidEvent
                else meta_loop rest (meta @ [(key, v)]) (bytes + (length key + length v))))"

definition requiredMeta :: "rawFields \<Rightarrow> gostring \<Rightarrow> decode_error + gomap" where
  "requiredMeta raws name =
     (case map_of raws name of
        None \<Rightarrow> Inl errInvalidEvent
      | Some raw \<Rightarrow>
          (let trimmed = bytes_TrimSpace raw in
           if trimmed = [] \<or> hd trimmed \<noteq> 0x7b then Inl errInvalidEvent
           else (case unmarshalRawMap trimmed of
                   Some (Some rawMeta) \<Rightarrow> meta_loop rawMeta [] 0
                 | _ \<Rightarrow> Inl errInvalidEvent)))"

definition hasExactFields :: "rawFields \<Rightarrow> gostring list \<Rightarrow> bool" where
  "hasExactFields raws names =
     (length raws = length names \<and> list_all (\<lambda>name. map_of raws name \<noteq> None) names)"

subsection \<open>The events\<close>

text \<open>A required string under a condition.\<close>

definition checkedString :: "rawFields \<Rightarrow> string \<Rightarrow> (gostring \<Rightarrow> bool) \<Rightarrow> (gostring \<Rightarrow> decode_error + Event) \<Rightarrow> decode_error + Event" where
  "checkedString raws name ok continue =
     (case requiredString raws (str name) of
        Inl _ \<Rightarrow> Inl errInvalidEvent
      | Inr v \<Rightarrow> if ok v then continue v else Inl errInvalidEvent)"

definition decodeTest :: "rawFields \<Rightarrow> decode_error + Event" where
  "decodeTest raws =
     (if \<not> hasExactFields raws [str ''AppName'', str ''Type''] then Inl errInvalidEvent
      else checkedString raws ''AppName'' validAppName (\<lambda>appName. Inr (Test \<lparr>te_AppName = appName\<rparr>)))"

definition decodeVerification :: "rawFields \<Rightarrow> decode_error + Event" where
  "decodeVerification raws =
     (if \<not> hasExactFields raws [str ''AppName'', str ''Type'', str ''Code''] then Inl errInvalidEvent
      else checkedString raws ''AppName'' validAppName (\<lambda>appName.
        checkedString raws ''Code'' digitsPattern (\<lambda>code.
          Inr (Verification \<lparr>ve_AppName = appName, ve_Code = code\<rparr>))))"

definition decodeAlert :: "rawFields \<Rightarrow> decode_error + Event" where
  "decodeAlert raws =
     (if \<not> hasExactFields raws [str ''AppName'', str ''Type'', str ''AlertID'', str ''Summary'', str ''Details'',
           str ''ServiceID'', str ''ServiceName'', str ''Meta'']
      then Inl errInvalidEvent
      else checkedString raws ''AppName'' validAppName (\<lambda>appName.
        case requiredPositiveInt raws (str ''AlertID'') of
          Inl _ \<Rightarrow> Inl errInvalidEvent
        | Inr alertID \<Rightarrow>
            checkedString raws ''Summary'' (\<lambda>v. utf8_RuneCount v \<le> 1024) (\<lambda>summary.
            checkedString raws ''Details'' (\<lambda>v. utf8_RuneCount v \<le> 6144) (\<lambda>details.
            checkedString raws ''ServiceID'' validCanonicalUUID (\<lambda>serviceID.
            checkedString raws ''ServiceName'' validServiceName (\<lambda>serviceName.
              case requiredMeta raws (str ''Meta'') of
                Inl _ \<Rightarrow> Inl errInvalidEvent
              | Inr meta \<Rightarrow>
                  Inr (Alert \<lparr>ae_AppName = appName, ae_AlertID = alertID, ae_Summary = summary, ae_Details = details,
                    ae_ServiceID = serviceID, ae_ServiceName = serviceName, ae_Meta = Some meta\<rparr>)))))))"

definition knownAlertState :: "gostring \<Rightarrow> bool" where
  "knownAlertState v = (v = AlertStateUnacknowledged \<or> v = AlertStateAcknowledged \<or> v = AlertStateClosed)"

definition decodeAlertStatus :: "rawFields \<Rightarrow> decode_error + Event" where
  "decodeAlertStatus raws =
     (if \<not> hasExactFields raws [str ''AppName'', str ''Type'', str ''AlertID'', str ''LogEntry'', str ''AlertState'']
      then Inl errInvalidEvent
      else checkedString raws ''AppName'' validAppName (\<lambda>appName.
        case requiredPositiveInt raws (str ''AlertID'') of
          Inl _ \<Rightarrow> Inl errInvalidEvent
        | Inr alertID \<Rightarrow>
            checkedString raws ''LogEntry'' (\<lambda>v. v \<noteq> []) (\<lambda>logEntry.
            checkedString raws ''AlertState'' knownAlertState (\<lambda>state.
              Inr (AlertStatus \<lparr>se_AppName = appName, se_AlertID = alertID, se_LogEntry = logEntry, se_AlertState = state\<rparr>)))))"

definition decodeFields :: "rawFields \<Rightarrow> decode_error + Event" where
  "decodeFields raws =
     (case requiredString raws (str ''Type'') of
        Inl _ \<Rightarrow> Inl errInvalidEvent
      | Inr typeName \<Rightarrow>
          if typeName = EventTypeTest then decodeTest raws
          else if typeName = EventTypeVerification then decodeVerification raws
          else if typeName = EventTypeAlert then decodeAlert raws
          else if typeName = EventTypeAlertStatus then decodeAlertStatus raws
          else Inl errUnsupportedEvent)"

definition decodeEvent :: "byte list \<Rightarrow> (decode_error + Event) option" where
  "decodeEvent data =
     (if \<not> utf8_Valid data then Some (Inl errInvalidEvent)
      else (case validateJSONObject data of
              None \<Rightarrow> None
            | Some (Some _) \<Rightarrow> Some (Inl errInvalidEvent)
            | Some None \<Rightarrow>
                Some (case unmarshalRawMap data of
                    Some (Some raws) \<Rightarrow> decodeFields raws
                  | _ \<Rightarrow> Inl errInvalidEvent)))"

end
