(* ===== verification/Media_Type.thy ===== *)
theory Media_Type
  imports Event_Decoding
begin

section \<open>The media type parser of the standard library\<close>

text \<open>
  What \<^verbatim>\<open>internal/httpapi/handler.go\<close> uses of the packages \<^verbatim>\<open>mime\<close> and \<^verbatim>\<open>strings\<close>: \<^verbatim>\<open>mime.ParseMediaType\<close> with the
  parameters of RFC 2231, and \<^verbatim>\<open>strings.EqualFold\<close>. The outcome of the parser is the media type and its parameters, and
  \<open>None\<close> for an error.
\<close>

type_synonym params = "(gostring \<times> gostring) list"

subsection \<open>Letters\<close>

text \<open>\<^verbatim>\<open>strings.ToLower\<close> where the result must be a token: beside the ASCII letters, the dotted capital I and the Kelvin
  sign are the only letters whose lower case is an ASCII letter. Every other byte outside ASCII stays outside ASCII.\<close>

function mediaLower :: "gostring \<Rightarrow> gostring" where
  "mediaLower v =
     (if v = [] then []
      else if HasPrefix v [0xc4, 0xb0] then 0x69 # mediaLower (drop 2 v)
      else if HasPrefix v [0xe2, 0x84, 0xaa] then 0x6b # mediaLower (drop 3 v)
      else toLowerASCII (hd v) # mediaLower (tl v))"
  by pat_completeness auto
termination
  by (relation "measure length") auto

declare mediaLower.simps [simp del]

text \<open>\<^verbatim>\<open>strings.EqualFold\<close> with a constant: none of the letters of \<^verbatim>\<open>identity\<close> and \<^verbatim>\<open>utf-8\<close> folds with a letter outside ASCII,
  and the media type compared with \<^verbatim>\<open>application/json\<close> is ASCII.\<close>

definition EqualFold :: "gostring \<Rightarrow> gostring \<Rightarrow> bool" where
  "EqualFold s t = (strings_ToLower s = strings_ToLower t)"

subsection \<open>Tokens and values\<close>

definition isTSpecial :: "byte \<Rightarrow> bool" where
  "isTSpecial c = (c \<in> set (str ''()<>@,;:'' @ [0x5c, 0x22] @ str ''/[]?=''))"

definition isTokenChar :: "byte \<Rightarrow> bool" where
  "isTokenChar c = (0x20 < c \<and> c < 0x7f \<and> \<not> isTSpecial c)"

definition consumeToken :: "gostring \<Rightarrow> gostring \<times> gostring" where
  "consumeToken v = (takeWhile isTokenChar v, dropWhile isTokenChar v)"

text \<open>The quoted string after its first quotation mark. A backslash escapes only the special characters.\<close>

fun quoted_string :: "gostring \<Rightarrow> gostring \<Rightarrow> (gostring \<times> gostring) option" where
  "quoted_string [] buffer = None"
| "quoted_string (r # rest) buffer =
     (if r = 0x22 then Some (buffer, rest)
      else case rest of
        c # cs \<Rightarrow>
          if r = 0x5c \<and> isTSpecial c then quoted_string cs (buffer @ [c])
          else if r = 0x0d \<or> r = 0x0a then None
          else quoted_string rest (buffer @ [r])
      | [] \<Rightarrow> None)"

definition mime_consumeValue :: "gostring \<Rightarrow> gostring \<times> gostring" where
  "mime_consumeValue v =
     (if v = [] then ([], [])
      else if hd v \<noteq> 0x22 then consumeToken v
      else (case quoted_string (tl v) [] of None \<Rightarrow> ([], v) | Some r \<Rightarrow> r))"

definition trimLeftSpace :: "gostring \<Rightarrow> gostring" where
  "trimLeftSpace = trim_left spaceEncodings"

text \<open>A parameter with its value and the rest; \<open>None\<close> is the empty name.\<close>

definition consumeMediaParam :: "gostring \<Rightarrow> (gostring \<times> gostring \<times> gostring) option" where
  "consumeMediaParam v =
     (case trimLeftSpace v of
        [] \<Rightarrow> None
      | semicolon # afterSemicolon \<Rightarrow>
          if semicolon \<noteq> 0x3b then None
          else (case consumeToken (trimLeftSpace afterSemicolon) of
            (param, afterParam) \<Rightarrow>
              if param = [] then None
              else (case trimLeftSpace afterParam of
                      [] \<Rightarrow> None
                    | equals # afterEquals \<Rightarrow>
                        if equals \<noteq> 0x3d then None
                        else (let rest = trimLeftSpace afterEquals in
                              case mime_consumeValue rest of
                                (v', rest2) \<Rightarrow>
                                  if v' = [] \<and> rest2 = rest then None
                                  else Some (strings_ToLower param, v', rest2)))))"

subsection \<open>Percent encoding\<close>

fun percentHexUnescape :: "gostring \<Rightarrow> gostring option" where
  "percentHexUnescape [] = Some []"
| "percentHexUnescape (c # s) =
     (if c \<noteq> 0x25 then map_option (Cons c) (percentHexUnescape s)
      else case s of
        p # q # rest \<Rightarrow>
          (case (fromHexChar p, fromHexChar q) of
             (Some high, Some low) \<Rightarrow> map_option (Cons (16 * high + low)) (percentHexUnescape rest)
           | _ \<Rightarrow> None)
      | _ \<Rightarrow> None)"

text \<open>\<^verbatim>\<open>strings.SplitN(v, "'", 3)\<close>, when it gives three parts: the first and the last.\<close>

definition splitQuotes :: "gostring \<Rightarrow> (gostring \<times> gostring) option" where
  "splitQuotes v =
     (let rest = dropWhile (\<lambda>c. c \<noteq> 0x27) v; rest2 = dropWhile (\<lambda>c. c \<noteq> 0x27) (tl rest) in
      if rest = [] \<or> rest2 = [] then None else Some (takeWhile (\<lambda>c. c \<noteq> 0x27) v, tl rest2))"

definition decode2231Enc :: "gostring \<Rightarrow> gostring option" where
  "decode2231Enc v =
     (case splitQuotes v of
        None \<Rightarrow> None
      | Some (charset, encoded) \<Rightarrow>
          if strings_ToLower charset \<noteq> str ''us-ascii'' \<and> strings_ToLower charset \<noteq> str ''utf-8'' then None
          else percentHexUnescape encoded)"

subsection \<open>Parameters\<close>

definition addParam :: "gostring \<Rightarrow> gostring \<Rightarrow> params \<Rightarrow> params option" where
  "addParam key v ps =
     (case map_of ps key of
        Some v' \<Rightarrow> if v' \<noteq> v then None else Some ps
      | None \<Rightarrow> Some (ps @ [(key, v)]))"

text \<open>The state of the loop: the parameters, and the parameters with a star by the name before it.\<close>

definition addMediaParam ::
    "gostring \<Rightarrow> gostring \<Rightarrow> params \<times> (gostring \<times> params) list \<Rightarrow> (params \<times> (gostring \<times> params) list) option" where
  "addMediaParam key v st =
     (case st of (ps, continuation) \<Rightarrow>
        if 0x2a \<in> set key then
          (let baseName = takeWhile (\<lambda>c. c \<noteq> 0x2a) key;
               pieces = (case map_of continuation baseName of None \<Rightarrow> [] | Some m \<Rightarrow> m) in
           map_option (\<lambda>m. (ps, AList.update baseName m continuation)) (addParam key v pieces))
        else map_option (\<lambda>m. (m, continuation)) (addParam key v ps))"

lemma trim_left_length: "length (trim_left spaces v) \<le> length v"
proof (induction spaces v rule: trim_left.induct)
  case (1 spaces v)
  show ?case
  proof (cases "find (\<lambda>e. e \<noteq> [] \<and> HasPrefix v e) spaces")
    case (Some e)
    with 1 have "length (trim_left spaces (drop (length e) v)) \<le> length v" by (simp add: le_diff_conv)
    with Some show ?thesis by (subst trim_left.simps) simp
  qed (subst trim_left.simps, simp)
qed

lemma quoted_string_length: "quoted_string v buffer = Some (r, rest) \<Longrightarrow> length rest \<le> length v"
  by (induction v buffer rule: quoted_string.induct) (auto split: if_splits list.splits)

lemma consumeValue_length: "length (snd (mime_consumeValue v)) \<le> length v"
  using quoted_string_length [of "tl v" "[]"]
  by (auto simp: mime_consumeValue_def consumeToken_def length_dropWhile_le split: option.splits)

lemma consumeMediaParam_shorter:
  assumes "consumeMediaParam v = Some (key, w, rest)"
  shows "length rest < length v"
proof -
  from assms obtain c afterSemicolon where semi: "trimLeftSpace v = c # afterSemicolon"
    by (auto simp: consumeMediaParam_def split: list.splits)
  with assms obtain e afterEquals where eq: "trimLeftSpace (dropWhile isTokenChar (trimLeftSpace afterSemicolon)) = e # afterEquals"
    and rest: "rest = snd (mime_consumeValue (trimLeftSpace afterEquals))"
    by (auto simp: consumeMediaParam_def consumeToken_def Let_def split: list.splits if_splits prod.splits)
  note trims = trim_left_length [of spaceEncodings, folded trimLeftSpace_def]
  have "length rest \<le> length afterEquals"
    unfolding rest using consumeValue_length trims le_trans by blast
  moreover have "length (e # afterEquals) \<le> length afterSemicolon"
    unfolding eq [symmetric] using trims length_dropWhile_le le_trans by meson
  moreover have "length (c # afterSemicolon) \<le> length v" unfolding semi [symmetric] by (rule trims)
  ultimately show ?thesis by simp
qed

function media_params ::
    "gostring \<Rightarrow> params \<times> (gostring \<times> params) list \<Rightarrow> (params \<times> (gostring \<times> params) list) option" where
  "media_params v st =
     (if trimLeftSpace v = [] then Some st
      else (case consumeMediaParam (trimLeftSpace v) of
              None \<Rightarrow> if bytes_TrimSpace (trimLeftSpace v) = [0x3b] then Some st else None
            | Some (key, w, rest) \<Rightarrow>
                (case addMediaParam key w st of None \<Rightarrow> None | Some st' \<Rightarrow> media_params rest st')))"
  by pat_completeness auto
termination
proof (relation "measure (length \<circ> fst)", simp, goal_cases)
  case (1 v st kwr key wr w rest st')
  then have "length rest < length (trimLeftSpace v)" by (auto dest: consumeMediaParam_shorter)
  also have "\<dots> \<le> length v" unfolding trimLeftSpace_def by (rule trim_left_length)
  finally show ?case by simp
qed

declare media_params.simps [simp del]

text \<open>The pieces of a continued parameter from the number \<open>n\<close>: whether there is one, and their text. A piece is dropped
  once it is read, which the later numbers do not see.\<close>

function stitch_pieces :: "gostring \<Rightarrow> nat \<Rightarrow> params \<Rightarrow> bool \<times> gostring" where
  "stitch_pieces key n pieces =
     (let simplePart = key @ 0x2a # nat_digits n; encodedPart = simplePart @ [0x2a] in
      case map_of pieces simplePart of
        Some v \<Rightarrow> (True, v @ snd (stitch_pieces key (Suc n) (filter (\<lambda>p. fst p \<noteq> simplePart) pieces)))
      | None \<Rightarrow>
          (case map_of pieces encodedPart of
             None \<Rightarrow> (False, [])
           | Some v \<Rightarrow>
               (True, (case (if n = 0 then decode2231Enc v else percentHexUnescape v) of None \<Rightarrow> [] | Some d \<Rightarrow> d) @
                  snd (stitch_pieces key (Suc n) (filter (\<lambda>p. fst p \<noteq> encodedPart) pieces)))))"
  by pat_completeness auto
termination
proof -
  have "length (filter (\<lambda>p. fst p \<noteq> k) ps) < length ps" if "map_of ps k = Some v" for k v and ps :: params
    using map_of_SomeD [OF that] by (auto intro: length_filter_less)
  then show ?thesis by (relation "measure (length \<circ> snd \<circ> snd)") auto
qed

declare stitch_pieces.simps [simp del]

definition stitch :: "gostring \<times> params \<Rightarrow> params \<Rightarrow> params" where
  "stitch entry ps =
     (case entry of (key, pieces) \<Rightarrow>
        case map_of pieces (key @ [0x2a]) of
          Some v \<Rightarrow> (case decode2231Enc v of None \<Rightarrow> ps | Some d \<Rightarrow> AList.update key d ps)
        | None \<Rightarrow> (case stitch_pieces key 0 pieces of (valid, v) \<Rightarrow> if valid then AList.update key v ps else ps))"

definition checkMediaType :: "gostring \<Rightarrow> bool" where
  "checkMediaType s =
     (case consumeToken s of (typ, rest) \<Rightarrow>
        typ \<noteq> [] \<and>
        (rest = [] \<or>
         hd rest = 0x2f \<and> (case consumeToken (tl rest) of (subtype, rest2) \<Rightarrow> subtype \<noteq> [] \<and> rest2 = [])))"

definition ParseMediaType :: "gostring \<Rightarrow> (gostring \<times> params) option" where
  "ParseMediaType v =
     (let base = takeWhile (\<lambda>c. c \<noteq> 0x3b) v; mediatype = bytes_TrimSpace (mediaLower base) in
      if \<not> checkMediaType mediatype then None
      else (case media_params (drop (length base) v) ([], []) of
              None \<Rightarrow> None
            | Some (ps, continuation) \<Rightarrow> Some (mediatype, fold stitch continuation ps)))"

end
