(* ===== verification/Http_Handler.thy ===== *)
theory Http_Handler
  imports Media_Type Canonical_Form "HOL-Library.Product_Lexorder"
begin

section \<open>The HTTP handler\<close>

text \<open>
  \<^verbatim>\<open>internal/httpapi/handler.go\<close>, \<^verbatim>\<open>metrics.go\<close> and the handoff types of \<^verbatim>\<open>types.go\<close>: routing, the checks of a webhook
  request in the order of the code, the sink, the response and the record of every request in the counters and the log.
  The state of a handler holds the counters, the log and the state of its sink; an operation returns the response it
  writes and the state after it.
\<close>

subsection \<open>Requests, responses and sinks\<close>

text \<open>What the handler reads of a request. The body gives its bytes and then ends, or fails.\<close>

record http_request =
  hr_Method :: gostring
  hr_Path :: gostring
  hr_RawQuery :: gostring
  hr_Header :: "(gostring \<times> gostring list) list"
  hr_ContentLength :: int64
  hr_Body :: "byte list"
  hr_BodyFails :: bool

record http_response =
  hw_header :: "(gostring \<times> gostring) list"
  hw_status :: nat
  hw_body :: "byte list"

record Delivery =
  dv_Token :: gostring
  dv_Identity :: gostring
  dv_Event :: Event

record Acceptance =
  ac_ReceiptID :: gostring
  ac_Duplicate :: bool

text \<open>\<^verbatim>\<open>Sink.Enqueue\<close>: the acceptance, the error and the state of the sink afterwards.\<close>

type_synonym 's Sink = "Delivery \<Rightarrow> 's \<Rightarrow> (Acceptance \<times> go_error option) \<times> 's"

definition UnavailableSink :: "'s Sink" where
  "UnavailableSink delivery s =
     ((\<lparr>ac_ReceiptID = [], ac_Duplicate = False\<rparr>, Some (httpapiErr ErrSinkUnavailable)), s)"

subsection \<open>Counters\<close>

type_synonym metricKey = "gostring \<times> gostring"

type_synonym requestMetrics = "(metricKey \<times> 64 word) list"

definition newRequestMetrics :: requestMetrics where "newRequestMetrics = []"

definition metric_count :: "requestMetrics \<Rightarrow> metricKey \<Rightarrow> 64 word" where
  "metric_count counts key = (case map_of counts key of None \<Rightarrow> 0 | Some n \<Rightarrow> n)"

definition increment :: "gostring \<Rightarrow> gostring \<Rightarrow> requestMetrics \<Rightarrow> requestMetrics" where
  "increment route result counts = AList.update (route, result) (metric_count counts (route, result) + 1) counts"

text \<open>\<^verbatim>\<open>%q\<close> of a label, which is a constant of printable ASCII.\<close>

definition quoteLabel :: "gostring \<Rightarrow> gostring" where
  "quoteLabel v = 0x22 # concat (map (\<lambda>b. if b = 0x22 \<or> b = 0x5c then [0x5c, b] else [b]) v) @ [0x22]"

definition metricLine :: "requestMetrics \<Rightarrow> metricKey \<Rightarrow> gostring" where
  "metricLine counts key =
     str ''ms_oncall_gateway_http_requests_total{route='' @ quoteLabel (fst key) @ str '',result='' @ quoteLabel (snd key) @
     str ''} '' @ nat_digits (unat (metric_count counts key)) @ [0x0a]"

definition render :: "requestMetrics \<Rightarrow> gostring" where
  "render counts =
     str ''# HELP ms_oncall_gateway_http_requests_total HTTP requests handled by route and bounded result.'' @ [0x0a] @
     str ''# TYPE ms_oncall_gateway_http_requests_total counter'' @ [0x0a] @
     concat (map (metricLine counts) (sort (map fst counts)))"

subsection \<open>The handler\<close>

record log_entry =
  le_route :: gostring
  le_result :: gostring
  le_status :: nat
  le_eventType :: gostring

record 's handlerState =
  hs_metrics :: requestMetrics
  hs_log :: "log_entry list"
  hs_sink :: 's

definition NewHandler :: "'s \<Rightarrow> 's handlerState" where
  "NewHandler s = \<lparr>hs_metrics = newRequestMetrics, hs_log = [], hs_sink = s\<rparr>"

definition MaxBodyBytes :: nat where "MaxBodyBytes = 262144"

definition idempotencyKeyHeader :: gostring where "idempotencyKeyHeader = str ''Idempotency-Key''"

definition webhookPathPrefix :: gostring where "webhookPathPrefix = str ''/v1/goalert/contact-method/''"

definition handler_record :: "string \<Rightarrow> string \<Rightarrow> nat \<Rightarrow> gostring \<Rightarrow> 's handlerState \<Rightarrow> 's handlerState" where
  "handler_record route result status eventType st =
     st\<lparr>hs_metrics := increment (str route) (str result) (hs_metrics st),
        hs_log := hs_log st @ [\<lparr>le_route = str route, le_result = str result, le_status = status, le_eventType = eventType\<rparr>]\<rparr>"

text \<open>A string as \<^verbatim>\<open>json.NewEncoder\<close> writes it: an invalid byte becomes the replacement character.\<close>

function jsonEscape :: "gostring \<Rightarrow> gostring" where
  "jsonEscape v =
     (if v = [] then []
      else if hd v < 0x80 then (if plainByte (hd v) then [hd v] else escapeByte (hd v)) @ jsonEscape (tl v)
      else (let c = fst (utf8_DecodeRune v); n = snd (utf8_DecodeRune v) in
            (if c = 0xfffd \<and> n = 1 then 0x5c # str ''ufffd''
             else if c = 0x2028 \<or> c = 0x2029 then escapeSeparator c
             else take n v) @ jsonEscape (drop n v)))"
  by pat_completeness auto
termination
proof -
  have "length v - snd (utf8_DecodeRune v) < length v" if "v \<noteq> []" for v
    using utf8_DecodeRune_size [OF that] that by (cases v) auto
  then show ?thesis by (relation "measure length") auto
qed

declare jsonEscape.simps [simp del]

definition jsonString :: "gostring \<Rightarrow> gostring" where
  "jsonString v = 0x22 # jsonEscape v @ [0x22]"

text \<open>An encoded struct, with the line end of the encoder.\<close>

definition jsonStruct :: "(string \<times> gostring) list \<Rightarrow> gostring" where
  "jsonStruct members =
     0x7b # strings_Join (map (\<lambda>(name, v). jsonString (str name) @ 0x3a # v) members) [0x2c] @ [0x7d, 0x0a]"

definition problem ::
    "(gostring \<times> gostring) list \<Rightarrow> string \<Rightarrow> string \<Rightarrow> nat \<Rightarrow> gostring \<Rightarrow> 's handlerState \<Rightarrow> http_response \<times> 's handlerState" where
  "problem headers route result status eventType st =
     (\<lparr>hw_header = headers @ [(str ''Content-Type'', str ''application/problem+json'')], hw_status = status,
       hw_body = jsonStruct [(''type'', jsonString (str ''about:blank'')), (''title'', jsonString (str ''Request rejected'')),
         (''status'', nat_digits status), (''code'', jsonString (str result))]\<rparr>,
      handler_record route result status eventType st)"

definition webhookToken :: "gostring \<Rightarrow> gostring option" where
  "webhookToken path =
     (if \<not> HasPrefix path webhookPathPrefix then None
      else let token = drop (length webhookPathPrefix) path in
        if token = [] \<or> strings_Contains token [0x2f] then None else Some token)"

definition handleHealth :: "http_request \<Rightarrow> 's handlerState \<Rightarrow> http_response \<times> 's handlerState" where
  "handleHealth r st =
     (if hr_Method r \<noteq> str ''GET''
      then problem [(str ''Allow'', str ''GET'')] ''health'' ''method_not_allowed'' 405 [] st
      else (\<lparr>hw_header = [(str ''Content-Type'', str ''text/plain; charset=utf-8'')], hw_status = 200,
             hw_body = str ''ok'' @ [0x0a]\<rparr>,
            handler_record ''health'' ''ok'' 200 [] st))"

definition handleMetrics :: "http_request \<Rightarrow> 's handlerState \<Rightarrow> http_response \<times> 's handlerState" where
  "handleMetrics r st =
     (if hr_Method r \<noteq> str ''GET''
      then problem [(str ''Allow'', str ''GET'')] ''metrics'' ''method_not_allowed'' 405 [] st
      else let st' = handler_record ''metrics'' ''ok'' 200 [] st in
        (\<lparr>hw_header = [(str ''Content-Type'', str ''text/plain; version=0.0.4; charset=utf-8'')], hw_status = 200,
          hw_body = render (hs_metrics st')\<rparr>, st'))"

definition validContentEncoding :: "gostring list \<Rightarrow> bool" where
  "validContentEncoding vs = (vs = [] \<or> length vs = 1 \<and> EqualFold (hd vs) (str ''identity''))"

definition validContentType :: "gostring list \<Rightarrow> bool" where
  "validContentType vs =
     (length vs = 1 \<and>
      (case ParseMediaType (hd vs) of
         None \<Rightarrow> False
       | Some (mediaType, params) \<Rightarrow>
           EqualFold mediaType (str ''application/json'') \<and>
           (params = [] \<or>
            length params = 1 \<and>
            (case map_of params (str ''charset'') of None \<Rightarrow> False | Some charset \<Rightarrow> EqualFold charset (str ''utf-8'')))))"

definition headerValues :: "http_request \<Rightarrow> gostring \<Rightarrow> gostring list" where
  "headerValues r name = (case map_of (hr_Header r) name of None \<Rightarrow> [] | Some vs \<Rightarrow> vs)"

text \<open>\<^verbatim>\<open>io.ReadAll\<close> of the body up to one byte more than the limit; \<open>None\<close> is an error of the body.\<close>

definition readBody :: "http_request \<Rightarrow> byte list option" where
  "readBody r =
     (if MaxBodyBytes < length (hr_Body r) then Some (take (MaxBodyBytes + 1) (hr_Body r))
      else if hr_BodyFails r then None
      else Some (hr_Body r))"

definition webhook_body :: "http_request \<Rightarrow> (string \<times> nat) + Event" where
  "webhook_body r =
     (case readBody r of
        None \<Rightarrow> Inl (''invalid_request'', 400)
      | Some body \<Rightarrow>
          if MaxBodyBytes < length body then Inl (''request_too_large'', 413)
          else (case decodeEvent body of
                  Some (Inr event) \<Rightarrow> Inr event
                | Some (Inl errUnsupportedEvent) \<Rightarrow> Inl (''unsupported_event_type'', 422)
                | _ \<Rightarrow> Inl (''invalid_request'', 400)))"

text \<open>The checks of a webhook request up to the decoded event, with the result and status of the first that fails.\<close>

definition webhook_event :: "http_request \<Rightarrow> (string \<times> nat) + gostring \<times> Event" where
  "webhook_event r =
     (if hr_RawQuery r \<noteq> [] then Inl (''invalid_request'', 400)
      else if \<not> validContentEncoding (headerValues r (str ''Content-Encoding'')) \<or>
              \<not> validContentType (headerValues r (str ''Content-Type''))
      then Inl (''unsupported_media_type'', 415)
      else let identities = headerValues r idempotencyKeyHeader in
        if length identities \<noteq> 1 \<or> \<not> validCanonicalUUID (hd identities) then Inl (''invalid_request'', 400)
        else if int MaxBodyBytes < sint (hr_ContentLength r) then Inl (''request_too_large'', 413)
        else map_sum id (Pair (hd identities)) (webhook_body r))"

text \<open>The handoff to the sink and the answer.\<close>

definition webhook_enqueue :: "'s Sink option \<Rightarrow> Delivery \<Rightarrow> 's handlerState \<Rightarrow> http_response \<times> 's handlerState" where
  "webhook_enqueue sink delivery st =
     (let eventType = Event_Kind (dv_Event delivery) in
      case sink of
        None \<Rightarrow> problem [] ''webhook'' ''internal_error'' 500 eventType st
      | Some enqueue \<Rightarrow>
          (case enqueue delivery (hs_sink st) of ((acceptance, err), s) \<Rightarrow>
             let st = st\<lparr>hs_sink := s\<rparr> in
             if errors_Is_opt err (Httpapi ErrSinkUnavailable)
             then problem [(str ''Retry-After'', str ''30'')] ''webhook'' ''unavailable'' 503 eventType st
             else if err \<noteq> None \<or> ac_ReceiptID acceptance = []
             then problem [] ''webhook'' ''internal_error'' 500 eventType st
             else (\<lparr>hw_header = [(str ''Content-Type'', str ''application/json'')], hw_status = 202,
                    hw_body = jsonStruct [(''receipt_id'', jsonString (ac_ReceiptID acceptance)),
                      (''status'', jsonString (str ''accepted'')),
                      (''duplicate'', if ac_Duplicate acceptance then str ''true'' else str ''false'')]\<rparr>,
                   handler_record ''webhook'' ''accepted'' 202 eventType st)))"

definition handleWebhook ::
    "'s Sink option \<Rightarrow> http_request \<Rightarrow> gostring \<Rightarrow> 's handlerState \<Rightarrow> http_response \<times> 's handlerState" where
  "handleWebhook sink r token st =
     (if hr_Method r \<noteq> str ''POST''
      then problem [(str ''Allow'', str ''POST'')] ''webhook'' ''method_not_allowed'' 405 [] st
      else (case webhook_event r of
              Inl (result, status) \<Rightarrow> problem [] ''webhook'' result status [] st
            | Inr (identity, event) \<Rightarrow>
                webhook_enqueue sink \<lparr>dv_Token = token, dv_Identity = identity, dv_Event = event\<rparr> st))"

definition ServeHTTP :: "'s Sink option \<Rightarrow> http_request \<Rightarrow> 's handlerState \<Rightarrow> http_response \<times> 's handlerState" where
  "ServeHTTP sink r st =
     (if hr_Path r = str ''/healthz'' then handleHealth r st
      else if hr_Path r = str ''/metrics'' then handleMetrics r st
      else (case webhookToken (hr_Path r) of
              None \<Rightarrow> problem [] ''not_found'' ''not_found'' 404 [] st
            | Some token \<Rightarrow> handleWebhook sink r token st))"

end
