(* ===== verification/Decoding_Guarantees.thy ===== *)
theory Decoding_Guarantees
  imports Event_Decoding
begin

unbundle bit_operations_syntax

section \<open>What the decoder guarantees\<close>

text \<open>
  The decoder always returns, what it returns is a well-formed event, and it reads the canonical bytes of a
  well-formed event back to that event.
\<close>

subsection \<open>The decoder returns\<close>

lemma read_value_nonempty:
  assumes "read_value scan_reset (c # cs) = Some (v, rest)"
  shows "length rest \<le> length cs"
proof -
  have "scan BeginValue [] c \<noteq> ScanEnd"
    by (simp add: stateBeginValue_def pushParseState_def Let_def)
  then obtain s' where "scan BeginValue [] c = ScanContinue s'" "v \<noteq> []"
    using assms by (auto simp: scan_reset_def split: scan_result.splits if_splits)
  with read_value_append [OF assms] show ?thesis by (cases v) auto
qed

lemma Token_shorter: "Token dec = TokenOK t dec' \<Longrightarrow> length (dc_rest dec') < length (dc_rest dec)"
proof (induction dec rule: Token.induct)
  case (1 dec)
  show ?case
  proof (cases "skipSpace (dc_rest dec)")
    case Nil
    with 1 show ?thesis by (simp add: Token.simps [of dec])
  next
    case (Cons c rest)
    have len: "length rest < length (dc_rest dec)" using skipSpace_length [of "dc_rest dec"] Cons by simp
    have key: "length (dc_rest dec') < length (dc_rest dec)" if "token_key dec (c # rest) = TokenOK t dec'"
      using that len
      by (auto simp: token_key_def simp del: read_value.simps split: option.splits dest!: read_value_nonempty)
    have scalar: "length (dc_rest dec') < length (dc_rest dec)" if "token_scalar dec (c # rest) = TokenOK t dec'"
      using that len
      by (auto simp: token_scalar_def Let_def simp del: read_value.simps split: option.splits if_splits
          dest!: read_value_nonempty)
    have delims: "length (dc_rest dec') < length (dc_rest dec)"
      if "token_open b st dec rest = TokenOK t dec' \<or> token_close b st st' dec rest = TokenOK t dec'" for b st st'
      using that len by (auto simp: token_open_def token_close_def split: if_splits list.splits)
    have colon: "length (dc_rest dec') < length (dc_rest dec)" if "c = 0x3a" "dc_state dec = ObjectColon"
      "Token (dec\<lparr>dc_rest := rest, dc_state := ObjectValue\<rparr>) = TokenOK t dec'"
      using "1.IH"(1) [OF Cons] that len by simp
    have comma: "length (dc_rest dec') < length (dc_rest dec)" if "c = 0x2c" "dc_state dec = ArrayComma"
      "Token (dec\<lparr>dc_rest := rest, dc_state := ArrayValue\<rparr>) = TokenOK t dec'"
      using "1.IH"(2) [OF Cons] that len by simp
    have next_key: "length (dc_rest dec') < length (dc_rest dec)" if "c = 0x2c" "dc_state dec = ObjectComma"
      "Token (dec\<lparr>dc_rest := rest, dc_state := ObjectKey\<rparr>) = TokenOK t dec'"
      using "1.IH"(3) [OF Cons] that len by simp
    from "1.prems" consider "token_open c ArrayStart dec rest = TokenOK t dec'" | "token_close c ArrayStart ArrayComma dec rest = TokenOK t dec'"
      | "token_open c ObjectStart dec rest = TokenOK t dec'" | "token_close c ObjectStart ObjectComma dec rest = TokenOK t dec'"
      | "c = 0x3a" "dc_state dec = ObjectColon" "Token (dec\<lparr>dc_rest := rest, dc_state := ObjectValue\<rparr>) = TokenOK t dec'"
      | "c = 0x2c" "dc_state dec = ArrayComma" "Token (dec\<lparr>dc_rest := rest, dc_state := ArrayValue\<rparr>) = TokenOK t dec'"
      | "c = 0x2c" "dc_state dec = ObjectComma" "Token (dec\<lparr>dc_rest := rest, dc_state := ObjectKey\<rparr>) = TokenOK t dec'"
      | "token_key dec (c # rest) = TokenOK t dec'" | "token_scalar dec (c # rest) = TokenOK t dec'"
      unfolding Token.simps [of dec] Cons list.case by (simp split: if_split_asm)
    then show ?thesis by cases (use delims in blast, use delims in blast, use delims in blast, use delims in blast,
      (rule colon comma next_key key scalar; assumption)+)
  qed
qed

definition shrinks :: "Decoder \<Rightarrow> (decode_error + Decoder) option \<Rightarrow> bool" where
  "shrinks dec r = (\<exists>x. r = Some x \<and> (\<forall>d. x = Inr d \<longrightarrow> length (dc_rest d) < length (dc_rest dec)))"

lemma shrinks_error [simp]: "shrinks dec (Some (Inl e))"
  by (simp add: shrinks_def)

lemma shrinks_token: "Token dec = TokenOK t d \<Longrightarrow> shrinks dec (Some (Inr d))"
  by (simp add: shrinks_def Token_shorter)

lemma shrinks_trans: "length (dc_rest d) < length (dc_rest dec) \<Longrightarrow> shrinks d r \<Longrightarrow> shrinks dec r"
  by (auto simp: shrinks_def)

lemma consume_shrinks:
  "(\<forall>seen dec. 2 * length (dc_rest dec) + 1 < n \<longrightarrow> shrinks dec (consumeObject n seen dec)) \<and>
   (\<forall>dec. 2 * length (dc_rest dec) + 1 < n \<longrightarrow> shrinks dec (consume_array n dec)) \<and>
   (\<forall>dec. 2 * length (dc_rest dec) < n \<longrightarrow> shrinks dec (consumeValue n dec))"
proof (induction n)
  case (Suc n)
  note obj = Suc.IH [THEN conjunct1, rule_format] and arr = Suc.IH [THEN conjunct2, THEN conjunct1, rule_format]
    and val = Suc.IH [THEN conjunct2, THEN conjunct2, rule_format]
  have "shrinks dec (consumeObject (Suc n) seen dec)" if fuel: "2 * length (dc_rest dec) + 1 < Suc n" for seen dec
  proof -
    have member: "shrinks dec (case consumeValue n d1 of None \<Rightarrow> None | Some (Inl e) \<Rightarrow> Some (Inl e)
        | Some (Inr d2) \<Rightarrow> consumeObject n (name # seen) d2)" if "Token dec = TokenOK t d1" for t d1 name
    proof -
      have d1: "length (dc_rest d1) < length (dc_rest dec)" using Token_shorter [OF that] .
      with val [of d1] fuel obtain x where x: "consumeValue n d1 = Some x"
        "\<forall>d. x = Inr d \<longrightarrow> length (dc_rest d) < length (dc_rest d1)" by (auto simp: shrinks_def)
      show ?thesis
      proof (cases x)
        case (Inr d2)
        with x d1 have "length (dc_rest d2) < length (dc_rest dec)" by force
        with shrinks_trans [OF this obj [of d2 "name # seen"]] fuel show ?thesis by (simp add: x(1) Inr)
      qed (simp add: x(1))
    qed
    show ?thesis
      by (auto split: token_result.splits token.splits intro: shrinks_token member)
  qed
  moreover have "shrinks dec (consume_array (Suc n) dec)" if fuel: "2 * length (dc_rest dec) + 1 < Suc n" for dec
  proof -
    from val [of dec] fuel obtain x where x: "consumeValue n dec = Some x"
      "\<forall>d. x = Inr d \<longrightarrow> length (dc_rest d) < length (dc_rest dec)" by (auto simp: shrinks_def)
    have "shrinks dec (consume_array n d)" if "x = Inr d" for d
      using x(2) that fuel by (intro shrinks_trans [OF _ arr]) auto
    with x(1) show ?thesis by (cases x) (auto split: token_result.splits intro: shrinks_token)
  qed
  moreover have "shrinks dec (consumeValue (Suc n) dec)" if fuel: "2 * length (dc_rest dec) < Suc n" for dec
    using fuel Token_shorter [of dec]
    by (auto split: token_result.splits token.splits intro: shrinks_token intro!: shrinks_trans [OF _ obj] shrinks_trans [OF _ arr])
  ultimately show ?case by blast
qed simp

text \<open>More fuel does not change a result.\<close>

lemma consume_more_fuel:
  "(\<forall>seen dec m. consumeObject n seen dec \<noteq> None \<longrightarrow> n \<le> m \<longrightarrow> consumeObject m seen dec = consumeObject n seen dec) \<and>
   (\<forall>dec m. consume_array n dec \<noteq> None \<longrightarrow> n \<le> m \<longrightarrow> consume_array m dec = consume_array n dec) \<and>
   (\<forall>dec m. consumeValue n dec \<noteq> None \<longrightarrow> n \<le> m \<longrightarrow> consumeValue m dec = consumeValue n dec)"
proof (induction n)
  case (Suc n)
  have more: "consumeObject k seen dec = consumeObject n seen dec" if "consumeObject n seen dec \<noteq> None" "n \<le> k" for k seen dec
    using Suc.IH that by blast
  have more2: "consume_array k dec = consume_array n dec" if "consume_array n dec \<noteq> None" "n \<le> k" for k dec
    using Suc.IH that by blast
  have more3: "consumeValue k dec = consumeValue n dec" if "consumeValue n dec \<noteq> None" "n \<le> k" for k dec
    using Suc.IH that by blast
  have objects: "consumeObject (Suc k) seen dec = consumeObject (Suc n) seen dec"
    if "consumeObject (Suc n) seen dec \<noteq> None" "n \<le> k" for seen dec k
  proof -
    have "(case consumeValue k d of None \<Rightarrow> None | Some (Inl e) \<Rightarrow> Some (Inl e) | Some (Inr d2) \<Rightarrow> consumeObject k s d2) =
        (case consumeValue n d of None \<Rightarrow> None | Some (Inl e) \<Rightarrow> Some (Inl e) | Some (Inr d2) \<Rightarrow> consumeObject n s d2)"
      if "(case consumeValue n d of None \<Rightarrow> None | Some (Inl e) \<Rightarrow> Some (Inl e) | Some (Inr d2) \<Rightarrow> consumeObject n s d2) \<noteq> None" for d s
    proof -
      from that obtain x where x: "consumeValue n d = Some x" by (auto split: option.splits)
      with more3 [where dec = d and k = k] \<open>n \<le> k\<close> have "consumeValue k d = Some x" by simp
      with x that more [where seen = s and k = k] \<open>n \<le> k\<close> show ?thesis by (cases x) simp_all
    qed
    note step = this
    show ?thesis
    proof (cases "Token dec")
      case (TokenOK t d)
      with that(1) step [where d = d] show ?thesis by (cases t; cases "More dec") (simp_all split: if_splits)
    qed simp_all
  qed
  have arrays: "consume_array (Suc k) dec = consume_array (Suc n) dec"
    if "consume_array (Suc n) dec \<noteq> None" "n \<le> k" for dec k
  proof (cases "More dec")
    case True
    with that(1) obtain x where x: "consumeValue n dec = Some x" by (auto split: option.splits)
    with more3 [where dec = dec and k = k] that(2) have "consumeValue k dec = Some x" by simp
    with x True that more2 [where k = k] show ?thesis by (cases x) simp_all
  qed simp
  have scalars: "consumeValue (Suc k) dec = consumeValue (Suc n) dec"
    if "consumeValue (Suc n) dec \<noteq> None" "n \<le> k" for dec k
  proof (cases "Token dec")
    case (TokenOK t d)
    with that more [where seen = "[]" and dec = d and k = k] more2 [where dec = d and k = k] show ?thesis by (cases t) (simp_all split: if_splits)
  qed simp_all
  have pred: "\<exists>k. m = Suc k \<and> n \<le> k" if "Suc n \<le> m" for m using that by (cases m) auto
  show ?case
    by (intro conjI allI impI; frule pred) (use objects arrays scalars in blast)+
qed simp

lemma consumeObject_returns:
  assumes "2 * length (dc_rest dec) + 1 < n"
  shows "\<exists>r. consumeObject n seen dec = Some r"
  using consume_shrinks [of n, THEN conjunct1, rule_format, OF assms, of seen] by (auto simp: shrinks_def)

text \<open>C36. Decoding always returns: the recursion over the tokens of a body of any length and nesting ends within the fuel it
  is given, and any larger fuel gives the same result, so the fuel is no limit of the code.\<close>

theorem decoding_terminates:
  "(\<exists>r. decodeEvent data = Some r) \<and>
   (\<forall>c dec n. Token (NewDecoder data) = TokenOK c dec \<and> consumeFuel data \<le> n \<longrightarrow>
      consumeObject n [] dec = consumeObject (consumeFuel data) [] dec)"
proof -
  have returns: "\<exists>r. consumeObject (consumeFuel data) [] dec = Some r" if "Token (NewDecoder data) = TokenOK c dec" for c dec
    using Token_shorter [OF that] by (intro consumeObject_returns) (simp add: consumeFuel_def NewDecoder_def)
  then have "\<exists>r. validateJSONObject data = Some r"
    by (fastforce simp: validateJSONObject_def split: token_result.splits token.splits option.splits sum.splits)
  then have "\<exists>r. decodeEvent data = Some r" by (auto simp: decodeEvent_def split: option.splits)
  moreover have "consumeObject n [] dec = consumeObject (consumeFuel data) [] dec"
    if "Token (NewDecoder data) = TokenOK c dec" "consumeFuel data \<le> n" for c dec n
    using returns [OF that(1)] consume_more_fuel [of "consumeFuel data"] that(2) by (metis option.distinct(1))
  ultimately show ?thesis by blast
qed

lemma sample_object: "Token (NewDecoder (str ''{\"a\":1}'')) =
    TokenOK (Delim 0x7b) \<lparr>dc_rest = str ''\"a\":1}'', dc_state = ObjectStart, dc_stack = [TopValue]\<rparr>"
  by code_simp

theorem decoding_terminates_witness:
  "(\<exists>r. decodeEvent (str ''{\"a\":1}'') = Some r) \<and>
   consumeObject 100 [] \<lparr>dc_rest = str ''\"a\":1}'', dc_state = ObjectStart, dc_stack = [TopValue]\<rparr> =
     consumeObject (consumeFuel (str ''{\"a\":1}'')) [] \<lparr>dc_rest = str ''\"a\":1}'', dc_state = ObjectStart, dc_stack = [TopValue]\<rparr>"
proof -
  have "consumeFuel (str ''{\"a\":1}'') \<le> 100" by (simp add: consumeFuel_def str_def)
  with decoding_terminates [of "str ''{\"a\":1}''"] sample_object show ?thesis by blast
qed

subsection \<open>Runes\<close>

lemma disjoint_bits:
  "x < 32 \<Longrightarrow> (0xC0 :: byte) OR word_of_nat x = word_of_nat (192 + x)"
  "x < 64 \<Longrightarrow> (0x80 :: byte) OR word_of_nat x = word_of_nat (128 + x)"
  "x < 16 \<Longrightarrow> (0xE0 :: byte) OR word_of_nat x = word_of_nat (224 + x)"
  "x < 8 \<Longrightarrow> (0xF0 :: byte) OR word_of_nat x = word_of_nat (240 + x)"
proof -
  have "list_all (\<lambda>x. (0xC0 :: byte) OR word_of_nat x = word_of_nat (192 + x)) [0..<32]"
    "list_all (\<lambda>x. (0x80 :: byte) OR word_of_nat x = word_of_nat (128 + x)) [0..<64]"
    "list_all (\<lambda>x. (0xE0 :: byte) OR word_of_nat x = word_of_nat (224 + x)) [0..<16]"
    "list_all (\<lambda>x. (0xF0 :: byte) OR word_of_nat x = word_of_nat (240 + x)) [0..<8]"
    by code_simp+
  then show "x < 32 \<Longrightarrow> (0xC0 :: byte) OR word_of_nat x = word_of_nat (192 + x)"
    "x < 64 \<Longrightarrow> (0x80 :: byte) OR word_of_nat x = word_of_nat (128 + x)"
    "x < 16 \<Longrightarrow> (0xE0 :: byte) OR word_of_nat x = word_of_nat (224 + x)"
    "x < 8 \<Longrightarrow> (0xF0 :: byte) OR word_of_nat x = word_of_nat (240 + x)"
    by (auto simp: list_all_iff)
qed

lemma unat_small: "n < 256 \<Longrightarrow> unat (word_of_nat n :: byte) = n"
  by (simp add: unat_of_nat)

definition scalarRune :: "nat \<Rightarrow> bool" where
  "scalarRune r = (r \<le> 0x10FFFF \<and> \<not> (0xD800 \<le> r \<and> r < 0xE000))"

lemma byte_le: "n < 256 \<Longrightarrow> m < 256 \<Longrightarrow> (word_of_nat n :: byte) \<le> word_of_nat m \<longleftrightarrow> n \<le> m"
  by (simp add: word_le_nat_alt unat_small)

lemma encode_form:
  assumes "scalarRune r"
  shows "\<exists>f. formOK f \<and> utf8_EncodeRune r = formBytes f"
proof -
  have lit: "(0xC2 :: byte) = word_of_nat 194" "(0xDF :: byte) = word_of_nat 223" "(0xE0 :: byte) = word_of_nat 224"
    "(0xEF :: byte) = word_of_nat 239" "(0xF0 :: byte) = word_of_nat 240" "(0xF4 :: byte) = word_of_nat 244"
    "(0xA0 :: byte) = word_of_nat 160" "(0x9F :: byte) = word_of_nat 159" "(0x80 :: byte) = word_of_nat 128"
    "(0xBF :: byte) = word_of_nat 191" "(0xED :: byte) = word_of_nat 237" "(0x90 :: byte) = word_of_nat 144"
    "(0x8F :: byte) = word_of_nat 143" by simp_all
  have eq: "(word_of_nat n :: byte) = word_of_nat m \<longleftrightarrow> n = m" if "n < 256" "m < 256" for n m
    using that by (metis unat_small)
  have low: "r mod 64 \<le> 63" "r div 64 mod 64 \<le> 63" "r div 4096 mod 64 \<le> 63"
    using mod_less_divisor [of 64] by (simp_all add: less_Suc_eq_le [symmetric])
  have sum: "r = 4096 * (r div 4096) + 64 * (r div 64 mod 64) + r mod 64"
    "r = 262144 * (r div 262144) + 4096 * (r div 4096 mod 64) + 64 * (r div 64 mod 64) + r mod 64"
    if "64 * (r div 64) + r mod 64 = r" "64 * (r div 4096) + r div 64 mod 64 = r div 64"
      "64 * (r div 262144) + r div 4096 mod 64 = r div 4096"
    using that by linarith+
  note sum = sum [OF mult_div_mod_eq mult_div_mod_eq [of 64 "r div 64", unfolded div_mult2_eq [symmetric], simplified]
      mult_div_mod_eq [of 64 "r div 4096", unfolded div_mult2_eq [symmetric], simplified]]
  consider "r < 0x80" | "0x80 \<le> r" "r < 0x800" | "0x800 \<le> r" "r < 0x10000" | "0x10000 \<le> r" "r \<le> 0x10FFFF"
    using assms unfolding scalarRune_def by (meson not_le)
  then show ?thesis
  proof cases
    case 1
    then show ?thesis
      by (intro exI [of _ "OneByte (word_of_nat r)"]) (simp add: utf8_EncodeRune_def word_less_nat_alt unat_small)
  next
    case 2
    then have q: "2 \<le> r div 64" "r div 64 < 32" by auto
    have "utf8_EncodeRune r = formBytes (TwoBytes (word_of_nat (192 + r div 64)) (word_of_nat (128 + r mod 64)))"
      using 2 q by (simp add: utf8_EncodeRune_def disjoint_bits)
    moreover have "formOK (TwoBytes (word_of_nat (192 + r div 64)) (word_of_nat (128 + r mod 64)))"
      using q low by (simp add: cont_def lit byte_le del: of_nat_numeral of_nat_add)
    ultimately show ?thesis by blast
  next
    case 3
    then have q: "r div 4096 < 16" "r div 4096 = 0 \<Longrightarrow> 32 \<le> r div 64 mod 64" "r div 4096 = 13 \<Longrightarrow> r div 64 mod 64 < 32"
      using sum(1) low assms unfolding scalarRune_def by linarith+
    let ?f = "ThreeBytes (word_of_nat (224 + r div 4096)) (word_of_nat (128 + r div 64 mod 64)) (word_of_nat (128 + r mod 64))"
    have "utf8_EncodeRune r = formBytes ?f"
      using 3 q(1) assms by (auto simp: utf8_EncodeRune_def scalarRune_def disjoint_bits)
    moreover have "formOK ?f"
      using q low by (auto simp add: cont_def lit byte_le eq simp del: of_nat_numeral of_nat_add)
    ultimately show ?thesis by blast
  next
    case 4
    then have q: "r div 262144 < 8" "r div 262144 \<le> 4" "r div 262144 = 0 \<Longrightarrow> 16 \<le> r div 4096 mod 64"
      "r div 262144 = 4 \<Longrightarrow> r div 4096 mod 64 < 16" using sum(2) low by linarith+
    let ?f = "FourBytes (word_of_nat (240 + r div 262144)) (word_of_nat (128 + r div 4096 mod 64))
          (word_of_nat (128 + r div 64 mod 64)) (word_of_nat (128 + r mod 64))"
    have "utf8_EncodeRune r = formBytes ?f"
      using 4 q(1) by (simp add: utf8_EncodeRune_def disjoint_bits)
    moreover have "formOK ?f"
      using q low by (auto simp add: cont_def lit byte_le eq simp del: of_nat_numeral of_nat_add)
    ultimately show ?thesis by blast
  qed
qed

lemma form_prefix: "formOK f \<Longrightarrow> utf8_rune (formBytes f @ w) = Some (formRune f, length (formBytes f))"
  using lead_byte by (cases f) auto

lemma formBytes_nonempty [simp]: "formBytes f \<noteq> []"
  by (cases f) simp_all

lemma valid_form: "formOK f \<Longrightarrow> utf8_Valid (formBytes f @ w) = utf8_Valid w"
  by (subst utf8_Valid.simps) (simp add: form_prefix)

lemma valid_append: "utf8_Valid a \<Longrightarrow> utf8_Valid (a @ b) = utf8_Valid b"
proof (induction a rule: utf8_Valid.induct)
  case (1 a)
  show ?case
  proof (cases "a = []")
    case False
    with "1.prems" obtain r n where rune: "utf8_rune a = Some (r, n)" and valid: "utf8_Valid (drop n a)"
      by (subst (asm) utf8_Valid.simps) (auto split: option.splits)
    from utf8_rune_form [OF rune] obtain f where f: "formOK f" "take n a = formBytes f" by blast
    then have "a = formBytes f @ drop n a" by (metis append_take_drop_id)
    with f(1) have "utf8_Valid (a @ b) = utf8_Valid (drop n a @ b)" by (metis append_assoc valid_form)
    with "1.IH" [OF False rune refl valid] show ?thesis by simp
  qed simp
qed

lemma valid_ascii: "c < 0x80 \<Longrightarrow> utf8_Valid (c # w) = utf8_Valid w"
  using valid_form [of "OneByte c" w] by simp

lemma valid_encoded: "utf8_Valid (utf8_EncodeRune r @ w) = utf8_Valid w"
proof (cases "scalarRune r")
  case True
  then show ?thesis using encode_form valid_form by metis
next
  case False
  then have "utf8_EncodeRune r = formBytes (ThreeBytes 0xEF 0xBF 0xBD)" by (auto simp: utf8_EncodeRune_def scalarRune_def)
  moreover have "formOK (ThreeBytes 0xEF 0xBF 0xBD)" by (simp add: cont_def)
  ultimately show ?thesis using valid_form by metis
qed

lemma valid_escape: "simpleEscape e = Some v \<Longrightarrow> utf8_Valid (v # w) = utf8_Valid w"
  by (rule valid_ascii) (auto simp: simpleEscape_def split: if_splits)

lemma unquote_valid: "unquote s = Some w \<Longrightarrow> utf8_Valid w"
proof (induction s arbitrary: w rule: unquote.induct)
  case (1 s)
  show ?case
  proof (cases s)
    case Nil
    with "1.prems" show ?thesis by (simp add: unquote.simps [of "[]"] utf8_Valid.simps [of "[]"])
  next
    case (Cons c t)
    from "1.prems" "1.IH" [OF Cons] show ?thesis
      unfolding Cons unquote.simps [of "c # t"] list.case
      by (auto split: if_split_asm list.splits option.splits simp: valid_encoded valid_ascii valid_escape)
  qed
qed

subsection \<open>What is decoded is well-formed\<close>

definition metaWithin :: "gomap \<Rightarrow> bool" where
  "metaWithin meta =
     (distinct (map fst meta) \<and>
      list_all (\<lambda>(k, v). 1 \<le> length k \<and> length k \<le> 255 \<and> printableASCII k \<and> utf8_Valid v) meta \<and>
      sum_list (map (\<lambda>(k, v). length k + length v) meta) \<le> 32768)"

text \<open>The events the gateway takes in.\<close>

fun eventWithin :: "Event \<Rightarrow> bool" where
  "eventWithin (Test e) = validAppName (te_AppName e)"
| "eventWithin (Verification e) = (validAppName (ve_AppName e) \<and> digitsPattern (ve_Code e))"
| "eventWithin (Alert e) =
     (validAppName (ae_AppName e) \<and> 1 \<le> sint (ae_AlertID e) \<and>
      utf8_Valid (ae_Summary e) \<and> utf8_RuneCount (ae_Summary e) \<le> 1024 \<and>
      utf8_Valid (ae_Details e) \<and> utf8_RuneCount (ae_Details e) \<le> 6144 \<and>
      validCanonicalUUID (ae_ServiceID e) \<and> validServiceName (ae_ServiceName e) \<and>
      (\<exists>meta. ae_Meta e = Some meta \<and> metaWithin meta))"
| "eventWithin (AlertStatus e) =
     (validAppName (se_AppName e) \<and> 1 \<le> sint (se_AlertID e) \<and> utf8_Valid (se_LogEntry e) \<and> se_LogEntry e \<noteq> [] \<and>
      knownAlertState (se_AlertState e))"

lemma decodeJSONString_valid: "decodeJSONString bs = Inr v \<Longrightarrow> utf8_Valid v"
  by (auto simp: decodeJSONString_def unmarshalString_def unquoteLiteral_def split: if_splits option.splits dest: unquote_valid)

lemma requiredString_valid: "requiredString raws name = Inr v \<Longrightarrow> utf8_Valid v"
  by (auto simp: requiredString_def split: option.splits dest: decodeJSONString_valid)

lemma checkedString_Inr:
  assumes "checkedString raws name ok continue = Inr e"
  obtains v where "requiredString raws (str name) = Inr v" "utf8_Valid v" "ok v" "continue v = Inr e"
  using assms requiredString_valid by (auto simp: checkedString_def split: sum.splits if_splits)

lemma decimal_positive: "0 < n \<Longrightarrow> 0 < decimal_value v n"
  by (induction v arbitrary: n) simp_all

lemma sint_small: "n < 2 ^ 63 \<Longrightarrow> sint (word_of_nat n :: int64) = int n"
  by (transfer fixing: n) (simp add: signed_take_bit_int_eq_self)

lemma requiredPositiveInt_positive:
  assumes "requiredPositiveInt raws name = Inr i"
  shows "1 \<le> sint i"
proof -
  from assms obtain v where v: "positiveIntPattern v" "ParseInt v = Some i"
    by (auto simp: requiredPositiveInt_def Let_def split: option.splits if_splits)
  obtain b bs where bs: "v = b # bs" "0x31 \<le> b" "b \<le> 0x39" using v(1) by (auto simp: positiveIntPattern_def split: list.splits)
  have "0 < unat (b - 0x30)" using bs(2,3) by unat_arith
  then have n: "0 < decimal_value v 0" unfolding bs(1) by (simp add: decimal_positive)
  from v(2) have i: "decimal_value v 0 < 2 ^ 63" "i = word_of_nat (decimal_value v 0)"
    by (auto simp: ParseInt_def Let_def split: if_splits)
  then have "sint i = int (decimal_value v 0)"
    by (simp add: sint_small)
  with n show ?thesis by simp
qed

lemma object_members_distinct:
  "object_members bs m = Some m' \<Longrightarrow> distinct (map fst m) \<Longrightarrow> distinct (map fst m')"
proof (induction bs m rule: object_members.induct)
  case (1 bs m)
  from "1.prems"(1) obtain k afterKey where k: "read_value scan_reset (skipSpace bs) = Some (k, afterKey)"
    by (subst (asm) object_members.simps) (auto split: option.splits)
  with "1.prems"(1) obtain key colon afterColon where key: "unquoteLiteral k = Some key" "skipSpace afterKey = colon # afterColon"
    by (subst (asm) object_members.simps) (auto split: option.splits list.splits)
  with "1.prems"(1) k obtain v afterValue where v: "read_value scan_reset (skipSpace afterColon) = Some (v, afterValue)"
    by (subst (asm) object_members.simps) (auto split: option.splits)
  with "1.prems"(1) k key obtain c rest where c: "skipSpace afterValue = c # rest"
    by (subst (asm) object_members.simps) (auto split: list.splits)
  with "1.prems"(1) k key v have
    step: "(if c = 0x2c then object_members rest (AList.update key v m) else Some (AList.update key v m)) = Some m'"
    by (subst (asm) object_members.simps) simp
  show ?case
    using step "1.IH" [OF k refl refl key v refl c] distinct_update [OF "1.prems"(2), of key v] by (auto split: if_splits)
qed

lemma unmarshal_distinct: "unmarshalRawMap data = Some (Some m) \<Longrightarrow> distinct (map fst m)"
  by (auto simp: unmarshalRawMap_def split: if_splits list.splits dest: object_members_distinct)

lemma meta_loop_within:
  assumes "meta_loop rest meta bytes = Inr result" "distinct (map fst meta @ map fst rest)"
    "list_all (\<lambda>(k, v). 1 \<le> length k \<and> length k \<le> 255 \<and> printableASCII k \<and> utf8_Valid v) meta"
    "bytes = sum_list (map (\<lambda>(k, v). length k + length v) meta)" "bytes \<le> 32768"
  shows "metaWithin result"
  using assms
proof (induction rest meta bytes rule: meta_loop.induct)
  case (1 meta bytes)
  then show ?case by (auto simp: metaWithin_def)
next
  case (2 key rawValue rest meta bytes)
  from "2.prems"(1) obtain v where v: "decodeJSONString (bytes_TrimSpace rawValue) = Inr v"
    and key: "\<not> (length key < 1 \<or> 255 < length key \<or> \<not> printableASCII key)"
    and room: "\<not> 32768 < bytes + (length key + length v)"
    and more: "meta_loop rest (meta @ [(key, v)]) (bytes + (length key + length v)) = Inr result"
    by (auto split: if_splits sum.splits)
  from decodeJSONString_valid [OF v] key "2.prems" room show ?case
    by (intro "2.IH" [OF key v room more]) (auto simp: Suc_le_eq)
qed

lemma requiredMeta_within: "requiredMeta raws name = Inr meta \<Longrightarrow> metaWithin meta"
  by (auto simp: requiredMeta_def Let_def split: option.splits if_splits dest: unmarshal_distinct intro!: meta_loop_within)

lemma decodeTest_within: "decodeTest raws = Inr e \<Longrightarrow> eventWithin e"
  by (auto simp: decodeTest_def split: if_splits elim!: checkedString_Inr)

lemma decodeVerification_within: "decodeVerification raws = Inr e \<Longrightarrow> eventWithin e"
  by (auto simp: decodeVerification_def split: if_splits elim!: checkedString_Inr)

lemma decodeAlertStatus_within: "decodeAlertStatus raws = Inr e \<Longrightarrow> eventWithin e"
  by (auto simp: decodeAlertStatus_def split: if_splits sum.splits elim!: checkedString_Inr)
    (rule requiredPositiveInt_positive)

lemma decodeAlert_within: "decodeAlert raws = Inr e \<Longrightarrow> eventWithin e"
  by (auto simp: decodeAlert_def split: if_splits sum.splits elim!: checkedString_Inr)
    (erule requiredPositiveInt_positive requiredMeta_within)+

lemma decodeFields_within: "decodeFields raws = Inr e \<Longrightarrow> eventWithin e"
  by (auto simp: decodeFields_def split: sum.splits if_splits
      dest: decodeTest_within decodeVerification_within decodeAlert_within decodeAlertStatus_within)

lemma decodeEvent_within: "decodeEvent data = Some (Inr e) \<Longrightarrow> eventWithin e"
  by (auto simp: decodeEvent_def split: if_splits option.splits dest: decodeFields_within)

text \<open>Every event the gateway takes in has a canonical form.\<close>

lemma digits_printable: "digitsPattern v \<Longrightarrow> printableASCII v"
  by (auto simp: digitsPattern_def printableASCII_def list_all_iff digit_def word_le_nat_alt)

lemma uuid_printable: "validCanonicalUUID v \<Longrightarrow> printableASCII v"
proof -
  assume uuid: "validCanonicalUUID v"
  have "0x20 \<le> b \<and> b \<le> 0x7e" if "lowerHex b \<or> b = 0x2d" for b
    using that by (auto simp: lowerHex_def digit_def word_le_nat_alt)
  with uuid show ?thesis
    unfolding validCanonicalUUID_def printableASCII_def list_all_length by (metis (no_types, lifting) add_0 diff_zero length_upt nth_upt)
qed

lemma within_canonical: "eventWithin e \<Longrightarrow> eventOK e \<and> goMaps e"
proof (cases e)
  case (AlertStatus a)
  moreover assume "eventWithin e"
  moreover have "utf8_Valid AlertStateUnacknowledged" "utf8_Valid AlertStateAcknowledged" "utf8_Valid AlertStateClosed"
    by code_simp+
  ultimately show ?thesis by (auto simp: knownAlertState_def validAppName_def intro: printableASCII_valid)
qed (auto simp: validAppName_def validServiceName_def metaWithin_def metaOK_def list_all_iff
    intro: printableASCII_valid dest: digits_printable uuid_printable)

end
