(* ===== verification/Decoding_Roundtrip.thy ===== *)
theory Decoding_Roundtrip
  imports Decoding_Guarantees
begin

unbundle bit_operations_syntax

section \<open>Canonical bytes are decoded to their event\<close>

text \<open>
  The canonical form of an event is itself a body that the decoder takes: it is one JSON object whose members are
  written without spaces. The string writer is described by the relation \<open>escaped\<close>, which every reader of strings
  follows, and the objects by \<open>objectText\<close>, which the scanner, the token reader and the reader of raw members follow.
\<close>

subsection \<open>Escaped strings\<close>

lemma encode_two: "2 \<le> x \<Longrightarrow> x < 32 \<Longrightarrow> y < 64 \<Longrightarrow> utf8_EncodeRune (x * 64 + y) = [word_of_nat (192 + x), word_of_nat (128 + y)]"
  by (simp add: utf8_EncodeRune_def disjoint_bits)

lemma encode_three:
  assumes "x < 16" "y < 64" "z < 64" "x = 0 \<Longrightarrow> 32 \<le> y" "x = 13 \<Longrightarrow> y < 32"
  shows "utf8_EncodeRune (x * 4096 + y * 64 + z) = [word_of_nat (224 + x), word_of_nat (128 + y), word_of_nat (128 + z)]"
proof -
  note d = three_byte_digits [OF assms(2,3), of x]
  have digits: "(x * 4096 + y * 64 + z) div 4096 = x" using d div_mult2_eq [of "x * 4096 + y * 64 + z" 64 64] by simp
  have bounds: "\<not> x * 4096 + y * 64 + z < 128" "\<not> x * 4096 + y * 64 + z < 2048" "x * 4096 + y * 64 + z < 65536"
    using assms by linarith+
  have "x \<le> 12 \<or> x = 13 \<or> 14 \<le> x" by linarith
  then have surrogate: "\<not> (55296 \<le> x * 4096 + y * 64 + z \<and> x * 4096 + y * 64 + z < 57344)" using assms by auto
  show ?thesis unfolding utf8_EncodeRune_def digits d
    using bounds surrogate assms(1-3) by (auto simp: disjoint_bits)
qed

lemma encode_four:
  assumes "x \<le> 4" "y < 64" "z < 64" "w < 64" "x = 0 \<Longrightarrow> 16 \<le> y" "x = 4 \<Longrightarrow> y < 16"
  shows "utf8_EncodeRune (x * 262144 + y * 4096 + z * 64 + w) =
    [word_of_nat (240 + x), word_of_nat (128 + y), word_of_nat (128 + z), word_of_nat (128 + w)]"
proof -
  let ?q = "x * 4096 + y * 64 + z" and ?r = "x * 262144 + y * 4096 + z * 64 + w"
  note d = three_byte_digits [OF assms(2,3), of x]
  have r: "?r = w + 64 * ?q" by simp
  have q: "?r div 64 = ?q" "?r mod 64 = w" unfolding r using assms(4) by (simp_all only: div_mult_self2 mod_mult_self2 div_less mod_less)
  have digits: "?r div 262144 = x" "?r div 4096 = x * 64 + y"
    using d q div_mult2_eq [of ?r 64 64] div_mult2_eq [of ?r 64 4096] div_mult2_eq [of ?q 64 64] by simp_all
  have bounds: "\<not> ?r < 128" "\<not> ?r < 2048" "\<not> ?r < 65536" "?r \<le> 1114111" using assms by linarith+
  show ?thesis unfolding utf8_EncodeRune_def digits q d
    using bounds assms by (simp add: disjoint_bits)
qed

lemma byte_split: "k \<le> unat a \<Longrightarrow> \<exists>x. unat a = k + x \<and> a = word_of_nat (k + x)" for a :: byte
  by (rule exI [of _ "unat a - k"]) (simp add: of_nat_diff)

lemma cont_split:
  assumes "cont b"
  obtains y where "b = word_of_nat (128 + y)" "unat (b AND 0x3F) = y" "y < 64" "unat b = 128 + y"
  using byte_split [of 128 b] cont_mod [OF assms] by force

lemma encode_formRune:
  assumes "formOK f"
  shows "utf8_EncodeRune (formRune f) = formBytes f"
proof (cases f)
  case (OneByte a)
  with assms show ?thesis by (simp add: utf8_EncodeRune_def word_less_nat_alt)
next
  case (TwoBytes a b)
  with assms have a: "194 \<le> unat a" "unat a \<le> 223" and b: "cont b" by (auto simp: word_le_nat_alt)
  from byte_split [of 192 a] a obtain x where x: "unat a = 192 + x" "a = word_of_nat (192 + x)" by auto
  have m: "unat (a AND 0x1F) = x" using mod_offset [of 192 "unat a" 32] a x(1) by (simp add: byte_mod)
  from b obtain y where y: "b = word_of_nat (128 + y)" "unat (b AND 0x3F) = y" "y < 64" by (rule cont_split)
  show ?thesis unfolding TwoBytes formRune.simps formBytes.simps m y(2)
    using encode_two [of x y] a x y by simp
next
  case (ThreeBytes a b c)
  with assms have a: "224 \<le> unat a" "unat a \<le> 239" and b: "cont b" and c: "cont c"
    and first: "unat a = 224 \<Longrightarrow> 160 \<le> unat b" and last: "unat a = 237 \<Longrightarrow> unat b \<le> 159"
    by (auto simp: cont_def word_le_nat_alt word_unat_eq_iff split: if_splits)
  from byte_split [of 224 a] a obtain x where x: "unat a = 224 + x" "a = word_of_nat (224 + x)" by auto
  have m: "unat (a AND 0x0F) = x" using mod_offset [of 224 "unat a" 16] a x(1) by (simp add: byte_mod)
  from b obtain y where y: "b = word_of_nat (128 + y)" "unat (b AND 0x3F) = y" "y < 64" "unat b = 128 + y" by (rule cont_split)
  from c obtain z where z: "c = word_of_nat (128 + z)" "unat (c AND 0x3F) = z" "z < 64" by (rule cont_split)
  have "utf8_EncodeRune (x * 4096 + y * 64 + z) = [word_of_nat (224 + x), word_of_nat (128 + y), word_of_nat (128 + z)]"
    by (rule encode_three) (use a x(1) y(3,4) z(3) first last in linarith)+
  then show ?thesis unfolding ThreeBytes formRune.simps formBytes.simps m y(2) z(2) using x(2) y(1) z(1) by simp
next
  case (FourBytes a b c d)
  with assms have a: "240 \<le> unat a" "unat a \<le> 244" and b: "cont b" and c: "cont c" and d: "cont d"
    and first: "unat a = 240 \<Longrightarrow> 144 \<le> unat b" and last: "unat a = 244 \<Longrightarrow> unat b \<le> 143"
    by (auto simp: cont_def word_le_nat_alt word_unat_eq_iff split: if_splits)
  from byte_split [of 240 a] a obtain x where x: "unat a = 240 + x" "a = word_of_nat (240 + x)" by auto
  have m: "unat (a AND 0x07) = x" using mod_offset [of 240 "unat a" 8] a x(1) by (simp add: byte_mod)
  from b obtain y where y: "b = word_of_nat (128 + y)" "unat (b AND 0x3F) = y" "y < 64" "unat b = 128 + y" by (rule cont_split)
  from c obtain z where z: "c = word_of_nat (128 + z)" "unat (c AND 0x3F) = z" "z < 64" by (rule cont_split)
  from d obtain w where w: "d = word_of_nat (128 + w)" "unat (d AND 0x3F) = w" "w < 64" by (rule cont_split)
  have "utf8_EncodeRune (x * 262144 + y * 4096 + z * 64 + w) =
      [word_of_nat (240 + x), word_of_nat (128 + y), word_of_nat (128 + z), word_of_nat (128 + w)]"
    by (rule encode_four) (use a x(1) y(3,4) z(3) w(3) first last in linarith)+
  then show ?thesis unfolding FourBytes formRune.simps formBytes.simps m y(2) z(2) w(2) using x(2) y(1) z(1) w(1) by simp
qed

text \<open>A string and the bytes that stand for it between quotation marks.\<close>

definition scannerEscapes :: "byte set" where
  "scannerEscapes = {0x62, 0x66, 0x6e, 0x72, 0x74, 0x5c, 0x2f, 0x22}"

inductive escaped :: "gostring \<Rightarrow> byte list \<Rightarrow> bool" where
  escaped_nil: "escaped [] []"
| escaped_copy: "formOK f \<Longrightarrow> \<forall>b\<in>set (formBytes f). 0x20 \<le> b \<and> b \<noteq> 0x22 \<and> b \<noteq> 0x5c \<Longrightarrow> escaped v w \<Longrightarrow>
    escaped (formBytes f @ v) (formBytes f @ w)"
| escaped_simple: "simpleEscape e = Some b \<Longrightarrow> e \<in> scannerEscapes \<Longrightarrow> escaped v w \<Longrightarrow> escaped (b # v) (0x5c # e # w)"
| escaped_unicode: "hex4 p q r s = Some rune \<Longrightarrow> \<not> utf16_IsSurrogate rune \<Longrightarrow> escaped v w \<Longrightarrow>
    escaped (utf8_EncodeRune rune @ v) (0x5c # 0x75 # p # q # r # s # w)"

lemma escapeByte_escaped:
  assumes "\<not> plainByte b" "b < 0x80" "escaped v w"
  shows "escaped (b # v) (escapeByte b @ w)"
proof -
  have nibbles: "unat (drop_bit 4 b) * 16 + unat (b AND 0xf) = unat b"
    using div_mult_mod_eq [of "unat b" 16] by (simp add: byte_mod drop_bit_eq_div unat_div)
  have zero: "fromHexChar 0x30 = Some 0" by (simp add: fromHexChar_def)
  have "hex4 0x30 0x30 (hexDigit (drop_bit 4 b)) (hexDigit (b AND 0xf)) = Some (unat b)"
    by (simp add: hex4_def zero fromHexChar_nibbles nibbles)
  moreover have "\<not> utf16_IsSurrogate (unat b)" "utf8_EncodeRune (unat b) = [b]"
    using assms(2) by (simp_all add: utf16_IsSurrogate_def utf8_EncodeRune_def word_less_nat_alt)
  ultimately have unicode: "escaped (b # v) ([0x5c, 0x75, 0x30, 0x30, hexDigit (drop_bit 4 b), hexDigit (b AND 0xf)] @ w)"
    using escaped_unicode [OF _ _ assms(3)] by fastforce
  have simple: "escaped (b # v) ([0x5c, e] @ w)" if "simpleEscape e = Some b" "e \<in> scannerEscapes" for e
    using escaped_simple [OF that assms(3)] by simp
  show ?thesis
    using unicode simple unfolding escapeByte_def by (auto simp: simpleEscape_def scannerEscapes_def)
qed

lemma escapeSeparator_escaped:
  assumes "escaped v w"
  shows "escaped ([0xE2, 0x80, 0xA8] @ v) (escapeSeparator 0x2028 @ w)" "escaped ([0xE2, 0x80, 0xA9] @ v) (escapeSeparator 0x2029 @ w)"
proof -
  have "hex4 0x32 0x30 0x32 0x38 = Some 0x2028" "hex4 0x32 0x30 0x32 0x39 = Some 0x2029"
    "escapeSeparator 0x2028 = [0x5c, 0x75, 0x32, 0x30, 0x32, 0x38]" "escapeSeparator 0x2029 = [0x5c, 0x75, 0x32, 0x30, 0x32, 0x39]"
    by (simp_all add: hex4_def fromHexChar_def escapeSeparator_def hexDigit_def)
  moreover have "utf8_EncodeRune 0x2028 = [0xE2, 0x80, 0xA8]" "utf8_EncodeRune 0x2029 = [0xE2, 0x80, 0xA9]"
    by (simp_all add: utf8_EncodeRune_def)
  moreover have "\<not> utf16_IsSurrogate 0x2028" "\<not> utf16_IsSurrogate 0x2029" by (simp_all add: utf16_IsSurrogate_def)
  ultimately show "escaped ([0xE2, 0x80, 0xA8] @ v) (escapeSeparator 0x2028 @ w)"
    "escaped ([0xE2, 0x80, 0xA9] @ v) (escapeSeparator 0x2029 @ w)"
    using escaped_unicode [OF _ _ assms] by fastforce+
qed

lemma high_copyable: "0x80 \<le> b \<Longrightarrow> 0x20 \<le> b \<and> b \<noteq> 0x22 \<and> b \<noteq> (0x5c :: byte)"
  by (auto simp: word_le_nat_alt)

lemma canonicalEscape_escaped: "utf8_Valid v \<Longrightarrow> escaped v (canonicalEscape v)"
proof (induction v rule: canonicalEscape.induct)
  case (1 v)
  show ?case
  proof (cases "v = []")
    case True
    then show ?thesis by (simp add: canonicalEscape.simps escaped_nil)
  next
    case nonempty: False
    with "1.prems" obtain r n where rune: "utf8_rune v = Some (r, n)" and valid: "utf8_Valid (drop n v)"
      by (subst (asm) utf8_Valid.simps) (auto split: option.splits)
    from utf8_rune_form [OF rune] obtain f where f: "formOK f" "r = formRune f" "take n v = formBytes f" by blast
    have decode: "utf8_DecodeRune v = (r, n)" using rune nonempty by (simp add: utf8_DecodeRune_def)
    have join: "v = formBytes f @ drop n v" using f(3) by (metis append_take_drop_id)
    show ?thesis
    proof (cases "0x80 \<le> hd v")
      case high: True
      have "hd (formBytes f) = hd v" using f(3) utf8_rune_size [OF rune] by (metis hd_take)
      then have bytes: "\<forall>b\<in>set (formBytes f). 0x20 \<le> b \<and> b \<noteq> 0x22 \<and> b \<noteq> 0x5c"
        using formBytes_high [OF f(1)] high high_copyable by simp
      have tail: "escaped (drop n v) (canonicalEscape (drop n v))" using "1.IH"(1) [OF nonempty high] valid decode by simp
      have esc: "canonicalEscape v =
          (if r \<noteq> 0x2028 \<and> r \<noteq> 0x2029 then formBytes f else escapeSeparator r) @ canonicalEscape (drop n v)"
        using nonempty high by (subst canonicalEscape.simps) (simp add: decode f(3))
      show ?thesis
        using escaped_copy [OF f(1) bytes tail] escapeSeparator_escaped [OF tail] formRune_separator [OF f(1)] join
        unfolding esc f(2) by (cases "formRune f = 0x2028"; cases "formRune f = 0x2029") auto
    next
      case low: False
      obtain b bs where v: "v = b # bs" using nonempty by (cases v) simp_all
      have b: "b < 0x80" using low v by simp
      then have "n = 1" using rune by (simp add: v)
      with valid have "utf8_Valid (tl v)" by (simp add: drop_Suc)
      note tail = "1.IH"(2) [OF nonempty low this]
      have esc: "canonicalEscape v = (if plainByte b then [b] else escapeByte b) @ canonicalEscape bs"
        using nonempty low by (subst canonicalEscape.simps) (simp add: v)
      show ?thesis
        using escaped_copy [of "OneByte b", OF _ _ tail] escapeByte_escaped [OF _ b tail] b
        unfolding esc by (cases "plainByte b") (auto simp: v plainByte_def)
    qed
  qed
qed

text \<open>Unquoting.\<close>

lemma unquote_copy:
  assumes "formOK f" "\<forall>b\<in>set (formBytes f). 0x20 \<le> b \<and> b \<noteq> 0x22 \<and> b \<noteq> 0x5c"
  shows "unquote (formBytes f @ w) = map_option (append (formBytes f)) (unquote w)"
proof -
  obtain c t where ct: "formBytes f = c # t" by (cases f) simp_all
  have c: "c \<noteq> 0x5c" "\<not> (c = 0x22 \<or> c < 0x20)" using assms(2) by (auto simp: ct word_le_nat_alt word_less_nat_alt)
  show ?thesis
  proof (cases "c < 0x80")
    case True
    then have "t = []" using assms(1) ct lead_byte by (cases f) auto
    with c True show ?thesis by (subst unquote.simps, cases "unquote w") (simp_all add: ct)
  next
    case False
    have "utf8_DecodeRune (c # t @ w) = (formRune f, length (formBytes f))"
      using form_prefix [OF assms(1), of w] by (simp add: utf8_DecodeRune_def ct)
    with c False encode_formRune [OF assms(1)] show ?thesis by (subst unquote.simps) (simp add: ct)
  qed
qed

lemma unquote_escaped: "escaped v w \<Longrightarrow> unquote w = Some v"
proof (induction rule: escaped.induct)
  case escaped_nil
  show ?case by (simp add: unquote.simps)
next
  case (escaped_copy f v w)
  then show ?case by (simp add: unquote_copy)
next
  case (escaped_simple e b v w)
  then have "e \<noteq> 0x75" by (auto simp: scannerEscapes_def)
  with escaped_simple show ?case by (subst unquote.simps) simp
next
  case (escaped_unicode p q r s rune v w)
  then show ?case by (subst unquote.simps) simp
qed

text \<open>The surrogate check.\<close>

lemma drop_step: "drop i data = x # xs \<Longrightarrow> i < length data \<and> data ! i = x \<and> drop (Suc i) data = xs"
  by (metis drop_all drop_eq_Nil linorder_not_less list.distinct(1) nth_via_drop tl_drop drop_Suc list.sel(3))

lemma drop_past: "drop i data = xs @ ys \<Longrightarrow> drop (i + length xs) data = ys"
  by (metis add.commute append_eq_conv_conj drop_drop)

lemma surrogate_skip:
  "drop i data = xs @ ys \<Longrightarrow> \<forall>b\<in>set xs. b \<noteq> 0x5c \<Longrightarrow> ys \<noteq> [] \<Longrightarrow> surrogate_loop data i = surrogate_loop data (i + length xs)"
proof (induction xs arbitrary: i)
  case (Cons x xs)
  from drop_step [of i data x "xs @ ys"] Cons.prems have step: "i < length data" "data ! i = x" "drop (Suc i) data = xs @ ys" by auto
  then have "length data - Suc i = length (xs @ ys)" by (metis length_drop)
  with Cons.prems step have "\<not> length data \<le> i + 1" by (cases ys) auto
  with step Cons show ?case by (subst surrogate_loop.simps) simp
qed simp

lemma surrogate_escaped: "escaped v w \<Longrightarrow> drop i data = w @ [0x22] \<Longrightarrow> surrogate_loop data i"
proof (induction arbitrary: i rule: escaped.induct)
  case escaped_nil
  then have "length data = Suc i" using drop_step [of i data "0x22" "[]"] by auto
  then show ?case by (subst surrogate_loop.simps) simp
next
  case (escaped_copy f v w)
  have "drop (i + length (formBytes f)) data = w @ [0x22]" using escaped_copy.prems by (intro drop_past) simp
  with escaped_copy surrogate_skip [of i data "formBytes f" "w @ [0x22]"] show ?case by simp
next
  case (escaped_simple e b v w)
  from drop_step [of i data] escaped_simple.prems have one: "i < length data" "data ! i = 0x5c" "drop (Suc i) data = e # w @ [0x22]" by auto
  from drop_step [OF one(3)] have two: "Suc i < length data" "data ! Suc i = e" "drop (Suc (Suc i)) data = w @ [0x22]" by auto
  have "e \<noteq> 0x75" using escaped_simple.hyps by (auto simp: scannerEscapes_def)
  with one two escaped_simple.IH [OF two(3)] show ?case by (subst surrogate_loop.simps) (simp add: Let_def)
next
  case (escaped_unicode p q r s rune v w)
  from escaped_unicode.prems have "length data - i = length (0x5c # 0x75 # p # q # r # s # w @ [0x22])"
    by (metis append_Cons length_drop)
  then have len: "i + 7 \<le> length data" by simp
  have nth: "data ! (i + k) = (0x5c # 0x75 # p # q # r # s # w @ [0x22]) ! k" for k
    using nth_drop [of i data k] escaped_unicode.prems len by simp
  have at: "data ! i = 0x5c" "data ! Suc i = 0x75" "hexAt data (Suc (Suc i)) = Some rune"
    using nth [of 0] nth [of 1] nth [of 2] nth [of 3] nth [of 4] nth [of 5] escaped_unicode.hyps(1) by (simp_all add: hexAt_def eval_nat_numeral)
  have rest: "drop (i + 6) data = w @ [0x22]" using drop_past [of i data "[0x5c, 0x75, p, q, r, s]" "w @ [0x22]"] escaped_unicode.prems by (simp add: eval_nat_numeral)
  have "\<not> (0xd800 \<le> rune \<and> rune \<le> 0xdbff)" "\<not> (0xdc00 \<le> rune \<and> rune \<le> 0xdfff)"
    using escaped_unicode.hyps(2) by (auto simp: utf16_IsSurrogate_def)
  with at len escaped_unicode.IH [OF rest] show ?case
    by (subst surrogate_loop.simps) (auto simp: Let_def add.commute)
qed

subsection \<open>Runs of the scanner\<close>

fun scan_run :: "scanner \<Rightarrow> byte list \<Rightarrow> scanner option" where
  "scan_run s [] = Some s"
| "scan_run s (c # cs) =
     (case scan (sc_step s) (sc_parseState s) c of
        ScanContinue s' \<Rightarrow> if sc_step s' = EndTop then None else scan_run s' cs
      | _ \<Rightarrow> None)"

lemma run_check: "scan_run s v = Some s' \<Longrightarrow> check_loop s (v @ rest) = check_loop s' rest"
  by (induction v arbitrary: s) (auto split: scan_result.splits if_splits)

lemma run_read: "scan_run s v = Some s' \<Longrightarrow> read_value s (v @ rest) = map_option (apfst (append v)) (read_value s' rest)"
  by (induction v arbitrary: s; cases "read_value s' rest")
    (auto split: scan_result.splits if_splits simp: closedTop_def)

lemma run_append: "scan_run s (a @ b) = (case scan_run s a of None \<Rightarrow> None | Some s' \<Rightarrow> scan_run s' b)"
  by (induction a arbitrary: s) (auto split: scan_result.splits)

lemma run_bytes:
  "\<forall>b\<in>set xs. 0x20 \<le> b \<and> b \<noteq> 0x22 \<and> b \<noteq> 0x5c \<Longrightarrow>
   scan_run \<lparr>sc_step = InString, sc_parseState = st\<rparr> (xs @ ys) = scan_run \<lparr>sc_step = InString, sc_parseState = st\<rparr> ys"
  by (induction xs) (auto simp: word_le_nat_alt word_less_nat_alt)

lemma run_escaped: "escaped v w \<Longrightarrow>
    scan_run \<lparr>sc_step = InString, sc_parseState = st\<rparr> w = Some \<lparr>sc_step = InString, sc_parseState = st\<rparr>"
proof (induction rule: escaped.induct)
  case (escaped_copy f v w)
  then show ?case by (simp add: run_bytes)
next
  case (escaped_unicode p q r s rune v w)
  then show ?case by (auto simp: hex4_def split: option.splits)
qed (auto simp: scannerEscapes_def)

lemma run_string:
  assumes "utf8_Valid v" "step \<in> {BeginValue, BeginString, BeginStringOrEmpty}"
  shows "scan_run \<lparr>sc_step = step, sc_parseState = st\<rparr> (canonicalString v) = Some \<lparr>sc_step = EndValue, sc_parseState = st\<rparr>"
  using assms(2) run_escaped [OF canonicalEscape_escaped [OF assms(1)], of st]
  by (auto simp: canonicalString_def run_append stateBeginValue_def stateBeginString_def isSpace_def Let_def)

lemma run_digits:
  "list_all digit bs \<Longrightarrow> scan_run \<lparr>sc_step = Digits, sc_parseState = st\<rparr> bs = Some \<lparr>sc_step = Digits, sc_parseState = st\<rparr>"
  by (induction bs) (auto simp: digit_def isDigit_def)

lemma run_number:
  assumes "positiveIntPattern v"
  shows "scan_run \<lparr>sc_step = BeginValue, sc_parseState = st\<rparr> v = Some \<lparr>sc_step = Digits, sc_parseState = st\<rparr>"
proof -
  from assms obtain b bs where v: "v = b # bs" "0x31 \<le> b" "b \<le> 0x39" "list_all digit bs"
    by (auto simp: positiveIntPattern_def split: list.splits)
  have "scan BeginValue st b = ScanContinue \<lparr>sc_step = Digits, sc_parseState = st\<rparr>"
    using v(2,3) by (auto simp: stateBeginValue_def Let_def isSpace_def isDigit_def word_le_nat_alt)
  with v run_digits [OF v(4)] show ?thesis by simp
qed

subsection \<open>Values\<close>

definition visible :: "byte \<Rightarrow> bool" where
  "visible b = (0x21 \<le> b \<and> b \<le> 0x7e)"

lemma visible_space: "visible b \<Longrightarrow> \<not> isSpace b"
  by (auto simp: visible_def isSpace_def word_le_nat_alt)

lemma trim_left_same: "\<forall>e\<in>set spaces. hd e \<noteq> hd v \<Longrightarrow> trim_left spaces v = v"
proof -
  assume spaces: "\<forall>e\<in>set spaces. hd e \<noteq> hd v"
  have "hd e = hd v" if "e \<noteq> []" "HasPrefix v e" for e
    using that unfolding HasPrefix_def by (metis hd_take length_greater_0_conv)
  with spaces have "find (\<lambda>e. e \<noteq> [] \<and> HasPrefix v e) spaces = None" by (auto simp: find_None_iff)
  then show ?thesis by (subst trim_left.simps) simp
qed

lemma trim_visible:
  assumes "v \<noteq> []" "visible (hd v)" "visible (last v)"
  shows "bytes_TrimSpace v = v"
proof -
  have "list_all (\<lambda>e. (hd e < 0x21 \<or> 0x7f < hd e) \<and> (last e < 0x21 \<or> 0x7f < last e) \<and> e \<noteq> []) spaceEncodings" by code_simp
  then have "hd e \<noteq> hd v" "hd (rev e) \<noteq> hd (rev v)" if "e \<in> set spaceEncodings" for e
    using that assms by (force simp: list_all_iff visible_def hd_rev word_le_nat_alt word_less_nat_alt)+
  then show ?thesis unfolding bytes_TrimSpace_def
    using trim_left_same [of spaceEncodings v] trim_left_same [of "map rev spaceEncodings" "rev v"] by simp
qed

text \<open>The text of a value of at most the given nesting, as every reader meets it before a comma or a closing brace.\<close>

abbreviation closing :: "byte \<Rightarrow> bool" where
  "closing c \<equiv> c = 0x2c \<or> c = 0x7d"

definition ends :: "scan_step \<Rightarrow> bool" where
  "ends step = (\<forall>st c. closing c \<longrightarrow> scan step st c = stateEndValue st c)"

definition tokenRead :: "byte list \<Rightarrow> bool" where
  "tokenRead v = (\<forall>c rest dec. closing c \<longrightarrow> dc_rest dec = 0x3a # v @ c # rest \<longrightarrow> dc_state dec = ObjectColon \<longrightarrow>
     (\<exists>n. consumeValue n dec = Some (Inr (dec\<lparr>dc_rest := c # rest, dc_state := ObjectComma\<rparr>))))"

definition jsonValue :: "nat \<Rightarrow> byte list \<Rightarrow> bool" where
  "jsonValue d v =
     (v \<noteq> [] \<and> visible (hd v) \<and> visible (last v) \<and>
      (\<forall>st. st \<noteq> [] \<longrightarrow> length st + d \<le> maxNestingDepth \<longrightarrow>
         (\<exists>step. scan_run \<lparr>sc_step = BeginValue, sc_parseState = st\<rparr> v = Some \<lparr>sc_step = step, sc_parseState = st\<rparr> \<and> ends step)) \<and>
      (\<forall>c rest. closing c \<longrightarrow> read_value scan_reset (v @ c # rest) = Some (v, c # rest)) \<and> tokenRead v)"

lemma ends_steps: "ends EndValue" "ends Digits"
  by (auto simp: ends_def state0_def isDigit_def)

lemma read_string: "utf8_Valid v \<Longrightarrow> read_value scan_reset (canonicalString v @ rest) = Some (canonicalString v, rest)"
proof -
  assume v: "utf8_Valid v"
  have "read_value \<lparr>sc_step = EndValue, sc_parseState = []\<rparr> rest = Some ([], rest)"
    by (cases rest) (simp_all add: scan_eof_def stateEndValue_def)
  with run_read [OF run_string [OF v, of BeginValue "[]"], of rest] show ?thesis by (simp add: scan_reset_def)
qed

lemma unquote_string: "utf8_Valid v \<Longrightarrow> unquoteLiteral (canonicalString v) = Some v"
  using unquote_escaped [OF canonicalEscape_escaped] by (simp add: unquoteLiteral_def canonicalString_def)

lemma skip_visible: "visible b \<Longrightarrow> skipSpace (b # bs) = b # bs"
  using visible_space by (simp add: skipSpace_def)

lemma skip_known [simp]:
  "skipSpace (0x22 # bs) = 0x22 # bs" "skipSpace (0x3a # bs) = 0x3a # bs" "skipSpace (0x2c # bs) = 0x2c # bs"
  "skipSpace (0x7d # bs) = 0x7d # bs" "skipSpace (0x7b # bs) = 0x7b # bs"
  by (simp_all add: skipSpace_def isSpace_def)

lemma skip_string [simp]: "skipSpace (canonicalString v @ bs) = canonicalString v @ bs"
  by (simp add: canonicalString_def)

lemma decode_string: "utf8_Valid v \<Longrightarrow> decodeJSONString (canonicalString v) = Inr v"
proof -
  assume v: "utf8_Valid v"
  have "surrogate_loop (canonicalString v) 1"
    by (rule surrogate_escaped [OF canonicalEscape_escaped [OF v]]) (simp add: canonicalString_def)
  moreover have "checkValid (canonicalString v)"
    using run_check [OF run_string [OF v, of BeginValue "[]"], of "[]"]
    by (simp add: checkValid_def scan_reset_def scan_eof_def stateEndValue_def)
  moreover have "canonicalString v \<noteq> []" "hd (canonicalString v) = 0x22" by (simp_all add: canonicalString_def)
  ultimately show ?thesis
    using read_string [OF v, of "[]"] unquote_string [OF v]
    by (simp add: decodeJSONString_def validSurrogateEscapes_def unmarshalString_def)
qed

lemma colon_token:
  assumes "dc_rest dec = 0x3a # v" "dc_state dec = ObjectColon"
  shows "Token dec = Token (dec\<lparr>dc_rest := v, dc_state := ObjectValue\<rparr>)"
  using assms by (subst Token.simps) simp

lemma string_value:
  assumes "utf8_Valid v"
  shows "jsonValue d (canonicalString v)"
proof -
  have "\<exists>n. consumeValue n dec = Some (Inr (dec\<lparr>dc_rest := c # rest, dc_state := ObjectComma\<rparr>))"
    if "dc_rest dec = 0x3a # canonicalString v @ c # rest" "dc_state dec = ObjectColon" for c rest dec
  proof -
    have shape: "canonicalString v @ c # rest = 0x22 # canonicalEscape v @ 0x22 # c # rest" by (simp add: canonicalString_def)
    have "Token dec = TokenOK (StringToken v) (dec\<lparr>dc_rest := c # rest, dc_state := ObjectComma\<rparr>)"
      using read_string [OF assms, of "c # rest"] unquote_string [OF assms]
      unfolding colon_token [OF that] shape
      by (subst Token.simps) (simp add: token_scalar_def tokenValueAllowed_def del: read_value.simps)
    then show ?thesis by (intro exI [of _ 1]) simp
  qed
  then show ?thesis
    unfolding jsonValue_def tokenRead_def
    using run_string [OF assms, of BeginValue] ends_steps read_string [OF assms]
    by (auto simp: canonicalString_def visible_def)
qed

lemma number_value:
  assumes "positiveIntPattern v"
  shows "jsonValue d v"
proof -
  from assms obtain b bs where v: "v = b # bs" and b: "0x31 \<le> b" "b \<le> 0x39" and bs: "list_all digit bs"
    by (auto simp: positiveIntPattern_def split: list.splits)
  have see: "visible b" using b by (auto simp: visible_def word_le_nat_alt)
  have digits: "\<forall>x\<in>set v. visible x" using bs see by (auto simp: v list_all_iff digit_def visible_def word_le_nat_alt)
  have other: "b \<noteq> 0x5b" "b \<noteq> 0x5d" "b \<noteq> 0x7b" "b \<noteq> 0x7d" "b \<noteq> 0x3a" "b \<noteq> 0x2c" "b \<noteq> 0x22"
    using b by (auto simp: word_le_nat_alt)
  have read: "read_value scan_reset (v @ c # rest) = Some (v, c # rest)" if "closing c" for c rest
  proof -
    have "scan Digits [] c = ScanEnd" using that by (auto simp: state0_def isDigit_def stateEndValue_def)
    with run_read [OF run_number [OF assms, of "[]"], of "c # rest"] show ?thesis by (simp add: scan_reset_def)
  qed
  have "\<exists>n. consumeValue n dec = Some (Inr (dec\<lparr>dc_rest := c # rest, dc_state := ObjectComma\<rparr>))"
    if "closing c" "dc_rest dec = 0x3a # v @ c # rest" "dc_state dec = ObjectColon" for c rest dec
  proof -
    have "Token dec = TokenOK OtherToken (dec\<lparr>dc_rest := c # rest, dc_state := ObjectComma\<rparr>)"
      using read [OF that(1), of rest] unfolding colon_token [OF that(2,3)]
      by (subst Token.simps) (simp add: v skip_visible [OF see] other token_scalar_def tokenValueAllowed_def del: read_value.simps)
    then show ?thesis by (intro exI [of _ 1]) simp
  qed
  then show ?thesis
    unfolding jsonValue_def tokenRead_def using run_number [OF assms] ends_steps read digits see by (auto simp: v)
qed

subsection \<open>Objects\<close>

fun membersText :: "(gostring \<times> byte list) list \<Rightarrow> byte list" where
  "membersText [] = []"
| "membersText ((k, v) # ps) =
     canonicalString k @ 0x3a # v @ (if ps = [] then [] else 0x2c # membersText ps)"

definition objectText :: "(gostring \<times> byte list) list \<Rightarrow> byte list" where
  "objectText ps = 0x7b # membersText ps @ [0x7d]"

definition membersOK :: "nat \<Rightarrow> (gostring \<times> byte list) list \<Rightarrow> bool" where
  "membersOK d ps = (distinct (map fst ps) \<and> (\<forall>(k, v)\<in>set ps. utf8_Valid k \<and> jsonValue d v))"

lemma membersOK_Cons: "membersOK d ((k, v) # ps) \<longleftrightarrow> k \<notin> fst ` set ps \<and> utf8_Valid k \<and> jsonValue d v \<and> membersOK d ps"
  by (auto simp: membersOK_def)

lemma run_members:
  assumes "membersOK d ps" "ps \<noteq> []" "step \<in> {BeginString, BeginStringOrEmpty}" "Suc (length st) + d \<le> maxNestingDepth"
  shows "\<exists>step'. scan_run \<lparr>sc_step = step, sc_parseState = ParseObjectKey # st\<rparr> (membersText ps) =
    Some \<lparr>sc_step = step', sc_parseState = ParseObjectValue # st\<rparr> \<and> ends step'"
  using assms
proof (induction ps arbitrary: step)
  case (Cons p ps)
  obtain k v where p: "p = (k, v)" by force
  from Cons.prems have k: "utf8_Valid k" and v: "jsonValue d v" and ps: "membersOK d ps" by (simp_all add: p membersOK_Cons)
  from v Cons.prems(4) obtain mid where mid: "ends mid"
    "scan_run \<lparr>sc_step = BeginValue, sc_parseState = ParseObjectValue # st\<rparr> v = Some \<lparr>sc_step = mid, sc_parseState = ParseObjectValue # st\<rparr>"
    unfolding jsonValue_def by (metis length_Cons list.distinct(1))
  have key: "scan_run \<lparr>sc_step = step, sc_parseState = ParseObjectKey # st\<rparr> (canonicalString k) =
      Some \<lparr>sc_step = EndValue, sc_parseState = ParseObjectKey # st\<rparr>"
    using run_string [OF k, of step] Cons.prems(3) by auto
  have colon: "scan EndValue (ParseObjectKey # st) 0x3a = ScanContinue \<lparr>sc_step = BeginValue, sc_parseState = ParseObjectValue # st\<rparr>"
    by (simp add: stateEndValue_def isSpace_def)
  have comma: "scan mid (ParseObjectValue # st) 0x2c = ScanContinue \<lparr>sc_step = BeginString, sc_parseState = ParseObjectKey # st\<rparr>"
    using mid(1) by (simp add: ends_def stateEndValue_def isSpace_def)
  show ?case
  proof (cases "ps = []")
    case True
    with mid colon show ?thesis by (simp add: p key run_append)
  next
    case False
    from Cons.IH [OF ps False _ Cons.prems(4), of BeginString] obtain step' where
      "scan_run \<lparr>sc_step = BeginString, sc_parseState = ParseObjectKey # st\<rparr> (membersText ps) =
        Some \<lparr>sc_step = step', sc_parseState = ParseObjectValue # st\<rparr>" "ends step'" by auto
    with mid(2) comma False show ?thesis
      by (intro exI [of _ step']) (simp add: p key colon run_append del: scan.simps)
  qed
qed simp

text \<open>After the brace of an object the scanner is where the enclosing value ends.\<close>

lemma run_until_close:
  assumes "membersOK d ps" "Suc (length st) + d \<le> maxNestingDepth"
  shows "\<exists>step. scan_run \<lparr>sc_step = BeginValue, sc_parseState = st\<rparr> (0x7b # membersText ps) =
      Some \<lparr>sc_step = step, sc_parseState = (if ps = [] then ParseObjectKey else ParseObjectValue) # st\<rparr> \<and>
    scan step ((if ps = [] then ParseObjectKey else ParseObjectValue) # st) 0x7d =
      ScanContinue \<lparr>sc_step = (if st = [] then EndTop else EndValue), sc_parseState = st\<rparr>"
proof -
  have start: "scan BeginValue st 0x7b = ScanContinue \<lparr>sc_step = BeginStringOrEmpty, sc_parseState = ParseObjectKey # st\<rparr>"
    using assms(2) by (simp add: stateBeginValue_def isSpace_def pushParseState_def)
  show ?thesis
  proof (cases "ps = []")
    case True
    with start show ?thesis by (simp add: stateEndValue_def isSpace_def popParseState_def)
  next
    case False
    from run_members [OF assms(1) False _ assms(2), of BeginStringOrEmpty] obtain step where
      "scan_run \<lparr>sc_step = BeginStringOrEmpty, sc_parseState = ParseObjectKey # st\<rparr> (membersText ps) =
        Some \<lparr>sc_step = step, sc_parseState = ParseObjectValue # st\<rparr>" "ends step" by auto
    with start False show ?thesis
      by (intro exI [of _ step]) (simp add: ends_def stateEndValue_def isSpace_def popParseState_def)
  qed
qed

lemma read_object:
  assumes "membersOK d ps" "Suc d \<le> maxNestingDepth"
  shows "read_value scan_reset (objectText ps @ rest) = Some (objectText ps, rest)" "checkValid (objectText ps)"
proof -
  from run_until_close [OF assms(1), of "[]"] assms(2) obtain step st where
    run: "scan_run scan_reset (0x7b # membersText ps) = Some \<lparr>sc_step = step, sc_parseState = st\<rparr>"
    and close: "scan step st 0x7d = ScanContinue \<lparr>sc_step = EndTop, sc_parseState = []\<rparr>"
    by (auto simp: scan_reset_def)
  show "read_value scan_reset (objectText ps @ rest) = Some (objectText ps, rest)"
    using run_read [OF run, of "0x7d # rest"] close by (simp add: objectText_def closedTop_def del: read_value.simps) (simp add: closedTop_def)
  show "checkValid (objectText ps)"
    using run_check [OF run, of "[0x7d]"] close by (simp add: checkValid_def objectText_def del: check_loop.simps(2)) (simp add: scan_eof_def)
qed

text \<open>What follows a member: the other members and the closing brace.\<close>

definition membersTail :: "(gostring \<times> byte list) list \<Rightarrow> byte list \<Rightarrow> byte list" where
  "membersTail ps rest = (if ps = [] then [] else [0x2c]) @ membersText ps @ 0x7d # rest"

lemma members_tail: "membersText ((k, v) # ps) @ 0x7d # rest = canonicalString k @ 0x3a # v @ membersTail ps rest"
  by (simp add: membersTail_def)

lemma tail_closing: obtains c cs where "membersTail ps rest = c # cs" "closing c"
  by (cases "ps = []") (auto simp: membersTail_def)

lemma update_fresh: "k \<notin> fst ` set ps \<Longrightarrow> AList.update k v ps = ps @ [(k, v)]"
  by (induction ps) auto

lemma object_members_text:
  assumes "membersOK d ps" "ps \<noteq> []" "fst ` set ps \<inter> fst ` set acc = {}"
  shows "object_members (membersText ps @ 0x7d # rest) acc = Some (acc @ ps)"
  using assms
proof (induction ps arbitrary: acc)
  case (Cons p ps)
  obtain k v where p: "p = (k, v)" by force
  from Cons.prems have k: "utf8_Valid k" and v: "jsonValue d v" and ps: "membersOK d ps" and new: "k \<notin> fst ` set ps" "k \<notin> fst ` set acc"
    by (auto simp: p membersOK_Cons)
  obtain c cs where c: "membersTail ps rest = c # cs" "closing c" by (rule tail_closing)
  from v have "v \<noteq> []" "visible (hd v)" by (simp_all add: jsonValue_def)
  then have skip: "skipSpace (v @ c # cs) = v @ c # cs" by (cases v) (simp_all add: skip_visible)
  have read: "read_value scan_reset (v @ c # cs) = Some (v, c # cs)" using v c(2) by (auto simp: jsonValue_def)
  have step: "object_members (membersText (p # ps) @ 0x7d # rest) acc =
      (if c = 0x2c then object_members cs (acc @ [(k, v)]) else Some (acc @ [(k, v)]))"
    unfolding p members_tail c(1)
    using c(2) by (subst object_members.simps)
      (auto simp: read_string [OF k] unquote_string [OF k] skip read update_fresh [OF new(2)] simp del: read_value.simps)
  show ?case
  proof (cases "ps = []")
    case False
    with c(1) have "c = 0x2c" "cs = membersText ps @ 0x7d # rest" by (auto simp: membersTail_def)
    with Cons.IH [OF ps False, of "acc @ [(k, v)]"] Cons.prems(3) new(1) show ?thesis by (simp add: step) (simp add: p)
  qed (use c(1) step in \<open>simp add: membersTail_def p\<close>)
qed simp

lemma unmarshal_object:
  assumes "membersOK d ps" "Suc d \<le> maxNestingDepth"
  shows "unmarshalRawMap (objectText ps) = Some (Some ps)"
proof (cases ps)
  case (Cons p qs)
  have "skipSpace (membersText ps @ [0x7d]) = membersText ps @ [0x7d]" "hd (membersText ps @ [0x7d]) = 0x22"
    unfolding Cons by (cases p; simp add: canonicalString_def)+
  with read_object(2) [OF assms] object_members_text [OF assms(1), of "[]" "[]"] Cons show ?thesis
    by (simp add: unmarshalRawMap_def objectText_def split: list.splits) auto
qed (use read_object(2) [OF assms] in \<open>simp add: unmarshalRawMap_def objectText_def\<close>)

subsection \<open>The tokens of an object\<close>

lemma consumeValue_more: "consumeValue n dec = Some r \<Longrightarrow> n \<le> m \<Longrightarrow> consumeValue m dec = Some r"
  using consume_more_fuel [of n] by (metis option.distinct(1))

lemma consumeObject_more: "consumeObject n seen dec = Some r \<Longrightarrow> n \<le> m \<Longrightarrow> consumeObject m seen dec = Some r"
  using consume_more_fuel [of n] by (metis option.distinct(1))

text \<open>The decoder before the members, after the brace of the object or after a member.\<close>

definition atMembers :: "Decoder \<Rightarrow> (gostring \<times> byte list) list \<Rightarrow> byte list \<Rightarrow> bool" where
  "atMembers dec ps rest =
     (dc_state dec = ObjectStart \<and> dc_rest dec = membersText ps @ 0x7d # rest \<or>
      dc_state dec = ObjectComma \<and> dc_rest dec = membersTail ps rest)"

lemma key_token:
  assumes "atMembers dec ((k, v) # ps) rest" "utf8_Valid k"
  shows "More dec" "Token dec = TokenOK (StringToken k) (dec\<lparr>dc_rest := 0x3a # v @ membersTail ps rest, dc_state := ObjectColon\<rparr>)"
proof -
  define w where "w = canonicalEscape k @ 0x22 # 0x3a # v @ membersTail ps rest"
  have shape: "membersText ((k, v) # ps) @ 0x7d # rest = 0x22 # w"
    unfolding members_tail by (simp add: canonicalString_def w_def)
  have read: "read_value scan_reset (0x22 # w) = Some (canonicalString k, 0x3a # v @ membersTail ps rest)"
    unfolding shape [symmetric] members_tail by (rule read_string [OF assms(2)])
  have tok: "Token d = TokenOK (StringToken k) (d\<lparr>dc_rest := 0x3a # v @ membersTail ps rest, dc_state := ObjectColon\<rparr>)"
    if "dc_rest d = 0x22 # w" "dc_state d = ObjectStart \<or> dc_state d = ObjectKey" for d
    using that read by (subst Token.simps) (simp add: token_key_def unquote_string [OF assms(2)] del: read_value.simps)
  consider "dc_state dec = ObjectStart" "dc_rest dec = 0x22 # w" | "dc_state dec = ObjectComma" "dc_rest dec = 0x2c # 0x22 # w"
    using assms(1) by (auto simp: atMembers_def membersTail_def shape simp del: membersText.simps)
  then show "Token dec = TokenOK (StringToken k) (dec\<lparr>dc_rest := 0x3a # v @ membersTail ps rest, dc_state := ObjectColon\<rparr>)"
  proof cases
    case 2
    then have "Token dec = Token (dec\<lparr>dc_rest := 0x22 # w, dc_state := ObjectKey\<rparr>)" by (subst Token.simps) simp
    with tok [of "dec\<lparr>dc_rest := 0x22 # w, dc_state := ObjectKey\<rparr>"] show ?thesis by simp
  qed (simp add: tok)
  show "More dec" using assms(1) by (auto simp: atMembers_def membersTail_def More_def shape simp del: membersText.simps)
qed

lemma consume_members:
  assumes "membersOK d ps" "set seen \<inter> fst ` set ps = {}" "atMembers dec ps rest" "dc_stack dec = st # stack"
  shows "\<exists>n. consumeObject n seen dec = Some (Inr \<lparr>dc_rest = rest, dc_state = tokenValueEnd st, dc_stack = stack\<rparr>)"
  using assms
proof (induction ps arbitrary: seen dec)
  case Nil
  then have dec: "dc_rest dec = 0x7d # rest" "dc_state dec = ObjectStart \<or> dc_state dec = ObjectComma"
    by (auto simp: atMembers_def membersTail_def)
  have "Token dec = TokenOK (Delim 0x7d) \<lparr>dc_rest = rest, dc_state = tokenValueEnd st, dc_stack = stack\<rparr>"
    using dec Nil.prems(4) by (subst Token.simps) (auto simp: token_close_def)
  then have "consumeObject 1 seen dec = Some (Inr \<lparr>dc_rest = rest, dc_state = tokenValueEnd st, dc_stack = stack\<rparr>)"
    by (simp add: More_def dec(1))
  then show ?case ..
next
  case (Cons p ps)
  obtain k v where p: "p = (k, v)" by force
  from Cons.prems have k: "utf8_Valid k" and v: "tokenRead v" and ps: "membersOK d ps" and new: "k \<notin> fst ` set ps" "k \<notin> set seen"
    by (auto simp: p membersOK_Cons jsonValue_def)
  obtain c cs where c: "membersTail ps rest = c # cs" "closing c" by (rule tail_closing)
  note key = key_token [OF Cons.prems(3) [unfolded p] k]
  let ?dec1 = "dec\<lparr>dc_rest := 0x3a # v @ membersTail ps rest, dc_state := ObjectColon\<rparr>"
  let ?dec2 = "dec\<lparr>dc_rest := membersTail ps rest, dc_state := ObjectComma\<rparr>"
  obtain n where n: "consumeValue n ?dec1 = Some (Inr ?dec2)"
    using v [unfolded tokenRead_def, rule_format, OF c(2), of ?dec1 cs] by (auto simp: c(1))
  obtain m where m: "consumeObject m (k # seen) ?dec2 = Some (Inr \<lparr>dc_rest = rest, dc_state = tokenValueEnd st, dc_stack = stack\<rparr>)"
    using Cons.IH [OF ps, of "k # seen" ?dec2] Cons.prems(2,4) new(1) by (auto simp: atMembers_def)
  have "consumeObject (Suc (max n m)) seen dec = Some (Inr \<lparr>dc_rest = rest, dc_state = tokenValueEnd st, dc_stack = stack\<rparr>)"
    using consumeValue_more [OF n, of "max n m"] consumeObject_more [OF m, of "max n m"] new(2) by (simp add: key)
  then show ?case ..
qed

text \<open>An object is a value of one more level of nesting.\<close>

lemma object_value:
  assumes "membersOK d ps" "Suc d \<le> maxNestingDepth"
  shows "jsonValue (Suc d) (objectText ps)"
proof -
  have run: "\<exists>step. scan_run \<lparr>sc_step = BeginValue, sc_parseState = st\<rparr> (objectText ps) = Some \<lparr>sc_step = step, sc_parseState = st\<rparr> \<and> ends step"
    if "st \<noteq> []" "length st + Suc d \<le> maxNestingDepth" for st
  proof -
    from run_until_close [OF assms(1), of st] that obtain step sts where
      "scan_run \<lparr>sc_step = BeginValue, sc_parseState = st\<rparr> (0x7b # membersText ps) = Some \<lparr>sc_step = step, sc_parseState = sts\<rparr>"
      "scan step sts 0x7d = ScanContinue \<lparr>sc_step = EndValue, sc_parseState = st\<rparr>" by auto
    moreover have "objectText ps = (0x7b # membersText ps) @ [0x7d]" by (simp add: objectText_def)
    ultimately show ?thesis using ends_steps(1)
      by (intro exI [of _ EndValue]) (simp only: run_append option.case, simp)
  qed
  have "\<exists>n. consumeValue n dec = Some (Inr (dec\<lparr>dc_rest := c # rest, dc_state := ObjectComma\<rparr>))"
    if dec: "dc_rest dec = 0x3a # objectText ps @ c # rest" "dc_state dec = ObjectColon" for c rest dec
  proof -
    let ?dec1 = "\<lparr>dc_rest = membersText ps @ 0x7d # c # rest, dc_state = ObjectStart, dc_stack = ObjectValue # dc_stack dec\<rparr>"
    have tok: "Token dec = TokenOK (Delim 0x7b) ?dec1"
      unfolding colon_token [OF dec] by (subst Token.simps) (simp add: objectText_def token_open_def tokenValueAllowed_def)
    have "\<exists>n. consumeObject n [] ?dec1 = Some (Inr \<lparr>dc_rest = c # rest, dc_state = tokenValueEnd ObjectValue, dc_stack = dc_stack dec\<rparr>)"
      by (rule consume_members [OF assms(1)]) (simp_all add: atMembers_def)
    then obtain n where "consumeValue (Suc n) dec = Some (Inr \<lparr>dc_rest = c # rest, dc_state = ObjectComma, dc_stack = dc_stack dec\<rparr>)"
      by (auto simp: tok)
    then show ?thesis by (intro exI [of _ "Suc n"]) simp
  qed
  then show ?thesis
    using run read_object(1) [OF assms] unfolding jsonValue_def tokenRead_def
    by (simp add: objectText_def visible_def del: read_value.simps)
qed

lemma validate_object:
  assumes "membersOK d ps"
  shows "validateJSONObject (objectText ps) = Some None"
proof -
  let ?dec = "\<lparr>dc_rest = membersText ps @ [0x7d], dc_state = ObjectStart, dc_stack = [TopValue]\<rparr>"
  have tok: "Token (NewDecoder (objectText ps)) = TokenOK (Delim 0x7b) ?dec"
    by (subst Token.simps) (simp add: NewDecoder_def objectText_def token_open_def tokenValueAllowed_def)
  have "\<exists>n. consumeObject n [] ?dec = Some (Inr \<lparr>dc_rest = [], dc_state = tokenValueEnd TopValue, dc_stack = []\<rparr>)"
    by (rule consume_members [OF assms]) (simp_all add: atMembers_def)
  then obtain n where n: "consumeObject n [] ?dec = Some (Inr \<lparr>dc_rest = [], dc_state = TopValue, dc_stack = []\<rparr>)" by auto
  have "2 * length (dc_rest ?dec) + 1 < consumeFuel (objectText ps)" by (simp add: consumeFuel_def objectText_def)
  then obtain r where r: "consumeObject (consumeFuel (objectText ps)) [] ?dec = Some r" using consumeObject_returns by blast
  have "r = Inr \<lparr>dc_rest = [], dc_state = TopValue, dc_stack = []\<rparr>"
    using consumeObject_more [OF n, of "max n (consumeFuel (objectText ps))"] consumeObject_more [OF r, of "max n (consumeFuel (objectText ps))"] by simp
  moreover have "Token \<lparr>dc_rest = [], dc_state = TopValue, dc_stack = []\<rparr> = TokenEOF"
    by (subst Token.simps) (simp add: skipSpace_def)
  ultimately show ?thesis using r tok by (simp add: validateJSONObject_def)
qed

subsection \<open>Valid text\<close>

lemma valid_escaped: "escaped v w \<Longrightarrow> utf8_Valid w"
proof (induction rule: escaped.induct)
  case (escaped_simple e b v w)
  from escaped_simple.hyps(2) have "e < 0x80" by (auto simp: scannerEscapes_def)
  with escaped_simple.IH show ?case by (simp add: valid_ascii)
next
  case (escaped_unicode p q r s rune v w)
  have "c < 0x80" if "fromHexChar c \<noteq> None" for c :: byte
    using that by (auto simp: fromHexChar_def word_le_nat_alt word_less_nat_alt split: if_splits)
  with escaped_unicode.hyps(1) have "p < 0x80" "q < 0x80" "r < 0x80" "s < 0x80"
    by (auto simp: hex4_def split: option.splits)
  with escaped_unicode.IH show ?case by (simp add: valid_ascii)
qed (simp_all add: valid_form utf8_Valid.simps [of "[]"])

lemma valid_string: "utf8_Valid v \<Longrightarrow> utf8_Valid (canonicalString v)"
  using valid_escaped [OF canonicalEscape_escaped]
  by (simp add: canonicalString_def valid_ascii valid_append) (simp add: utf8_Valid.simps)

lemma valid_members:
  assumes "\<forall>(k, v)\<in>set ps. utf8_Valid k \<and> utf8_Valid v"
  shows "utf8_Valid (membersText ps)"
  using assms by (induction ps rule: membersText.induct)
    (simp_all add: valid_append valid_string valid_ascii utf8_Valid.simps [of "[]"])

lemma valid_object: "\<forall>(k, v)\<in>set ps. utf8_Valid k \<and> utf8_Valid v \<Longrightarrow> utf8_Valid (objectText ps)"
  by (simp add: objectText_def valid_ascii valid_append valid_members utf8_Valid.simps [of "[]"])

subsection \<open>The members of an event\<close>

definition stringMembers :: "(gostring \<times> gostring) list \<Rightarrow> (gostring \<times> byte list) list" where
  "stringMembers = map (map_prod id canonicalString)"

lemma stringMembers_list [simp]:
  "stringMembers [] = []" "stringMembers ((k, v) # ps) = (k, canonicalString v) # stringMembers ps"
  by (simp_all add: stringMembers_def)

fun eventMembers :: "Event \<Rightarrow> (gostring \<times> byte list) list" where
  "eventMembers (Test e) = stringMembers [(str ''AppName'', te_AppName e), (str ''Type'', EventTypeTest)]"
| "eventMembers (Verification e) =
     stringMembers [(str ''AppName'', ve_AppName e), (str ''Type'', EventTypeVerification), (str ''Code'', ve_Code e)]"
| "eventMembers (Alert e) =
     stringMembers [(str ''AppName'', ae_AppName e), (str ''Type'', EventTypeAlert)] @
     [(str ''AlertID'', formatInt (ae_AlertID e))] @
     stringMembers [(str ''Summary'', ae_Summary e), (str ''Details'', ae_Details e), (str ''ServiceID'', ae_ServiceID e),
       (str ''ServiceName'', ae_ServiceName e)] @
     [(str ''Meta'', objectText (stringMembers (canonicalMeta (the (ae_Meta e)))))]"
| "eventMembers (AlertStatus e) =
     stringMembers [(str ''AppName'', se_AppName e), (str ''Type'', EventTypeAlertStatus)] @
     [(str ''AlertID'', formatInt (se_AlertID e))] @
     stringMembers [(str ''LogEntry'', se_LogEntry e), (str ''AlertState'', se_AlertState e)]"

lemma names_text:
  "canonicalString (str ''AppName'') = str ''\"AppName\"''" "canonicalString (str ''Type'') = str ''\"Type\"''"
  "canonicalString (str ''Code'') = str ''\"Code\"''" "canonicalString (str ''AlertID'') = str ''\"AlertID\"''"
  "canonicalString (str ''Summary'') = str ''\"Summary\"''" "canonicalString (str ''Details'') = str ''\"Details\"''"
  "canonicalString (str ''ServiceID'') = str ''\"ServiceID\"''" "canonicalString (str ''ServiceName'') = str ''\"ServiceName\"''"
  "canonicalString (str ''Meta'') = str ''\"Meta\"''" "canonicalString (str ''LogEntry'') = str ''\"LogEntry\"''"
  "canonicalString (str ''AlertState'') = str ''\"AlertState\"''" "canonicalString EventTypeTest = str ''\"Test\"''"
  "canonicalString EventTypeVerification = str ''\"Verification\"''" "canonicalString EventTypeAlert = str ''\"Alert\"''"
  "canonicalString EventTypeAlertStatus = str ''\"AlertStatus\"''"
  by code_simp+

lemma metaText_later: "metaText (Suc i) ps = (if ps = [] then [] else 0x2c # membersText (stringMembers ps))"
  by (induction ps arbitrary: i) (auto simp: stringMembers_def split: prod.splits)

lemma metaText_members: "metaText 0 ps = membersText (stringMembers ps)"
  by (cases ps) (auto simp: metaText_later stringMembers_def)

lemma text_members: "canonicalText e = objectText (eventMembers e)"
  by (cases e) (simp_all add: objectText_def names_text metaText_members, simp_all add: str_def)

lemma char_bits:
  assumes "(of_char c :: byte) = of_char d"
  shows "c = d"
proof -
  let ?bits = "\<lambda>c. [digit0 c, digit1 c, digit2 c, digit3 c, digit4 c, digit5 c, digit6 c, digit7 c]"
  have "bit (of_char c :: byte) n = (?bits c ! n)" if "n < 8" for c n
    using that unfolding of_char_def bit_horner_sum_bit_word_iff by simp
  with assms have "?bits c ! n = ?bits d ! n" if "n < 8" for n using that by metis
  then have "?bits c = ?bits d" by (intro nth_equalityI) auto
  then show ?thesis by (simp add: char.expand)
qed

lemma str_inject: "str a = str b \<longleftrightarrow> a = b"
  unfolding str_def by (intro inj_map_eq_map injI char_bits)

lemma decode_trimmed: "utf8_Valid v \<Longrightarrow> decodeJSONString (bytes_TrimSpace (canonicalString v)) = Inr v"
  using decode_string trim_visible [of "canonicalString v"] by (simp add: canonicalString_def visible_def)

lemma decimal_digits: "decimal_value v n = digits_value v n"
  by (induction v arbitrary: n) (simp_all add: mult.commute)

lemma nat_digits_positive: "0 < n \<Longrightarrow> positiveIntPattern (nat_digits n)"
proof (induction n rule: nat_digits.induct)
  case (1 n)
  have "0x30 + word_of_nat (n mod 10) \<in> set (nat_digits n)" by (subst nat_digits.simps) simp
  then have last: "digit (0x30 + word_of_nat (n mod 10))" using nat_digits_range by (simp add: digit_def)
  show ?case
  proof (cases "n < 10")
    case True
    then have "unat (0x30 + word_of_nat n :: byte) = 48 + n" by (simp add: unat_word_ariths unat_of_nat)
    with True 1 have "0x31 \<le> (0x30 + word_of_nat n :: byte)" "(0x30 + word_of_nat n :: byte) \<le> 0x39"
      by (simp_all add: word_le_nat_alt)
    with True show ?thesis by (subst nat_digits.simps) (simp add: positiveIntPattern_def)
  next
    case False
    with 1 have "positiveIntPattern (nat_digits (n div 10))" by simp
    with False last show ?thesis
      by (subst nat_digits.simps) (auto simp: positiveIntPattern_def split: list.splits)
  qed
qed

lemma format_positive:
  assumes "1 \<le> sint i"
  shows "positiveIntPattern (formatInt i)" "ParseInt (formatInt i) = Some i"
proof -
  have i: "formatInt i = nat_digits (nat (sint i))" using assms by (simp add: formatInt_def AppendInt_def)
  then show "positiveIntPattern (formatInt i)" using assms nat_digits_positive by simp
  have "sint i < 2 ^ 63" using sint_lt [of i] by simp
  with assms have "nat (sint i) < 2 ^ 63" "word_of_nat (nat (sint i)) = i" by (simp_all add: nat_less_iff)
  then show "ParseInt (formatInt i) = Some i"
    unfolding i by (simp add: ParseInt_def decimal_digits digits_value_nat_digits)
qed

lemma trim_number: "1 \<le> sint i \<Longrightarrow> bytes_TrimSpace (formatInt i) = formatInt i"
  using number_value [OF format_positive(1), of i 0] by (simp add: jsonValue_def trim_visible)

subsection \<open>Metadata\<close>

lemma string_membersOK:
  assumes "distinct (map fst ps)" "\<forall>(k, v)\<in>set ps. utf8_Valid k \<and> utf8_Valid v"
  shows "membersOK d (stringMembers ps)"
  using assms string_value by (fastforce simp: membersOK_def stringMembers_def)

lemma canonicalMeta_permutes: "distinct (map fst m) \<Longrightarrow> mset (canonicalMeta m) = mset m"
proof -
  assume m: "distinct (map fst m)"
  then have "map (\<lambda>k. (k, meta_value m k)) (map fst m) = m"
    by (auto simp: meta_value_def intro!: map_idI)
  then have "image_mset (\<lambda>k. (k, meta_value m k)) (mset (map fst m)) = mset m" by (metis mset_map)
  then show ?thesis by (simp add: canonicalMeta_def)
qed

lemma canonicalMeta_within: "metaWithin m \<Longrightarrow> metaWithin (canonicalMeta m)"
proof -
  assume m: "metaWithin m"
  then have perm: "mset (canonicalMeta m) = mset m" by (simp add: canonicalMeta_permutes metaWithin_def)
  then have "mset (map f (canonicalMeta m)) = mset (map f m)" for f :: "gostring \<times> gostring \<Rightarrow> 'c" by simp
  then have "sum_list (map (\<lambda>(k, v). length k + length v) (canonicalMeta m)) = sum_list (map (\<lambda>(k, v). length k + length v) m)"
    by (metis sum_mset_sum_list)
  moreover have "distinct (map fst (canonicalMeta m))" using m by (simp add: canonicalMeta_def metaWithin_def comp_def)
  moreover have "set (canonicalMeta m) = set m" using perm by (rule mset_eq_setD)
  ultimately show ?thesis using m by (simp add: metaWithin_def list_all_iff)
qed

lemma meta_loop_strings:
  assumes "list_all (\<lambda>(k, v). 1 \<le> length k \<and> length k \<le> 255 \<and> printableASCII k \<and> utf8_Valid v) ps"
    "n + sum_list (map (\<lambda>(k, v). length k + length v) ps) \<le> 32768"
  shows "meta_loop (stringMembers ps) acc n = Inr (acc @ ps)"
  using assms
proof (induction ps arbitrary: acc n)
  case (Cons p ps)
  obtain k v where p: "p = (k, v)" by force
  from Cons.prems(1) have v: "utf8_Valid v" by (simp add: p)
  with Cons.prems Cons.IH [of "n + (length k + length v)" "acc @ [(k, v)]"] decode_trimmed [OF v] show ?case
    by (auto simp: p)
qed simp

lemma meta_members: "metaWithin m \<Longrightarrow> membersOK d (stringMembers m)"
  by (rule string_membersOK) (auto simp: metaWithin_def list_all_iff intro: printableASCII_valid)

lemma meta_decoded:
  assumes "metaWithin m"
  shows "unmarshalRawMap (objectText (stringMembers m)) = Some (Some (stringMembers m))" "meta_loop (stringMembers m) [] 0 = Inr m"
proof -
  show "unmarshalRawMap (objectText (stringMembers m)) = Some (Some (stringMembers m))"
    by (rule unmarshal_object [OF meta_members [OF assms, of 0]]) (simp add: maxNestingDepth_def)
  show "meta_loop (stringMembers m) [] 0 = Inr m" using assms meta_loop_strings [of m 0 "[]"] by (simp add: metaWithin_def)
qed

lemma trim_object: "bytes_TrimSpace (objectText ps) = objectText ps"
  by (rule trim_visible) (simp_all add: objectText_def visible_def)

lemma object_opens: "objectText ps \<noteq> [] \<and> hd (objectText ps) = 0x7b"
  by (simp add: objectText_def)

lemmas members_decoded = decodeFields_def checkedString_def hasExactFields_def requiredString_def requiredPositiveInt_def
  requiredMeta_def decode_trimmed trim_number format_positive meta_decoded trim_object object_opens canonicalMeta_within str_inject

subsection \<open>Events\<close>

text \<open>The event with its metadata in the order of the canonical form.\<close>

fun canonicalOrder :: "Event \<Rightarrow> Event" where
  "canonicalOrder (Alert a) = Alert (a\<lparr>ae_Meta := map_option canonicalMeta (ae_Meta a)\<rparr>)"
| "canonicalOrder e = e"

lemma canonicalOrder_same: "sameEvent e (canonicalOrder e)"
  by (cases e) (auto simp: map_of_canonicalMeta option.map_comp comp_def)

lemma type_names:
  "distinct [EventTypeAlertStatus, EventTypeAlert, EventTypeVerification, EventTypeTest]"
  "list_all utf8_Valid [EventTypeTest, EventTypeVerification, EventTypeAlert, EventTypeAlertStatus]"
  by code_simp+

lemma names_valid:
  "list_all utf8_Valid (map str [''AppName'', ''Type'', ''Code'', ''AlertID'', ''Summary'', ''Details'', ''ServiceID'',
     ''ServiceName'', ''Meta'', ''LogEntry'', ''AlertState''])"
  by code_simp

lemma states_valid: "knownAlertState v \<Longrightarrow> utf8_Valid v"
proof -
  have "utf8_Valid AlertStateUnacknowledged" "utf8_Valid AlertStateAcknowledged" "utf8_Valid AlertStateClosed" by code_simp+
  then show "knownAlertState v \<Longrightarrow> utf8_Valid v" by (auto simp: knownAlertState_def)
qed

lemma members_list:
  "membersOK d [] \<longleftrightarrow> True"
  "membersOK d ((k, v) # ps) \<longleftrightarrow> k \<notin> fst ` set ps \<and> utf8_Valid k \<and> jsonValue d v \<and> membersOK d ps"
  by (simp add: membersOK_def, rule membersOK_Cons)

lemma event_membersOK:
  assumes "eventWithin e"
  shows "membersOK 1 (eventMembers e)"
proof -
  from within_canonical [OF assms] have ok: "eventOK e" by simp
  have nested: "jsonValue (Suc 0) (objectText (stringMembers m))" if "metaWithin m" for m
    using object_value [OF meta_members [OF that, of 0]] by (simp add: maxNestingDepth_def)
  note fits = string_value format_positive(1) [THEN number_value]
  show ?thesis
    using names_valid type_names(2) ok assms
    by (cases e) (auto simp: members_list str_inject intro!: fits nested canonicalMeta_within)
qed

lemma decode_members:
  assumes "eventWithin e"
  shows "decodeFields (eventMembers e) = Inr (canonicalOrder e)"
proof (cases e)
  case (Test a)
  with type_names within_canonical [OF assms] assms show ?thesis
    by (simp add: members_decoded decodeTest_def)
next
  case (Verification a)
  with type_names within_canonical [OF assms] assms show ?thesis
    by (simp add: members_decoded decodeVerification_def)
next
  case (Alert a)
  then obtain m where "ae_Meta a = Some m" "metaWithin m" using assms by auto
  with Alert type_names within_canonical [OF assms] assms show ?thesis
    by (simp add: members_decoded decodeAlert_def)
next
  case (AlertStatus a)
  with type_names within_canonical [OF assms] assms show ?thesis
    by (simp add: members_decoded decodeAlertStatus_def)
qed

lemma text_valid: "eventWithin e \<Longrightarrow> utf8_Valid (canonicalText e)"
proof -
  assume e: "eventWithin e"
  have number: "utf8_Valid (formatInt i)" if "1 \<le> sint i" for i
    using format_positive(1) [OF that]
    by (intro printableASCII_valid) (auto simp: positiveIntPattern_def printableASCII_def list_all_iff digit_def word_le_nat_alt split: list.splits)
  have nested: "utf8_Valid (objectText (stringMembers m))" if "metaWithin m" for m
  proof -
    have "\<forall>(k, v)\<in>set m. utf8_Valid k \<and> utf8_Valid v"
      using that printableASCII_valid by (auto simp: metaWithin_def list_all_iff)
    then show ?thesis by (intro valid_object) (auto simp: stringMembers_def intro!: valid_string)
  qed
  show ?thesis
    unfolding text_members
    by (rule valid_object) (use e names_valid type_names(2) within_canonical [OF e] in
      \<open>cases e; auto intro!: valid_string number nested canonicalMeta_within\<close>)
qed

lemma decode_canonical:
  assumes "eventWithin e"
  shows "decodeEvent (canonicalText e) = Some (Inr (canonicalOrder e))"
proof -
  note ok = event_membersOK [OF assms]
  have "unmarshalRawMap (canonicalText e) = Some (Some (eventMembers e))"
    unfolding text_members by (rule unmarshal_object [OF ok]) (simp add: maxNestingDepth_def)
  with text_valid [OF assms] validate_object [OF ok] decode_members [OF assms] show ?thesis
    by (simp add: decodeEvent_def text_members)
qed

lemma order_within: "eventWithin e \<Longrightarrow> eventWithin (canonicalOrder e)"
  by (cases e) (auto intro: canonicalMeta_within)

subsection \<open>The guarantees\<close>

text \<open>C37. Decoding inverts canonicalisation: the canonical bytes of every event the gateway takes in are a body the decoder
  accepts, it decodes them to the same event up to the order of the metadata, and canonicalising the result gives the same
  bytes again.\<close>

theorem canonical_bytes_decode:
  assumes "eventWithin e" "CanonicalizeEvent (EventValue e) = Inr c"
  shows "\<exists>e'. decodeEvent (ce_data c) = Some (Inr e') \<and> sameEvent e e' \<and> CanonicalizeEvent (EventValue e') = Inr c"
proof (intro exI conjI)
  from within_canonical [OF assms(1)] have ok: "eventOK e" "goMaps e" by simp_all
  with assms(2) have c: "ce_data c = canonicalText e" by (auto simp: canonicalizeKnown_eq canonicalEventOf_def)
  then show "decodeEvent (ce_data c) = Some (Inr (canonicalOrder e))" using decode_canonical [OF assms(1)] by simp
  show same: "sameEvent e (canonicalOrder e)" by (rule canonicalOrder_same)
  from order_within [OF assms(1)] have order: "eventOK (canonicalOrder e)" "goMaps (canonicalOrder e)"
    using within_canonical by blast+
  with ok same canonicalText_eq_iff [of e "canonicalOrder e"] have "canonicalText (canonicalOrder e) = canonicalText e" by simp
  with ok(1) order(1) assms(2) show "CanonicalizeEvent (EventValue (canonicalOrder e)) = Inr c"
    by (simp add: canonicalizeKnown_eq)
qed

definition sampleEvent :: Event where
  "sampleEvent = Alert \<lparr>ae_AppName = str ''GoAlert'', ae_AlertID = 42, ae_Summary = str ''disk'', ae_Details = [],
     ae_ServiceID = str ''0f8fad5b-d9cb-469f-a165-70867728950e'', ae_ServiceName = str ''db'',
     ae_Meta = Some [(str ''zone'', str ''b''), (str ''host'', str ''a\"c'')]\<rparr>"

lemma sampleEvent_within: "eventWithin sampleEvent"
proof -
  have "validAppName (str ''GoAlert'')" "utf8_Valid (str ''disk'')" "utf8_Valid []"
    "validCanonicalUUID (str ''0f8fad5b-d9cb-469f-a165-70867728950e'')" "validServiceName (str ''db'')"
    by code_simp+
  moreover have "utf8_RuneCount (str ''disk'') = 4" "utf8_RuneCount [] = 0" by code_simp+
  moreover have "metaWithin [(str ''zone'', str ''b''), (str ''host'', str ''a\"c'')]"
  proof -
    have "utf8_Valid (str ''b'')" "utf8_Valid (str ''a\"c'')" "printableASCII (str ''zone'')" "printableASCII (str ''host'')" by code_simp+
    then show ?thesis by (simp add: metaWithin_def str_inject) (simp add: str_def)
  qed
  ultimately show ?thesis by (simp add: sampleEvent_def)
qed

theorem canonical_bytes_decode_witness:
  "eventWithin sampleEvent \<and>
   (\<exists>c e'. CanonicalizeEvent (EventValue sampleEvent) = Inr c \<and> decodeEvent (ce_data c) = Some (Inr e') \<and>
      sameEvent sampleEvent e' \<and> CanonicalizeEvent (EventValue e') = Inr c)"
proof -
  obtain c where "CanonicalizeEvent (EventValue sampleEvent) = Inr c"
    using within_canonical [OF sampleEvent_within] by (auto simp: canonicalizeKnown_eq canonicalEventOf_def)
  with canonical_bytes_decode [OF sampleEvent_within] sampleEvent_within show ?thesis by blast
qed

text \<open>C38. What the decoder returns is well-formed: every field of a decoded event is within its bounds and patterns, its
  strings are valid UTF-8, its alert number is positive, its metadata has distinct printable keys and at most 32768
  bytes, so that the event always has a canonical form.\<close>

theorem decoded_event_within:
  assumes "decodeEvent data = Some (Inr e)"
  shows "eventWithin e \<and> (\<exists>c. CanonicalizeEvent (EventValue e) = Inr c \<and> ce_data c = canonicalText e)"
proof -
  from assms have e: "eventWithin e" by (rule decodeEvent_within)
  with within_canonical [OF e] show ?thesis by (simp add: canonicalizeKnown_eq canonicalEventOf_def)
qed

theorem decoded_event_within_witness:
  "decodeEvent (canonicalText sampleEvent) = Some (Inr (canonicalOrder sampleEvent)) \<and> eventWithin (canonicalOrder sampleEvent)"
  using decode_canonical [OF sampleEvent_within] decoded_event_within [of "canonicalText sampleEvent"] by blast

end
