(* ===== verification/Http_Guarantees.thy ===== *)
theory Http_Guarantees
  imports Http_Handler Decoding_Roundtrip
begin

section \<open>What the HTTP handler guarantees\<close>

text \<open>
  A response of 202 means that the sink took exactly the delivery of the request, a delivery reaches the sink only after
  every check, and every request is recorded once under one of the bounded labels.
\<close>

subsection \<open>Well-formed webhook requests\<close>

definition validWebhook :: "http_request \<Rightarrow> Delivery \<Rightarrow> bool" where
  "validWebhook r d =
     (hr_Method r = str ''POST'' \<and> hr_Path r = webhookPathPrefix @ dv_Token d \<and> dv_Token d \<noteq> [] \<and> 0x2f \<notin> set (dv_Token d) \<and>
      hr_RawQuery r = [] \<and> validContentEncoding (headerValues r (str ''Content-Encoding'')) \<and>
      validContentType (headerValues r (str ''Content-Type'')) \<and>
      headerValues r idempotencyKeyHeader = [dv_Identity d] \<and> validCanonicalUUID (dv_Identity d) \<and>
      sint (hr_ContentLength r) \<le> int MaxBodyBytes \<and> length (hr_Body r) \<le> MaxBodyBytes \<and> \<not> hr_BodyFails r \<and>
      decodeEvent (hr_Body r) = Some (Inr (dv_Event d)))"

lemma contains_byte: "strings_Contains s [c] \<longleftrightarrow> c \<in> set s"
  by (induction s) (auto simp: strings_Contains_def HasPrefix_def)

lemma webhookToken_iff:
  "webhookToken path = Some token \<longleftrightarrow> path = webhookPathPrefix @ token \<and> token \<noteq> [] \<and> 0x2f \<notin> set token"
  by (auto simp: webhookToken_def HasPrefix_def contains_byte Let_def) (metis append_take_drop_id)

lemma webhook_body_iff:
  "webhook_body r = Inr e \<longleftrightarrow>
   length (hr_Body r) \<le> MaxBodyBytes \<and> \<not> hr_BodyFails r \<and> decodeEvent (hr_Body r) = Some (Inr e)"
proof -
  consider "MaxBodyBytes < length (hr_Body r)" "readBody r = Some (take (MaxBodyBytes + 1) (hr_Body r))"
    | "length (hr_Body r) \<le> MaxBodyBytes" "hr_BodyFails r" "readBody r = None"
    | "length (hr_Body r) \<le> MaxBodyBytes" "\<not> hr_BodyFails r" "readBody r = Some (hr_Body r)"
    by (cases "MaxBodyBytes < length (hr_Body r)"; cases "hr_BodyFails r") (simp_all add: readBody_def)
  then show ?thesis
  proof cases
    case 3
    then show ?thesis by (auto simp: webhook_body_def split: option.split sum.split decode_error.split)
  qed (simp_all add: webhook_body_def)
qed

lemma webhook_event_iff:
  "webhook_event r = Inr (identity, e) \<longleftrightarrow>
     hr_RawQuery r = [] \<and> validContentEncoding (headerValues r (str ''Content-Encoding'')) \<and>
     validContentType (headerValues r (str ''Content-Type'')) \<and>
     headerValues r idempotencyKeyHeader = [identity] \<and> validCanonicalUUID identity \<and>
     sint (hr_ContentLength r) \<le> int MaxBodyBytes \<and> length (hr_Body r) \<le> MaxBodyBytes \<and> \<not> hr_BodyFails r \<and>
     decodeEvent (hr_Body r) = Some (Inr e)"
proof (cases "\<exists>v. headerValues r idempotencyKeyHeader = [v]")
  case True
  then obtain v where "headerValues r idempotencyKeyHeader = [v]" ..
  then show ?thesis
    by (cases "webhook_body r") (auto simp: webhook_event_def webhook_body_iff [symmetric])
next
  case False
  then have "length (headerValues r idempotencyKeyHeader) \<noteq> 1" by (auto simp: length_Suc_conv)
  with False show ?thesis unfolding webhook_event_def Let_def by auto
qed

lemma routes_apart: "webhookPathPrefix @ token \<noteq> str ''/healthz''" "webhookPathPrefix @ token \<noteq> str ''/metrics''"
  by (simp_all add: webhookPathPrefix_def str_def)

lemma validWebhook_only: "validWebhook r d \<Longrightarrow> validWebhook r d' \<longleftrightarrow> d' = d"
  by (cases d; cases d') (auto simp: validWebhook_def)

lemma ServeHTTP_valid:
  assumes "validWebhook r d"
  shows "ServeHTTP sink r st = webhook_enqueue sink d st"
proof -
  have "webhookToken (hr_Path r) = Some (dv_Token d)" using assms by (simp add: webhookToken_iff validWebhook_def)
  moreover have "webhook_event r = Inr (dv_Identity d, dv_Event d)" using assms by (simp add: webhook_event_iff validWebhook_def)
  ultimately show ?thesis
    using assms routes_apart by (cases d) (simp add: ServeHTTP_def handleWebhook_def validWebhook_def)
qed

subsection \<open>The record of a request\<close>

definition boundedLabels :: "metricKey list" where
  "boundedLabels =
     map (\<lambda>(route, result). (str route, str result))
       ([(''not_found'', ''not_found'')] @
        List.product [''health'', ''metrics''] [''ok'', ''method_not_allowed''] @
        List.product [''webhook''] [''method_not_allowed'', ''invalid_request'', ''unsupported_media_type'', ''request_too_large'',
          ''unsupported_event_type'', ''internal_error'', ''unavailable'', ''accepted''])"

definition recorded :: "'s handlerState \<Rightarrow> http_response \<Rightarrow> 's handlerState \<Rightarrow> bool" where
  "recorded st resp st' =
     (\<exists>route result eventType.
        (route, result) \<in> set boundedLabels \<and>
        eventType \<in> {[], EventTypeTest, EventTypeVerification, EventTypeAlert, EventTypeAlertStatus} \<and>
        hs_metrics st' = increment route result (hs_metrics st) \<and>
        hs_log st' = hs_log st @ [\<lparr>le_route = route, le_result = result, le_status = hw_status resp, le_eventType = eventType\<rparr>])"

lemma recorded_intro:
  assumes "(str route, str result) \<in> set boundedLabels"
    "eventType \<in> {[], EventTypeTest, EventTypeVerification, EventTypeAlert, EventTypeAlertStatus}"
    "hs_metrics st0 = hs_metrics st" "hs_log st0 = hs_log st" "hw_status resp = status"
  shows "recorded st resp (handler_record route result status eventType st0)"
  using assms unfolding recorded_def handler_record_def by (intro exI [of _ "str route"] exI [of _ "str result"] exI [of _ eventType]) simp

lemma labels:
  "(str ''not_found'', str ''not_found'') \<in> set boundedLabels"
  "(str ''health'', str ''ok'') \<in> set boundedLabels" "(str ''health'', str ''method_not_allowed'') \<in> set boundedLabels"
  "(str ''metrics'', str ''ok'') \<in> set boundedLabels" "(str ''metrics'', str ''method_not_allowed'') \<in> set boundedLabels"
  by (simp_all add: boundedLabels_def)

lemma webhook_labels:
  "s \<in> {''method_not_allowed'', ''invalid_request'', ''unsupported_media_type'', ''request_too_large'', ''unsupported_event_type'',
     ''internal_error'', ''unavailable'', ''accepted''} \<Longrightarrow> (str ''webhook'', str s) \<in> set boundedLabels"
  unfolding boundedLabels_def by auto

lemma webhook_event_problem:
  assumes "webhook_event r = Inl (result, status)"
  shows "result \<in> {''invalid_request'', ''unsupported_media_type'', ''request_too_large'', ''unsupported_event_type''}" "status \<noteq> 202"
proof -
  have "result \<in> {''invalid_request'', ''request_too_large'', ''unsupported_event_type''} \<and> status \<noteq> 202"
    if "webhook_body r = Inl (result, status)"
    using that by (auto simp: webhook_body_def split: if_splits option.splits sum.splits decode_error.splits)
  with assms show "result \<in> {''invalid_request'', ''unsupported_media_type'', ''request_too_large'', ''unsupported_event_type''}" "status \<noteq> 202"
    by (cases "webhook_body r"; auto simp: webhook_event_def Let_def split: if_splits)+
qed

lemma kind_types: "Event_Kind e \<in> {[], EventTypeTest, EventTypeVerification, EventTypeAlert, EventTypeAlertStatus}"
  by (cases e) auto

lemma enqueue_recorded: "recorded st (fst (webhook_enqueue sink d st)) (snd (webhook_enqueue sink d st))"
proof (cases sink)
  case None
  then show ?thesis
    using kind_types by (simp add: webhook_enqueue_def problem_def) (rule recorded_intro, simp_all add: webhook_labels)
next
  case (Some enqueue)
  obtain acceptance err s where "enqueue d (hs_sink st) = ((acceptance, err), s)" by (metis old.prod.exhaust)
  with Some kind_types [of "dv_Event d"] show ?thesis
    by (simp add: webhook_enqueue_def problem_def Let_def) (intro conjI impI recorded_intro, simp_all add: webhook_labels)
qed

lemma handleWebhook_recorded: "recorded st (fst (handleWebhook sink r token st)) (snd (handleWebhook sink r token st))"
proof (cases "webhook_event r")
  case (Inl p)
  then obtain result status where "webhook_event r = Inl (result, status)" by (cases p) auto
  with webhook_event_problem(1) [OF this] show ?thesis
    by (simp add: handleWebhook_def problem_def) (intro conjI impI recorded_intro webhook_labels; auto)
next
  case (Inr p)
  obtain identity event where "p = (identity, event)" by force
  with Inr enqueue_recorded [of st sink "\<lparr>dv_Token = token, dv_Identity = identity, dv_Event = event\<rparr>"] show ?thesis
    by (simp add: handleWebhook_def problem_def) (intro impI recorded_intro webhook_labels, simp_all)
qed

lemma ServeHTTP_recorded: "recorded st (fst (ServeHTTP sink r st)) (snd (ServeHTTP sink r st))"
proof -
  have "recorded st (fst (handleHealth r st)) (snd (handleHealth r st))" "recorded st (fst (handleMetrics r st)) (snd (handleMetrics r st))"
    by (auto simp: handleHealth_def handleMetrics_def problem_def Let_def labels intro!: recorded_intro)
  moreover have "recorded st (fst (problem [] ''not_found'' ''not_found'' 404 [] st)) (snd (problem [] ''not_found'' ''not_found'' 404 [] st))"
    by (auto simp: problem_def labels intro!: recorded_intro)
  ultimately show ?thesis using handleWebhook_recorded by (auto simp: ServeHTTP_def split: option.split)
qed

text \<open>Every other request leaves the sink alone and is not accepted.\<close>

lemma ServeHTTP_refused:
  assumes "\<nexists>d. validWebhook r d"
  shows "hw_status (fst (ServeHTTP sink r st)) \<noteq> 202 \<and> hs_sink (snd (ServeHTTP sink r st)) = hs_sink st"
proof -
  have refused: "hw_status (fst (handleWebhook sink r token st)) \<noteq> 202 \<and> hs_sink (snd (handleWebhook sink r token st)) = hs_sink st"
    if "webhookToken (hr_Path r) = Some token" for token
  proof (cases "hr_Method r = str ''POST''")
    case True
    have "webhook_event r \<noteq> Inr (identity, e)" for identity e
    proof
      assume "webhook_event r = Inr (identity, e)"
      with True that have "validWebhook r \<lparr>dv_Token = token, dv_Identity = identity, dv_Event = e\<rparr>"
        by (simp add: validWebhook_def webhookToken_iff webhook_event_iff)
      with assms show False by blast
    qed
    then obtain result status where "webhook_event r = Inl (result, status)" by (metis old.prod.exhaust sum.exhaust)
    with webhook_event_problem(2) [OF this] True show ?thesis by (simp add: handleWebhook_def problem_def handler_record_def)
  qed (simp add: handleWebhook_def problem_def handler_record_def)
  show ?thesis
    by (cases "webhookToken (hr_Path r)")
      (auto simp: ServeHTTP_def refused handleHealth_def handleMetrics_def problem_def handler_record_def Let_def)
qed

lemma enqueue_answer:
  assumes "sink d (hs_sink st) = ((acceptance, err), s)"
  shows "hs_sink (snd (webhook_enqueue (Some sink) d st)) = s"
    "hw_status (fst (webhook_enqueue (Some sink) d st)) = 202 \<longleftrightarrow> err = None \<and> ac_ReceiptID acceptance \<noteq> []"
  using assms by (auto simp: webhook_enqueue_def problem_def handler_record_def errors_Is_opt_def Let_def)

lemma answer_accepted:
  "hw_status (fst (ServeHTTP sink r st)) = 202 \<longleftrightarrow>
    (\<exists>enqueue d acceptance s. sink = Some enqueue \<and> validWebhook r d \<and>
       enqueue d (hs_sink st) = ((acceptance, None), s) \<and> ac_ReceiptID acceptance \<noteq> [])"
proof (cases "\<exists>d. validWebhook r d")
  case True
  then obtain d where d: "validWebhook r d" ..
  note only = validWebhook_only [OF d]
  show ?thesis
  proof (cases sink)
    case (Some enqueue)
    obtain acceptance err s where e: "enqueue d (hs_sink st) = ((acceptance, err), s)" by (metis old.prod.exhaust)
    from enqueue_answer(2) [where sink = enqueue and d = d and st = st, OF e] d e only show ?thesis
      unfolding ServeHTTP_valid [OF d] Some by auto
  qed (simp add: ServeHTTP_valid [OF d] webhook_enqueue_def problem_def Let_def)
qed (use ServeHTTP_refused [of r sink st] in auto)

lemma answer_sink:
  assumes "validWebhook r d"
  shows "hs_sink (snd (ServeHTTP (Some enqueue) r st)) = snd (enqueue d (hs_sink st))"
    "hs_sink (snd (ServeHTTP None r st)) = hs_sink st"
    "hw_status (fst (ServeHTTP (Some UnavailableSink) r st)) = 503"
proof -
  obtain acceptance err s where e: "enqueue d (hs_sink st) = ((acceptance, err), s)" by (metis old.prod.exhaust)
  from enqueue_answer(1) [where sink = enqueue and d = d and st = st, OF e] e
  show "hs_sink (snd (ServeHTTP (Some enqueue) r st)) = snd (enqueue d (hs_sink st))" by (simp add: ServeHTTP_valid [OF assms])
  show "hs_sink (snd (ServeHTTP None r st)) = hs_sink st"
    by (simp add: ServeHTTP_valid [OF assms] webhook_enqueue_def problem_def handler_record_def Let_def)
  show "hw_status (fst (ServeHTTP (Some UnavailableSink) r st)) = 503"
    by (simp add: ServeHTTP_valid [OF assms] webhook_enqueue_def UnavailableSink_def problem_def errors_Is_opt_def Let_def)
qed

text \<open>C39. The handler never acknowledges what was not accepted. A response is 202 exactly when the request passes every check
  and the sink answered its delivery without an error and with a receipt. The sink sees a delivery only when the request
  passes every check, sees it once, and its event is within all bounds; no other request changes the sink. The runtime sink,
  which is never available, gives every valid webhook 503. Every request adds one to one of thirteen counters and one line
  to the log, which hold neither the token nor the identity nor the content of the event.\<close>

theorem webhook_answers_honestly:
  assumes "ServeHTTP sink r st = (resp, st')"
  shows "(hw_status resp = 202 \<longleftrightarrow>
      (\<exists>enqueue d acceptance s. sink = Some enqueue \<and> validWebhook r d \<and>
         enqueue d (hs_sink st) = ((acceptance, None), s) \<and> ac_ReceiptID acceptance \<noteq> [])) \<and>
    (\<forall>d. validWebhook r d \<longrightarrow> eventWithin (dv_Event d) \<and>
       hs_sink st' = (case sink of None \<Rightarrow> hs_sink st | Some enqueue \<Rightarrow> snd (enqueue d (hs_sink st))) \<and>
       (sink = Some UnavailableSink \<longrightarrow> hw_status resp = 503)) \<and>
    ((\<nexists>d. validWebhook r d) \<longrightarrow> hs_sink st' = hs_sink st) \<and>
    recorded st resp st'"
proof -
  have res: "resp = fst (ServeHTTP sink r st)" "st' = snd (ServeHTTP sink r st)" using assms by simp_all
  have "eventWithin (dv_Event d)" if "validWebhook r d" for d
    using that decodeEvent_within by (auto simp: validWebhook_def)
  then show ?thesis
    unfolding res using answer_accepted [of sink r st] answer_sink [where r = r and st = st] ServeHTTP_refused [of r sink st] ServeHTTP_recorded [of st sink r]
    by (auto split: option.split)
qed

definition sampleRequest :: http_request where
  "sampleRequest =
     \<lparr>hr_Method = str ''POST'', hr_Path = str ''/v1/goalert/contact-method/abc'', hr_RawQuery = [],
      hr_Header = [(str ''Content-Type'', [str ''application/JSON; charset=\"UTF-8\"'']),
        (str ''Idempotency-Key'', [str ''0f8fad5b-d9cb-469f-a165-70867728950e''])],
      hr_ContentLength = -1, hr_Body = canonicalText (Test \<lparr>te_AppName = str ''GoAlert''\<rparr>), hr_BodyFails = False\<rparr>"

definition sampleDelivery :: Delivery where
  "sampleDelivery = \<lparr>dv_Token = str ''abc'', dv_Identity = str ''0f8fad5b-d9cb-469f-a165-70867728950e'',
     dv_Event = Test \<lparr>te_AppName = str ''GoAlert''\<rparr>\<rparr>"

definition countingSink :: "nat Sink" where
  "countingSink d n = ((\<lparr>ac_ReceiptID = str ''r1'', ac_Duplicate = False\<rparr>, None), Suc n)"

lemma sample_valid: "validWebhook sampleRequest sampleDelivery"
proof -
  have "decodeEvent (hr_Body sampleRequest) = Some (Inr (dv_Event sampleDelivery))"
    using decode_canonical [of "dv_Event sampleDelivery"] by (simp add: sampleRequest_def sampleDelivery_def validAppName_def printableASCII_def str_def)
  moreover have "length (hr_Body sampleRequest) = 35" "sint (hr_ContentLength sampleRequest) = -1"
    "validContentType (headerValues sampleRequest (str ''Content-Type''))"
    "validContentEncoding (headerValues sampleRequest (str ''Content-Encoding''))"
    "headerValues sampleRequest idempotencyKeyHeader = [dv_Identity sampleDelivery]"
    "validCanonicalUUID (dv_Identity sampleDelivery)" "hr_Path sampleRequest = webhookPathPrefix @ dv_Token sampleDelivery"
    "0x2f \<notin> set (dv_Token sampleDelivery)"
    by code_simp+
  ultimately show ?thesis by (simp add: validWebhook_def MaxBodyBytes_def) (simp add: sampleRequest_def sampleDelivery_def str_def)
qed

theorem webhook_answers_honestly_witness:
  "\<exists>resp st'. ServeHTTP (Some countingSink) sampleRequest (NewHandler 0) = (resp, st') \<and> hw_status resp = 202 \<and>
     hs_sink st' = 1 \<and> recorded (NewHandler 0) resp st'"
proof -
  obtain resp st' where serve: "ServeHTTP (Some countingSink) sampleRequest (NewHandler 0) = (resp, st')" by force
  have "countingSink sampleDelivery (hs_sink (NewHandler 0)) = ((\<lparr>ac_ReceiptID = str ''r1'', ac_Duplicate = False\<rparr>, None), 1)"
    by (simp add: countingSink_def NewHandler_def)
  with webhook_answers_honestly [OF serve] sample_valid serve show ?thesis
    by (intro exI [of _ resp] exI [of _ st']) (auto simp: str_def)
qed

end
