(* ===== verification/Spec2Isabelle.thy ===== *)
theory Spec2Isabelle
  imports Resolver_Guarantees Rotation_Guarantees Authentication_Guarantees Intake_Pipeline Http_Guarantees
begin

text \<open>
  A verification of the delivery gateway \<^verbatim>\<open>ms-oncall-gateway\<close>.
\<close>

end
